(* ===== verification/Prelude.thy ===== *)
theory Prelude
  imports Main "HOL-Library.Word" "HOL-Library.Monad_Syntax"
begin

text \<open>
  Shared vocabulary of the development: the machine integers of the C sources, byte
  memories, the byte-order helpers, and the three loop shapes that the table-handling
  code of the stack uses over and over (first matching slot, update of the first matching
  slot, search along an orbit of candidate numbers).
\<close>

unbundle bit_operations_syntax

section \<open>Machine integers and byte memories\<close>

type_synonym u8 = "8 word"
type_synonym u16 = "16 word"
type_synonym u32 = "32 word"

text \<open>
  A buffer is a total map from byte offsets to bytes. C leaves accesses past the end of an
  array undefined; bounds are stated as theorems about which offsets are touched.
\<close>

type_synonym mem = "nat \<Rightarrow> u8"

text \<open>A \<^verbatim>\<open>u8_t[4]\<close>, and the \<^verbatim>\<open>u16_t[2]\<close> that holds an IPv4 address.\<close>

type_synonym word4 = "u8 \<times> u8 \<times> u8 \<times> u8"
type_synonym ipaddr = "u16 \<times> u16"

named_theorems byte_simps \<open>byte and half-word access to memories\<close>
named_theorems loop_simps \<open>closed forms of the table loops\<close>

definition le16 :: "u8 \<Rightarrow> u8 \<Rightarrow> u16" where
  "le16 lo hi = push_bit 8 (ucast hi) OR ucast lo"

definition lo8 :: "u16 \<Rightarrow> u8" where
  "lo8 w = ucast w"

definition hi8 :: "u16 \<Rightarrow> u8" where
  "hi8 w = ucast (drop_bit 8 w)"

definition le32 :: "word4 \<Rightarrow> u32" where
  "le32 w = (case w of (a, b, c, d) \<Rightarrow>
     push_bit 24 (ucast d) OR push_bit 16 (ucast c) OR push_bit 8 (ucast b) OR ucast a)"

definition bytes32 :: "u32 \<Rightarrow> word4" where
  "bytes32 w = (ucast w, ucast (drop_bit 8 w), ucast (drop_bit 16 w), ucast (drop_bit 24 w))"

text \<open>Big-endian reading of four bytes: the value of a sequence number on the wire.\<close>

definition be32 :: "word4 \<Rightarrow> u32" where
  "be32 w = (case w of (a, b, c, d) \<Rightarrow> le32 (d, c, b, a))"

text \<open>\<^verbatim>\<open>byterev\<close> of \<^verbatim>\<open>xclib.h\<close>: the processor's byte-reversal instruction.\<close>

definition byterev :: "u32 \<Rightarrow> u32" where
  "byterev w = (case bytes32 w of (a, b, c, d) \<Rightarrow> le32 (d, c, b, a))"

definition htons :: "u16 \<Rightarrow> u16" where
  "htons n = push_bit 8 n OR drop_bit 8 n"

lemma bit_u8_high: "8 \<le> n \<Longrightarrow> \<not> bit (w :: u8) n"
  by (auto dest: bit_imp_le_length)

lemma bit_u16_high: "16 \<le> n \<Longrightarrow> \<not> bit (w :: u16) n"
  by (auto dest: bit_imp_le_length)

lemma lo8_le16 [simp]: "lo8 (le16 a b) = a"
  by (rule bit_word_eqI) (auto simp: lo8_def le16_def bit_simps)

lemma hi8_le16 [simp]: "hi8 (le16 a b) = b"
  by (rule bit_word_eqI) (auto simp: hi8_def le16_def bit_simps bit_u8_high)

lemma le16_lo8_hi8 [simp]: "le16 (lo8 w) (hi8 w) = w"
  by (rule bit_word_eqI) (auto simp: hi8_def lo8_def le16_def bit_simps)

lemma le16_inject [simp]: "le16 a b = le16 c d \<longleftrightarrow> a = c \<and> b = d"
  by (metis lo8_le16 hi8_le16)

lemma htons_le16 [simp]: "htons (le16 a b) = le16 b a"
  by (rule bit_word_eqI) (auto simp: htons_def le16_def bit_simps bit_u8_high)

lemma htons_htons [simp]: "htons (htons w) = w"
  by (metis htons_le16 le16_lo8_hi8)

lemma htons_eq_iff [simp]: "htons v = htons w \<longleftrightarrow> v = w"
  by (metis htons_htons)

lemma le16_add: "le16 a b = ucast b * 256 + ucast a"
proof -
  have "push_bit 8 (ucast b) + ucast a = (push_bit 8 (ucast b) OR ucast a :: u16)"
    by (rule disjunctive_add) (auto simp: bit_simps bit_u8_high)
  then show ?thesis
    by (simp add: le16_def push_bit_eq_mult mult.commute)
qed

lemma unat_u8_bound [simp]: "unat (x :: u8) < 256"
  using unsigned_less [of x] by simp

lemma unat_u8_le [simp]: "unat (x :: u8) \<le> 255"
  using unat_u8_bound [of x] by linarith

lemma unat_u16_bound [simp]: "unat (x :: u16) < 65536"
  using unsigned_less [of x] by simp

lemma unat_u16_le [simp]: "unat (x :: u16) \<le> 65535"
  using unat_u16_bound [of x] by linarith

lemma unat_u32_bound [simp]: "unat (x :: u32) < 4294967296"
  using unsigned_less [of x] by simp

lemma unat_ucast_u8_u16 [simp]: "unat (ucast (x :: u8) :: u16) = unat x"
  by (simp add: unsigned_ucast_eq take_bit_nat_eq_self_iff order.strict_trans [OF unat_u8_bound])

lemma unat_le16: "unat (le16 a b) = unat a + 256 * unat b"
proof -
  have bound: "unat a + 256 * unat b < 65536"
    using unat_u8_le [of a] unat_u8_le [of b] by linarith
  have "le16 a b = of_nat (unat a + 256 * unat b)"
    by (simp add: le16_add mult.commute add.commute)
  then have "unat (le16 a b) = (unat a + 256 * unat b) mod 65536"
    by (simp only: unat_of_nat) simp
  then show ?thesis
    using bound by (simp only: mod_less)
qed

lemma bytes32_le32 [simp]: "bytes32 (le32 w) = w"
proof -
  obtain a b c d where w: "w = (a, b, c, d)" by (cases w) auto
  show ?thesis
    unfolding w bytes32_def le32_def
    by (auto intro!: bit_word_eqI simp: bit_simps bit_u8_high)
qed

lemma le32_bytes32 [simp]: "le32 (bytes32 w) = w"
proof (rule bit_word_eqI)
  fix n assume "n < LENGTH(32)"
  then consider "n < 8" | "8 \<le> n" "n < 16" | "16 \<le> n" "n < 24" | "24 \<le> n" "n < 32"
    by (simp, linarith)
  then show "bit (le32 (bytes32 w)) n = bit w n"
    by cases (auto simp: bytes32_def le32_def bit_simps)
qed

lemma be32_bytes32: "be32 (bytes32 w) = byterev w"
  by (simp add: be32_def byterev_def)

lemma byterev_le32 [simp]: "byterev (le32 w) = be32 w"
  by (simp add: byterev_def be32_def)

lemma byterev_byterev [simp]: "byterev (byterev w) = w"
proof -
  obtain a b c d where w: "bytes32 w = (a, b, c, d)" by (cases "bytes32 w") auto
  then have "w = le32 (a, b, c, d)" by (metis le32_bytes32)
  then show ?thesis by (simp add: byterev_def)
qed

lemma be32_inject [simp]: "be32 v = be32 w \<longleftrightarrow> v = w"
  by (metis byterev_byterev byterev_le32 bytes32_le32)


lemma unat_be32: "unat (be32 (a, b, c, d)) =
  unat d + 256 * unat c + 65536 * unat b + 16777216 * unat a"
proof -
  have *: "push_bit 24 (ucast a) OR push_bit 16 (ucast b) OR push_bit 8 (ucast c) OR ucast d =
     push_bit 24 (ucast a) + (push_bit 16 (ucast b) + (push_bit 8 (ucast c) + (ucast d :: u32)))"
    by (subst disjunctive_add, force simp: bit_simps bit_u8_high)+ (simp add: or.assoc)
  have "be32 (a, b, c, d) = of_nat (unat d + 256 * unat c + 65536 * unat b + 16777216 * unat a)"
    unfolding be32_def le32_def prod.case *
    by (simp add: push_bit_eq_mult mult.commute add_ac)
  then have "unat (be32 (a, b, c, d)) =
      (unat d + 256 * unat c + 65536 * unat b + 16777216 * unat a) mod 4294967296"
    by (simp only: unat_of_nat) simp
  moreover have "unat d + 256 * unat c + 65536 * unat b + 16777216 * unat a < 4294967296"
    using unat_u8_le [of a] unat_u8_le [of b] unat_u8_le [of c] unat_u8_le [of d] by linarith
  ultimately show ?thesis by (simp only: mod_less)
qed

section \<open>Reading and writing memories\<close>

definition rd16 :: "mem \<Rightarrow> nat \<Rightarrow> u16" where
  "rd16 m i = le16 (m i) (m (i + 1))"

definition wr16 :: "nat \<Rightarrow> u16 \<Rightarrow> mem \<Rightarrow> mem" where
  "wr16 i v m = m(i := lo8 v, i + 1 := hi8 v)"

definition rd4 :: "mem \<Rightarrow> nat \<Rightarrow> word4" where
  "rd4 m i = (m i, m (i + 1), m (i + 2), m (i + 3))"

definition wr4 :: "nat \<Rightarrow> word4 \<Rightarrow> mem \<Rightarrow> mem" where
  "wr4 i w m = (case w of (a, b, c, d) \<Rightarrow> m(i := a, i + 1 := b, i + 2 := c, i + 3 := d))"

definition rdip :: "mem \<Rightarrow> nat \<Rightarrow> ipaddr" where
  "rdip m i = (rd16 m i, rd16 m (i + 2))"

definition wrip :: "nat \<Rightarrow> ipaddr \<Rightarrow> mem \<Rightarrow> mem" where
  "wrip i a m = wr16 (i + 2) (snd a) (wr16 i (fst a) m)"

text \<open>\<^verbatim>\<open>memcpy\<close> and \<^verbatim>\<open>memset\<close> into a memory, reading \<^verbatim>\<open>n\<close> bytes out of one.\<close>

fun wrs :: "nat \<Rightarrow> u8 list \<Rightarrow> mem \<Rightarrow> mem" where
  "wrs i [] m = m"
| "wrs i (x # xs) m = wrs (i + 1) xs (m(i := x))"

definition rds :: "mem \<Rightarrow> nat \<Rightarrow> nat \<Rightarrow> u8 list" where
  "rds m i n = map m [i ..< i + n]"

lemma rd16_wr16 [byte_simps]: "rd16 (wr16 i v m) i = v"
  by (simp add: rd16_def wr16_def)

lemma rd16_wr16_other [byte_simps]:
  "j + 1 < i \<or> i + 1 < j \<Longrightarrow> rd16 (wr16 i v m) j = rd16 m j"
  by (auto simp: rd16_def wr16_def)

lemma wr16_other [byte_simps]: "j \<noteq> i \<Longrightarrow> j \<noteq> Suc i \<Longrightarrow> wr16 i v m j = m j"
  by (simp add: wr16_def)

lemma rd16_upd_other [byte_simps]:
  "j \<noteq> i \<Longrightarrow> j \<noteq> Suc i \<Longrightarrow> rd16 (m(j := v)) i = rd16 m i"
  by (simp add: rd16_def)

lemma rd4_wr4 [byte_simps]: "rd4 (wr4 i w m) i = w"
  by (cases w) (simp add: rd4_def wr4_def)

lemma rdip_wrip [byte_simps]: "rdip (wrip i a m) i = a"
  by (cases a) (simp add: rdip_def wrip_def byte_simps)

lemma wrs_apply: "wrs i xs m j = (if i \<le> j \<and> j < i + length xs then xs ! (j - i) else m j)"
proof (induction xs arbitrary: i m)
  case Nil
  then show ?case by auto
next
  case (Cons x xs)
  then show ?case by (auto simp: nth_Cons' Suc_diff_le)
qed

lemma length_rds [simp]: "length (rds m i n) = n"
  by (simp add: rds_def)

lemma nth_rds [simp]: "k < n \<Longrightarrow> rds m i n ! k = m (i + k)"
  by (simp add: rds_def)

lemma rds_wrs [byte_simps]: "rds (wrs i xs m) i (length xs) = xs"
  by (rule nth_equalityI) (auto simp: wrs_apply)

section \<open>Table loops\<close>

text \<open>
  \<^verbatim>\<open>for (i = 0; i < n; i++) if (P (t[i])) break;\<close>: the index of the first slot that
  satisfies \<open>P\<close>, \<open>None\<close> when the loop runs to the end.
\<close>

fun first_idx :: "('a \<Rightarrow> bool) \<Rightarrow> 'a list \<Rightarrow> nat option" where
  "first_idx P [] = None"
| "first_idx P (x # xs) = (if P x then Some 0 else map_option Suc (first_idx P xs))"

definition upd_first :: "('a \<Rightarrow> bool) \<Rightarrow> ('a \<Rightarrow> 'a) \<Rightarrow> 'a list \<Rightarrow> 'a list" where
  "upd_first P f xs = (case first_idx P xs of None \<Rightarrow> xs | Some i \<Rightarrow> xs[i := f (xs ! i)])"

lemma first_idx_None [loop_simps]: "first_idx P xs = None \<longleftrightarrow> (\<forall>x \<in> set xs. \<not> P x)"
  by (induction xs) auto

lemma first_idx_Some [loop_simps]:
  "first_idx P xs = Some i \<longleftrightarrow> i < length xs \<and> P (xs ! i) \<and> (\<forall>j < i. \<not> P (xs ! j))"
proof (induction xs arbitrary: i)
  case Nil
  then show ?case by simp
next
  case (Cons x xs)
  then show ?case by (cases i) (auto simp: All_less_Suc2)
qed

lemma first_idx_SomeD:
  assumes "first_idx P xs = Some i"
  shows "i < length xs" and "P (xs ! i)" and "j < i \<Longrightarrow> \<not> P (xs ! j)"
  using assms by (auto simp: first_idx_Some)

lemma first_idx_exists: "x \<in> set xs \<Longrightarrow> P x \<Longrightarrow> \<exists>i. first_idx P xs = Some i"
  by (cases "first_idx P xs") (auto simp: first_idx_None)

lemma length_upd_first [simp]: "length (upd_first P f xs) = length xs"
  by (simp add: upd_first_def split: option.split)

lemma upd_first_Nil [simp]: "upd_first P f [] = []"
  by (simp add: upd_first_def)

lemma upd_first_Cons [simp]:
  "upd_first P f (x # xs) = (if P x then f x # xs else x # upd_first P f xs)"
  by (simp add: upd_first_def split: option.split)

lemma upd_first_none: "\<forall>x \<in> set xs. \<not> P x \<Longrightarrow> upd_first P f xs = xs"
  by (induction xs) auto

lemma upd_first_set: "set (upd_first P f xs) \<subseteq> set xs \<union> f ` {x \<in> set xs. P x}"
  by (auto simp: upd_first_def first_idx_Some split: option.splits
      dest!: set_update_subset_insert [THEN subsetD])

text \<open>
  \<^verbatim>\<open>while (bad (x)) x = next (x);\<close>: the search for an unused port number or an unused
  connection identifier. Not returning is \<open>None\<close>.
\<close>

partial_function (option) until_free :: "('a \<Rightarrow> bool) \<Rightarrow> ('a \<Rightarrow> 'a) \<Rightarrow> 'a \<Rightarrow> 'a option" where
  "until_free bad nx x = (if bad x then until_free bad nx (nx x) else Some x)"

declare until_free.simps [code]

lemma until_free_good [simp]: "\<not> bad x \<Longrightarrow> until_free bad nx x = Some x"
  by (simp add: until_free.simps)

lemma until_free_bad: "bad x \<Longrightarrow> until_free bad nx x = until_free bad nx (nx x)"
  by (subst until_free.simps) simp

lemma until_free_stops:
  assumes "\<not> bad ((nx ^^ n) x)"
  shows "\<exists>k \<le> n. until_free bad nx x = Some ((nx ^^ k) x) \<and>
    \<not> bad ((nx ^^ k) x) \<and> (\<forall>j < k. bad ((nx ^^ j) x))"
  using assms
proof (induction n arbitrary: x)
  case 0
  then show ?case by auto
next
  case (Suc n)
  show ?case
  proof (cases "bad x")
    case True
    from Suc.prems have "\<not> bad ((nx ^^ n) (nx x))" by (simp add: funpow_swap1)
    from Suc.IH [OF this] obtain k where k: "k \<le> n"
      "until_free bad nx (nx x) = Some ((nx ^^ k) (nx x))" "\<not> bad ((nx ^^ k) (nx x))"
      "\<forall>j < k. bad ((nx ^^ j) (nx x))" by blast
    have "\<forall>j < Suc k. bad ((nx ^^ j) x)"
    proof (intro allI impI)
      fix j assume "j < Suc k"
      then show "bad ((nx ^^ j) x)"
        using True k(4) by (cases j) (auto simp: funpow_swap1)
    qed
    then show ?thesis
      using k True by (intro exI [of _ "Suc k"]) (auto simp: until_free_bad funpow_swap1)
  qed auto
qed

lemma until_free_pigeonhole:
  assumes inj: "inj_on (\<lambda>i. (nx ^^ i) x) {..n}"
    and fin: "finite B" and card: "card B \<le> n" and bad: "\<And>y. bad y \<Longrightarrow> y \<in> B"
  shows "\<exists>k. until_free bad nx x = Some ((nx ^^ k) x) \<and> \<not> bad ((nx ^^ k) x)"
proof -
  have "\<exists>i \<le> n. \<not> bad ((nx ^^ i) x)"
  proof (rule ccontr)
    assume "\<not> ?thesis"
    then have "(\<lambda>i. (nx ^^ i) x) ` {..n} \<subseteq> B" using bad by auto
    then have "card {..n} \<le> card B" by (rule card_inj_on_le [OF inj _ fin])
    with card show False by simp
  qed
  then obtain i where "\<not> bad ((nx ^^ i) x)" by blast
  from until_free_stops [where bad = bad and nx = nx and n = i and x = x, OF this]
  show ?thesis by auto
qed

end
