(* ===== verification/Uip_Words.thy ===== *)
theory Uip_Words
  imports Prelude
begin

text \<open>
  The word helpers and the Internet checksum of \<^verbatim>\<open>module_xtcp/src/xtcp_uip/uip.c\<close>
  (lines 256 to 427). Sequence numbers are byte arrays in network order that the code
  reads as two little-endian half-words because they are only two-byte aligned in the
  packet buffer. The checksum is verified against the one's complement sum of RFC 1071.
\<close>

section \<open>Four-byte words misaligned by two\<close>

definition xtcp_swap_words :: "nat \<Rightarrow> nat \<Rightarrow> mem \<Rightarrow> mem" where
  "xtcp_swap_words a b m =
     (let c = rd16 m a;
          m1 = wr16 a (rd16 m b) m;
          m2 = wr16 b c m1;
          c2 = rd16 m2 (a + 2);
          m3 = wr16 (a + 2) (rd16 m2 (b + 2)) m2
      in wr16 (b + 2) c2 m3)"

text \<open>
  The value \<^verbatim>\<open>s\<close> that \<^verbatim>\<open>xtcp_increment_word\<close> computes: the halves are read through
  a signed \<^verbatim>\<open>short\<close> and hence sign-extended before they are added.
\<close>

definition xtcp_increment_value :: "word4 \<Rightarrow> u32" where
  "xtcp_increment_value w = (case w of (a, b, c, d) \<Rightarrow>
     byterev (byterev (push_bit 16 (scast (le16 c d)) + scast (le16 a b)) + 1))"

definition xtcp_copy_word :: "nat \<Rightarrow> word4 \<Rightarrow> mem \<Rightarrow> mem" where
  "xtcp_copy_word dst w m = (case w of (a, b, c, d) \<Rightarrow>
     wr16 (dst + 2) (le16 c d) (wr16 dst (le16 a b) m))"

definition xtcp_compare_words :: "word4 \<Rightarrow> word4 \<Rightarrow> bool" where
  "xtcp_compare_words v w = (case v of (a, b, c, d) \<Rightarrow> case w of (e, f, g, h) \<Rightarrow>
     le16 a b = le16 e f \<and> le16 c d = le16 g h)"

text \<open>\<^verbatim>\<open>uip_add32\<close> leaves its result in the global \<^verbatim>\<open>uip_acc32\<close>; here it is returned.\<close>

definition uip_add32 :: "word4 \<Rightarrow> u16 \<Rightarrow> word4" where
  "uip_add32 op32 op16 = (case op32 of (a, b, c, d) \<Rightarrow>
     bytes32 (byterev (byterev (push_bit 16 (ucast (le16 c d)) + ucast (le16 a b)) + ucast op16)))"

definition uip_ipaddr_cmp :: "ipaddr \<Rightarrow> ipaddr \<Rightarrow> bool" where
  "uip_ipaddr_cmp x y \<longleftrightarrow> fst x = fst y \<and> snd x = snd y"

section \<open>The checksum\<close>

definition onesReduce :: "u32 \<Rightarrow> u32 \<Rightarrow> u32" where
  "onesReduce sm carry =
     (let s = (sm AND 0xffff) + drop_bit 16 sm + carry
      in (s AND 0xffff) + drop_bit 16 s)"

text \<open>The word loop of \<^verbatim>\<open>chksum\<close>; the count is the number of iterations left.\<close>

fun chksum_loop :: "mem \<Rightarrow> nat \<Rightarrow> nat \<Rightarrow> u32 \<Rightarrow> u32" where
  "chksum_loop m p 0 s = s"
| "chksum_loop m p (Suc k) s =
     chksum_loop m (p + 2) k (s + drop_bit 16 (byterev (scast (rd16 m p))))"

definition chksum :: "u16 \<Rightarrow> mem \<Rightarrow> nat \<Rightarrow> u16 \<Rightarrow> u16" where
  "chksum sm m p lengthInBytes =
     (let k = unat (drop_bit 1 lengthInBytes);
          s = chksum_loop m p k (ucast sm);
          s' = (if lengthInBytes AND 1 \<noteq> 0 then s + push_bit 8 (ucast (m (p + 2 * k))) else s)
      in ucast (onesReduce s' 0))"

definition uip_chksum :: "mem \<Rightarrow> nat \<Rightarrow> u16 \<Rightarrow> u16" where
  "uip_chksum m p len = htons (chksum 0 m p len)"

text \<open>The IP header starts at \<^verbatim>\<open>UIP_LLH_LEN\<close> = 14 and is \<^verbatim>\<open>UIP_IPH_LEN\<close> = 20 bytes long.\<close>

definition uip_ipchksum :: "mem \<Rightarrow> u16" where
  "uip_ipchksum buf =
     (let sm = chksum 0 buf 14 20 in if sm = 0 then 0xffff else htons sm)"

definition upper_layer_len :: "mem \<Rightarrow> u16" where
  "upper_layer_len buf = push_bit 8 (ucast (buf 16)) + ucast (buf 17) - 20"

definition upper_layer_chksum :: "u8 \<Rightarrow> mem \<Rightarrow> u16" where
  "upper_layer_chksum proto buf =
     (let len = upper_layer_len buf;
          s1 = len + ucast proto;
          s2 = chksum s1 buf 26 8;
          s3 = chksum s2 buf 34 len
      in if s3 = 0 then 0xffff else htons s3)"

definition uip_tcpchksum :: "mem \<Rightarrow> u16" where
  "uip_tcpchksum buf = upper_layer_chksum 6 buf"

definition uip_udpchksum :: "mem \<Rightarrow> u16" where
  "uip_udpchksum buf = upper_layer_chksum 17 buf"

section \<open>Sequence number arithmetic\<close>

lemma le16_pair_le32: "push_bit 16 (ucast (le16 c d)) + ucast (le16 a b) = le32 (a, b, c, d)"
proof -
  have "push_bit 16 (ucast (le16 c d)) + ucast (le16 a b) =
      (push_bit 16 (ucast (le16 c d)) OR ucast (le16 a b) :: u32)"
    by (rule disjunctive_add) (auto simp: bit_simps bit_u16_high)
  also have "\<dots> = le32 (a, b, c, d)"
  proof (rule bit_word_eqI)
    fix n assume "n < LENGTH(32)"
    then consider "n < 8" | "8 \<le> n" "n < 16" | "16 \<le> n" "n < 24" | "24 \<le> n" "n < 32"
      by (simp, linarith)
    then show "bit (push_bit 16 (ucast (le16 c d)) OR ucast (le16 a b) :: u32) n =
        bit (le32 (a, b, c, d)) n"
      by cases (auto simp: le16_def le32_def bit_simps bit_u8_high)
  qed
  finally show ?thesis .
qed

lemma uip_add32_be32: "be32 (uip_add32 w n) = be32 w + ucast n"
proof -
  obtain a b c d where w: "w = (a, b, c, d)" by (cases w) auto
  show ?thesis
    by (simp add: uip_add32_def w le16_pair_le32 be32_bytes32)
qed

lemma xtcp_compare_words_eq [simp]: "xtcp_compare_words v w \<longleftrightarrow> v = w"
  by (cases v; cases w) (auto simp: xtcp_compare_words_def)

lemma uip_ipaddr_cmp_eq [simp]: "uip_ipaddr_cmp x y \<longleftrightarrow> x = y"
  by (cases x; cases y) (auto simp: uip_ipaddr_cmp_def)

lemma xtcp_copy_word_wr4 [simp]: "xtcp_copy_word i w m = wr4 i w m"
  by (cases w) (simp add: xtcp_copy_word_def wr4_def wr16_def numeral_3_eq_3)

lemma rd4_swap_words:
  assumes "a + 4 \<le> b \<or> b + 4 \<le> a"
  shows "rd4 (xtcp_swap_words a b m) a = rd4 m b"
    and "rd4 (xtcp_swap_words a b m) b = rd4 m a"
  using assms by (auto simp: rd4_def xtcp_swap_words_def Let_def wr16_def rd16_def numeral_3_eq_3)

section \<open>The checksum against the one's complement sum\<close>

text \<open>
  The specification: the sum of the big-endian 16-bit words of a byte string, an odd last
  byte padded with zero, folded into 16 bits with end-around carry. \<open>fold16\<close> names the
  representative of the residue modulo 65535 that end-around carry leaves: 0 only for the
  empty sum.
\<close>

fun be_sum :: "u8 list \<Rightarrow> nat" where
  "be_sum [] = 0"
| "be_sum [x] = 256 * unat x"
| "be_sum (x # y # r) = 256 * unat x + unat y + be_sum r"

definition fold16 :: "nat \<Rightarrow> nat" where
  "fold16 t = (if t = 0 then 0 else if t mod 65535 = 0 then 65535 else t mod 65535)"

lemma fold16_unique:
  assumes "r \<le> 65535" and "r mod 65535 = t mod 65535" and "r = 0 \<longleftrightarrow> t = 0"
  shows "r = fold16 t"
  using assms by (cases "r = 65535") (auto simp: fold16_def)

lemma fold16_le: "fold16 t \<le> 65535"
  using mod_less_divisor [of 65535 t] by (simp add: fold16_def less_imp_le)

lemma fold16_mod: "fold16 t mod 65535 = t mod 65535"
  by (simp add: fold16_def)

lemma fold16_zero [simp]: "fold16 t = 0 \<longleftrightarrow> t = 0"
  by (simp add: fold16_def)

lemma fold16_add: "fold16 (fold16 a + b) = fold16 (a + b)"
  by (rule fold16_unique)
    (auto simp: fold16_le fold16_mod mod_add_left_eq [symmetric, of "fold16 a"]
      mod_add_left_eq [of a] simp del: mod_add_left_eq)

lemma fold16_full: "fold16 t = 65535 \<longleftrightarrow> 0 < t \<and> 65535 dvd t"
  using mod_less_divisor [of 65535 t] by (auto simp: fold16_def dvd_eq_mod_eq_0)

lemma carry_fold_mod: "((t::nat) mod 65536 + t div 65536) mod 65535 = t mod 65535"
proof -
  have "t mod 65535 = (65535 * (t div 65536) + (t mod 65536 + t div 65536)) mod 65535"
    by (rule arg_cong [where f = "\<lambda>x. x mod 65535"])
      (use div_mult_mod_eq [of t 65536] in linarith)
  then show ?thesis by (simp only: mod_mult_self4)
qed

lemma carry_fold_zero: "(t::nat) mod 65536 + t div 65536 = 0 \<longleftrightarrow> t = 0"
  using div_mult_mod_eq [of t 65536] by auto

lemma carry_fold_le: "(x::nat) \<le> 131070 \<Longrightarrow> x mod 65536 + x div 65536 \<le> 65535"
proof -
  assume x: "x \<le> 131070"
  have "x div 65536 \<le> 1" using div_le_mono [OF x, of 65536] by simp
  then consider "x div 65536 = 0" | "x div 65536 = 1" by linarith
  then show ?thesis
    using x div_mult_mod_eq [of x 65536] mod_less_divisor [of 65536 x] by cases linarith+
qed

lemma unat_and_ffff: "unat (w AND 0xffff :: u32) = unat w mod 65536"
proof -
  have "w AND 0xffff = take_bit 16 w"
    by (simp add: take_bit_eq_mask mask_eq_exp_minus_1)
  then show ?thesis by (simp only: unsigned_take_bit_eq) (simp add: take_bit_eq_mod)
qed

lemma unat_drop_bit_16: "unat (drop_bit 16 (w :: u32)) = unat w div 65536"
  by (subst unat_drop_bit_eq) (simp add: drop_bit_eq_div)

lemma unat_onesReduce: "unat (onesReduce s 0) = fold16 (unat s)"
proof -
  let ?t = "unat s"
  let ?t1 = "?t mod 65536 + ?t div 65536"
  have b1: "?t1 \<le> 131070"
    using unat_u32_bound [of s] mod_less_divisor [of 65536 ?t] by linarith
  have 1: "unat ((s AND 0xffff) + drop_bit 16 s) = ?t1"
    using b1 by (subst unat_add_lem [THEN iffD1]) (simp_all add: unat_and_ffff unat_drop_bit_16)
  have b2: "?t1 mod 65536 + ?t1 div 65536 \<le> 65535"
    using b1 by (rule carry_fold_le)
  have "unat (onesReduce s 0) = ?t1 mod 65536 + ?t1 div 65536"
    unfolding onesReduce_def Let_def add_0_right
    using b2 by (subst unat_add_lem [THEN iffD1]) (simp_all add: unat_and_ffff unat_drop_bit_16 1)
  also have "\<dots> = fold16 ?t"
    using b2 by (intro fold16_unique) (simp_all only: carry_fold_mod carry_fold_zero simp_thms)
  finally show ?thesis .
qed

lemma byterev_short: "drop_bit 16 (byterev (scast (le16 a b))) = (ucast (le16 b a) :: u32)"
proof (rule bit_word_eqI)
  fix n assume "n < LENGTH(32)"
  then consider "n < 8" | "8 \<le> n" "n < 16" | "16 \<le> n" "n < 24" | "24 \<le> n" "n < 32"
    by (simp, linarith)
  then show "bit (drop_bit 16 (byterev (scast (le16 a b)))) n = bit (ucast (le16 b a) :: u32) n"
    by cases (auto simp: byterev_def bytes32_def le32_def le16_def bit_simps bit_u8_high)
qed

lemma rds_Suc: "rds m p (Suc n) = m p # rds m (p + 1) n"
  by (rule nth_equalityI) (auto simp: nth_Cons')

lemma be_sum_append_even: "even (length xs) \<Longrightarrow> be_sum (xs @ ys) = be_sum xs + be_sum ys"
  by (induction xs rule: be_sum.induct) auto

lemma be_sum_bound: "be_sum xs \<le> 65280 * length xs"
proof (induction xs rule: be_sum.induct)
  case (2 x)
  then show ?case using unat_u8_le [of x] by simp
next
  case (3 x y r)
  have "256 * unat x + unat y \<le> 130560"
    using unat_u8_le [of x] unat_u8_le [of y] by linarith
  with 3 show ?case by simp
qed simp

lemma chksum_word: "unat (drop_bit 16 (byterev (scast (rd16 m p))) :: u32) =
  256 * unat (m p) + unat (m (p + 1))"
proof -
  have "take_bit 32 (unat (le16 (m (p + 1)) (m p))) = unat (le16 (m (p + 1)) (m p))"
    by (simp add: take_bit_nat_eq_self_iff order.strict_trans [OF unat_u16_bound])
  then show ?thesis
    unfolding rd16_def byterev_short
    by (simp add: unsigned_ucast_eq unat_le16)
qed

lemma rds_Suc2: "rds m p (Suc (Suc n)) = m p # m (p + 1) # rds m (p + 2) n"
  by (simp add: rds_Suc)

lemma unat_chksum_loop:
  assumes "unat s + be_sum (rds m p (2 * k)) < 4294967296"
  shows "unat (chksum_loop m p k s) = unat s + be_sum (rds m p (2 * k))"
  using assms
proof (induction k arbitrary: p s)
  case (Suc k)
  have sum: "be_sum (rds m p (2 * Suc k)) =
      256 * unat (m p) + unat (m (p + 1)) + be_sum (rds m (p + 2) (2 * k))"
    by (simp add: rds_Suc2)
  let ?w = "drop_bit 16 (byterev (scast (rd16 m p))) :: u32"
  have w: "unat (s + ?w) = unat s + unat ?w"
    using Suc.prems unfolding sum by (subst unat_add_lem [symmetric]) (simp add: chksum_word)
  show ?case
    using Suc.prems Suc.IH [of "s + ?w" "p + 2"] unfolding sum
    by (simp add: w chksum_word del: byterev_le32)
qed (simp add: rds_def)

lemma unat_half: "unat (drop_bit 1 (n :: u16)) = unat n div 2"
  by (subst unat_drop_bit_eq) (simp add: drop_bit_eq_div)

lemma and_1_odd: "(n :: u16) AND 1 \<noteq> 0 \<longleftrightarrow> odd (unat n)"
proof -
  have "odd (unat n) \<longleftrightarrow> odd n"
    using bit_unsigned_iff [of n 0, where 'a = nat] by (simp add: bit_0)
  then show ?thesis by (simp add: and_one_eq mod_2_eq_odd)
qed

lemma take_bit_fold16: "take_bit 16 (fold16 t) = fold16 t"
  using fold16_le [of t] by (simp add: take_bit_nat_eq_self_iff less_Suc_eq_le)

lemmas chksum_unfold = chksum_def Let_def unat_half unat_half [simplified] and_1_odd
  unat_onesReduce unsigned_ucast_eq take_bit_fold16

lemma rds_snoc: "rds m p (Suc n) = rds m p n @ [m (p + n)]"
  by (simp add: rds_def)

lemma unat_shift8: "unat (push_bit 8 (ucast (x :: u8)) :: u32) = 256 * unat x"
proof -
  have "push_bit 8 (ucast x) = (of_nat (256 * unat x) :: u32)"
    by (simp add: push_bit_eq_mult mult.commute)
  then have "unat (push_bit 8 (ucast x) :: u32) = (256 * unat x) mod 4294967296"
    by (simp only: unat_of_nat) simp
  moreover have "256 * unat x < 4294967296" using unat_u8_le [of x] by linarith
  ultimately show ?thesis by (simp only: mod_less)
qed

lemma unat_chksum: "unat (chksum sm m p n) = fold16 (unat sm + be_sum (rds m p (unat n)))"
proof -
  let ?k = "unat n div 2"
  let ?s = "chksum_loop m p ?k (ucast sm)"
  have sm: "unat (ucast sm :: u32) = unat sm"
    by (simp add: unsigned_ucast_eq take_bit_nat_eq_self_iff order.strict_trans [OF unat_u16_bound])
  have total: "unat sm + be_sum (rds m p (unat n)) < 4294967296"
    using be_sum_bound [of "rds m p (unat n)"] unat_u16_le [of sm] unat_u16_le [of n]
    unfolding length_rds by linarith
  show ?thesis
  proof (cases "odd (unat n)")
    case False
    then have n: "2 * ?k = unat n" by simp
    with total have "unat ?s = unat sm + be_sum (rds m p (unat n))"
      by (subst unat_chksum_loop) (simp_all add: sm)
    with False show ?thesis
      by (simp add: chksum_unfold)
  next
    case True
    then have n: "unat n = Suc (2 * ?k)" by simp
    have sum: "be_sum (rds m p (unat n)) = be_sum (rds m p (2 * ?k)) + 256 * unat (m (p + 2 * ?k))"
      by (subst n, subst rds_snoc, subst be_sum_append_even) simp_all
    have s: "unat ?s = unat sm + be_sum (rds m p (2 * ?k))"
      using total unfolding sum by (subst unat_chksum_loop) (simp_all add: sm)
    have b: "unat (push_bit 8 (ucast (m (p + 2 * ?k))) :: u32) = 256 * unat (m (p + 2 * ?k))"
      by (rule unat_shift8)
    have "unat (?s + push_bit 8 (ucast (m (p + 2 * ?k)))) = unat sm + be_sum (rds m p (unat n))"
      using total unfolding sum by (subst unat_add_lem [THEN iffD1]) (simp_all add: s b)
    with True show ?thesis
      by (simp add: chksum_unfold)
  qed
qed

section \<open>Checking and generating a checksum field\<close>

definition check_value :: "u16 \<Rightarrow> u16" where
  "check_value sm = (if sm = 0 then 0xffff else htons sm)"

lemma htons_ffff [simp]: "htons w = 0xffff \<longleftrightarrow> w = 0xffff"
proof -
  have "htons 0xffff = 0xffff" by (simp add: htons_def)
  then show ?thesis by (metis htons_htons)
qed

lemma check_value_ok:
  assumes "unat sm = fold16 t"
  shows "check_value sm = 0xffff \<longleftrightarrow> 65535 dvd t"
proof (cases "t = 0")
  case True
  then show ?thesis using assms by (simp add: check_value_def unat_eq_zero fold16_def)
next
  case False
  then have "sm \<noteq> 0" using assms by (auto simp: unat_eq_zero)
  moreover have "sm = 0xffff \<longleftrightarrow> unat sm = 65535" by (simp add: unat_arith_simps)
  ultimately show ?thesis
    using False assms by (simp add: check_value_def fold16_full)
qed

lemma uip_ipchksum_check: "uip_ipchksum m = 0xffff \<longleftrightarrow> 65535 dvd be_sum (rds m 14 20)"
proof -
  have "unat (chksum 0 m 14 20) = fold16 (be_sum (rds m 14 20))"
    by (simp add: unat_chksum)
  from check_value_ok [OF this] show ?thesis
    by (simp add: uip_ipchksum_def check_value_def Let_def)
qed

text \<open>The sum that covers the pseudo header and the segment or datagram.\<close>

definition pseudo_sum :: "u8 \<Rightarrow> mem \<Rightarrow> nat" where
  "pseudo_sum proto m = unat (upper_layer_len m + ucast proto) + be_sum (rds m 26 8) +
     be_sum (rds m 34 (unat (upper_layer_len m)))"

lemma upper_layer_chksum_value:
  "\<exists>sm. upper_layer_chksum proto m = check_value sm \<and> unat sm = fold16 (pseudo_sum proto m)"
  by (rule exI [of _ "chksum (chksum (upper_layer_len m + ucast proto) m 26 8) m 34 (upper_layer_len m)"])
    (simp add: upper_layer_chksum_def check_value_def Let_def unat_chksum pseudo_sum_def fold16_add)

lemma upper_layer_chksum_check:
  "upper_layer_chksum proto m = 0xffff \<longleftrightarrow> 65535 dvd pseudo_sum proto m"
  using upper_layer_chksum_value [of proto m] check_value_ok by auto

lemma unat_not16: "unat (NOT (w :: u16)) = 65535 - unat w"
proof -
  have "NOT w = 0xffff - w" by (simp add: not_eq_complement)
  moreover have "w \<le> 0xffff" by (simp add: word_le_nat_alt)
  ultimately show ?thesis by (simp add: unat_sub)
qed

lemma htons_not: "htons (NOT w) = NOT (htons w)"
proof -
  have *: "NOT (le16 a b) = le16 (NOT a) (NOT b)" for a b
    by (rule bit_word_eqI) (auto simp: le16_def bit_simps bit_u8_high)
  have "NOT (le16 (lo8 w) (hi8 w)) = le16 (NOT (lo8 w)) (NOT (hi8 w))" by (rule *)
  then have "htons (NOT w) = le16 (NOT (hi8 w)) (NOT (lo8 w))" by simp
  also have "\<dots> = NOT (htons (le16 (lo8 w) (hi8 w)))" by (simp add: * del: le16_lo8_hi8)
  finally show ?thesis by simp
qed

lemma rds_split: "rds m p (a + b) = rds m p a @ rds m (p + a) b"
  by (rule nth_equalityI) (auto simp: nth_append)

lemma rds_cong: "(\<And>i. p \<le> i \<Longrightarrow> i < p + n \<Longrightarrow> m i = m' i) \<Longrightarrow> rds m p n = rds m' p n"
  by (auto simp: rds_def)

lemma be_sum_field:
  assumes "f = p + 2 * j" and "2 * j + 2 \<le> n"
  shows "be_sum (rds (wr16 f v m) p n) = be_sum (rds (wr16 f 0 m) p n) + unat (htons v)"
proof -
  have n: "n = 2 * j + (2 + (n - 2 * j - 2))" using assms(2) by simp
  have two: "rds w q 2 = [w q, w (q + 1)]" for w q
    by (simp add: rds_def numeral_2_eq_2)
  have eq: "be_sum (rds (wr16 f w m) p n) = be_sum (rds m p (2 * j)) +
      (256 * unat (lo8 w) + unat (hi8 w)) + be_sum (rds m (f + 2) (n - 2 * j - 2))" for w
  proof -
    have 1: "rds (wr16 f w m) p (2 * j) = rds m p (2 * j)"
      using assms(1) by (intro rds_cong) (auto simp: wr16_def)
    have 2: "rds (wr16 f w m) (f + 2) k = rds m (f + 2) k" for k
      by (intro rds_cong) (auto simp: wr16_def)
    have 3: "wr16 f w m f = lo8 w" "wr16 f w m (f + 1) = hi8 w"
      by (simp_all add: wr16_def)
    show ?thesis
      by (subst n, subst rds_split, subst rds_split, simp only: assms(1) [symmetric] 1 2 3 two)
        (simp add: be_sum_append_even)
  qed
  have "unat (htons v) = unat (hi8 v) + 256 * unat (lo8 v)"
    using htons_le16 [of "lo8 v" "hi8 v"] by (simp add: unat_le16)
  then show ?thesis by (simp add: eq lo8_def hi8_def)
qed

lemma checksum_complement:
  assumes "unat sm = fold16 t"
  shows "65535 dvd t + unat (htons (NOT (check_value sm)))"
proof (cases "t = 0")
  case True
  then have "sm = 0" using assms by (simp add: unat_eq_zero fold16_def)
  then show ?thesis using True by (simp add: check_value_def htons_not htons_def)
next
  case False
  have "unat (htons (NOT (check_value sm))) = 65535 - fold16 t"
    using False assms by (auto simp: check_value_def htons_not unat_not16)
  moreover have "(t + (65535 - fold16 t)) mod 65535 = 0"
  proof -
    have "(t + (65535 - fold16 t)) mod 65535 = (fold16 t + (65535 - fold16 t)) mod 65535"
      by (metis fold16_mod mod_add_left_eq)
    then show ?thesis using fold16_le [of t] by simp
  qed
  ultimately show ?thesis by (simp add: dvd_eq_mod_eq_0)
qed

lemma ipchksum_generate:
  "uip_ipchksum (wr16 24 (NOT (uip_ipchksum (wr16 24 0 m))) (wr16 24 0 m)) = 0xffff"
proof -
  let ?m = "wr16 24 0 m"
  have sm: "unat (chksum 0 ?m 14 20) = fold16 (be_sum (rds ?m 14 20))"
    by (simp add: unat_chksum)
  have zero: "wr16 24 0 ?m = ?m" by (simp add: wr16_def)
  have "uip_ipchksum ?m = check_value (chksum 0 ?m 14 20)"
    by (simp add: uip_ipchksum_def check_value_def Let_def)
  with be_sum_field [of 24 14 5 20 "NOT (uip_ipchksum ?m)" ?m] checksum_complement [OF sm]
  show ?thesis by (simp add: uip_ipchksum_check zero)
qed

lemma pseudo_sum_field:
  assumes "f = 34 + 2 * j" and "2 * j + 2 \<le> unat (upper_layer_len m)"
  shows "pseudo_sum proto (wr16 f v m) = pseudo_sum proto (wr16 f 0 m) + unat (htons v)"
proof -
  have len: "upper_layer_len (wr16 f w m) = upper_layer_len m" for w
    using assms(1) by (simp add: upper_layer_len_def wr16_def)
  have hdr: "rds (wr16 f w m) 26 8 = rds m 26 8" for w
    using assms(1) by (intro rds_cong) (simp add: wr16_def)
  show ?thesis
    by (simp add: pseudo_sum_def len hdr be_sum_field [OF assms, of v])
qed

lemma upper_chksum_generate:
  assumes f: "f = 34 + 2 * j" and len: "2 * j + 2 \<le> unat (upper_layer_len m)"
  shows "upper_layer_chksum proto
    (wr16 f (NOT (upper_layer_chksum proto (wr16 f 0 m))) (wr16 f 0 m)) = 0xffff"
proof -
  let ?m = "wr16 f 0 m"
  obtain sm where sm: "upper_layer_chksum proto ?m = check_value sm"
    "unat sm = fold16 (pseudo_sum proto ?m)"
    using upper_layer_chksum_value by blast
  have zero: "wr16 f 0 ?m = ?m" by (simp add: wr16_def)
  have len': "2 * j + 2 \<le> unat (upper_layer_len ?m)"
    using f len by (simp add: upper_layer_len_def wr16_def)
  show ?thesis
    using pseudo_sum_field [OF f len', of proto "NOT (check_value sm)"] checksum_complement [OF sm(2)]
    by (simp add: sm(1) zero upper_layer_chksum_check)
qed

text \<open>C30. The checksum loop is the Internet checksum. The routine, which adds the 16-bit words of a byte
  string one after the other, adds one when a sum has wrapped around, and pads an odd byte with zero, returns the
  big-endian sum of the string and the starting value, reduced modulo 65535 with 65535 for a multiple that is not
  zero, whatever the length of the string up to 65535 bytes.\<close>

theorem checksum_reference:
  "unat (chksum sm m p n) = fold16 (unat sm + be_sum (rds m p (unat n)))"
  by (rule unat_chksum)

end
