(* ===== verification/Uip_State.thy ===== *)
theory Uip_State
  imports Uip_Words
begin

text \<open>
  The global state of the stack: the connection tables and the packet buffer of
  \<^verbatim>\<open>uip.c\<close>, the per-connection state of the xtcp layer that lives inside them
  (\<^verbatim>\<open>uip_conn.appstate\<close>), and the timers of \<^verbatim>\<open>timer.c\<close>. Every struct of the source is
  a record with one field per member.

  The configuration is the default IPv4 one of \<^verbatim>\<open>uip-conf.h\<close> and \<^verbatim>\<open>uipopt.h\<close>:
  UDP with checksums, active open, broadcast support, no reassembly, no urgent data, no
  sliding window, no ping address configuration, no statistics and no logging.
\<close>

section \<open>Timers\<close>

record uip_timer =
  tm_start :: u32
  tm_interval :: u32

text \<open>
  \<^verbatim>\<open>clock_time_t\<close> is a signed 32-bit integer; the current time is an argument, and
  \<^verbatim>\<open>timer_expired\<close> compares the wrapped difference with the interval as signed numbers.
\<close>

definition timer_set :: "u32 \<Rightarrow> u32 \<Rightarrow> uip_timer" where
  "timer_set now interval = \<lparr>tm_start = now, tm_interval = interval\<rparr>"

definition timer_reset :: "uip_timer \<Rightarrow> uip_timer" where
  "timer_reset t = t\<lparr>tm_start := tm_start t + tm_interval t\<rparr>"

definition timer_restart :: "u32 \<Rightarrow> uip_timer \<Rightarrow> uip_timer" where
  "timer_restart now t = t\<lparr>tm_start := now\<rparr>"

definition timer_expired :: "u32 \<Rightarrow> uip_timer \<Rightarrow> bool" where
  "timer_expired now t \<longleftrightarrow> sint (tm_interval t) \<le> sint (now - tm_start t)"

abbreviation (input) CLOCK_SECOND :: u32 where "CLOCK_SECOND \<equiv> 1000"

section \<open>The xtcp view of a connection\<close>

datatype xtcp_protocol = XTCP_PROTOCOL_TCP | XTCP_PROTOCOL_UDP

datatype xtcp_event =
    XTCP_NEW_CONNECTION | XTCP_RECV_DATA | XTCP_REQUEST_DATA | XTCP_SENT_DATA
  | XTCP_RESEND_DATA | XTCP_TIMED_OUT | XTCP_ABORTED | XTCP_CLOSED | XTCP_POLL
  | XTCP_IFUP | XTCP_IFDOWN | XTCP_ALREADY_HANDLED

text \<open>
  The connection type stays a machine integer: \<^verbatim>\<open>xtcpd_pause\<close> writes into its second byte
  when it is called for a UDP connection.
\<close>

abbreviation (input) "XTCP_CLIENT_CONNECTION \<equiv> 0 :: u32"
abbreviation (input) "XTCP_SERVER_CONNECTION \<equiv> 1 :: u32"

record xtcp_connection =
  xc_id :: int
  xc_protocol :: xtcp_protocol
  xc_connection_type :: u32
  xc_event :: xtcp_event
  xc_appstate :: u32
  xc_remote_addr :: word4
  xc_remote_port :: u32
  xc_local_port :: u32
  xc_mss :: u32

text \<open>The \<^verbatim>\<open>s.uip_conn\<close> back pointer is the table the connection lives in and its index.\<close>

datatype conn_ref = NullRef | TcpRef nat | UdpRef nat

record xtcp_server_state =
  xs_send_request :: int
  xs_abort_request :: bool
  xs_close_request :: bool
  xs_poll_interval :: int
  xs_connect_request :: bool
  xs_ack_request :: bool
  xs_closed :: bool
  xs_tmr :: uip_timer
  xs_uip_conn :: conn_ref
  xs_ack_recv_mode :: bool

record xtcpd_state =
  xd_linknum :: int
  xd_conn :: xtcp_connection
  xd_s :: xtcp_server_state

text \<open>The state after \<^verbatim>\<open>memset (s, 0, sizeof (xtcpd_state_t))\<close>.\<close>

definition zero_timer :: uip_timer where
  "zero_timer = \<lparr>tm_start = 0, tm_interval = 0\<rparr>"

definition zero_xtcpd_state :: xtcpd_state where
  "zero_xtcpd_state =
     \<lparr>xd_linknum = 0,
      xd_conn = \<lparr>xc_id = 0, xc_protocol = XTCP_PROTOCOL_TCP,
        xc_connection_type = XTCP_CLIENT_CONNECTION, xc_event = XTCP_NEW_CONNECTION,
        xc_appstate = 0, xc_remote_addr = (0, 0, 0, 0), xc_remote_port = 0,
        xc_local_port = 0, xc_mss = 0\<rparr>,
      xd_s = \<lparr>xs_send_request = 0, xs_abort_request = False, xs_close_request = False,
        xs_poll_interval = 0, xs_connect_request = False, xs_ack_request = False,
        xs_closed = False, xs_tmr = zero_timer, xs_uip_conn = NullRef,
        xs_ack_recv_mode = False\<rparr>\<rparr>"

section \<open>TCP and UDP connections\<close>

record tcp_conn =
  tc_ripaddr :: ipaddr
  tc_lport :: u16
  tc_rport :: u16
  tc_rcv_nxt :: word4
  tc_snd_nxt :: word4
  tc_len :: u16
  tc_mss :: u16
  tc_initialmss :: u16
  tc_sa :: u8
  tc_sv :: u8
  tc_rto :: u8
  tc_tcpstateflags :: u8
  tc_timer :: u8
  tc_nrtx :: u8
  tc_appstate :: xtcpd_state

record udp_conn =
  uc_ripaddr :: ipaddr
  uc_lport :: u16
  uc_rport :: u16
  uc_ttl :: u8
  uc_udpflags :: u8
  uc_appstate :: xtcpd_state

definition zero_tcp_conn :: tcp_conn where
  "zero_tcp_conn =
     \<lparr>tc_ripaddr = (0, 0), tc_lport = 0, tc_rport = 0, tc_rcv_nxt = (0, 0, 0, 0),
      tc_snd_nxt = (0, 0, 0, 0), tc_len = 0, tc_mss = 0, tc_initialmss = 0, tc_sa = 0,
      tc_sv = 0, tc_rto = 0, tc_tcpstateflags = 0, tc_timer = 0, tc_nrtx = 0,
      tc_appstate = zero_xtcpd_state\<rparr>"

definition zero_udp_conn :: udp_conn where
  "zero_udp_conn =
     \<lparr>uc_ripaddr = (0, 0), uc_lport = 0, uc_rport = 0, uc_ttl = 0, uc_udpflags = 0,
      uc_appstate = zero_xtcpd_state\<rparr>"

abbreviation (input) "UIP_CLOSED \<equiv> 0 :: u8"
abbreviation (input) "UIP_SYN_RCVD \<equiv> 1 :: u8"
abbreviation (input) "UIP_SYN_SENT \<equiv> 2 :: u8"
abbreviation (input) "UIP_ESTABLISHED \<equiv> 3 :: u8"
abbreviation (input) "UIP_FIN_WAIT_1 \<equiv> 4 :: u8"
abbreviation (input) "UIP_FIN_WAIT_2 \<equiv> 5 :: u8"
abbreviation (input) "UIP_CLOSING \<equiv> 6 :: u8"
abbreviation (input) "UIP_TIME_WAIT \<equiv> 7 :: u8"
abbreviation (input) "UIP_LAST_ACK \<equiv> 8 :: u8"
abbreviation (input) "UIP_TS_MASK \<equiv> 15 :: u8"
abbreviation (input) "UIP_STOPPED \<equiv> 16 :: u8"

abbreviation (input) "UDP_PENDING_ARP \<equiv> 1 :: u8"
abbreviation (input) "UDP_SENT \<equiv> 2 :: u8"

abbreviation (input) "UIP_ACKDATA \<equiv> 1 :: u32"
abbreviation (input) "UIP_NEWDATA \<equiv> 2 :: u32"
abbreviation (input) "UIP_REXMIT \<equiv> 4 :: u32"
abbreviation (input) "UIP_POLL \<equiv> 8 :: u32"
abbreviation (input) "UIP_CLOSE \<equiv> 16 :: u32"
abbreviation (input) "UIP_ABORT \<equiv> 32 :: u32"
abbreviation (input) "UIP_CONNECTED \<equiv> 64 :: u32"
abbreviation (input) "UIP_TIMEDOUT \<equiv> 128 :: u32"
abbreviation (input) "UIP_TCP_PUSH \<equiv> 256 :: u32"

abbreviation (input) "TCP_FIN \<equiv> 0x01 :: u8"
abbreviation (input) "TCP_SYN \<equiv> 0x02 :: u8"
abbreviation (input) "TCP_RST \<equiv> 0x04 :: u8"
abbreviation (input) "TCP_PSH \<equiv> 0x08 :: u8"
abbreviation (input) "TCP_ACK \<equiv> 0x10 :: u8"
abbreviation (input) "TCP_URG \<equiv> 0x20 :: u8"
abbreviation (input) "TCP_CTL \<equiv> 0x3f :: u8"

abbreviation (input) "UIP_PROTO_ICMP \<equiv> 1 :: u8"
abbreviation (input) "UIP_PROTO_IGMP \<equiv> 6 :: u8"
abbreviation (input) "UIP_PROTO_TCP \<equiv> 6 :: u8"
abbreviation (input) "UIP_PROTO_UDP \<equiv> 17 :: u8"

abbreviation (input) "UIP_TTL \<equiv> 64 :: u8"
abbreviation (input) "UIP_RTO \<equiv> 3 :: u8"
abbreviation (input) "UIP_MAXRTX \<equiv> 8 :: u8"
abbreviation (input) "UIP_MAXSYNRTX \<equiv> 5 :: u8"
abbreviation (input) "UIP_TIME_WAIT_TIMEOUT \<equiv> 120 :: u8"

text \<open>
  \<^verbatim>\<open>UIP_BUFSIZE\<close> is \<^verbatim>\<open>XTCP_CLIENT_BUF_SIZE + UIP_LLH_LEN + UIP_TCPIP_HLEN\<close>, so the segment
  size \<^verbatim>\<open>UIP_TCP_MSS\<close> and the receive window are \<^verbatim>\<open>XTCP_CLIENT_BUF_SIZE\<close>.
\<close>

abbreviation (input) "UIP_TCP_MSS \<equiv> 1472 :: u16"
abbreviation (input) "UIP_BUFSIZE \<equiv> 1526 :: nat"

section \<open>Offsets of the header fields in the packet buffer\<close>

abbreviation (input) "B_vhl \<equiv> 14 :: nat"
abbreviation (input) "B_tos \<equiv> 15 :: nat"
abbreviation (input) "B_len0 \<equiv> 16 :: nat"
abbreviation (input) "B_len1 \<equiv> 17 :: nat"
abbreviation (input) "B_ipid0 \<equiv> 18 :: nat"
abbreviation (input) "B_ipid1 \<equiv> 19 :: nat"
abbreviation (input) "B_ipoffset0 \<equiv> 20 :: nat"
abbreviation (input) "B_ipoffset1 \<equiv> 21 :: nat"
abbreviation (input) "B_ttl \<equiv> 22 :: nat"
abbreviation (input) "B_proto \<equiv> 23 :: nat"
abbreviation (input) "B_ipchksum \<equiv> 24 :: nat"
abbreviation (input) "B_srcipaddr \<equiv> 26 :: nat"
abbreviation (input) "B_destipaddr \<equiv> 30 :: nat"
abbreviation (input) "B_srcport \<equiv> 34 :: nat"
abbreviation (input) "B_destport \<equiv> 36 :: nat"
abbreviation (input) "B_seqno \<equiv> 38 :: nat"
abbreviation (input) "B_ackno \<equiv> 42 :: nat"
abbreviation (input) "B_tcpoffset \<equiv> 46 :: nat"
abbreviation (input) "B_flags \<equiv> 47 :: nat"
abbreviation (input) "B_wnd0 \<equiv> 48 :: nat"
abbreviation (input) "B_wnd1 \<equiv> 49 :: nat"
abbreviation (input) "B_tcpchksum \<equiv> 50 :: nat"
abbreviation (input) "B_urgp0 \<equiv> 52 :: nat"
abbreviation (input) "B_urgp1 \<equiv> 53 :: nat"
abbreviation (input) "B_optdata \<equiv> 54 :: nat"
abbreviation (input) "B_icmptype \<equiv> 34 :: nat"
abbreviation (input) "B_icmpchksum \<equiv> 36 :: nat"
abbreviation (input) "B_udplen \<equiv> 38 :: nat"
abbreviation (input) "B_udpchksum \<equiv> 40 :: nat"

section \<open>The globals of uip.c\<close>

record uip_st =
  uip_buf :: mem
  uip_appdata :: nat
  uip_sappdata :: nat
  uip_len :: u16
  uip_slen :: u16
  uip_flags :: u32
  uip_conn :: "nat option"
  uip_conns :: "tcp_conn list"
  uip_listenports :: "u16 list"
  uip_udp_listenports :: "u16 list"
  uip_udp_conn :: "nat option"
  uip_udp_conns :: "udp_conn list"
  ipid :: u16
  iss :: word4
  lastport :: u16
  uip_hostaddr :: ipaddr
  uip_draddr :: ipaddr
  uip_netmask :: ipaddr
  uip_ethaddr :: "u8 list"
  mac_min_frame :: nat

abbreviation all_ones_addr :: ipaddr where "all_ones_addr \<equiv> (0xffff, 0xffff)"
abbreviation all_zeroes_addr :: ipaddr where "all_zeroes_addr \<equiv> (0, 0)"

abbreviation buf :: "'a uip_st_scheme \<Rightarrow> mem" where "buf s \<equiv> uip_buf s"

abbreviation bput :: "nat \<Rightarrow> u8 \<Rightarrow> 'a uip_st_scheme \<Rightarrow> 'a uip_st_scheme" where
  "bput i v s \<equiv> s\<lparr>uip_buf := (uip_buf s)(i := v)\<rparr>"

abbreviation bput16 :: "nat \<Rightarrow> u16 \<Rightarrow> 'a uip_st_scheme \<Rightarrow> 'a uip_st_scheme" where
  "bput16 i v s \<equiv> s\<lparr>uip_buf := wr16 i v (uip_buf s)\<rparr>"

abbreviation bput4 :: "nat \<Rightarrow> word4 \<Rightarrow> 'a uip_st_scheme \<Rightarrow> 'a uip_st_scheme" where
  "bput4 i w s \<equiv> s\<lparr>uip_buf := xtcp_copy_word i w (uip_buf s)\<rparr>"

text \<open>\<^verbatim>\<open>uip_ipaddr_copy\<close> into the packet buffer.\<close>

abbreviation bputip :: "nat \<Rightarrow> ipaddr \<Rightarrow> 'a uip_st_scheme \<Rightarrow> 'a uip_st_scheme" where
  "bputip i a s \<equiv> s\<lparr>uip_buf := wrip i a (uip_buf s)\<rparr>"

abbreviation tconn :: "'a uip_st_scheme \<Rightarrow> nat \<Rightarrow> tcp_conn" where
  "tconn s i \<equiv> uip_conns s ! i"

abbreviation uconn :: "'a uip_st_scheme \<Rightarrow> nat \<Rightarrow> udp_conn" where
  "uconn s i \<equiv> uip_udp_conns s ! i"

definition upd_conn :: "nat \<Rightarrow> (tcp_conn \<Rightarrow> tcp_conn) \<Rightarrow> 'a uip_st_scheme \<Rightarrow> 'a uip_st_scheme" where
  "upd_conn i f s = s\<lparr>uip_conns := (uip_conns s)[i := f (uip_conns s ! i)]\<rparr>"

definition upd_udp :: "nat \<Rightarrow> (udp_conn \<Rightarrow> udp_conn) \<Rightarrow> 'a uip_st_scheme \<Rightarrow> 'a uip_st_scheme" where
  "upd_udp i f s = s\<lparr>uip_udp_conns := (uip_udp_conns s)[i := f (uip_udp_conns s ! i)]\<rparr>"

text \<open>\<^verbatim>\<open>uip_ipaddr\<close>: an address from its four octets; \<^verbatim>\<open>uip_ipaddr_is_multicast\<close>.\<close>

definition mk_ipaddr :: "u8 \<Rightarrow> u8 \<Rightarrow> u8 \<Rightarrow> u8 \<Rightarrow> ipaddr" where
  "mk_ipaddr a b c d =
     (htons (push_bit 8 (ucast a) OR ucast b), htons (push_bit 8 (ucast c) OR ucast d))"

definition uip_ipaddr_is_multicast :: "ipaddr \<Rightarrow> bool" where
  "uip_ipaddr_is_multicast a \<longleftrightarrow> fst a AND 0xff = 224"

definition uip_ipaddr_maskcmp :: "ipaddr \<Rightarrow> ipaddr \<Rightarrow> ipaddr \<Rightarrow> bool" where
  "uip_ipaddr_maskcmp a b msk \<longleftrightarrow>
     fst a AND fst msk = fst b AND fst msk \<and> snd a AND snd msk = snd b AND snd msk"

abbreviation uip_udpconnection :: "'a uip_st_scheme \<Rightarrow> bool" where
  "uip_udpconnection s \<equiv> uip_conn s = None"

section \<open>Basic facts\<close>

lemma mk_ipaddr_le16: "mk_ipaddr a b c d = (le16 a b, le16 c d)"
proof -
  have "htons (push_bit 8 (ucast x) OR ucast y) = le16 x y" for x y
    using htons_le16 [of y x] by (simp add: le16_def)
  then show ?thesis by (simp add: mk_ipaddr_def)
qed

lemma is_multicast_le16: "uip_ipaddr_is_multicast (le16 a b, w) \<longleftrightarrow> a = 224"
proof -
  have "le16 a b AND mask 8 = ucast a"
    by (rule bit_word_eqI)
      (auto simp: le16_def bit_simps bit_u8_high dest: bit_imp_le_length)
  moreover have "ucast a = (ucast (224 :: u8) :: u16) \<longleftrightarrow> a = 224"
    by (simp only: word_unat_eq_iff unat_ucast_u8_u16)
  ultimately show ?thesis
    by (simp add: uip_ipaddr_is_multicast_def mask_eq_exp_minus_1)
qed

lemma upd_conn_sel [simp]:
  "uip_buf (upd_conn i f s) = uip_buf s" "uip_len (upd_conn i f s) = uip_len s"
  "uip_slen (upd_conn i f s) = uip_slen s" "uip_flags (upd_conn i f s) = uip_flags s"
  "uip_conn (upd_conn i f s) = uip_conn s" "uip_hostaddr (upd_conn i f s) = uip_hostaddr s"
  "uip_udp_conns (upd_conn i f s) = uip_udp_conns s" "ipid (upd_conn i f s) = ipid s"
  "uip_udp_conn (upd_conn i f s) = uip_udp_conn s" "iss (upd_conn i f s) = iss s"
  "uip_listenports (upd_conn i f s) = uip_listenports s"
  "uip_sappdata (upd_conn i f s) = uip_sappdata s" "uip_appdata (upd_conn i f s) = uip_appdata s"
  "length (uip_conns (upd_conn i f s)) = length (uip_conns s)"
  by (simp_all add: upd_conn_def)

lemma tconn_upd_conn [simp]: "i < length (uip_conns s) \<Longrightarrow> tconn (upd_conn i f s) i = f (tconn s i)"
  by (simp add: upd_conn_def)

lemma tconn_upd_conn_other [simp]: "i \<noteq> j \<Longrightarrow> tconn (upd_conn i f s) j = tconn s j"
  by (simp add: upd_conn_def)

lemma upd_udp_sel [simp]:
  "uip_buf (upd_udp i f s) = uip_buf s" "uip_len (upd_udp i f s) = uip_len s"
  "uip_slen (upd_udp i f s) = uip_slen s" "uip_flags (upd_udp i f s) = uip_flags s"
  "uip_conn (upd_udp i f s) = uip_conn s" "uip_hostaddr (upd_udp i f s) = uip_hostaddr s"
  "uip_conns (upd_udp i f s) = uip_conns s" "ipid (upd_udp i f s) = ipid s"
  "uip_udp_conn (upd_udp i f s) = uip_udp_conn s"
  "length (uip_udp_conns (upd_udp i f s)) = length (uip_udp_conns s)"
  by (simp_all add: upd_udp_def)

lemma uconn_upd_udp [simp]:
  "i < length (uip_udp_conns s) \<Longrightarrow> uconn (upd_udp i f s) i = f (uconn s i)"
  by (simp add: upd_udp_def)

end
