(* ===== verification/Uip_Clock.thy ===== *)
theory Uip_Clock
  imports Uip_State
begin

text \<open>
  The clock of the timers, \<^verbatim>\<open>clock-arch.xc\<close>: milliseconds counted from the 32-bit timer of the processor, which runs at
  100 MHz and wraps every 42.9 seconds. The lemmas relate the count to the cycles that have passed, and the expiry of a
  timer of \<^verbatim>\<open>timer.c\<close> to the time that has passed since it was set.
\<close>

section \<open>The clock\<close>

record clock_st =
  ck_time :: u32
  prev_timestamp :: u32
  ck_init :: bool

definition clock_start :: clock_st where
  "clock_start = \<lparr>ck_time = 0, prev_timestamp = 0, ck_init = True\<rparr>"

text \<open>\<open>t\<close> is what the hardware timer reads.\<close>

definition clock_time :: "u32 \<Rightarrow> clock_st \<Rightarrow> u32 \<times> clock_st" where
  "clock_time t s =
     (let t = t - t mod 100000;
          s = (if ck_init s then s\<lparr>ck_time := 0, ck_init := False\<rparr>
               else (let diff = t - prev_timestamp s in s\<lparr>ck_time := ck_time s + diff div 100000\<rparr>));
          s = s\<lparr>prev_timestamp := t\<rparr>
      in (ck_time s, s))"

text \<open>Readings of the clock at numbers of cycles that do not wrap.\<close>

fun clock_reads :: "nat list \<Rightarrow> clock_st \<Rightarrow> u32 list" where
  "clock_reads [] s = []"
| "clock_reads (T # Ts) s = (let (x, s) = clock_time (of_nat T) s in x # clock_reads Ts s)"

section \<open>Counting\<close>

text \<open>The cycles after which the hardware timer wraps.\<close>

abbreviation (input) "ROUND \<equiv> 4294967296 :: nat"

text \<open>What the clock counts: the milliseconds of the present round of the timer, and 42949 for every full round.\<close>

definition ticks :: "nat \<Rightarrow> nat" where
  "ticks T = 42949 * (T div ROUND) + T mod ROUND div 100000"

text \<open>Two readings must be less than a round of the timer apart.\<close>

fun paced :: "nat list \<Rightarrow> bool" where
  "paced (T # T' # Ts) \<longleftrightarrow> T \<le> T' \<and> T' \<le> T + (ROUND - 100000) \<and> paced (T' # Ts)"
| "paced _ \<longleftrightarrow> True"

definition rounded :: "nat \<Rightarrow> u32" where
  "rounded T = of_nat T - of_nat T mod 100000"

lemma unat_rounded: "unat (rounded T) = 100000 * (T mod ROUND div 100000)"
proof -
  have "(of_nat T :: u32) mod 100000 \<le> of_nat T" by (simp add: word_le_nat_alt unat_mod)
  then have "unat (rounded T) = unat (of_nat T :: u32) - unat (of_nat T :: u32) mod 100000"
    unfolding rounded_def by (simp add: unat_sub unat_mod)
  also have "\<dots> = T mod ROUND - T mod ROUND mod 100000" by (simp add: unat_of_nat)
  finally show ?thesis by (simp add: minus_mod_eq_mult_div)
qed

lemma round_split: "\<exists>w r. T = w * ROUND + r \<and> r < ROUND \<and> T div ROUND = w \<and> T mod ROUND = (r :: nat)"
  by (metis div_mult_mod_eq mod_less_divisor zero_less_numeral)

lemma diff_ticks:
  assumes "T \<le> T'" and "T' \<le> T + (ROUND - 100000)"
  shows "unat ((rounded T' - rounded T) div 100000) = ticks T' - ticks T" and "ticks T \<le> ticks T'"
proof -
  obtain w r where T: "T = w * ROUND + r" "r < ROUND" "T div ROUND = w" "T mod ROUND = r" using round_split by blast
  obtain w' r' where T': "T' = w' * ROUND + r'" "r' < ROUND" "T' div ROUND = w'" "T' mod ROUND = r'" using round_split by blast
  define a a' where "a = r div 100000" and "a' = r' div 100000"
  have a: "a \<le> 42949" using T(2) unfolding a_def by simp
  have q: "unat (rounded T) = 100000 * a" "unat (rounded T') = 100000 * a'"
    by (simp_all only: unat_rounded T(4) T'(4) a_def a'_def)
  have tick: "ticks T = 42949 * w + a" "ticks T' = 42949 * w' + a'" by (simp_all only: ticks_def T(3,4) T'(3,4) a_def a'_def)
  have "w \<le> w'" using div_le_mono [OF assms(1), of ROUND] by (simp only: T(3) T'(3))
  moreover have "T' \<le> T + ROUND" using assms(2) by simp
  then have "w' \<le> w + 1" using div_le_mono [of T' "T + ROUND" ROUND] T(3) T'(3) by simp
  ultimately consider "w' = w" | "w' = w + 1" by linarith
  then consider "w' = w" "r \<le> r'" | "w' = w + 1" "r' + 100000 \<le> r"
  proof cases
    case 1
    with that(1) assms(1) T(1) T'(1) show ?thesis by simp
  next
    case 2
    with assms(2) T(1) T'(1) have "r' + 100000 \<le> r" by (simp add: algebra_simps)
    with that(2) 2 show ?thesis by blast
  qed
  then have "unat (rounded T' - rounded T) div 100000 = ticks T' - ticks T \<and> ticks T \<le> ticks T'"
  proof cases
    case 1
    then have le: "a \<le> a'" unfolding a_def a'_def by (simp add: div_le_mono)
    then have "rounded T \<le> rounded T'" by (simp add: word_le_nat_alt q)
    then have "unat (rounded T' - rounded T) = 100000 * (a' - a)" by (simp add: unat_sub q diff_mult_distrib2)
    with 1(1) le show ?thesis by (simp add: tick)
  next
    case 2
    then have less: "a' < a" unfolding a_def a'_def by (simp add: less_eq_div_iff_mult_less_eq Suc_le_eq [symmetric])
    then have "\<not> rounded T \<le> rounded T'" by (simp add: word_le_nat_alt q)
    then have "unat (rounded T' - rounded T) = 100000 * a' + ROUND - 100000 * a"
      by (simp add: unat_sub_if' word_le_nat_alt q)
    also have "\<dots> = 67296 + (42949 + a' - a) * 100000" using a less by simp
    finally have "unat (rounded T' - rounded T) div 100000 = 42949 + a' - a" by simp
    with 2(1) a less show ?thesis by (simp add: tick)
  qed
  then show "unat ((rounded T' - rounded T) div 100000) = ticks T' - ticks T" and "ticks T \<le> ticks T'"
    by (simp_all add: unat_div)
qed

text \<open>The state of the clock after a reading at \<open>T\<close>, when the first was at \<open>T0\<close>.\<close>

definition clock_at :: "nat \<Rightarrow> nat \<Rightarrow> clock_st \<Rightarrow> bool" where
  "clock_at T0 T s \<longleftrightarrow> \<not> ck_init s \<and> prev_timestamp s = rounded T \<and> ck_time s = of_nat (ticks T - ticks T0) \<and> ticks T0 \<le> ticks T"

lemma clock_at_step:
  assumes "clock_at T0 T s" and "T \<le> T'" and "T' \<le> T + (ROUND - 100000)"
  shows "fst (clock_time (of_nat T') s) = of_nat (ticks T' - ticks T0)" and "clock_at T0 T' (snd (clock_time (of_nat T') s))"
proof -
  note d = diff_ticks [OF assms(2,3)]
  have "(rounded T' - rounded T) div 100000 = of_nat (ticks T' - ticks T)" unfolding d(1) [symmetric] by simp
  moreover have "ticks T' - ticks T0 = (ticks T - ticks T0) + (ticks T' - ticks T)" using assms(1) d(2) by (simp add: clock_at_def)
  ultimately have "ck_time s + (rounded T' - rounded T) div 100000 = of_nat (ticks T' - ticks T0)"
    using assms(1) by (simp add: clock_at_def)
  then show "fst (clock_time (of_nat T') s) = of_nat (ticks T' - ticks T0)" and "clock_at T0 T' (snd (clock_time (of_nat T') s))"
    using assms(1) d(2) by (simp_all add: clock_at_def clock_time_def Let_def rounded_def [symmetric])
qed

lemma clock_reads_ticks:
  assumes "clock_at T0 T s" and "paced (T # Ts)" and "k < length Ts"
  shows "clock_reads Ts s ! k = of_nat (ticks (Ts ! k) - ticks T0) \<and> T \<le> Ts ! k"
  using assms
proof (induction Ts arbitrary: T s k)
  case (Cons T' Ts)
  note step = clock_at_step [OF Cons.prems(1), of T']
  show ?case
  proof (cases k)
    case 0
    with step(1) Cons.prems(2) show ?thesis by (simp add: case_prod_beta)
  next
    case (Suc k')
    with Cons.IH [OF step(2), of k'] Cons.prems show ?thesis by (auto simp: case_prod_beta)
  qed
qed simp

lemma paced_tl: "paced (T # Ts) \<Longrightarrow> paced Ts"
  by (cases Ts) auto

lemma paced_mono: "paced Ts \<Longrightarrow> i \<le> j \<Longrightarrow> j < length Ts \<Longrightarrow> Ts ! i \<le> Ts ! j \<and> ticks (Ts ! i) \<le> ticks (Ts ! j)"
proof (induction j)
  case (Suc j)
  have "Ts ! k \<le> Ts ! Suc k \<and> ticks (Ts ! k) \<le> ticks (Ts ! Suc k)" if "paced Ts" "Suc k < length Ts" for k and Ts :: "nat list"
    using that
  proof (induction k arbitrary: Ts)
    case 0
    then show ?case by (cases Ts rule: paced.cases) (auto intro: diff_ticks(2))
  next
    case (Suc k)
    then show ?case by (cases Ts) (auto dest: paced_tl)
  qed
  with Suc show ?case by (cases "i = Suc j") (auto intro: order_trans dest: Suc_lessD)
qed simp

lemma reads_from_start:
  assumes "paced Ts" and "k < length Ts"
  shows "clock_reads Ts clock_start ! k = of_nat (ticks (Ts ! k) - ticks (Ts ! 0))"
proof (cases Ts)
  case (Cons T Ts')
  define s where "s = snd (clock_time (of_nat T) clock_start)"
  have s: "clock_at T T s" "clock_reads Ts clock_start = 0 # clock_reads Ts' s"
    by (simp_all add: s_def Cons clock_at_def clock_time_def clock_start_def Let_def rounded_def)
  then show ?thesis using clock_reads_ticks [OF s(1)] assms Cons by (cases k) auto
qed (use assms in simp)

text \<open>A full round of the timer is 42949.67296 milliseconds.\<close>

lemma ticks_cycles:
  "100000 * ticks T + 67296 * (T div ROUND) \<le> T" "T < 100000 * (ticks T + 1) + 67296 * (T div ROUND)"
proof -
  obtain w r where T: "T = w * ROUND + r" "T div ROUND = w" "T mod ROUND = r" using round_split by blast
  define q where "q = r div 100000"
  obtain x where "r = 100000 * q + x" "x < 100000"
    unfolding q_def by (metis mod_less_divisor mult_div_mod_eq zero_less_numeral)
  then have r: "100000 * q \<le> r" "r < 100000 * (q + 1)" by simp_all
  show "100000 * ticks T + 67296 * (T div ROUND) \<le> T"
    unfolding ticks_def T(2,3) q_def [symmetric] unfolding T(1) using r(1) by simp
  show "T < 100000 * (ticks T + 1) + 67296 * (T div ROUND)"
    unfolding ticks_def T(2,3) q_def [symmetric] unfolding T(1) using r(2) by (simp add: algebra_simps)
qed

lemma elapsed_ticks:
  assumes "T \<le> T'" and "ticks T \<le> ticks T'"
  shows "100000 * (ticks T' - ticks T) < T' - T + 100000"
    "T' - T < 100000 * (ticks T' - ticks T + 1) + 67296 * (T' div ROUND - T div ROUND)"
proof -
  obtain d e u where d: "T' = T + d" "ticks T' = ticks T + e" "T' div ROUND = T div ROUND + u"
    using assms div_le_mono [OF assms(1), of ROUND] by (metis le_Suc_ex)
  note c = ticks_cycles [of T] ticks_cycles [of T', unfolded d(2,3)]
  have "100000 * e < d + 100000" using c unfolding d(1) by (simp add: algebra_simps)
  then show "100000 * (ticks T' - ticks T) < T' - T + 100000" unfolding d(2) unfolding d(1) by simp
  have "d < 100000 * (e + 1) + 67296 * u" using c unfolding d(1) by (simp add: algebra_simps)
  then show "T' - T < 100000 * (ticks T' - ticks T + 1) + 67296 * (T' div ROUND - T div ROUND)"
    unfolding d(2,3) unfolding d(1) by simp
qed

section \<open>Timers\<close>

text \<open>C31. Timers keep time: when the clock is read at least once in every round of the hardware timer, a timer of \<open>n\<close>
  milliseconds that was set at one reading and is tested at a later one, within 24 days, has not expired unless more
  than \<open>n - 1\<close> milliseconds have passed, and has expired once \<open>n\<close> milliseconds have passed and the 0.67 milliseconds
  that the clock loses in every round.\<close>

theorem timer_keeps_time:
  assumes "paced Ts" and "i \<le> j" and "j < length Ts" and "Ts ! j - Ts ! i < 100000 * (2147483647)" and "unat n < 2147483648"
  defines "expired \<equiv> timer_expired (clock_reads Ts clock_start ! j) (timer_set (clock_reads Ts clock_start ! i) n)"
  shows "(expired \<longrightarrow> 100000 * unat n < Ts ! j - Ts ! i + 100000) \<and>
    (100000 * unat n + 67296 * (Ts ! j div ROUND - Ts ! i div ROUND) \<le> Ts ! j - Ts ! i \<longrightarrow> expired)"
proof -
  let ?T = "Ts ! i" and ?T' = "Ts ! j"
  define e where "e = ticks ?T' - ticks ?T"
  note m = conjunct1 [OF paced_mono [OF assms(1-3)]] conjunct2 [OF paced_mono [OF assms(1-3)]] and m0 = paced_mono [OF assms(1) le0, of i] paced_mono [OF assms(1) le0, of j]
  have "clock_reads Ts clock_start ! j - clock_reads Ts clock_start ! i = of_nat e"
    using m m0 assms(2,3) reads_from_start [OF assms(1)] by (simp add: e_def of_nat_diff)
  then have exp: "expired \<longleftrightarrow> sint n \<le> sint (of_nat e :: u32)" by (simp add: expired_def timer_expired_def timer_set_def)
  note t = elapsed_ticks [OF m, folded e_def]
  have small: "e < 2147483648" using t(1) assms(4) by linarith
  have pos: "sint (of_nat k :: u32) = int k" if "k < 2147483648" for k
  proof -
    have "unat (of_nat k :: u32) = k" using that by (simp add: unat_of_nat)
    then have "uint (of_nat k :: u32) = int k" by (simp only: uint_nat)
    then show ?thesis unfolding sint_uint using that by (intro signed_take_bit_int_eq_self [THEN trans]) simp_all
  qed
  have "sint n = int (unat n)" using pos [of "unat n"] assms(5) by simp
  then have exp: "expired \<longleftrightarrow> unat n \<le> e" unfolding exp pos [OF small] by (simp only: of_nat_le_iff)
  define d u where "d = ?T' - ?T" and "u = ?T' div ROUND - ?T div ROUND"
  note t = t [folded d_def u_def]
  have "100000 * unat n < d + 100000" if "unat n \<le> e" using that t(1) by linarith
  moreover have "unat n \<le> e" if "100000 * unat n + 67296 * u \<le> d"
    using that t(2) by simp
  ultimately show ?thesis unfolding exp d_def u_def by blast
qed

text \<open>A timer of 40 seconds, tested after 20 and after 44 seconds.\<close>

lemma timer_keeps_time_witness:
  "timer_expired (clock_reads [0, 2000000000, 4400000000] clock_start ! 2) (timer_set (clock_reads [0, 2000000000, 4400000000] clock_start ! 0) 40000) \<and>
    \<not> timer_expired (clock_reads [0, 2000000000, 4400000000] clock_start ! 1) (timer_set (clock_reads [0, 2000000000, 4400000000] clock_start ! 0) 40000)"
  using timer_keeps_time [of "[0, 2000000000, 4400000000]" 0 2 40000] timer_keeps_time [of "[0, 2000000000, 4400000000]" 0 1 40000] by simp

text \<open>Without the pacing the clock stands still: a full round between two readings goes unnoticed.\<close>

lemma round_unnoticed: "clock_reads [0, ROUND] clock_start = [0, 0]"
  by (simp add: clock_time_def clock_start_def Let_def)

end
