(* ===== verification/Uip_Arp.thy ===== *)
theory Uip_Arp
  imports Uip_State
begin

text \<open>
  \<^verbatim>\<open>uip_arp.c\<close>: the cache of Ethernet addresses, the answer to ARP packets, and the Ethernet
  header of outgoing IP packets. The state of the stack is extended by the table and its clock.
  The callback \<^verbatim>\<open>autoip_arp_in\<close> is an argument of \<open>uip_arp_arpin\<close>.
\<close>

section \<open>State\<close>

record arp_entry =
  ae_ipaddr :: ipaddr
  ae_ethaddr :: "u8 list"
  ae_time :: u8

record arp_st = uip_st +
  arp_table :: "arp_entry list"
  arptime :: u8

abbreviation (input) "UIP_ARP_MAXAGE \<equiv> 120 :: int"
abbreviation (input) "ARP_HDR_LEN \<equiv> 42 :: u16"

section \<open>Operations\<close>

definition uip_arp_init :: "'a arp_st_scheme \<Rightarrow> 'a arp_st_scheme" where
  "uip_arp_init s = s\<lparr>arp_table := map (\<lambda>e. e\<lparr>ae_ipaddr := (0, 0)\<rparr>) (arp_table s)\<rparr>"

text \<open>The age of an entry: both operands are promoted to \<^verbatim>\<open>int\<close>, so it may be negative.\<close>

definition arp_age :: "u8 \<Rightarrow> arp_entry \<Rightarrow> int" where
  "arp_age now e = int (unat now) - int (unat (ae_time e))"

definition arp_expire :: "u8 \<Rightarrow> arp_entry list \<Rightarrow> arp_entry list" where
  "arp_expire now = map (\<lambda>e. if fst (ae_ipaddr e) OR snd (ae_ipaddr e) \<noteq> 0 \<and> UIP_ARP_MAXAGE \<le> arp_age now e
     then e\<lparr>ae_ipaddr := (0, 0)\<rparr> else e)"

definition uip_arp_timer :: "'a arp_st_scheme \<Rightarrow> 'a arp_st_scheme" where
  "uip_arp_timer s =
     (let now = arptime s + 1 in s\<lparr>arptime := now, arp_table := arp_expire now (arp_table s)\<rparr>)"

text \<open>The search for the oldest entry; \<^verbatim>\<open>tmpage\<close> is eight bits wide.\<close>

fun arp_oldest :: "u8 \<Rightarrow> arp_entry list \<Rightarrow> nat \<Rightarrow> u8 \<Rightarrow> nat \<Rightarrow> nat" where
  "arp_oldest now [] i tmpage c = c"
| "arp_oldest now (e # es) i tmpage c =
     (if int (unat tmpage) < arp_age now e
      then arp_oldest now es (i + 1) (now - ae_time e) i
      else arp_oldest now es (i + 1) tmpage c)"

definition arp_in_use :: "arp_entry \<Rightarrow> bool" where
  "arp_in_use e \<longleftrightarrow> fst (ae_ipaddr e) \<noteq> 0 \<and> snd (ae_ipaddr e) \<noteq> 0"

definition arp_free :: "arp_entry \<Rightarrow> bool" where
  "arp_free e \<longleftrightarrow> fst (ae_ipaddr e) = 0 \<and> snd (ae_ipaddr e) = 0"

definition arp_update :: "ipaddr \<Rightarrow> u8 list \<Rightarrow> u8 \<Rightarrow> arp_entry list \<Rightarrow> arp_entry list" where
  "arp_update ip mac now t =
     (case first_idx (\<lambda>e. arp_in_use e \<and> fst ip = fst (ae_ipaddr e) \<and> snd ip = snd (ae_ipaddr e)) t of
        Some i \<Rightarrow> t[i := (t ! i)\<lparr>ae_ethaddr := mac, ae_time := now\<rparr>]
      | None \<Rightarrow>
          (let i = (case first_idx arp_free t of Some i \<Rightarrow> i | None \<Rightarrow> arp_oldest now t 0 0 0)
           in t[i := \<lparr>ae_ipaddr = ip, ae_ethaddr = mac, ae_time = now\<rparr>]))"

definition uip_arp_update :: "ipaddr \<Rightarrow> u8 list \<Rightarrow> 'a arp_st_scheme \<Rightarrow> 'a arp_st_scheme" where
  "uip_arp_update ip mac s = s\<lparr>arp_table := arp_update ip mac (arptime s) (arp_table s)\<rparr>"

text \<open>The reply is built in place: offsets 0, 6, 12 of the Ethernet header, 20 to 41 of the ARP packet.\<close>

definition arp_reply_packet :: "ipaddr \<Rightarrow> u8 list \<Rightarrow> mem \<Rightarrow> mem" where
  "arp_reply_packet host eth b0 =
     (let b = wr16 20 (htons 2) b0;
          b = wrs 32 (rds b 22 6) b;
          b = wrs 22 eth b;
          b = wrs 6 eth b;
          b = wrs 0 (rds b 32 6) b;
          b = wrip 38 (rdip b 28) b;
          b = wrip 28 host b
      in wr16 12 (htons 0x0806) b)"

definition uip_arp_arpin :: "('a arp_st_scheme \<Rightarrow> 'a arp_st_scheme) \<Rightarrow> 'a arp_st_scheme \<Rightarrow> 'a arp_st_scheme" where
  "uip_arp_arpin autoip_arp_in s =
     (if uip_len s < ARP_HDR_LEN then s\<lparr>uip_len := 0\<rparr>
      else
        (let s = autoip_arp_in (s\<lparr>uip_len := 0\<rparr>);
             b = uip_buf s
         in
         if rd16 b 20 = htons 1 then
           (if uip_ipaddr_cmp (rdip b 38) (uip_hostaddr s) then
              (uip_arp_update (rdip b 28) (rds b 22 6) s)
                \<lparr>uip_buf := arp_reply_packet (uip_hostaddr s) (uip_ethaddr s) b, uip_len := ARP_HDR_LEN\<rparr>
            else s)
         else if rd16 b 20 = htons 2 then
           (if uip_ipaddr_cmp (rdip b 38) (uip_hostaddr s)
            then uip_arp_update (rdip b 28) (rds b 22 6) s else s)
         else s))"

definition multicast_mac :: "ipaddr \<Rightarrow> u8 list" where
  "multicast_mac dest = [0x01, 0x00, 0x5e, hi8 (fst dest), lo8 (snd dest AND 0xf), hi8 (snd dest)]"

definition arp_request_packet :: "ipaddr \<Rightarrow> ipaddr \<Rightarrow> u8 list \<Rightarrow> mem \<Rightarrow> mem" where
  "arp_request_packet dest host eth b0 =
     (let b = wrs 0 (replicate 6 0xff) b0;
          b = wrs 32 (replicate 6 0x00) b;
          b = wrs 6 eth b;
          b = wrs 22 eth b;
          b = wrip 38 dest b;
          b = wrip 28 host b;
          b = wr16 20 (htons 1) b;
          b = wr16 14 (htons 1) b;
          b = wr16 16 (htons 0x0800) b;
          b = b(18 := 6, 19 := 4)
      in wr16 12 (htons 0x0806) b)"

definition udp_mark :: "u8 \<Rightarrow> nat option \<Rightarrow> 'a uip_st_scheme \<Rightarrow> 'a uip_st_scheme" where
  "udp_mark flag conn s = (case conn of None \<Rightarrow> s
     | Some j \<Rightarrow> upd_udp j (\<lambda>c. c\<lparr>uc_udpflags := uc_udpflags c OR flag\<rparr>) s)"

text \<open>The address whose Ethernet address is needed: the destination or the default router.\<close>

definition next_hop :: "'a uip_st_scheme \<Rightarrow> ipaddr" where
  "next_hop s = (if \<not> uip_ipaddr_maskcmp (rdip (uip_buf s) B_destipaddr) (uip_hostaddr s) (uip_netmask s)
     then uip_draddr s else rdip (uip_buf s) B_destipaddr)"

definition eth_header :: "u8 list \<Rightarrow> u8 list \<Rightarrow> mem \<Rightarrow> mem" where
  "eth_header dest src b = wr16 12 (htons 0x0800) (wrs 6 src (wrs 0 dest b))"

definition uip_arp_out :: "nat option \<Rightarrow> 'a arp_st_scheme \<Rightarrow> 'a arp_st_scheme" where
  "uip_arp_out conn s =
     (let dest = rdip (uip_buf s) B_destipaddr;
          send = (\<lambda>mac. udp_mark UDP_SENT conn
            (s\<lparr>uip_buf := eth_header mac (uip_ethaddr s) (uip_buf s), uip_len := uip_len s + 14\<rparr>))
      in
      if uip_ipaddr_cmp dest all_ones_addr then send (replicate 6 0xff)
      else if uip_ipaddr_is_multicast dest then send (multicast_mac dest)
      else (case first_idx (\<lambda>e. uip_ipaddr_cmp (next_hop s) (ae_ipaddr e)) (arp_table s) of
        Some i \<Rightarrow> send (ae_ethaddr (arp_table s ! i))
      | None \<Rightarrow> udp_mark UDP_PENDING_ARP conn
          (s\<lparr>uip_buf := arp_request_packet (next_hop s) (uip_hostaddr s) (uip_ethaddr s) (uip_buf s),
             uip_appdata := 54, uip_len := ARP_HDR_LEN\<rparr>)))"

section \<open>The cache as an interface\<close>

text \<open>
  What the rest of the stack relies on: a stored address is found again, storing or expiring
  entries never makes the cache return a value that was not stored for that address.
\<close>

text \<open>A history of the cache: \<open>Some (k, v)\<close> is a store, \<open>None\<close> a tick of the timer.\<close>

fun cache_run :: "('k \<Rightarrow> 'v \<Rightarrow> 't \<Rightarrow> 't) \<Rightarrow> ('t \<Rightarrow> 't) \<Rightarrow> ('k \<times> 'v) option list \<Rightarrow> 't \<Rightarrow> 't" where
  "cache_run store expire [] t = t"
| "cache_run store expire (None # evs) t = cache_run store expire evs (expire t)"
| "cache_run store expire (Some (k, v) # evs) t = cache_run store expire evs (store k v t)"

fun last_stored :: "('k \<times> 'v) option list \<Rightarrow> 'k \<Rightarrow> 'v option" where
  "last_stored [] k = None"
| "last_stored (None # evs) k = last_stored evs k"
| "last_stored (Some (k', v) # evs) k =
     (case last_stored evs k of Some w \<Rightarrow> Some w | None \<Rightarrow> if k = k' then Some v else None)"

locale address_cache =
  fixes inv :: "'t \<Rightarrow> bool" and good :: "'k \<Rightarrow> bool" and look :: "'t \<Rightarrow> 'k \<Rightarrow> 'v option"
    and store :: "'k \<Rightarrow> 'v \<Rightarrow> 't \<Rightarrow> 't" and expire :: "'t \<Rightarrow> 't"
  assumes look_store: "inv t \<Longrightarrow> good k \<Longrightarrow> look (store k v t) k = Some v"
    and look_store_other: "inv t \<Longrightarrow> good k' \<Longrightarrow> k' \<noteq> k \<Longrightarrow>
      look (store k v t) k' = look t k' \<or> look (store k v t) k' = None"
    and look_expire: "inv t \<Longrightarrow> good k \<Longrightarrow> look (expire t) k = look t k \<or> look (expire t) k = None"
    and inv_store: "inv t \<Longrightarrow> inv (store k v t)"
    and inv_expire: "inv t \<Longrightarrow> inv (expire t)"
begin

lemma never_stale:
  assumes "inv t" and "good k" and "look (cache_run store expire evs t) k = Some v"
  shows "last_stored evs k = Some v \<or> last_stored evs k = None \<and> look t k = Some v"
  using assms
proof (induction evs arbitrary: t)
  case (Cons ev evs)
  show ?case
  proof (cases ev)
    case None
    with Cons show ?thesis using look_expire [of t k] inv_expire [of t] by fastforce
  next
    case (Some kv)
    then obtain k' v' where ev: "ev = Some (k', v')" by (cases kv) auto
    with Cons have run: "look (cache_run store expire evs (store k' v' t)) k = Some v" by auto
    from Cons.IH [OF inv_store [OF Cons.prems(1)] Cons.prems(2) run]
    show ?thesis
      using look_store [OF Cons.prems(1,2), of v']
        look_store_other [OF Cons.prems(1,2), of k' v'] unfolding ev
      by (cases "k = k'") auto
  qed
qed simp

end

section \<open>The table implements the interface\<close>

definition arp_good :: "ipaddr \<Rightarrow> bool" where
  "arp_good a \<longleftrightarrow> fst a \<noteq> 0 \<and> snd a \<noteq> 0"

text \<open>A cache is the table with its clock; every address with two non-zero halves occurs at most once.\<close>

definition arp_inv :: "arp_entry list \<times> u8 \<Rightarrow> bool" where
  "arp_inv c \<longleftrightarrow> fst c \<noteq> [] \<and> (\<forall>i < length (fst c). \<forall>j < length (fst c).
     arp_good (ae_ipaddr (fst c ! i)) \<longrightarrow> ae_ipaddr (fst c ! i) = ae_ipaddr (fst c ! j) \<longrightarrow> i = j)"

definition arp_look :: "arp_entry list \<times> u8 \<Rightarrow> ipaddr \<Rightarrow> u8 list option" where
  "arp_look c a = map_option (\<lambda>i. ae_ethaddr (fst c ! i)) (first_idx (\<lambda>e. ae_ipaddr e = a) (fst c))"

definition arp_store :: "ipaddr \<Rightarrow> u8 list \<Rightarrow> arp_entry list \<times> u8 \<Rightarrow> arp_entry list \<times> u8" where
  "arp_store a mac c = (arp_update a mac (snd c) (fst c), snd c)"

definition arp_tick :: "arp_entry list \<times> u8 \<Rightarrow> arp_entry list \<times> u8" where
  "arp_tick c = (arp_expire (snd c + 1) (fst c), snd c + 1)"

text \<open>Where an address that occurs once is found.\<close>

definition arp_slot :: "u8 \<Rightarrow> ipaddr \<Rightarrow> arp_entry list \<Rightarrow> nat" where
  "arp_slot now ip t = (case first_idx (\<lambda>e. arp_in_use e \<and> ae_ipaddr e = ip) t of Some i \<Rightarrow> i
     | None \<Rightarrow> (case first_idx arp_free t of Some i \<Rightarrow> i | None \<Rightarrow> arp_oldest now t 0 0 0))"

lemma arp_oldest_less: "c < i \<or> t \<noteq> [] \<and> c \<le> i \<Longrightarrow> arp_oldest now t i a c < i + length t"
proof (induction now t i a c rule: arp_oldest.induct)
  case (2 now e es i tmpage c)
  then show ?case by (cases es) auto
qed auto

lemma arp_slot_less: "t \<noteq> [] \<Longrightarrow> arp_slot now ip t < length t"
  using arp_oldest_less [of 0 0 t now 0]
  by (auto simp: arp_slot_def split: option.split dest: first_idx_SomeD)

lemma in_use_good: "arp_in_use e \<longleftrightarrow> arp_good (ae_ipaddr e)"
  by (simp add: arp_in_use_def arp_good_def)

lemma arp_update_eq:
  "arp_update ip mac now t = t[arp_slot now ip t := \<lparr>ae_ipaddr = ip, ae_ethaddr = mac, ae_time = now\<rparr>]"
proof -
  have *: "(\<lambda>e. arp_in_use e \<and> fst ip = fst (ae_ipaddr e) \<and> snd ip = snd (ae_ipaddr e)) =
      (\<lambda>e. arp_in_use e \<and> ae_ipaddr e = ip)"
    by (auto simp: prod_eq_iff)
  have upd: "e\<lparr>ae_ethaddr := mac, ae_time := now\<rparr> = \<lparr>ae_ipaddr = ip, ae_ethaddr = mac, ae_time = now\<rparr>"
    if "ae_ipaddr e = ip" for e :: arp_entry
    using that by (cases e) simp
  show ?thesis
    unfolding arp_update_def * arp_slot_def
    by (auto simp: Let_def upd split: option.split dest!: first_idx_SomeD(2))
qed

lemma arp_slot_unique:
  assumes "arp_inv (t, n)" and "arp_good ip" and "i < length t" and "ae_ipaddr (t ! i) = ip"
  shows "i = arp_slot now ip t"
proof -
  have "arp_in_use (t ! i) \<and> ae_ipaddr (t ! i) = ip" using assms by (simp add: in_use_good)
  then obtain j where j: "first_idx (\<lambda>e. arp_in_use e \<and> ae_ipaddr e = ip) t = Some j"
    using first_idx_exists [of "t ! i" t "\<lambda>e. arp_in_use e \<and> ae_ipaddr e = ip"] assms(3) by auto
  have "j < length t" "ae_ipaddr (t ! j) = ip" using first_idx_SomeD(1,2) [OF j] by auto
  with assms have "i = j" by (auto simp: arp_inv_def)
  then show ?thesis by (simp add: arp_slot_def j)
qed

text \<open>A new entry keeps the addresses \<open>P\<close> holds of unique if it holds of its own only where no other slot has it.\<close>

lemma unique_update:
  assumes old: "\<And>i k. i < length t \<Longrightarrow> k < length t \<Longrightarrow> P (f (t ! i)) \<Longrightarrow> f (t ! i) = f (t ! k) \<Longrightarrow> i = k"
    and new: "\<And>i. P (f e) \<Longrightarrow> i < length t \<Longrightarrow> i \<noteq> j \<Longrightarrow> f (t ! i) \<noteq> f e" and j: "j < length t"
    and ik: "i < length t" "k < length t" "P (f (t[j := e] ! i))" "f (t[j := e] ! i) = f (t[j := e] ! k)"
  shows "i = k"
proof (cases "i = j")
  case True
  then show ?thesis using new [of k] ik j by (cases "k = j") auto
next
  case False
  then show ?thesis using new [of i] old [of i k] ik j by (cases "k = j") auto
qed

lemma arp_inv_store: "arp_inv c \<Longrightarrow> arp_inv (arp_store ip mac c)"
proof -
  assume inv: "arp_inv c"
  obtain t n where c: "c = (t, n)" by fastforce
  let ?e = "\<lparr>ae_ipaddr = ip, ae_ethaddr = mac, ae_time = n\<rparr>"
  have j: "arp_slot n ip t < length t" using inv c by (simp add: arp_slot_less arp_inv_def)
  have new: "ae_ipaddr (t ! i) \<noteq> ae_ipaddr ?e" if "arp_good (ae_ipaddr ?e)" "i < length t" "i \<noteq> arp_slot n ip t" for i
    using arp_slot_unique [of t n ip i n] that inv c by auto
  define t' where "t' = t[arp_slot n ip t := ?e]"
  have uniq: "i = k" if "i < length t" "k < length t" "arp_good (ae_ipaddr (t' ! i))"
      "ae_ipaddr (t' ! i) = ae_ipaddr (t' ! k)" for i k
    by (rule unique_update [where f = ae_ipaddr and P = arp_good, OF _ _ j that [unfolded t'_def]])
      (use inv new in \<open>auto simp: arp_inv_def c\<close>)
  have "length t' = length t" "t' \<noteq> []" using inv by (auto simp: t'_def arp_inv_def c)
  then have "arp_inv (t', n)" unfolding arp_inv_def fst_conv using uniq by metis
  then show ?thesis by (simp add: arp_store_def c arp_update_eq t'_def)
qed

lemma arp_look_Some:
  assumes "arp_inv c" and "arp_good a" and "i < length (fst c)" and "ae_ipaddr (fst c ! i) = a"
  shows "arp_look c a = Some (ae_ethaddr (fst c ! i))"
proof -
  obtain j where j: "first_idx (\<lambda>e. ae_ipaddr e = a) (fst c) = Some j"
    using first_idx_exists [of "fst c ! i" "fst c" "\<lambda>e. ae_ipaddr e = a"] assms(3,4) by auto
  from first_idx_SomeD(1,2) [OF j] assms have "j = i" by (auto simp: arp_inv_def)
  then show ?thesis by (simp add: arp_look_def j)
qed

lemma arp_look_None: "arp_look c a = None \<longleftrightarrow> (\<forall>i < length (fst c). ae_ipaddr (fst c ! i) \<noteq> a)"
  by (simp add: arp_look_def first_idx_None all_set_conv_all_nth)

lemma arp_look_kept:
  assumes inv: "arp_inv c" and good: "arp_good a" and len: "length (fst c') = length (fst c)" and inv': "arp_inv c'"
    and kept: "\<And>i. i < length (fst c) \<Longrightarrow> ae_ipaddr (fst c' ! i) = a \<Longrightarrow> fst c ! i = fst c' ! i"
  shows "arp_look c' a = arp_look c a \<or> arp_look c' a = None"
proof (cases "arp_look c' a = None")
  case False
  then obtain i where i: "i < length (fst c)" "ae_ipaddr (fst c' ! i) = a"
    unfolding arp_look_None using len by auto
  with kept have "ae_ipaddr (fst c ! i) = a" by simp
  with i kept arp_look_Some [OF inv good i(1)] arp_look_Some [OF inv' good, of i] len show ?thesis by simp
qed simp

lemma arp_look_store: "arp_inv c \<Longrightarrow> arp_good a \<Longrightarrow> arp_look (arp_store a mac c) a = Some mac"
proof -
  assume inv: "arp_inv c" and good: "arp_good a"
  have "arp_slot (snd c) a (fst c) < length (fst c)" using inv by (simp add: arp_slot_less arp_inv_def)
  with arp_look_Some [OF arp_inv_store [OF inv, of a mac] good, of "arp_slot (snd c) a (fst c)"]
  show ?thesis by (simp add: arp_store_def arp_update_eq)
qed

lemma arp_inv_tick: "arp_inv c \<Longrightarrow> arp_inv (arp_tick c)"
proof -
  have zero: "\<not> arp_good (0, 0)" by (simp add: arp_good_def)
  assume "arp_inv c"
  then show ?thesis
    unfolding arp_inv_def arp_tick_def arp_expire_def
    by (auto simp: zero split: if_splits)
qed

interpretation arp: address_cache arp_inv arp_good arp_look arp_store arp_tick
proof
  fix c :: "arp_entry list \<times> u8" and k k' :: ipaddr and v :: "u8 list"
  assume inv: "arp_inv c"
  show "arp_inv (arp_tick c)" using inv by (rule arp_inv_tick)
  show "arp_inv (arp_store k v c)" by (rule arp_inv_store [OF inv])
  have slot: "arp_slot (snd c) k (fst c) < length (fst c)" using inv by (simp add: arp_slot_less arp_inv_def)
  {
    assume good': "arp_good k'" and "k' \<noteq> k"
    then show "arp_look (arp_store k v c) k' = arp_look c k' \<or> arp_look (arp_store k v c) k' = None"
      by (intro arp_look_kept inv arp_inv_store)
        (auto simp: arp_store_def arp_update_eq nth_list_update slot split: if_splits)
  }
  assume good: "arp_good k"
  show "arp_look (arp_store k v c) k = Some v" by (rule arp_look_store [OF inv good])
  show "arp_look (arp_tick c) k = arp_look c k \<or> arp_look (arp_tick c) k = None"
    using good by (intro arp_look_kept inv arp_inv_tick)
      (auto simp: arp_tick_def arp_expire_def arp_good_def split: if_splits)
qed

section \<open>Properties of the cache\<close>

text \<open>
  C27. The cache never invents or keeps an outdated Ethernet address: after any history of
  updates, for whatever addresses, and timer ticks, the Ethernet address found for a host is the one stored last for this
  host, whatever was evicted in between. The host is one whose address has no zero half, that is, neither its first two bytes
  nor its last two are zero; the table is one where such an address occurs at most once, as it does when it is empty.
\<close>

theorem arp_never_stale:
  assumes "arp_inv c" and "arp_good k" and "arp_look (cache_run arp_store arp_tick evs c) k = Some mac"
  shows "last_stored evs k = Some mac \<or> last_stored evs k = None \<and> arp_look c k = Some mac"
  using assms by (rule arp.never_stale)

definition sample_arp :: "arp_entry list \<times> u8" where
  "sample_arp = ([\<lparr>ae_ipaddr = (0, 0), ae_ethaddr = [], ae_time = 0\<rparr>,
     \<lparr>ae_ipaddr = (0, 0), ae_ethaddr = [], ae_time = 0\<rparr>], 7)"

theorem arp_never_stale_witness:
  "last_stored [Some ((1, 2), [1]), None, Some ((5, 0), [2]), Some ((5, 0), [4]), Some ((1, 2), [3])] ((1, 2) :: ipaddr) = Some ([3] :: u8 list)"
proof -
  let ?evs = "[Some ((1, 2), [1]), None, Some ((5, 0), [2]), Some ((5, 0), [4]), Some ((1, 2), [3])] :: (ipaddr \<times> u8 list) option list"
  have inv: "arp_inv sample_arp" "arp_good (1, 2)"
    by (auto simp: sample_arp_def arp_inv_def arp_good_def nth_Cons')
  have "arp_look (cache_run arp_store arp_tick ?evs sample_arp) (1, 2) = Some [3]"
    by (simp add: sample_arp_def arp_store_def arp_tick_def arp_update_def arp_expire_def
        arp_in_use_def arp_free_def arp_age_def arp_look_def)
  from arp_never_stale [OF inv this] show ?thesis by simp
qed

text \<open>
  An address with a zero half is stored, but its entry counts as unused when it is stored again: the second
  entry stands behind the first, which is the one that is found.
\<close>

lemma zero_half_stale: "arp_look (cache_run arp_store arp_tick [Some ((5, 0), [1]), Some ((5, 0), [2])] sample_arp) (5, 0) = Some [1]"
  by (simp add: sample_arp_def arp_store_def arp_update_def arp_in_use_def arp_free_def arp_look_def)

text \<open>
  The aging of entries depends on when they were stored, because the age is computed
  without wrapping while the clock wraps at 256: an entry stored at time 135 or earlier is
  dropped at exactly 120 ticks of age, but an entry stored later is never dropped, however often
  the timer runs.
\<close>

theorem arp_expiry:
  assumes "fst (ae_ipaddr e) OR snd (ae_ipaddr e) \<noteq> 0"
  shows "(unat (ae_time e) \<le> 135 \<longrightarrow> (arp_expire now [e] = [e\<lparr>ae_ipaddr := (0, 0)\<rparr>] \<longleftrightarrow> 120 + unat (ae_time e) \<le> unat now)) \<and>
    (135 < unat (ae_time e) \<longrightarrow> arp_expire now [e] = [e])"
proof -
  have "e\<lparr>ae_ipaddr := (0, 0)\<rparr> \<noteq> e"
  proof
    assume "e\<lparr>ae_ipaddr := (0, 0)\<rparr> = e"
    from arg_cong [OF this, of ae_ipaddr] have "ae_ipaddr e = (0, 0)" by simp
    with assms show False by simp
  qed
  moreover have "120 \<le> arp_age now e \<longleftrightarrow> 120 + unat (ae_time e) \<le> unat now"
    unfolding arp_age_def by linarith
  moreover have "135 < unat (ae_time e) \<Longrightarrow> \<not> 120 + unat (ae_time e) \<le> unat now"
    using unat_u8_le [of now] by linarith
  ultimately show ?thesis
    using assms by (auto simp: arp_expire_def)
qed

theorem arp_expiry_witness:
  "arp_expire 255 [\<lparr>ae_ipaddr = (1, 2), ae_ethaddr = [], ae_time = 136\<rparr>] =
     [\<lparr>ae_ipaddr = (1, 2), ae_ethaddr = [], ae_time = 136\<rparr>]"
  using arp_expiry [of "\<lparr>ae_ipaddr = (1, 2), ae_ethaddr = [], ae_time = 136\<rparr>" 255] by simp

section \<open>Packets\<close>

lemma six_bytes: "length e = 6 \<Longrightarrow> \<exists>a b c d f g. e = [a, b, c, d, f, g]"
  by (auto simp: length_Suc_conv eval_nat_numeral)

lemma rds_6: "rds b p 6 = [b p, b (p + 1), b (p + 2), b (p + 3), b (p + 4), b (p + 5)]"
  by (simp add: rds_def upt_rec eval_nat_numeral)

lemma arp_reply_fields:
  assumes "length e = 6"
  shows "rd16 (arp_reply_packet h e b) 20 = htons 2" "rd16 (arp_reply_packet h e b) 12 = htons 0x0806"
    "rds (arp_reply_packet h e b) 0 6 = rds b 22 6" "rds (arp_reply_packet h e b) 6 6 = e"
    "rds (arp_reply_packet h e b) 22 6 = e" "rdip (arp_reply_packet h e b) 28 = h"
    "rds (arp_reply_packet h e b) 32 6 = rds b 22 6" "rdip (arp_reply_packet h e b) 38 = rdip b 28"
proof -
  obtain e1 e2 e3 e4 e5 e6 where e: "e = [e1, e2, e3, e4, e5, e6]" using six_bytes [OF assms] by blast
  show "rd16 (arp_reply_packet h e b) 20 = htons 2" "rd16 (arp_reply_packet h e b) 12 = htons 0x0806"
    "rds (arp_reply_packet h e b) 0 6 = rds b 22 6" "rds (arp_reply_packet h e b) 6 6 = e"
    "rds (arp_reply_packet h e b) 22 6 = e" "rdip (arp_reply_packet h e b) 28 = h"
    "rds (arp_reply_packet h e b) 32 6 = rds b 22 6" "rdip (arp_reply_packet h e b) 38 = rdip b 28"
    by (simp_all add: e arp_reply_packet_def Let_def rds_6 rd16_def rdip_def wrip_def wr16_def)
qed

text \<open>
  An ARP request for the address of this host is answered in place: the reply is addressed
  to the requester, maps our address to our Ethernet address, and the requester is
  remembered in the cache.
\<close>

theorem arp_request_answered:
  assumes len: "42 \<le> uip_len s" and hook: "auto_in (s\<lparr>uip_len := 0\<rparr>) = s\<lparr>uip_len := 0\<rparr>"
    and req: "rd16 (uip_buf s) 20 = htons 1" and us: "rdip (uip_buf s) 38 = uip_hostaddr s"
    and eth: "length (uip_ethaddr s) = 6"
    and inv: "arp_inv (arp_table s, arptime s)" and good: "arp_good (rdip (uip_buf s) 28)"
  shows "let s' = uip_arp_arpin auto_in s; b = uip_buf s' in
    uip_len s' = 42 \<and> rd16 b 20 = htons 2 \<and> rd16 b 12 = htons 0x0806 \<and>
    rds b 0 6 = rds (uip_buf s) 22 6 \<and> rds b 6 6 = uip_ethaddr s \<and>
    rds b 22 6 = uip_ethaddr s \<and> rdip b 28 = uip_hostaddr s \<and>
    rds b 32 6 = rds (uip_buf s) 22 6 \<and> rdip b 38 = rdip (uip_buf s) 28 \<and>
    arp_look (arp_table s', arptime s') (rdip (uip_buf s) 28) = Some (rds (uip_buf s) 22 6)"
proof -
  have in_eq: "uip_arp_arpin auto_in s = (uip_arp_update (rdip (uip_buf s) 28) (rds (uip_buf s) 22 6) (s\<lparr>uip_len := 0\<rparr>))
     \<lparr>uip_buf := arp_reply_packet (uip_hostaddr s) (uip_ethaddr s) (uip_buf s), uip_len := 42\<rparr>"
    using len req us by (simp add: uip_arp_arpin_def hook Let_def not_less [symmetric])
  show ?thesis
    using arp_reply_fields [OF eth] arp_look_store [OF inv good, of "rds (uip_buf s) 22 6"]
    by (simp add: in_eq Let_def uip_arp_update_def arp_store_def)
qed

definition sample_arp_st :: "mem \<Rightarrow> u16 \<Rightarrow> arp_st" where
  "sample_arp_st b n = \<lparr>uip_buf = b, uip_appdata = 0, uip_sappdata = 0, uip_len = n, uip_slen = 0, uip_flags = 0,
     uip_conn = None, uip_conns = [], uip_listenports = [], uip_udp_listenports = [], uip_udp_conn = None,
     uip_udp_conns = [], ipid = 0, iss = (0, 0, 0, 0), lastport = 0, uip_hostaddr = (0xa8c0, 0x0102),
     uip_draddr = (0xa8c0, 0x0101), uip_netmask = (0xffff, 0x00ff), uip_ethaddr = [0, 0x22, 0x97, 1, 2, 3], mac_min_frame = 60,
     arp_table = fst sample_arp, arptime = snd sample_arp\<rparr>"

text \<open>A request or reply (by its opcode) from the given address to the sample host.\<close>

definition sample_arp_packet :: "u16 \<Rightarrow> ipaddr \<Rightarrow> mem" where
  "sample_arp_packet opcode from = wr16 20 (htons opcode) (wrs 22 [6, 5, 4, 3, 2, 1] (wrip 28 from
     (wrip 38 (0xa8c0, 0x0102) (\<lambda>_. 0))))"

lemma sample_arp_packet_fields:
  "rd16 (sample_arp_packet p a) 20 = htons p" "rdip (sample_arp_packet p a) 38 = (0xa8c0, 0x0102)"
  "rdip (sample_arp_packet p a) 28 = a" "rds (sample_arp_packet p a) 22 6 = [6, 5, 4, 3, 2, 1]"
  by (simp_all add: sample_arp_packet_def rds_6 rd16_def rdip_def wrip_def wr16_def)

theorem arp_request_answered_witness:
  "let s' = uip_arp_arpin (\<lambda>u. u) (sample_arp_st (sample_arp_packet 1 (0xa8c0, 0x0302)) 60) in
     uip_len s' = 42 \<and> rds (uip_buf s') 0 6 = [6, 5, 4, 3, 2, 1] \<and> rds (uip_buf s') 22 6 = [0, 0x22, 0x97, 1, 2, 3]"
proof -
  let ?s = "sample_arp_st (sample_arp_packet 1 (0xa8c0, 0x0302)) 60"
  have inv: "arp_inv (arp_table ?s, arptime ?s)"
    by (auto simp: sample_arp_st_def sample_arp_def arp_inv_def arp_good_def nth_Cons')
  have "arp_good (rdip (uip_buf ?s) 28)"
    by (simp add: sample_arp_st_def sample_arp_packet_fields arp_good_def)
  from arp_request_answered [of ?s "\<lambda>u. u", OF _ refl _ _ _ inv this]
  show ?thesis by (simp add: sample_arp_st_def sample_arp_packet_fields Let_def)
qed

section \<open>Outgoing packets\<close>

lemma eth_header_fields:
  assumes "length d = 6" and "length e = 6"
  shows "rds (eth_header d e b) 0 6 = d" "rds (eth_header d e b) 6 6 = e"
    "rd16 (eth_header d e b) 12 = htons 0x0800" "14 \<le> i \<Longrightarrow> eth_header d e b i = b i"
proof -
  obtain d1 d2 d3 d4 d5 d6 where d: "d = [d1, d2, d3, d4, d5, d6]" using six_bytes [OF assms(1)] by blast
  obtain e1 e2 e3 e4 e5 e6 where e: "e = [e1, e2, e3, e4, e5, e6]" using six_bytes [OF assms(2)] by blast
  show "rds (eth_header d e b) 0 6 = d" "rds (eth_header d e b) 6 6 = e"
    "rd16 (eth_header d e b) 12 = htons 0x0800"
    by (simp_all add: d e eth_header_def rds_6 rd16_def wr16_def)
  show "14 \<le> i \<Longrightarrow> eth_header d e b i = b i"
    by (simp add: d e eth_header_def wr16_def)
qed

lemma arp_request_fields:
  assumes "length e = 6"
  shows "rd16 (arp_request_packet d h e b) 20 = htons 1" "rd16 (arp_request_packet d h e b) 12 = htons 0x0806"
    "rds (arp_request_packet d h e b) 0 6 = replicate 6 0xff" "rds (arp_request_packet d h e b) 6 6 = e"
    "rds (arp_request_packet d h e b) 22 6 = e" "rdip (arp_request_packet d h e b) 28 = h"
    "rdip (arp_request_packet d h e b) 38 = d"
proof -
  obtain e1 e2 e3 e4 e5 e6 where e: "e = [e1, e2, e3, e4, e5, e6]" using six_bytes [OF assms] by blast
  have ff: "replicate 6 (v :: u8) = [v, v, v, v, v, v]" for v by (simp add: eval_nat_numeral)
  show "rd16 (arp_request_packet d h e b) 20 = htons 1" "rd16 (arp_request_packet d h e b) 12 = htons 0x0806"
    "rds (arp_request_packet d h e b) 0 6 = replicate 6 0xff" "rds (arp_request_packet d h e b) 6 6 = e"
    "rds (arp_request_packet d h e b) 22 6 = e" "rdip (arp_request_packet d h e b) 28 = h"
    "rdip (arp_request_packet d h e b) 38 = d"
    by (simp_all add: e ff arp_request_packet_def Let_def rds_6 rd16_def rdip_def wrip_def wr16_def)
qed

lemma udp_mark_sel [simp]:
  "uip_buf (udp_mark f c s) = uip_buf s" "uip_len (udp_mark f c s) = uip_len s"
  "uip_conns (udp_mark f c s) = uip_conns s" "uip_hostaddr (udp_mark f c s) = uip_hostaddr s"
  by (simp_all add: udp_mark_def split: option.split)

definition to_neighbour :: "'a uip_st_scheme \<Rightarrow> bool" where
  "to_neighbour s \<longleftrightarrow> rdip (uip_buf s) B_destipaddr \<noteq> all_ones_addr \<and>
     \<not> uip_ipaddr_is_multicast (rdip (uip_buf s) B_destipaddr)"

lemma arp_out_miss:
  assumes "to_neighbour s" and "arp_look (arp_table s, n) (next_hop s) = None"
  shows "uip_arp_out conn s = udp_mark UDP_PENDING_ARP conn
    (s\<lparr>uip_buf := arp_request_packet (next_hop s) (uip_hostaddr s) (uip_ethaddr s) (uip_buf s),
       uip_appdata := 54, uip_len := 42\<rparr>)"
proof -
  have "first_idx (\<lambda>e. uip_ipaddr_cmp (next_hop s) (ae_ipaddr e)) (arp_table s) = None"
    using assms(2) by (auto simp: arp_look_def first_idx_None)
  with assms(1) show ?thesis by (simp add: uip_arp_out_def to_neighbour_def Let_def)
qed

lemma arp_out_hit:
  assumes "to_neighbour s" and "arp_look (arp_table s, n) (next_hop s) = Some mac"
  shows "uip_arp_out conn s = udp_mark UDP_SENT conn
    (s\<lparr>uip_buf := eth_header mac (uip_ethaddr s) (uip_buf s), uip_len := uip_len s + 14\<rparr>)"
proof -
  have "first_idx (\<lambda>e. uip_ipaddr_cmp (next_hop s) (ae_ipaddr e)) (arp_table s) =
      first_idx (\<lambda>e. ae_ipaddr e = next_hop s) (arp_table s)"
    by (simp add: eq_commute [of "next_hop s"])
  with assms show ?thesis
    unfolding uip_arp_out_def Let_def by (auto simp: to_neighbour_def arp_look_def simp del: uip_ipaddr_cmp_eq)
      (auto)
qed

text \<open>
  C26. Address resolution works end to end. A packet for a neighbour whose Ethernet address is not
  cached is replaced by a broadcast ARP request for the next hop, the destination itself or the
  default router. When the reply of that host arrives, it is remembered; and the packet, sent
  again, leaves with an IP Ethernet header that carries the replied address, its own
  bytes untouched and its length grown by the header.
\<close>

theorem arp_resolution:
  assumes eth: "length (uip_ethaddr s) = 6" and dest: "to_neighbour s"
    and good: "arp_good (next_hop s)" and inv: "arp_inv (arp_table s, arptime s)"
    and miss: "arp_look (arp_table s, arptime s) (next_hop s) = None"
    and reply: "rd16 p 20 = htons 2" "rdip p 38 = uip_hostaddr s" "rdip p 28 = next_hop s"
    and hook: "auto_in (s\<lparr>uip_buf := p, uip_len := 0\<rparr>) = s\<lparr>uip_buf := p, uip_len := 0\<rparr>" and len: "42 \<le> n"
  shows "let q = uip_arp_out conn s;
      r = uip_arp_arpin auto_in (s\<lparr>uip_buf := p, uip_len := n\<rparr>);
      s' = uip_arp_out conn (r\<lparr>uip_buf := uip_buf s, uip_len := uip_len s\<rparr>) in
    uip_len q = 42 \<and> rd16 (uip_buf q) 20 = htons 1 \<and> rds (uip_buf q) 0 6 = replicate 6 0xff \<and>
    rdip (uip_buf q) 38 = next_hop s \<and> rdip (uip_buf q) 28 = uip_hostaddr s \<and>
    rds (uip_buf q) 22 6 = uip_ethaddr s \<and> uip_len r = 0 \<and>
    rds (uip_buf s') 0 6 = rds p 22 6 \<and> rds (uip_buf s') 6 6 = uip_ethaddr s \<and>
    rd16 (uip_buf s') 12 = htons 0x0800 \<and> (\<forall>i. 14 \<le> i \<longrightarrow> uip_buf s' i = uip_buf s i) \<and>
    uip_len s' = uip_len s + 14"
proof -
  let ?r = "uip_arp_update (next_hop s) (rds p 22 6) (s\<lparr>uip_buf := p, uip_len := 0\<rparr>)"
  let ?t = "?r\<lparr>uip_buf := uip_buf s, uip_len := uip_len s\<rparr>"
  have r: "uip_arp_arpin auto_in (s\<lparr>uip_buf := p, uip_len := n\<rparr>) = ?r"
    using len reply by (simp add: uip_arp_arpin_def hook Let_def not_less [symmetric] htons_def)
  have t: "next_hop ?t = next_hop s" "to_neighbour ?t = to_neighbour s" "uip_ethaddr ?t = uip_ethaddr s"
    by (simp_all add: next_hop_def to_neighbour_def uip_arp_update_def)
  have "arp_look (arp_table ?t, arptime s) (next_hop ?t) = Some (rds p 22 6)"
    using arp_look_store [OF inv good, of "rds p 22 6"]
    unfolding t by (simp add: uip_arp_update_def arp_store_def)
  from arp_out_hit [OF _ this, of conn] dest t
  have "uip_arp_out conn ?t = udp_mark UDP_SENT conn
      (?t\<lparr>uip_buf := eth_header (rds p 22 6) (uip_ethaddr s) (uip_buf s), uip_len := uip_len s + 14\<rparr>)"
    by (simp only: t) simp
  then show ?thesis
    unfolding r Let_def arp_out_miss [OF dest miss]
    by (simp add: arp_request_fields [OF eth] eth_header_fields [OF _ eth] uip_arp_update_def)
qed

theorem arp_resolution_witness:
  "let s = sample_arp_st (wrip 30 (0xa8c0, 0x0302) (\<lambda>_. 0)) 100;
      r = uip_arp_arpin (\<lambda>u. u) (s\<lparr>uip_buf := sample_arp_packet 2 (0xa8c0, 0x0302), uip_len := 60\<rparr>);
      s' = uip_arp_out None (r\<lparr>uip_buf := uip_buf s, uip_len := uip_len s\<rparr>) in
   rds (uip_buf s') 0 6 = [6, 5, 4, 3, 2, 1] \<and> uip_len s' = 114"
proof -
  let ?s = "sample_arp_st (wrip 30 (0xa8c0, 0x0302) (\<lambda>_. 0)) 100"
  have d: "rdip (uip_buf ?s) 30 = (0xa8c0, 0x0302)"
    by (simp add: sample_arp_st_def rdip_def wrip_def rd16_def wr16_def)
  then have hop: "next_hop ?s = (0xa8c0, 0x0302)"
    by (simp add: next_hop_def uip_ipaddr_maskcmp_def) (simp add: sample_arp_st_def)
  have nb: "to_neighbour ?s" unfolding to_neighbour_def d by (simp add: uip_ipaddr_is_multicast_def)
  have inv: "arp_inv (arp_table ?s, arptime ?s)"
    by (auto simp: sample_arp_st_def sample_arp_def arp_inv_def arp_good_def nth_Cons')
  have miss: "arp_look (arp_table ?s, arptime ?s) (next_hop ?s) = None"
    unfolding hop by (simp add: sample_arp_st_def sample_arp_def arp_look_def)
  let ?p = "sample_arp_packet 2 (0xa8c0, 0x0302)"
  have host: "uip_hostaddr ?s = (0xa8c0, 0x0102)" "length (uip_ethaddr ?s) = 6" "uip_len ?s + 14 = 114"
    by (simp_all add: sample_arp_st_def)
  have p: "rd16 ?p 20 = htons 2" "rdip ?p 38 = uip_hostaddr ?s" "rdip ?p 28 = next_hop ?s" "arp_good (next_hop ?s)"
    "(42 :: u16) \<le> 60"
    by (simp_all only: host hop sample_arp_packet_fields) (simp_all add: arp_good_def)
  show ?thesis
    using arp_resolution [of ?s ?p "\<lambda>u. u" 60 None, OF host(2) nb p(4) inv miss p(1-3) refl p(5)]
    unfolding Let_def host(3) sample_arp_packet_fields(4) by (elim conjE) (intro conjI)
qed

text \<open>
  The Ethernet address of a multicast group keeps only four bits of the third octet and all eight of
  the second, so it is the one of RFC 1112 (the low 23 bits of the group) only for some groups.
\<close>

lemma and_mask_eq: "x AND mask n = x \<longleftrightarrow> unat x < 2 ^ n" for x :: u8
proof -
  have "x AND mask n = x \<longleftrightarrow> take_bit n (unat x) = unat x"
    by (simp only: word_unat_eq_iff take_bit_eq_mask [symmetric] unsigned_take_bit_eq)
  then show ?thesis by (simp only: take_bit_nat_eq_self_iff)
qed

theorem multicast_mac_rfc1112:
  "multicast_mac (mk_ipaddr 224 b c d) = [0x01, 0x00, 0x5e, b AND 0x7f, c, d] \<longleftrightarrow> unat b < 128 \<and> unat c < 16"
proof -
  have lo: "lo8 (le16 c d AND 0xf) = c AND 0xf"
  proof -
    have "lo8 (le16 c d AND mask 4) = c AND mask 4"
      by (rule bit_word_eqI) (auto simp: lo8_def le16_def bit_simps)
    then show ?thesis by (simp add: mask_eq_exp_minus_1)
  qed
  have "b = b AND 0x7f \<longleftrightarrow> unat b < 128" "c AND 0xf = c \<longleftrightarrow> unat c < 16"
    using and_mask_eq [of b 7] and_mask_eq [of c 4] by (auto simp: mask_eq_exp_minus_1)
  then show ?thesis by (simp add: multicast_mac_def mk_ipaddr_le16 lo)
qed

end
