(* ===== verification/Autoip.thy ===== *)
theory Autoip
  imports Uip_Arp
begin

text \<open>
  \<^verbatim>\<open>autoip/autoip.c\<close>: the choice of an IPv4 link-local address (RFC 3927) by probing and
  announcing. The clock reading is an argument of the operations, and so is the callback
  \<^verbatim>\<open>autoip_configured\<close> of \<^verbatim>\<open>uip_server_support.c\<close>. The counters are unbounded integers: none of them
  comes near the limit of a 32-bit integer except the number of conflicts after two thousand million ARP
  packets within one attempt.
\<close>

section \<open>State\<close>

datatype autoip_machine_state =
  DISABLED | NO_ADDRESS | WAIT_FOR_PROBE | PROBING | WAIT_FOR_ANNOUNCE | ANNOUNCING | CONFIGURED

record autoip_state =
  ai_state :: autoip_machine_state
  ai_probes_sent :: int
  ai_announces_sent :: int
  ai_num_conflicts :: int
  ai_limit_rate :: bool
  ai_rand :: u32
  ai_seed :: u32
  ai_timer :: uip_timer
  ai_ipaddr :: ipaddr

record autoip_st = arp_st +
  autoip :: autoip_state

abbreviation (input) "PROBE_NUM \<equiv> 3 :: int"
abbreviation (input) "ANNOUNCE_NUM \<equiv> 2 :: int"
abbreviation (input) "MAX_CONFLICTS \<equiv> 10 :: int"

abbreviation upd_ai :: "(autoip_state \<Rightarrow> autoip_state) \<Rightarrow> 'a autoip_st_scheme \<Rightarrow> 'a autoip_st_scheme" where
  "upd_ai f s \<equiv> s\<lparr>autoip := f (autoip s)\<rparr>"

section \<open>Operations\<close>

definition autoip_rand :: "autoip_state \<Rightarrow> autoip_state" where
  "autoip_rand a = a\<lparr>ai_rand := 1664525 * ai_rand a + 1013904223\<rparr>"

definition autoip_init :: "u32 \<Rightarrow> 'a autoip_st_scheme \<Rightarrow> 'a autoip_st_scheme" where
  "autoip_init seed = upd_ai (\<lambda>a. a\<lparr>ai_state := DISABLED, ai_probes_sent := 0, ai_announces_sent := 0,
     ai_num_conflicts := 0, ai_limit_rate := False, ai_seed := seed, ai_rand := seed\<rparr>)"

text \<open>
  The product is computed with 32 bits before it is widened to \<^verbatim>\<open>long long\<close> and shifted.
\<close>

definition random_timer_set :: "u32 \<Rightarrow> u32 \<Rightarrow> u32 \<Rightarrow> autoip_state \<Rightarrow> autoip_state" where
  "random_timer_set now lo hi a0 =
     (let a = autoip_rand a0;
          x = drop_bit 32 (uint (ai_rand a * (hi - lo)))
      in a\<lparr>ai_timer := timer_set now (lo + of_int x)\<rparr>)"

definition autoip_arp_pkt :: "u8 list" where
  "autoip_arp_pkt = replicate 6 0xff @ replicate 6 0 @ [0x08, 0x06, 0x00, 0x01, 0x08, 0x00, 6, 4, 0x00, 0x01] @
     replicate 20 0"

definition create_arp_packet :: "'a uip_st_scheme \<Rightarrow> 'a uip_st_scheme" where
  "create_arp_packet s =
     s\<lparr>uip_buf := wrs 22 (uip_ethaddr s) (wrs 6 (uip_ethaddr s) (wrs 0 autoip_arp_pkt (uip_buf s))),
       uip_appdata := 54, uip_len := ARP_HDR_LEN\<rparr>"

definition send_probe :: "u32 \<Rightarrow> 'a autoip_st_scheme \<Rightarrow> 'a autoip_st_scheme" where
  "send_probe now s0 =
     (let s = bputip 38 (ai_ipaddr (autoip s0)) (create_arp_packet s0)
      in upd_ai (\<lambda>a. random_timer_set now (1 * CLOCK_SECOND) (2 * CLOCK_SECOND)
           (a\<lparr>ai_probes_sent := ai_probes_sent a + 1\<rparr>)) s)"

definition send_announce :: "u32 \<Rightarrow> 'a autoip_st_scheme \<Rightarrow> 'a autoip_st_scheme" where
  "send_announce now s0 =
     (let s = bputip 28 (ai_ipaddr (autoip s0)) (bputip 38 (ai_ipaddr (autoip s0)) (create_arp_packet s0))
      in upd_ai (\<lambda>a. a\<lparr>ai_announces_sent := ai_announces_sent a + 1,
           ai_timer := timer_set now (2 * CLOCK_SECOND)\<rparr>) s)"

definition autoip_periodic ::
  "(ipaddr \<Rightarrow> 'a autoip_st_scheme \<Rightarrow> 'a autoip_st_scheme) \<Rightarrow> u32 \<Rightarrow> 'a autoip_st_scheme \<Rightarrow> 'a autoip_st_scheme" where
  "autoip_periodic autoip_configured now s = (let a = autoip s in case ai_state a of
     DISABLED \<Rightarrow> s
   | NO_ADDRESS \<Rightarrow>
       (if \<not> ai_limit_rate a \<or> timer_expired now (ai_timer a) then
          (let a = autoip_rand a;
               r1 = ucast (ai_rand a AND 0xff);
               r2 = ucast (drop_bit 8 (ai_rand a AND 0xff00));
               a = a\<lparr>ai_ipaddr := mk_ipaddr 169 254 r1 r2, ai_state := WAIT_FOR_PROBE\<rparr>
           in s\<lparr>autoip := random_timer_set now 0 (1 * CLOCK_SECOND) a\<rparr>)
        else s)
   | WAIT_FOR_PROBE \<Rightarrow>
       (if timer_expired now (ai_timer a)
        then send_probe now (upd_ai (\<lambda>a. a\<lparr>ai_state := PROBING\<rparr>) s) else s)
   | PROBING \<Rightarrow>
       (if timer_expired now (ai_timer a) then
          (if ai_probes_sent a = PROBE_NUM
           then upd_ai (\<lambda>a. a\<lparr>ai_state := WAIT_FOR_ANNOUNCE, ai_timer := timer_set now (2 * CLOCK_SECOND)\<rparr>) s
           else send_probe now s)
        else s)
   | WAIT_FOR_ANNOUNCE \<Rightarrow>
       (if timer_expired now (ai_timer a) then
          (if ai_num_conflicts a = 0
           then send_announce now (upd_ai (\<lambda>a. a\<lparr>ai_state := ANNOUNCING\<rparr>) s)
           else
             (let a = a\<lparr>ai_state := NO_ADDRESS, ai_probes_sent := 0, ai_announces_sent := 0, ai_num_conflicts := 0\<rparr>;
                  a = a\<lparr>ai_limit_rate := ai_limit_rate a \<or> MAX_CONFLICTS < ai_num_conflicts a\<rparr>
              in s\<lparr>autoip := a\<lparr>ai_timer := timer_set now (60 * CLOCK_SECOND)\<rparr>\<rparr>))
        else s)
   | ANNOUNCING \<Rightarrow>
       (let s = send_announce now s in
        if ai_announces_sent (autoip s) = ANNOUNCE_NUM
        then autoip_configured (ai_ipaddr (autoip s)) (upd_ai (\<lambda>a. a\<lparr>ai_state := CONFIGURED\<rparr>) s)
        else s)
   | CONFIGURED \<Rightarrow> s)"

definition autoip_arp_in :: "'a autoip_st_scheme \<Rightarrow> 'a autoip_st_scheme" where
  "autoip_arp_in s =
     (if ai_state (autoip s) \<in> {WAIT_FOR_PROBE, PROBING, WAIT_FOR_ANNOUNCE} \<and>
         uip_ipaddr_cmp (rdip (uip_buf s) 28) (ai_ipaddr (autoip s))
      then upd_ai (\<lambda>a. a\<lparr>ai_num_conflicts := ai_num_conflicts a + 1\<rparr>) s else s)"

definition autoip_start :: "'a autoip_st_scheme \<Rightarrow> 'a autoip_st_scheme" where
  "autoip_start s = (if ai_state (autoip s) = DISABLED
     then upd_ai (\<lambda>a. (autoip_rand a)\<lparr>ai_state := NO_ADDRESS\<rparr>) (autoip_init (ai_seed (autoip s)) s) else s)"

definition autoip_stop :: "'a autoip_st_scheme \<Rightarrow> 'a autoip_st_scheme" where
  "autoip_stop = upd_ai (\<lambda>a. a\<lparr>ai_state := DISABLED\<rparr>)"

section \<open>Reachable states\<close>

text \<open>
  The states the operations lead to, with the list of the senders of ARP packets that were heard
  since the current candidate address was picked and until it is announced. The rest of the server may
  change everything but the state of this component between two operations.
\<close>

definition listening_phase :: "autoip_state \<Rightarrow> bool" where
  "listening_phase a \<longleftrightarrow> ai_state a \<in> {WAIT_FOR_PROBE, PROBING, WAIT_FOR_ANNOUNCE}"

inductive autoip_reach ::
  "(ipaddr \<Rightarrow> 'a autoip_st_scheme \<Rightarrow> 'a autoip_st_scheme) \<Rightarrow> ipaddr list \<Rightarrow> 'a autoip_st_scheme \<Rightarrow> bool"
  for conf where
    init: "autoip_reach conf [] (autoip_init seed s)"
  | start: "autoip_reach conf h s \<Longrightarrow> autoip_reach conf h (autoip_start s)"
  | stop: "autoip_reach conf h s \<Longrightarrow> autoip_reach conf h (autoip_stop s)"
  | periodic: "autoip_reach conf h s \<Longrightarrow>
      autoip_reach conf (if ai_state (autoip s) = NO_ADDRESS then [] else h) (autoip_periodic conf now s)"
  | arp: "autoip_reach conf h s \<Longrightarrow>
      autoip_reach conf (if listening_phase (autoip s) then rdip (uip_buf s) 28 # h else h) (autoip_arp_in s)"
  | other: "autoip_reach conf h s \<Longrightarrow> autoip s' = autoip s \<Longrightarrow> autoip_reach conf h s'"

definition link_local :: "ipaddr \<Rightarrow> bool" where
  "link_local a \<longleftrightarrow> fst a = le16 169 254"

definition autoip_inv :: "ipaddr list \<Rightarrow> autoip_state \<Rightarrow> bool" where
  "autoip_inv h a \<longleftrightarrow> \<not> ai_limit_rate a \<and>
     (case ai_state a of
        DISABLED \<Rightarrow> True
      | NO_ADDRESS \<Rightarrow> ai_probes_sent a = 0 \<and> ai_announces_sent a = 0 \<and> ai_num_conflicts a = 0
      | WAIT_FOR_PROBE \<Rightarrow> link_local (ai_ipaddr a) \<and> ai_probes_sent a = 0 \<and> ai_announces_sent a = 0 \<and>
          ai_num_conflicts a = int (count_list h (ai_ipaddr a))
      | PROBING \<Rightarrow> link_local (ai_ipaddr a) \<and> 1 \<le> ai_probes_sent a \<and> ai_probes_sent a \<le> 3 \<and>
          ai_announces_sent a = 0 \<and> ai_num_conflicts a = int (count_list h (ai_ipaddr a))
      | WAIT_FOR_ANNOUNCE \<Rightarrow> link_local (ai_ipaddr a) \<and> ai_probes_sent a = 3 \<and> ai_announces_sent a = 0 \<and>
          ai_num_conflicts a = int (count_list h (ai_ipaddr a))
      | ANNOUNCING \<Rightarrow> link_local (ai_ipaddr a) \<and> ai_probes_sent a = 3 \<and> ai_announces_sent a = 1 \<and>
          ai_ipaddr a \<notin> set h
      | CONFIGURED \<Rightarrow> link_local (ai_ipaddr a) \<and> ai_probes_sent a = 3 \<and> ai_announces_sent a = 2 \<and>
          ai_ipaddr a \<notin> set h)"

lemma random_timer_simps [simp]:
  "ai_state (random_timer_set now lo hi a) = ai_state a" "ai_probes_sent (random_timer_set now lo hi a) = ai_probes_sent a"
  "ai_announces_sent (random_timer_set now lo hi a) = ai_announces_sent a"
  "ai_num_conflicts (random_timer_set now lo hi a) = ai_num_conflicts a"
  "ai_limit_rate (random_timer_set now lo hi a) = ai_limit_rate a" "ai_ipaddr (random_timer_set now lo hi a) = ai_ipaddr a"
  "ai_seed (random_timer_set now lo hi a) = ai_seed a"
  by (simp_all add: random_timer_set_def autoip_rand_def Let_def)

text \<open>The random delay is always its lower bound: nothing is left of a 32-bit product after the shift.\<close>

lemma random_timer_fixed: "ai_timer (random_timer_set now lo hi a) = timer_set now lo"
proof -
  have "drop_bit 32 (uint x) = 0" for x :: u32
    using uint_bounded [of x] by (simp add: drop_bit_eq_div)
  then show ?thesis by (simp add: random_timer_set_def Let_def)
qed

lemma create_arp_packet_autoip [simp]: "autoip (create_arp_packet s) = autoip s"
  by (simp add: create_arp_packet_def)

lemma count_list_zero: "count_list xs x = 0 \<longleftrightarrow> x \<notin> set xs"
  by (simp add: count_list_0_iff)

lemma autoip_inv_periodic:
  assumes inv: "autoip_inv h (autoip s)" and conf: "\<And>a u. autoip (conf a u) = autoip u"
  shows "autoip_inv (if ai_state (autoip s) = NO_ADDRESS then [] else h) (autoip (autoip_periodic conf now s))"
  using inv
  by (cases "ai_state (autoip s)")
    (auto simp: autoip_periodic_def Let_def autoip_inv_def conf send_probe_def send_announce_def link_local_def
      mk_ipaddr_le16 autoip_rand_def count_list_zero)

lemma autoip_inv_arp_in:
  assumes "autoip_inv h (autoip s)"
  shows "autoip_inv (if listening_phase (autoip s) then rdip (uip_buf s) 28 # h else h) (autoip (autoip_arp_in s))"
  using assms
  by (cases "ai_state (autoip s)") (auto simp: autoip_arp_in_def autoip_inv_def listening_phase_def)

section \<open>Progress\<close>

definition autoip_run ::
  "(ipaddr \<Rightarrow> 'a autoip_st_scheme \<Rightarrow> 'a autoip_st_scheme) \<Rightarrow> u32 list \<Rightarrow> 'a autoip_st_scheme \<Rightarrow> 'a autoip_st_scheme" where
  "autoip_run conf ts s = fold (autoip_periodic conf) ts s"

text \<open>Between two readings of the clock at least the longest delay, two seconds, passes.\<close>

fun spaced :: "u32 \<Rightarrow> u32 list \<Rightarrow> bool" where
  "spaced t [] = True"
| "spaced t (u # us) = (2000 \<le> sint (u - t) \<and> spaced u us)"

lemma expired_after: "2000 \<le> sint (u - t) \<Longrightarrow> sint d \<le> 2000 \<Longrightarrow> timer_expired u (timer_set t d)"
  by (simp add: timer_expired_def timer_set_def)

text \<open>The address that the generator picks in state \<open>NO_ADDRESS\<close>.\<close>

definition picked_address :: "autoip_state \<Rightarrow> ipaddr" where
  "picked_address a = (let r = ai_rand (autoip_rand a)
     in mk_ipaddr 169 254 (ucast (r AND 0xff)) (ucast (drop_bit 8 (r AND 0xff00))))"

definition autoip_at :: "autoip_machine_state \<Rightarrow> int \<Rightarrow> int \<Rightarrow> ipaddr \<Rightarrow> u32 \<Rightarrow> u32 \<Rightarrow> autoip_state \<Rightarrow> bool" where
  "autoip_at st probes announces ip now d a \<longleftrightarrow> ai_state a = st \<and> ai_probes_sent a = probes \<and>
     ai_announces_sent a = announces \<and> ai_num_conflicts a = 0 \<and> ai_ipaddr a = ip \<and> ai_timer a = timer_set now d"

lemma autoip_steps:
  assumes "2000 \<le> sint (u - now)"
  shows "autoip_at WAIT_FOR_PROBE 0 0 ip now 0 (autoip s) \<Longrightarrow>
      autoip_at PROBING 1 0 ip u 1000 (autoip (autoip_periodic conf u s))"
    "autoip_at PROBING p 0 ip now 1000 (autoip s) \<Longrightarrow> p \<noteq> 3 \<Longrightarrow>
      autoip_at PROBING (p + 1) 0 ip u 1000 (autoip (autoip_periodic conf u s))"
    "autoip_at PROBING 3 0 ip now 1000 (autoip s) \<Longrightarrow>
      autoip_at WAIT_FOR_ANNOUNCE 3 0 ip u 2000 (autoip (autoip_periodic conf u s))"
    "autoip_at WAIT_FOR_ANNOUNCE 3 0 ip now 2000 (autoip s) \<Longrightarrow>
      autoip_at ANNOUNCING 3 1 ip u 2000 (autoip (autoip_periodic conf u s))"
  using expired_after [OF assms, of 0] expired_after [OF assms, of 1000] expired_after [OF assms, of 2000]
  by (simp_all add: autoip_at_def autoip_periodic_def Let_def send_probe_def send_announce_def random_timer_fixed)

lemma autoip_announced:
  assumes "autoip_at ANNOUNCING 3 1 ip now 2000 (autoip s)"
  shows "autoip_periodic conf u s = conf ip (upd_ai (\<lambda>a. a\<lparr>ai_state := CONFIGURED\<rparr>) (send_announce u s))"
  using assms by (simp add: autoip_at_def autoip_periodic_def Let_def send_announce_def)

lemma autoip_picks:
  assumes "autoip_inv h (autoip s)" and "ai_state (autoip s) = NO_ADDRESS"
  shows "autoip_at WAIT_FOR_PROBE 0 0 (picked_address (autoip s)) u 0 (autoip (autoip_periodic conf u s))"
  using assms
  by (simp add: autoip_at_def autoip_periodic_def Let_def autoip_inv_def random_timer_fixed picked_address_def)
    (simp add: autoip_rand_def)

section \<open>What the component promises to its client\<close>

text \<open>
  The client is told the configured address by a callback; the callback must leave the state of
  this component alone.
\<close>

locale autoip_client =
  fixes conf :: "ipaddr \<Rightarrow> 'a autoip_st_scheme \<Rightarrow> 'a autoip_st_scheme"
  assumes conf_keeps: "autoip (conf a u) = autoip u"
begin

lemma reach_inv: "autoip_reach conf h s \<Longrightarrow> autoip_inv h (autoip s)"
proof (induction rule: autoip_reach.induct)
  case (periodic h s now)
  then show ?case by (intro autoip_inv_periodic conf_keeps)
next
  case (arp h s)
  then show ?case by (intro autoip_inv_arp_in)
qed (auto simp: autoip_inv_def autoip_init_def autoip_start_def autoip_stop_def autoip_rand_def)

text \<open>
  An address is announced and used only after three probes, and only if no ARP packet that was heard
  since it was picked came from it.
\<close>

lemma claims_free_address:
  assumes reach: "autoip_reach conf heard s"
    and claimed: "ai_state (autoip s) = ANNOUNCING \<or> ai_state (autoip s) = CONFIGURED"
  shows "ai_ipaddr (autoip s) \<notin> set heard \<and> ai_probes_sent (autoip s) = 3 \<and> link_local (ai_ipaddr (autoip s))"
  using reach_inv [OF reach] claimed by (auto simp: autoip_inv_def)

text \<open>Without conflicts, seven calls that are far enough apart lead from no address to a configured one.\<close>

lemma configures:
  assumes reach: "autoip_reach conf heard s" and start: "ai_state (autoip s) = NO_ADDRESS" and times: "spaced t1 [t2, t3, t4, t5, t6, t7]"
  shows "\<exists>s6. autoip_run conf [t1, t2, t3, t4, t5, t6, t7] s =
      conf (picked_address (autoip s)) (upd_ai (\<lambda>a. a\<lparr>ai_state := CONFIGURED\<rparr>) (send_announce t7 s6)) \<and>
    ai_state (autoip (autoip_run conf [t1, t2, t3, t4, t5, t6, t7] s)) = CONFIGURED \<and>
    link_local (picked_address (autoip s))"
proof -
  let ?ip = "picked_address (autoip s)" and ?f = "autoip_periodic conf"
  have gaps: "2000 \<le> sint (t2 - t1)" "2000 \<le> sint (t3 - t2)" "2000 \<le> sint (t4 - t3)" "2000 \<le> sint (t5 - t4)"
    "2000 \<le> sint (t6 - t5)" using times by auto
  have "autoip_at WAIT_FOR_PROBE 0 0 ?ip t1 0 (autoip (?f t1 s))"
    by (rule autoip_picks [OF reach_inv [OF reach] start])
  from autoip_steps(1) [OF gaps(1) this]
  have "autoip_at PROBING 1 0 ?ip t2 1000 (autoip (?f t2 (?f t1 s)))" .
  from autoip_steps(2) [OF gaps(2) this]
  have "autoip_at PROBING 2 0 ?ip t3 1000 (autoip (?f t3 (?f t2 (?f t1 s))))" by simp
  from autoip_steps(2) [OF gaps(3) this]
  have "autoip_at PROBING 3 0 ?ip t4 1000 (autoip (?f t4 (?f t3 (?f t2 (?f t1 s)))))" by simp
  from autoip_steps(4) [OF gaps(5) autoip_steps(3) [OF gaps(4) this]]
  have ann: "autoip_at ANNOUNCING 3 1 ?ip t6 2000 (autoip (?f t6 (?f t5 (?f t4 (?f t3 (?f t2 (?f t1 s)))))))" .
  show ?thesis
    by (rule exI [of _ "?f t6 (?f t5 (?f t4 (?f t3 (?f t2 (?f t1 s)))))"])
      (simp add: autoip_run_def autoip_announced [OF ann] conf_keeps link_local_def picked_address_def Let_def mk_ipaddr_le16)
qed

end

end
