(* ===== verification/Igmp.thy ===== *)
theory Igmp
  imports Autoip
begin

text \<open>
  \<^verbatim>\<open>igmp/igmp.c\<close>: membership in multicast groups (IGMP version 2): the table of groups, the reports
  and leave messages, the answer to queries and the filter \<^verbatim>\<open>igmp_check_addr\<close> that
  \<^verbatim>\<open>uip_process\<close> applies to multicast destinations.
\<close>

section \<open>State\<close>

datatype igmp_state = NON_MEMBER | PENDING_JOIN | DELAYED_MEMBER | IDLE_MEMBER | PENDING_LEAVE

record igmp_group =
  ig_state :: igmp_state
  ig_addr :: ipaddr
  ig_flag :: bool
  ig_timer :: uip_timer

record igmp_st = autoip_st +
  igmp_groups :: "igmp_group list"
  igmp_ipid :: u16
  allgroups_ipaddr :: ipaddr
  leavegroup_ipaddr :: ipaddr

abbreviation (input) "IGMP_MEMBERSHIP_QUERY \<equiv> 0x11 :: u8"
abbreviation (input) "IGMP_MEMBERSHIP_REPORT \<equiv> 0x16 :: u8"
abbreviation (input) "IGMP_LEAVE_GROUP \<equiv> 0x17 :: u8"

definition upd_group :: "nat \<Rightarrow> (igmp_group \<Rightarrow> igmp_group) \<Rightarrow> 'a igmp_st_scheme \<Rightarrow> 'a igmp_st_scheme" where
  "upd_group i f s = s\<lparr>igmp_groups := (igmp_groups s)[i := f (igmp_groups s ! i)]\<rparr>"

section \<open>Operations\<close>

definition igmp_init :: "'a igmp_st_scheme \<Rightarrow> 'a igmp_st_scheme" where
  "igmp_init s = s\<lparr>igmp_groups := map (\<lambda>g. g\<lparr>ig_state := NON_MEMBER\<rparr>) (igmp_groups s),
     allgroups_ipaddr := mk_ipaddr 224 0 0 1, leavegroup_ipaddr := mk_ipaddr 224 0 0 2\<rparr>"

text \<open>The packet: Ethernet and IP header, the router alert option at 34, the message at 38.\<close>

definition igmp_header :: "ipaddr \<Rightarrow> ipaddr \<Rightarrow> u8 list \<Rightarrow> u16 \<Rightarrow> mem \<Rightarrow> mem" where
  "igmp_header dest host eth id' b0 =
     (let b = wrs 0 (multicast_mac dest) b0;
          b = wrs 6 eth b;
          b = wrip 30 dest b;
          b = wrip 26 host b;
          b = wr16 12 (htons 0x0800) b;
          b = b(14 := 0x46, 15 := 0, 16 := 0, 17 := 32, 18 := hi8 id', 19 := lo8 id', 20 := 0, 21 := 0,
                22 := 1, 23 := 2);
          b = wr16 24 0 b
      in b(34 := 0x94, 35 := 0x04, 36 := 0x00, 37 := 0x00))"

definition create_igmp_msg :: "u8 \<Rightarrow> ipaddr \<Rightarrow> ipaddr \<Rightarrow> 'a igmp_st_scheme \<Rightarrow> 'a igmp_st_scheme" where
  "create_igmp_msg msgtype dest_addr group_addr s =
     (let b = igmp_header dest_addr (uip_hostaddr s) (uip_ethaddr s) (igmp_ipid s) (uip_buf s);
          checksum = uip_chksum b 14 24;
          checksum = (if checksum = 0 then 0xffff else checksum);
          b = wr16 24 (NOT checksum) b;
          b = b(38 := msgtype, 39 := 0);
          checksum = ucast (b 38);
          checksum = checksum + fst group_addr;
          checksum = checksum + snd group_addr;
          b = wr16 40 (NOT checksum) b;
          b = wrip 42 group_addr b
      in s\<lparr>uip_buf := b, uip_len := 46, igmp_ipid := igmp_ipid s + 1\<rparr>)"

definition send_membership_report :: "nat \<Rightarrow> 'a igmp_st_scheme \<Rightarrow> 'a igmp_st_scheme" where
  "send_membership_report i s =
     create_igmp_msg IGMP_MEMBERSHIP_REPORT (ig_addr (igmp_groups s ! i)) (ig_addr (igmp_groups s ! i)) s"

definition send_leave_group :: "nat \<Rightarrow> 'a igmp_st_scheme \<Rightarrow> 'a igmp_st_scheme" where
  "send_leave_group i s = create_igmp_msg IGMP_LEAVE_GROUP (leavegroup_ipaddr s) (ig_addr (igmp_groups s ! i)) s"

definition igmp_group_periodic :: "u32 \<Rightarrow> nat \<Rightarrow> 'a igmp_st_scheme \<Rightarrow> 'a igmp_st_scheme" where
  "igmp_group_periodic now i s = (let g = igmp_groups s ! i in case ig_state g of
     NON_MEMBER \<Rightarrow> s
   | IDLE_MEMBER \<Rightarrow> s
   | PENDING_JOIN \<Rightarrow>
       upd_group i (\<lambda>g. g\<lparr>ig_flag := True, ig_state := DELAYED_MEMBER, ig_timer := timer_set now (10 * CLOCK_SECOND)\<rparr>)
         (send_membership_report i s)
   | DELAYED_MEMBER \<Rightarrow>
       (if timer_expired now (ig_timer g)
        then upd_group i (\<lambda>g. g\<lparr>ig_flag := True, ig_state := IDLE_MEMBER\<rparr>) (send_membership_report i s)
        else s)
   | PENDING_LEAVE \<Rightarrow>
       (let s = (if ig_flag g then send_leave_group i s else s)
        in upd_group i (\<lambda>g. g\<lparr>ig_state := NON_MEMBER\<rparr>) s))"

fun igmp_periodic_loop :: "u32 \<Rightarrow> nat \<Rightarrow> nat \<Rightarrow> 'a igmp_st_scheme \<Rightarrow> 'a igmp_st_scheme" where
  "igmp_periodic_loop now i 0 s = s"
| "igmp_periodic_loop now i (Suc k) s =
     (let s = igmp_group_periodic now i s in if 0 < uip_len s then s else igmp_periodic_loop now (i + 1) k s)"

definition igmp_periodic :: "u32 \<Rightarrow> 'a igmp_st_scheme \<Rightarrow> 'a igmp_st_scheme" where
  "igmp_periodic now s = igmp_periodic_loop now 0 (length (igmp_groups s)) s"

text \<open>
  \<^verbatim>\<open>chksum\<close> is 16 bits wide, but its complement is taken after promotion to \<^verbatim>\<open>int\<close> and compared with
  an unsigned 16-bit field.
\<close>

definition igmp_checksum_valid :: "mem \<Rightarrow> bool" where
  "igmp_checksum_valid b =
     (let chksum = push_bit 8 (ucast (b 39)) OR ucast (b 38);
          chksum = chksum + rd16 b 42;
          chksum = (chksum + rd16 b 44 :: u16)
      in int (unat (rd16 b 40)) = NOT (int (unat chksum)))"

definition igmp_in :: "u32 \<Rightarrow> 'a igmp_st_scheme \<Rightarrow> 'a igmp_st_scheme" where
  "igmp_in now s =
     (let b = uip_buf s;
          addr = rdip b 42;
          s' = (if b 38 = IGMP_MEMBERSHIP_QUERY then
                  (let to_all_groups = uip_ipaddr_cmp addr (allgroups_ipaddr s) in
                   if igmp_checksum_valid b then
                     s\<lparr>igmp_groups := map (\<lambda>g.
                         if (ig_state g = IDLE_MEMBER \<or> ig_state g = DELAYED_MEMBER) \<and>
                            (to_all_groups \<or> uip_ipaddr_cmp addr (ig_addr g))
                         then g\<lparr>ig_state := DELAYED_MEMBER,
                                ig_timer := timer_set now (drop_bit 5 (ucast (b 39)) * CLOCK_SECOND)\<rparr>
                         else g) (igmp_groups s)\<rparr>
                   else s)
                else if b 38 = IGMP_MEMBERSHIP_REPORT then
                  (if igmp_checksum_valid b then
                     s\<lparr>igmp_groups := map (\<lambda>g.
                         if ig_state g = DELAYED_MEMBER \<and> uip_ipaddr_cmp addr (ig_addr g)
                         then g\<lparr>ig_state := IDLE_MEMBER, ig_flag := False\<rparr> else g) (igmp_groups s)\<rparr>
                   else s)
                else s)
      in s'\<lparr>uip_len := 0\<rparr>)"

definition igmp_join_group :: "ipaddr \<Rightarrow> 'a igmp_st_scheme \<Rightarrow> 'a igmp_st_scheme" where
  "igmp_join_group addr s = (case first_idx (\<lambda>g. ig_state g = NON_MEMBER) (igmp_groups s) of
     None \<Rightarrow> s
   | Some i \<Rightarrow> upd_group i (\<lambda>g. g\<lparr>ig_addr := addr, ig_state := PENDING_JOIN\<rparr>) s)"

definition igmp_match :: "ipaddr \<Rightarrow> igmp_group \<Rightarrow> bool" where
  "igmp_match addr g \<longleftrightarrow>
     ig_state g = IDLE_MEMBER \<or> ig_state g = DELAYED_MEMBER \<and> uip_ipaddr_cmp addr (ig_addr g)"

definition igmp_leave_group :: "ipaddr \<Rightarrow> 'a igmp_st_scheme \<Rightarrow> 'a igmp_st_scheme" where
  "igmp_leave_group addr s = s\<lparr>igmp_groups :=
     map (\<lambda>g. if igmp_match addr g then g\<lparr>ig_state := PENDING_LEAVE\<rparr> else g) (igmp_groups s)\<rparr>"

definition igmp_check_addr :: "'a igmp_st_scheme \<Rightarrow> ipaddr \<Rightarrow> bool" where
  "igmp_check_addr s addr \<longleftrightarrow> list_ex (igmp_match addr) (igmp_groups s)"

section \<open>Messages\<close>

lemma igmp_header_eq:
  assumes "length eth = 6"
  shows "wr16 24 0 (igmp_header dest host eth n b) = igmp_header dest host eth n b"
proof -
  obtain e1 e2 e3 e4 e5 e6 where e: "eth = [e1, e2, e3, e4, e5, e6]" using six_bytes [OF assms] by blast
  show ?thesis
    by (rule ext) (simp add: e igmp_header_def Let_def wr16_def wrip_def multicast_mac_def)
qed

lemma htons_0: "htons 0 = 0"
  by (simp add: htons_def)

lemma htons_eq_0: "htons w = 0 \<longleftrightarrow> w = 0"
  by (metis htons_0 htons_htons)

lemma igmp_ip_checksum:
  fixes b :: mem
  assumes z: "wr16 24 0 b = b"
  defines "cs \<equiv> if uip_chksum b 14 24 = 0 then 0xffff else uip_chksum b 14 24"
  shows "65535 dvd be_sum (rds (wr16 24 (NOT cs) b) 14 24)"
proof -
  have sm: "unat (chksum 0 b 14 24) = fold16 (be_sum (rds b 14 24))" by (simp add: unat_chksum)
  have "cs = check_value (chksum 0 b 14 24)"
    by (simp add: cs_def uip_chksum_def check_value_def htons_eq_0)
  with checksum_complement [OF sm] be_sum_field [of 24 14 5 24 "NOT cs" b] z show ?thesis by simp
qed

text \<open>
  The checksum of the message is summed with 16 bits and without the end-around carry.
\<close>

lemma unat_htons: "unat (htons v) = unat (hi8 v) + 256 * unat (lo8 v)"
  using htons_le16 [of "lo8 v" "hi8 v"] by (simp add: unat_le16)

lemma unat_lo_hi: "unat v = unat (lo8 v) + 256 * unat (hi8 v)" for v :: u16
  by (metis le16_lo8_hi8 unat_le16)

lemma be_sum_words:
  "be_sum (rds b 38 8) = unat (htons (rd16 b 38)) + unat (htons (rd16 b 40)) +
     unat (htons (rd16 b 42)) + unat (htons (rd16 b 44))"
proof -
  have "rds b 38 8 = [b 38, b 39, b 40, b 41, b 42, b 43, b 44, b 45]"
    by (simp add: rds_def upt_rec eval_nat_numeral)
  then show ?thesis by (simp add: unat_le16 rd16_def)
qed

lemma dvd_swap_sum:
  fixes v w x y :: u16
  shows "65535 dvd unat (htons v) + unat (htons w) + unat (htons x) + unat (htons y) \<longleftrightarrow>
    65535 dvd unat v + unat w + unat x + unat y"
proof -
  have swap: "256 * unat (htons v) = unat v + 65535 * unat (lo8 v)" for v
    using unat_htons [of v] unat_lo_hi [of v] by linarith
  let ?s = "unat (htons v) + unat (htons w) + unat (htons x) + unat (htons y)"
  let ?k = "unat (lo8 v) + unat (lo8 w) + unat (lo8 x) + unat (lo8 y)"
  have eq: "256 * ?s = (unat v + unat w + unat x + unat y) + 65535 * ?k"
    unfolding distrib_left swap by (simp only: ac_simps)
  have "65535 dvd s \<longleftrightarrow> 65535 dvd 256 * s" for s :: nat
  proof
    assume "65535 dvd 256 * s"
    then have "65535 dvd 256 * (256 * s)" by (rule dvd_mult)
    moreover have "256 * (256 * s) = s + 65535 * s" by simp
    ultimately show "65535 dvd s" by (simp only: dvd_add_times_triv_right_iff dvd_add_left_iff dvd_triv_left)
  qed (rule dvd_mult)
  from this [of ?s] show ?thesis unfolding eq by (simp only: dvd_add_left_iff dvd_triv_left)
qed

lemma carry_sum:
  fixes m g h :: u16
  shows "65535 dvd unat m + unat (NOT (m + g + h)) + unat g + unat h \<longleftrightarrow> unat m + unat g + unat h < 65536"
proof -
  let ?t = "unat m + unat g + unat h"
  have sum: "unat (m + g + h) = ?t mod 65536"
    by (simp add: unat_word_ariths mod_simps)
  have q: "?t = 65536 * (?t div 65536) + ?t mod 65536" by simp
  have le: "?t mod 65536 \<le> 65535" using mod_less_divisor [of 65536 ?t] by linarith
  have "unat m + unat (NOT (m + g + h)) + unat g + unat h = (?t div 65536 + 65535 * (?t div 65536)) + 65535 * 1"
    using q le unfolding unat_not16 sum by linarith
  then have "65535 dvd unat m + unat (NOT (m + g + h)) + unat g + unat h \<longleftrightarrow> 65535 dvd ?t div 65536"
    by (simp only: dvd_add_left_iff dvd_triv_left)
  moreover have "?t < 3 * 65536" using unat_u16_le [of m] unat_u16_le [of g] unat_u16_le [of h] by linarith
  then have "?t div 65536 < 3" by (rule less_mult_imp_div_less)
  ultimately show ?thesis
    by (auto simp: div_eq_0_iff dest: dvd_imp_le)
qed

lemma create_igmp_msg_sel [simp]:
  "uip_len (create_igmp_msg mt d g s) = 46" "igmp_groups (create_igmp_msg mt d g s) = igmp_groups s"
  "leavegroup_ipaddr (create_igmp_msg mt d g s) = leavegroup_ipaddr s"
  "uip_hostaddr (create_igmp_msg mt d g s) = uip_hostaddr s" "uip_conns (create_igmp_msg mt d g s) = uip_conns s"
  by (simp_all add: create_igmp_msg_def Let_def)

text \<open>
  Every IGMP message has an IP header with the router alert option, time to live 1 and a
  correct header checksum, the addresses and the type it should have; but the checksum of the
  message itself is correct exactly when the sum of its words does not overflow 16 bits,
  because the carry is not added back.
\<close>

theorem igmp_message:
  fixes s :: "'a igmp_st_scheme"
  assumes "length (uip_ethaddr s) = 6"
  defines "b \<equiv> \<lambda>mt dest g. uip_buf (create_igmp_msg mt dest g s)"
  shows "65535 dvd be_sum (rds (b mt dest g) 14 24) \<and> rdip (b mt dest g) 30 = dest \<and>
    rdip (b mt dest g) 26 = uip_hostaddr s \<and> b mt dest g 22 = 1 \<and> b mt dest g 38 = mt \<and> rdip (b mt dest g) 42 = g \<and>
    rds (b mt dest g) 0 6 = multicast_mac dest \<and>
    (65535 dvd be_sum (rds (b mt dest g) 38 8) \<longleftrightarrow> unat mt + unat (fst g) + unat (snd g) < 65536)"
proof -
  let ?h = "igmp_header dest (uip_hostaddr s) (uip_ethaddr s) (igmp_ipid s) (uip_buf s)"
  define cs where "cs = (if uip_chksum ?h 14 24 = 0 then 0xffff else uip_chksum ?h 14 24)"
  define m where "m = NOT (ucast mt + fst g + snd g :: u16)"
  have b: "b mt dest g = wrip 42 g (wr16 40 m ((wr16 24 (NOT cs) ?h)(38 := mt, 39 := 0)))"
    by (simp add: b_def create_igmp_msg_def Let_def cs_def m_def)
  have low: "b mt dest g i = wr16 24 (NOT cs) ?h i" if "i < 38" for i
    using that by (simp add: b wrip_def wr16_def)
  have "rds (b mt dest g) 14 24 = rds (wr16 24 (NOT cs) ?h) 14 24"
    by (rule rds_cong) (simp add: low)
  then have ip: "65535 dvd be_sum (rds (b mt dest g) 14 24)"
    using igmp_ip_checksum [OF igmp_header_eq [OF assms(1)]] by (simp add: cs_def)
  obtain e1 e2 e3 e4 e5 e6 where e: "uip_ethaddr s = [e1, e2, e3, e4, e5, e6]" using six_bytes [OF assms(1)] by blast
  have fields: "rdip (b mt dest g) 30 = dest" "rdip (b mt dest g) 26 = uip_hostaddr s" "b mt dest g 22 = 1"
    "rds (b mt dest g) 0 6 = multicast_mac dest"
    by (simp_all add: rdip_def rd16_def rds_6 low)
      (simp_all add: igmp_header_def Let_def e wr16_def wrip_def multicast_mac_def)
  have msg: "b mt dest g 38 = mt" "rdip (b mt dest g) 42 = g"
    by (simp_all add: b wrip_def wr16_def rdip_def rd16_def)
  have words: "rd16 (b mt dest g) 38 = ucast mt" "rd16 (b mt dest g) 40 = m"
    "rd16 (b mt dest g) 42 = fst g" "rd16 (b mt dest g) 44 = snd g"
    by (simp_all add: b wrip_def wr16_def rd16_def) (simp add: le16_def)
  have "unat (ucast mt :: u16) = unat mt" by simp
  then have "65535 dvd be_sum (rds (b mt dest g) 38 8) \<longleftrightarrow> unat mt + unat (fst g) + unat (snd g) < 65536"
    using carry_sum [of "ucast mt" "fst g" "snd g"]
    unfolding be_sum_words dvd_swap_sum words m_def by simp
  with ip fields msg show ?thesis by simp
qed

section \<open>Queries\<close>

lemma igmp_checksum_never_valid: "\<not> igmp_checksum_valid b"
proof -
  have "int n \<noteq> NOT (int k)" for n k by (simp add: not_int_def)
  then show ?thesis by (simp only: igmp_checksum_valid_def Let_def not_False_eq_True)
qed

text \<open>
  No IGMP packet has any effect on the groups: the checksum test compares a 16-bit field with
  a negative number, so queries are never answered and reports of other hosts never
  suppress our own.
\<close>

theorem igmp_in_ignored: "igmp_in now s = s\<lparr>uip_len := 0\<rparr>"
  by (simp add: igmp_in_def igmp_checksum_never_valid Let_def)

text \<open>
  Leaving one group leaves all groups that are idle members, and the multicast filter accepts every
  address as soon as one group is an idle member: the address is compared for delayed members only.
\<close>

theorem igmp_idle_member_unchecked:
  assumes "i < length (igmp_groups s)" and "ig_state (igmp_groups s ! i) = IDLE_MEMBER"
  shows "igmp_check_addr s addr \<and> ig_state (igmp_groups (igmp_leave_group addr s) ! i) = PENDING_LEAVE"
  using assms nth_mem [OF assms(1)]
  by (auto simp: igmp_check_addr_def igmp_match_def igmp_leave_group_def list_ex_iff
      intro: bexI [of _ "igmp_groups s ! i"])

definition sample_igmp :: "igmp_state list \<Rightarrow> igmp_st" where
  "sample_igmp sts = \<lparr>uip_buf = (\<lambda>_. 0), uip_appdata = 0, uip_sappdata = 0, uip_len = 0, uip_slen = 0, uip_flags = 0,
     uip_conn = None, uip_conns = [], uip_listenports = [], uip_udp_listenports = [], uip_udp_conn = None,
     uip_udp_conns = [], ipid = 0, iss = (0, 0, 0, 0), lastport = 0, uip_hostaddr = (0xa8c0, 0x0102),
     uip_draddr = (0, 0), uip_netmask = (0xffff, 0x00ff), uip_ethaddr = [0, 0x22, 0x97, 1, 2, 3], mac_min_frame = 60,
     arp_table = fst sample_arp, arptime = 0,
     autoip = \<lparr>ai_state = DISABLED, ai_probes_sent = 0, ai_announces_sent = 0, ai_num_conflicts = 0, ai_limit_rate = False,
       ai_rand = 0, ai_seed = 0, ai_timer = zero_timer, ai_ipaddr = (0, 0)\<rparr>,
     igmp_groups = map (\<lambda>st. \<lparr>ig_state = st, ig_addr = mk_ipaddr 239 255 255 250, ig_flag = False, ig_timer = zero_timer\<rparr>) sts,
     igmp_ipid = 0, allgroups_ipaddr = mk_ipaddr 224 0 0 1, leavegroup_ipaddr = mk_ipaddr 224 0 0 2\<rparr>"

theorem igmp_message_witness:
  "let g = mk_ipaddr 239 255 255 250; b = uip_buf (create_igmp_msg 0x16 g g (sample_igmp [])) in
     65535 dvd be_sum (rds b 14 24) \<and> rdip b 42 = g \<and> \<not> 65535 dvd be_sum (rds b 38 8)"
proof -
  let ?g = "mk_ipaddr 239 255 255 250"
  have "\<not> unat (0x16 :: u8) + unat (fst ?g) + unat (snd ?g) < 65536"
    by (simp add: mk_ipaddr_le16 unat_le16)
  moreover have "length (uip_ethaddr (sample_igmp [])) = 6" by (simp add: sample_igmp_def)
  ultimately show ?thesis using igmp_message [of "sample_igmp []" "0x16" ?g ?g] unfolding Let_def by blast
qed

theorem igmp_idle_member_unchecked_witness:
  "igmp_check_addr (sample_igmp [NON_MEMBER, IDLE_MEMBER]) (mk_ipaddr 224 0 0 9) \<and>
   ig_state (igmp_groups (igmp_leave_group (mk_ipaddr 224 0 0 9) (sample_igmp [NON_MEMBER, IDLE_MEMBER])) ! 1) = PENDING_LEAVE"
  by (rule igmp_idle_member_unchecked) (simp_all add: sample_igmp_def)

section \<open>Every join is reported\<close>

text \<open>How many messages a group can still cause before the next command.\<close>

fun igmp_weight :: "igmp_state \<Rightarrow> nat" where
  "igmp_weight PENDING_JOIN = 2"
| "igmp_weight DELAYED_MEMBER = 1"
| "igmp_weight PENDING_LEAVE = 1"
| "igmp_weight _ = 0"

definition igmp_budget :: "nat \<Rightarrow> 'a igmp_st_scheme \<Rightarrow> nat" where
  "igmp_budget i s = (\<Sum>j<i. igmp_weight (ig_state (igmp_groups s ! j)))"

definition igmp_reported :: "nat \<Rightarrow> ipaddr \<Rightarrow> 'a igmp_st_scheme \<Rightarrow> bool" where
  "igmp_reported i a s \<longleftrightarrow> ig_state (igmp_groups s ! i) = DELAYED_MEMBER \<and> uip_len s = 46 \<and>
     uip_buf s 38 = IGMP_MEMBERSHIP_REPORT \<and> rdip (uip_buf s) 42 = a"

lemma upd_group_sel [simp]:
  "uip_len (upd_group i f s) = uip_len s" "uip_buf (upd_group i f s) = uip_buf s"
  "length (igmp_groups (upd_group i f s)) = length (igmp_groups s)"
  "j \<noteq> i \<Longrightarrow> igmp_groups (upd_group i f s) ! j = igmp_groups s ! j"
  "i < length (igmp_groups s) \<Longrightarrow> igmp_groups (upd_group i f s) ! i = f (igmp_groups s ! i)"
  by (simp_all add: upd_group_def)

lemma send_igmp_sel [simp]:
  "igmp_groups (send_membership_report i s) = igmp_groups s" "uip_len (send_membership_report i s) = 46"
  "igmp_groups (send_leave_group i s) = igmp_groups s" "uip_len (send_leave_group i s) = 46"
  by (simp_all add: send_membership_report_def send_leave_group_def)

lemma send_report_fields:
  "uip_buf (send_membership_report i s) 38 = IGMP_MEMBERSHIP_REPORT"
  "rdip (uip_buf (send_membership_report i s)) 42 = ig_addr (igmp_groups s ! i)"
  by (simp_all add: send_membership_report_def create_igmp_msg_def Let_def wrip_def wr16_def rdip_def rd16_def)

lemma group_periodic_frame [simp]:
  "length (igmp_groups (igmp_group_periodic now i s)) = length (igmp_groups s)"
  "j \<noteq> i \<Longrightarrow> igmp_groups (igmp_group_periodic now i s) ! j = igmp_groups s ! j"
  by (auto simp: igmp_group_periodic_def Let_def split: igmp_state.split)

lemma group_periodic_weight:
  assumes "i < length (igmp_groups s)" and "uip_len s = 0"
  shows "igmp_weight (ig_state (igmp_groups (igmp_group_periodic now i s) ! i)) \<le> igmp_weight (ig_state (igmp_groups s ! i))"
    "uip_len (igmp_group_periodic now i s) \<noteq> 0 \<Longrightarrow>
      igmp_weight (ig_state (igmp_groups (igmp_group_periodic now i s) ! i)) < igmp_weight (ig_state (igmp_groups s ! i))"
  using assms by (auto simp: igmp_group_periodic_def Let_def split: igmp_state.splits if_splits)

lemma group_periodic_reports:
  assumes "i < length (igmp_groups s)" and "ig_state (igmp_groups s ! i) = PENDING_JOIN"
  shows "igmp_reported i (ig_addr (igmp_groups s ! i)) (igmp_group_periodic now i s)"
  using assms by (simp add: igmp_group_periodic_def Let_def igmp_reported_def send_report_fields)

lemma igmp_budget_step:
  assumes "j < i" and "i \<le> length (igmp_groups s)" and "uip_len s = 0"
  shows "igmp_budget i (igmp_group_periodic now j s) \<le> igmp_budget i s"
    "uip_len (igmp_group_periodic now j s) \<noteq> 0 \<Longrightarrow> igmp_budget i (igmp_group_periodic now j s) < igmp_budget i s"
proof -
  have "j < length (igmp_groups s)" using assms by simp
  note w = group_periodic_weight [OF this assms(3), of now]
  have le: "igmp_weight (ig_state (igmp_groups (igmp_group_periodic now j s) ! l)) \<le> igmp_weight (ig_state (igmp_groups s ! l))" for l
    using w(1) by (cases "l = j") auto
  show "igmp_budget i (igmp_group_periodic now j s) \<le> igmp_budget i s"
    unfolding igmp_budget_def by (rule sum_mono) (rule le)
  assume "uip_len (igmp_group_periodic now j s) \<noteq> 0"
  from w(2) [OF this] show "igmp_budget i (igmp_group_periodic now j s) < igmp_budget i s"
    unfolding igmp_budget_def by (intro sum_strict_mono_ex1) (use le assms(1) in auto)
qed

lemma periodic_loop_join:
  fixes now :: u32
  assumes "j \<le> i" and "i < j + k" and "i < length (igmp_groups s)" and "uip_len s = 0"
    and "ig_state (igmp_groups s ! i) = PENDING_JOIN"
  defines "s' \<equiv> igmp_periodic_loop now j k s"
  shows "length (igmp_groups s') = length (igmp_groups s) \<and>
    (igmp_reported i (ig_addr (igmp_groups s ! i)) s' \<or>
     igmp_groups s' ! i = igmp_groups s ! i \<and> igmp_budget i s' < igmp_budget i s)"
  using assms(1-5) unfolding s'_def
proof (induction k arbitrary: j s)
  case (Suc k)
  let ?t = "igmp_group_periodic now j s"
  show ?case
  proof (cases "j = i")
    case True
    with group_periodic_reports [OF Suc.prems(3,5), of now] show ?thesis
      by (simp add: igmp_reported_def Let_def)
  next
    case False
    with Suc.prems have ji: "j < i" "i \<le> length (igmp_groups s)" by auto
    note b = igmp_budget_step [OF ji Suc.prems(4), of now]
    have other: "igmp_groups ?t ! i = igmp_groups s ! i" using False by simp
    show ?thesis
    proof (cases "uip_len ?t = 0")
      case True
      with ji Suc.prems other Suc.IH [of "j + 1" ?t] b(1) show ?thesis by fastforce
    next
      case False
      then show ?thesis using b(2) other by (simp add: Let_def word_neq_0_conv)
    qed
  qed
qed simp

text \<open>Calls of the periodic handler; the server sends the packet and clears \<^verbatim>\<open>uip_len\<close> in between.\<close>

definition igmp_calls :: "u32 list \<Rightarrow> 'a igmp_st_scheme \<Rightarrow> 'a igmp_st_scheme" where
  "igmp_calls ts s = fold (\<lambda>now s. igmp_periodic now (s\<lparr>uip_len := 0\<rparr>)) ts s"

lemma igmp_join_within_budget:
  assumes "i < length (igmp_groups s)" and "ig_state (igmp_groups s ! i) = PENDING_JOIN"
    and "igmp_budget i s < length ts"
  shows "\<exists>k \<le> igmp_budget i s. igmp_reported i (ig_addr (igmp_groups s ! i)) (igmp_calls (take (Suc k) ts) s)"
  using assms
proof (induction "igmp_budget i s" arbitrary: s ts rule: less_induct)
  case less
  obtain now us where ts: "ts = now # us" using less.prems(3) by (cases ts) auto
  let ?s = "s\<lparr>uip_len := 0\<rparr>" and ?t = "igmp_periodic now (s\<lparr>uip_len := 0\<rparr>)"
  have loop: "length (igmp_groups ?t) = length (igmp_groups s) \<and>
    (igmp_reported i (ig_addr (igmp_groups s ! i)) ?t \<or>
     igmp_groups ?t ! i = igmp_groups s ! i \<and> igmp_budget i ?t < igmp_budget i s)"
    using periodic_loop_join [of 0 i "length (igmp_groups s)" ?s now] less.prems
    by (simp add: igmp_periodic_def igmp_budget_def)
  show ?case
  proof (cases "igmp_reported i (ig_addr (igmp_groups s ! i)) ?t")
    case True
    then show ?thesis by (intro exI [of _ 0]) (simp add: ts igmp_calls_def)
  next
    case False
    with loop have same: "igmp_groups ?t ! i = igmp_groups s ! i" and bud: "igmp_budget i ?t < igmp_budget i s" by auto
    from less.hyps [OF bud, of us] less.prems loop same bud ts
    obtain k where "k \<le> igmp_budget i ?t"
      "igmp_reported i (ig_addr (igmp_groups s ! i)) (igmp_calls (take (Suc k) us) ?t)" by auto
    then show ?thesis using bud by (intro exI [of _ "Suc k"]) (simp add: ts igmp_calls_def)
  qed
qed

lemma igmp_budget_le: "igmp_budget i s \<le> 2 * i"
proof -
  have "igmp_weight st \<le> 2" for st by (cases st) auto
  then show ?thesis unfolding igmp_budget_def
    by (metis (no_types, lifting) sum_bounded_above card_lessThan mult.commute of_nat_id)
qed

text \<open>
  C39. A join is always reported: the group in slot \<open>i\<close> that waits for its first report gets it within
  \<open>2 i + 1\<close> calls of the periodic handler, whatever the other groups do.
\<close>

theorem igmp_join_reported:
  assumes "i < length (igmp_groups s)" and "ig_state (igmp_groups s ! i) = PENDING_JOIN"
    and "length ts = 2 * i + 1"
  shows "\<exists>k \<le> 2 * i. igmp_reported i (ig_addr (igmp_groups s ! i)) (igmp_calls (take (Suc k) ts) s)"
proof -
  have "igmp_budget i s < length ts" using igmp_budget_le [of i s] assms(3) by linarith
  from igmp_join_within_budget [OF assms(1,2) this] igmp_budget_le [of i s] show ?thesis
    by (meson le_trans)
qed

theorem igmp_join_reported_witness:
  "\<exists>k \<le> 2. igmp_reported 1 (mk_ipaddr 239 255 255 250)
     (igmp_calls (take (Suc k) [0, 100, 200]) (sample_igmp [PENDING_LEAVE, PENDING_JOIN]))"
proof -
  let ?s = "sample_igmp [PENDING_LEAVE, PENDING_JOIN]"
  have "1 < length (igmp_groups ?s)" "ig_state (igmp_groups ?s ! 1) = PENDING_JOIN"
    "ig_addr (igmp_groups ?s ! 1) = mk_ipaddr 239 255 255 250"
    by (simp_all add: sample_igmp_def)
  with igmp_join_reported [of 1 ?s "[0, 100, 200]"] show ?thesis by simp
qed

end
