(* ===== verification/Uip_Tables.thy ===== *)
theory Uip_Tables
  imports Uip_State
begin

text \<open>
  The connection and port tables of \<^verbatim>\<open>uip.c\<close> (lines 430 to 604): initialisation, the
  lists of listening ports, the allocation of a TCP connection for an active open and of a
  UDP connection, both with their search for an unused local port.
\<close>

section \<open>Operations\<close>

definition uip_init :: "'a uip_st_scheme \<Rightarrow> 'a uip_st_scheme" where
  "uip_init s = s\<lparr>uip_listenports := replicate (length (uip_listenports s)) 0,
     uip_udp_listenports := replicate (length (uip_udp_listenports s)) 0,
     uip_conns := replicate (length (uip_conns s)) zero_tcp_conn,
     lastport := 1024,
     uip_udp_conns := replicate (length (uip_udp_conns s)) zero_udp_conn\<rparr>"

definition uip_setipid :: "u16 \<Rightarrow> 'a uip_st_scheme \<Rightarrow> 'a uip_st_scheme" where
  "uip_setipid i s = s\<lparr>ipid := i\<rparr>"

text \<open>The four loops over a port table: the first slot that matches is overwritten.\<close>

definition port_unlisten :: "u16 \<Rightarrow> u16 list \<Rightarrow> u16 list" where
  "port_unlisten port = upd_first (\<lambda>p. p = port) (\<lambda>_. 0)"

definition port_listen :: "u16 \<Rightarrow> u16 list \<Rightarrow> u16 list" where
  "port_listen port = upd_first (\<lambda>p. p = 0) (\<lambda>_. port)"

definition uip_unlisten :: "u16 \<Rightarrow> 'a uip_st_scheme \<Rightarrow> 'a uip_st_scheme" where
  "uip_unlisten port s = s\<lparr>uip_listenports := port_unlisten port (uip_listenports s)\<rparr>"

definition uip_udp_unlisten :: "u16 \<Rightarrow> 'a uip_st_scheme \<Rightarrow> 'a uip_st_scheme" where
  "uip_udp_unlisten port s = s\<lparr>uip_udp_listenports := port_unlisten port (uip_udp_listenports s)\<rparr>"

definition uip_listen :: "u16 \<Rightarrow> 'a uip_st_scheme \<Rightarrow> 'a uip_st_scheme" where
  "uip_listen port s = s\<lparr>uip_listenports := port_listen port (uip_listenports s)\<rparr>"

definition uip_udp_listen :: "u16 \<Rightarrow> 'a uip_st_scheme \<Rightarrow> 'a uip_st_scheme" where
  "uip_udp_listen port s = s\<lparr>uip_udp_listenports := port_listen port (uip_udp_listenports s)\<rparr>"

text \<open>\<^verbatim>\<open>++lastport; if (lastport >= 32000) lastport = 4096;\<close>\<close>

definition next_port :: "u16 \<Rightarrow> u16" where
  "next_port p = (if 32000 \<le> p + 1 then 4096 else p + 1)"

definition tcp_port_used :: "tcp_conn list \<Rightarrow> u16 \<Rightarrow> bool" where
  "tcp_port_used cs p \<longleftrightarrow>
     (\<exists>c \<in> set cs. tc_tcpstateflags c \<noteq> UIP_CLOSED \<and> tc_lport c = htons p)"

definition udp_port_used :: "udp_conn list \<Rightarrow> u16 \<Rightarrow> bool" where
  "udp_port_used cs p \<longleftrightarrow> (\<exists>c \<in> set cs. uc_lport c = htons p)"

text \<open>
  The slot search that \<^verbatim>\<open>uip_connect\<close> and the passive open share: the first closed
  connection, and otherwise the \<^verbatim>\<open>TIME_WAIT\<close> connection with the greatest timer. The
  accumulator is the candidate found so far and its timer.
\<close>

fun alloc_scan :: "tcp_conn list \<Rightarrow> nat \<Rightarrow> (nat \<times> u8) option \<Rightarrow> nat option" where
  "alloc_scan [] k best = map_option fst best"
| "alloc_scan (x # xs) k best =
     (if tc_tcpstateflags x = UIP_CLOSED then Some k
      else if tc_tcpstateflags x = UIP_TIME_WAIT
           \<and> (case best of None \<Rightarrow> True | Some b \<Rightarrow> snd b < tc_timer x)
      then alloc_scan xs (k + 1) (Some (k, tc_timer x))
      else alloc_scan xs (k + 1) best)"

definition alloc_conn :: "tcp_conn list \<Rightarrow> nat option" where
  "alloc_conn cs = alloc_scan cs 0 None"

text \<open>The fields \<^verbatim>\<open>uip_connect\<close> fills in.\<close>

definition open_conn :: "word4 \<Rightarrow> u16 \<Rightarrow> u16 \<Rightarrow> ipaddr \<Rightarrow> tcp_conn \<Rightarrow> tcp_conn" where
  "open_conn isn lp rp addr c =
     c\<lparr>tc_tcpstateflags := UIP_SYN_SENT, tc_snd_nxt := isn,
       tc_initialmss := UIP_TCP_MSS, tc_mss := UIP_TCP_MSS, tc_len := 1, tc_nrtx := 0,
       tc_timer := 1, tc_rto := UIP_RTO, tc_sa := 0, tc_sv := 16,
       tc_lport := htons lp, tc_rport := rp, tc_ripaddr := addr\<rparr>"

text \<open>
  \<^verbatim>\<open>uip_connect\<close> returns the connection or NULL; the port search may in principle not
  return, hence the outer option.
\<close>

definition uip_connect :: "ipaddr \<Rightarrow> u16 \<Rightarrow> 'a uip_st_scheme \<Rightarrow> ('a uip_st_scheme \<times> nat option) option" where
  "uip_connect ripaddr rport s = do {
     lp \<leftarrow> until_free (tcp_port_used (uip_conns s)) next_port (next_port (lastport s));
     let s1 = s\<lparr>lastport := lp\<rparr>;
     case alloc_conn (uip_conns s) of
       None \<Rightarrow> Some (s1, None)
     | Some i \<Rightarrow> Some (upd_conn i (open_conn (iss s) lp rport ripaddr) s1, Some i)
   }"

definition uip_udp_new :: "ipaddr option \<Rightarrow> u16 \<Rightarrow> 'a uip_st_scheme \<Rightarrow> ('a uip_st_scheme \<times> nat option) option" where
  "uip_udp_new ripaddr rport s = do {
     lp \<leftarrow> until_free (udp_port_used (uip_udp_conns s)) next_port (next_port (lastport s));
     let s1 = s\<lparr>lastport := lp\<rparr>;
     case first_idx (\<lambda>c. uc_lport c = 0) (uip_udp_conns s) of
       None \<Rightarrow> Some (s1, None)
     | Some i \<Rightarrow>
         Some (upd_udp i (\<lambda>c. c\<lparr>uc_lport := htons lp, uc_rport := rport,
             uc_ripaddr := (case ripaddr of None \<Rightarrow> all_zeroes_addr | Some a \<Rightarrow> a),
             uc_ttl := UIP_TTL, uc_udpflags := 0\<rparr>) s1, Some i)
   }"

definition uip_udp_bind :: "nat \<Rightarrow> u16 \<Rightarrow> 'a uip_st_scheme \<Rightarrow> 'a uip_st_scheme" where
  "uip_udp_bind i port s = upd_udp i (\<lambda>c. c\<lparr>uc_lport := port\<rparr>) s"

section \<open>Listening ports\<close>

text \<open>
  The ports a table listens on. Registering a port adds it when a slot is free and drops the
  request silently when the table is full; removing it frees one slot.
\<close>

definition listening :: "u16 list \<Rightarrow> u16 set" where
  "listening ps = set ps - {0}"

lemma listening_listen:
  "0 \<in> set ps \<Longrightarrow> port \<noteq> 0 \<Longrightarrow> listening (port_listen port ps) = insert port (listening ps)"
  by (induction ps) (auto simp: listening_def port_listen_def)

lemma listening_listen_full: "0 \<notin> set ps \<Longrightarrow> port_listen port ps = ps"
  unfolding port_listen_def by (rule upd_first_none) auto

lemma listening_unlisten:
  "distinct (filter (\<lambda>p. p \<noteq> 0) ps) \<Longrightarrow>
     listening (port_unlisten port ps) = listening ps - {port}"
  by (induction ps) (auto simp: listening_def port_unlisten_def split: if_splits)

section \<open>Port search\<close>

lemma unat_next_port:
  "unat (next_port p) = (if 31999 \<le> unat p \<and> unat p \<noteq> 65535 then 4096 else (unat p + 1) mod 65536)"
proof -
  have "unat (p + 1) = (unat p + 1) mod 65536" by (simp add: unat_word_ariths)
  then show ?thesis
    using unat_u16_le [of p]
    by (cases "unat p = 65535") (auto simp: next_port_def word_le_nat_alt)
qed

lemma next_port_orbit:
  assumes "unat x < 32000" and "i < 27904"
  shows "unat ((next_port ^^ i) x) = (if unat x + i < 32000 then unat x + i else unat x + i - 27904)"
  using assms(2)
proof (induction i)
  case (Suc i)
  then show ?case using assms(1) by (auto simp: unat_next_port split: if_splits)
qed (use assms(1) in simp)

lemma next_port_inj:
  assumes "unat x < 32000" and "n < 27904"
  shows "inj_on (\<lambda>i. (next_port ^^ i) x) {..n}"
proof (rule inj_onI)
  fix i j assume ij: "i \<in> {..n}" "j \<in> {..n}" "(next_port ^^ i) x = (next_port ^^ j) x"
  then have "i < 27904" "j < 27904" using assms(2) by auto
  then have "(if unat x + i < 32000 then unat x + i else unat x + i - 27904) =
      (if unat x + j < 32000 then unat x + j else unat x + j - 27904)"
    using ij(3) next_port_orbit [OF assms(1), of i] next_port_orbit [OF assms(1), of j] by simp
  then show "i = j"
    using \<open>i < 27904\<close> \<open>j < 27904\<close> assms(1) by (auto split: if_splits)
qed

lemma next_port_range: "unat (next_port p) < 32000"
  using unat_u16_le [of p] by (auto simp: unat_next_port mod_if)

lemma next_port_orbit_range: "unat ((next_port ^^ k) (next_port p)) < 32000"
  by (induction k) (auto simp: next_port_range)

lemma port_search_returns:
  assumes fin: "finite B" and card: "card B < 27904" and bad: "\<And>y. bad y \<Longrightarrow> y \<in> B"
  shows "\<exists>q. until_free bad next_port (next_port p) = Some q \<and> \<not> bad q \<and> unat q < 32000"
proof -
  obtain k where "until_free bad next_port (next_port p) = Some ((next_port ^^ k) (next_port p))"
      "\<not> bad ((next_port ^^ k) (next_port p))"
    using until_free_pigeonhole [OF next_port_inj [OF next_port_range card] fin order_refl bad]
    by blast
  then show ?thesis using next_port_orbit_range by metis
qed

section \<open>Allocation of a connection slot\<close>

definition reusable :: "tcp_conn \<Rightarrow> bool" where
  "reusable c \<longleftrightarrow> tc_tcpstateflags c = UIP_CLOSED \<or> tc_tcpstateflags c = UIP_TIME_WAIT"

lemma alloc_scan_None: "alloc_scan cs k best = None \<longleftrightarrow> best = None \<and> (\<forall>c \<in> set cs. \<not> reusable c)"
  by (induction cs k best rule: alloc_scan.induct) (auto simp: reusable_def)

text \<open>
  What the search promises of the slot it returns, relative to a candidate brought along: a
  closed slot when there is one, and otherwise a slot whose timer no \<^verbatim>\<open>TIME_WAIT\<close> slot exceeds.
\<close>

lemma alloc_scan_Some:
  assumes "alloc_scan cs k best = Some i"
  shows "(\<exists>t. best = Some (i, t) \<and>
        (\<forall>c \<in> set cs. tc_tcpstateflags c \<noteq> UIP_CLOSED \<and>
           (tc_tcpstateflags c = UIP_TIME_WAIT \<longrightarrow> tc_timer c \<le> t)))
     \<or> (k \<le> i \<and> i < k + length cs \<and> reusable (cs ! (i - k)) \<and>
        (tc_tcpstateflags (cs ! (i - k)) = UIP_TIME_WAIT \<longrightarrow>
           (\<forall>c \<in> set cs. tc_tcpstateflags c \<noteq> UIP_CLOSED \<and>
             (tc_tcpstateflags c = UIP_TIME_WAIT \<longrightarrow> tc_timer c \<le> tc_timer (cs ! (i - k)))) \<and>
           (\<forall>b. best = Some b \<longrightarrow> snd b < tc_timer (cs ! (i - k)))))"
  using assms
proof (induction cs k best rule: alloc_scan.induct)
  case (2 x xs k best)
  consider (closed) "tc_tcpstateflags x = UIP_CLOSED"
    | (newbest) "tc_tcpstateflags x = UIP_TIME_WAIT"
        "case best of None \<Rightarrow> True | Some b \<Rightarrow> snd b < tc_timer x"
    | (skip) "tc_tcpstateflags x \<noteq> UIP_CLOSED"
        "\<not> (tc_tcpstateflags x = UIP_TIME_WAIT \<and>
            (case best of None \<Rightarrow> True | Some b \<Rightarrow> snd b < tc_timer x))"
    by blast
  then show ?case
  proof cases
    case closed
    with 2(3) show ?thesis by (auto simp: reusable_def)
  next
    case newbest
    with 2(3) have "alloc_scan xs (k + 1) (Some (k, tc_timer x)) = Some i" by simp
    from 2(1) [OF _ _ this] newbest show ?thesis
      by (fastforce simp: nth_Cons' reusable_def Suc_le_eq split: option.splits)
  next
    case skip
    with 2(3) have "alloc_scan xs (k + 1) best = Some i" by (auto split: if_splits)
    from 2(2) [OF _ _ this] skip show ?thesis
      by (fastforce simp: nth_Cons' reusable_def Suc_le_eq split: option.splits)
  qed
qed auto

lemma alloc_conn_None: "alloc_conn cs = None \<longleftrightarrow> (\<forall>c \<in> set cs. \<not> reusable c)"
  by (simp add: alloc_conn_def alloc_scan_None)

lemma alloc_conn_Some:
  assumes "alloc_conn cs = Some i"
  shows "i < length cs" and "reusable (cs ! i)"
    and "tc_tcpstateflags (cs ! i) = UIP_TIME_WAIT \<Longrightarrow> c \<in> set cs \<Longrightarrow>
      tc_tcpstateflags c \<noteq> UIP_CLOSED"
    and "tc_tcpstateflags (cs ! i) = UIP_TIME_WAIT \<Longrightarrow> c \<in> set cs \<Longrightarrow>
      tc_tcpstateflags c = UIP_TIME_WAIT \<Longrightarrow> tc_timer c \<le> tc_timer (cs ! i)"
  using alloc_scan_Some [OF assms [unfolded alloc_conn_def]] by auto

section \<open>Opening connections\<close>

lemma tcp_port_search:
  assumes "length cs < 27904"
  shows "\<exists>q. until_free (tcp_port_used cs) next_port (next_port p) = Some q \<and> \<not> tcp_port_used cs q \<and> unat q < 32000"
proof (rule port_search_returns)
  let ?B = "(\<lambda>c. htons (tc_lport c)) ` set cs"
  show "finite ?B" by simp
  show "card ?B < 27904" using card_image_le [of "set cs" "\<lambda>c. htons (tc_lport c)"] card_length [of cs] assms by simp
  show "y \<in> ?B" if "tcp_port_used cs y" for y using that by (force simp: tcp_port_used_def image_iff)
qed

lemma udp_port_search:
  assumes "length cs < 27904"
  shows "\<exists>q. until_free (udp_port_used cs) next_port (next_port p) = Some q \<and> \<not> udp_port_used cs q \<and> unat q < 32000"
proof (rule port_search_returns)
  let ?B = "(\<lambda>c. htons (uc_lport c)) ` set cs"
  show "finite ?B" by simp
  show "card ?B < 27904" using card_image_le [of "set cs" "\<lambda>c. htons (uc_lport c)"] card_length [of cs] assms by simp
  show "y \<in> ?B" if "udp_port_used cs y" for y using that by (force simp: udp_port_used_def image_iff)
qed

text \<open>
  The slot for a new TCP connection is the first closed one; if there is none, it is a
  connection in TIME\_WAIT that has waited at least as long as every other; and the search fails
  only when all connections are in use.
\<close>

definition slot_for :: "tcp_conn list \<Rightarrow> nat option \<Rightarrow> bool" where
  "slot_for cs r \<longleftrightarrow> (case r of
     None \<Rightarrow> \<forall>c \<in> set cs. tc_tcpstateflags c \<noteq> UIP_CLOSED \<and> tc_tcpstateflags c \<noteq> UIP_TIME_WAIT
   | Some i \<Rightarrow> i < length cs \<and>
       (tc_tcpstateflags (cs ! i) = UIP_CLOSED \<or>
        tc_tcpstateflags (cs ! i) = UIP_TIME_WAIT \<and>
        (\<forall>c \<in> set cs. tc_tcpstateflags c \<noteq> UIP_CLOSED \<and>
           (tc_tcpstateflags c = UIP_TIME_WAIT \<longrightarrow> tc_timer c \<le> tc_timer (cs ! i)))))"

theorem slot_allocation: "slot_for cs (alloc_conn cs)"
proof (cases "alloc_conn cs")
  case None
  then show ?thesis using alloc_conn_None [of cs] by (auto simp: reusable_def slot_for_def)
next
  case (Some i)
  then show ?thesis
    using alloc_conn_Some [OF Some] by (auto simp: reusable_def slot_for_def)
qed

theorem slot_allocation_witness:
  "tc_timer ([zero_tcp_conn\<lparr>tc_tcpstateflags := UIP_TIME_WAIT, tc_timer := 7\<rparr>,
     zero_tcp_conn\<lparr>tc_tcpstateflags := UIP_TIME_WAIT, tc_timer := 9\<rparr>] ! 0) \<le> (9 :: u8)"
proof -
  let ?cs = "[zero_tcp_conn\<lparr>tc_tcpstateflags := UIP_TIME_WAIT, tc_timer := 7\<rparr>,
     zero_tcp_conn\<lparr>tc_tcpstateflags := UIP_TIME_WAIT, tc_timer := 9\<rparr>]"
  have "alloc_conn ?cs = Some 1" by (simp add: alloc_conn_def)
  then show ?thesis using slot_allocation [of ?cs] by (simp add: slot_for_def)
qed

text \<open>
  C38. An active open returns: the search for a local port ends with a port below 32000 that no
  open connection uses. NULL is returned, and no connection changes, only if none is closed or waiting in TIME\_WAIT.
  Otherwise one slot, a closed one or, if there is none, the connection that has waited longest in TIME\_WAIT, becomes a
  connection in SYN\_SENT from this port to the given address and port, with one outstanding octet; the
  other slots are left alone.
\<close>

theorem connect_opens:
  assumes "length (uip_conns s) < 27904"
  shows "\<exists>s' r. uip_connect addr rport s = Some (s', r) \<and> unat (lastport s') < 32000 \<and>
    \<not> tcp_port_used (uip_conns s) (lastport s') \<and> slot_for (uip_conns s) r \<and>
    (case r of None \<Rightarrow> uip_conns s' = uip_conns s
     | Some i \<Rightarrow> \<exists>c. uip_conns s' = (uip_conns s)[i := c] \<and> i < length (uip_conns s) \<and>
         tc_tcpstateflags c = UIP_SYN_SENT \<and> tc_lport c = htons (lastport s') \<and> tc_rport c = rport \<and>
         tc_ripaddr c = addr \<and> tc_snd_nxt c = iss s \<and> tc_len c = 1 \<and> tc_nrtx c = 0)"
proof -
  obtain q where q: "until_free (tcp_port_used (uip_conns s)) next_port (next_port (lastport s)) = Some q"
    "\<not> tcp_port_used (uip_conns s) q" "unat q < 32000" using tcp_port_search [OF assms] by blast
  note slot = slot_allocation [of "uip_conns s"]
  show ?thesis
  proof (cases "alloc_conn (uip_conns s)")
    case None
    with q slot show ?thesis by (simp add: uip_connect_def Let_def)
  next
    case (Some i)
    then have "uip_connect addr rport s =
        Some (upd_conn i (open_conn (iss s) q rport addr) (s\<lparr>lastport := q\<rparr>), Some i)"
      by (simp add: uip_connect_def Let_def q(1))
    then show ?thesis
      using q(2,3) Some slot alloc_conn_Some(1) [OF Some]
      by (intro exI [of _ "upd_conn i (open_conn (iss s) q rport addr) (s\<lparr>lastport := q\<rparr>)"] exI [of _ "Some i"])
        (simp add: upd_conn_def, intro exI conjI, rule refl, simp_all add: open_conn_def)
  qed
qed

text \<open>
  Creating a UDP connection returns: it takes the first unused slot and a local port below
  32000 that no UDP connection uses, and reports failure only when every slot is taken.
\<close>

theorem udp_new_opens:
  assumes "length (uip_udp_conns s) < 27904"
  shows "\<exists>s' r. uip_udp_new addr rport s = Some (s', r) \<and> unat (lastport s') < 32000 \<and>
    \<not> udp_port_used (uip_udp_conns s) (lastport s') \<and>
    (case r of None \<Rightarrow> uip_udp_conns s' = uip_udp_conns s \<and> (\<forall>c \<in> set (uip_udp_conns s). uc_lport c \<noteq> 0)
     | Some i \<Rightarrow> i < length (uip_udp_conns s) \<and> uc_lport (uconn s i) = 0 \<and>
         (\<exists>c. uip_udp_conns s' = (uip_udp_conns s)[i := c] \<and> uc_lport c = htons (lastport s') \<and>
           uc_rport c = rport \<and> uc_ripaddr c = (case addr of None \<Rightarrow> (0, 0) | Some a \<Rightarrow> a) \<and> uc_udpflags c = 0))"
proof -
  obtain q where q: "until_free (udp_port_used (uip_udp_conns s)) next_port (next_port (lastport s)) = Some q"
    "\<not> udp_port_used (uip_udp_conns s) q" "unat q < 32000" using udp_port_search [OF assms] by blast
  show ?thesis
  proof (cases "first_idx (\<lambda>c. uc_lport c = 0) (uip_udp_conns s)")
    case None
    then have "uip_udp_new addr rport s = Some (s\<lparr>lastport := q\<rparr>, None)"
      by (simp add: uip_udp_new_def Let_def q(1))
    with q None show ?thesis by (simp add: first_idx_None)
  next
    case (Some i)
    let ?c = "(uconn s i)\<lparr>uc_lport := htons q, uc_rport := rport,
      uc_ripaddr := (case addr of None \<Rightarrow> all_zeroes_addr | Some a \<Rightarrow> a), uc_ttl := UIP_TTL, uc_udpflags := 0\<rparr>"
    have "uip_udp_new addr rport s =
        Some (s\<lparr>lastport := q, uip_udp_conns := (uip_udp_conns s)[i := ?c]\<rparr>, Some i)"
      using Some by (simp add: uip_udp_new_def Let_def q(1) upd_udp_def)
    then show ?thesis
      using q(2,3) first_idx_SomeD(1,2) [OF Some] by auto
  qed
qed

definition sample_tables :: uip_st where
  "sample_tables = \<lparr>uip_buf = (\<lambda>i. 0), uip_appdata = 54,
     uip_sappdata = 54, uip_len = 0, uip_slen = 0, uip_flags = 0, uip_conn = None,
     uip_conns = [zero_tcp_conn], uip_listenports = [0], uip_udp_listenports = [0],
     uip_udp_conn = None, uip_udp_conns = [zero_udp_conn], ipid = 0, iss = (0, 0, 0, 0),
     lastport = 1024, uip_hostaddr = (0, 0), uip_draddr = (0, 0), uip_netmask = (0, 0),
     uip_ethaddr = replicate 6 0, mac_min_frame = 60\<rparr>"

theorem connect_opens_witness:
  "\<exists>s' c. uip_connect (1, 2) 80 sample_tables = Some (s', Some 0) \<and> uip_conns s' = [c] \<and>
     tc_tcpstateflags c = UIP_SYN_SENT \<and> tc_rport c = 80"
proof -
  have conns: "uip_conns sample_tables = [zero_tcp_conn]" "length (uip_conns sample_tables) < 27904" by (simp_all add: sample_tables_def)
  have slot: "\<not> slot_for [zero_tcp_conn] None" "slot_for [zero_tcp_conn] (Some i) \<Longrightarrow> i = 0" for i
    by (simp_all add: slot_for_def zero_tcp_conn_def)
  from connect_opens [OF conns(2), of "(1, 2)" 80] obtain s' r where r: "uip_connect (1, 2) 80 sample_tables = Some (s', r)"
    "slot_for [zero_tcp_conn] r" and c: "\<And>i. r = Some i \<Longrightarrow> \<exists>c. uip_conns s' = [zero_tcp_conn][i := c] \<and>
      tc_tcpstateflags c = UIP_SYN_SENT \<and> tc_rport c = 80"
    unfolding conns(1) by (elim exE conjE, intro that) (assumption+, fastforce)
  with slot have "r = Some 0" by (cases r) auto
  with r(1) c [OF this] show ?thesis by auto
qed

theorem udp_new_opens_witness:
  "\<exists>s' r. uip_udp_new None 53 sample_tables = Some (s', r) \<and> unat (lastport s') < 32000"
  using udp_new_opens [of sample_tables None 53] by (auto simp: sample_tables_def)

end
