(* ===== verification/Uip_Process.thy ===== *)
theory Uip_Process
  imports Uip_Tables
begin

text \<open>
  \<^verbatim>\<open>uip_process\<close> of \<^verbatim>\<open>uip.c\<close> (lines 737 to 2010): the packet processing function of the
  stack. The C function is one body with labels; every label that is the target of a
  \<^verbatim>\<open>goto\<close> is a definition here, and a \<^verbatim>\<open>goto\<close> is a call in tail position. The
  register variable \<^verbatim>\<open>uip_connr\<close> is the argument \<open>i\<close>, an index into \<^verbatim>\<open>uip_conns\<close>; the
  statics \<^verbatim>\<open>c\<close>, \<^verbatim>\<open>opt\<close>, \<^verbatim>\<open>tmp16\<close> and \<^verbatim>\<open>uip_acc32\<close> are scratch variables and appear as
  bound variables. \<open>None\<close> is a call that does not return normally: an endless loop, or a
  trap on a null \<^verbatim>\<open>uip_conn\<close> or \<^verbatim>\<open>uip_udp_conn\<close>.
\<close>

section \<open>The functions uip.c calls upwards\<close>

text \<open>
  \<^verbatim>\<open>UIP_APPCALL\<close> (and \<^verbatim>\<open>UIP_UDP_APPCALL\<close>, the same function), and the IGMP hooks that are
  compiled in when \<^verbatim>\<open>UIP_IGMP\<close> is set.
\<close>

record 's uip_env =
  appcall :: "'s \<Rightarrow> 's option"
  igmp_enabled :: bool
  igmp_check :: "'s \<Rightarrow> ipaddr \<Rightarrow> bool"
  igmp_input :: "'s \<Rightarrow> 's"

section \<open>Leaving the function\<close>

definition drop_lbl :: "'a uip_st_scheme \<Rightarrow> 'a uip_st_scheme" where
  "drop_lbl s = s\<lparr>uip_len := 0, uip_flags := 0\<rparr>"

definition send_lbl :: "'a uip_st_scheme \<Rightarrow> 'a uip_st_scheme" where
  "send_lbl s = s\<lparr>uip_flags := 0\<rparr>"

definition ip_send_nolen :: "'a uip_st_scheme \<Rightarrow> 'a uip_st_scheme" where
  "ip_send_nolen s =
     (let b = (uip_buf s)(B_vhl := 0x45, B_tos := 0, B_ipoffset0 := 0, B_ipoffset1 := 0);
          id' = ipid s + 1;
          b = b(B_ipid0 := hi8 id', B_ipid1 := lo8 id');
          b = wr16 B_ipchksum 0 b;
          b = wr16 B_ipchksum (NOT (uip_ipchksum b)) b
      in send_lbl (s\<lparr>uip_buf := b, ipid := id'\<rparr>))"

definition tcp_send_noconn :: "'a uip_st_scheme \<Rightarrow> 'a uip_st_scheme" where
  "tcp_send_noconn s =
     (let b = (uip_buf s)(B_ttl := UIP_TTL, B_len0 := hi8 (uip_len s), B_len1 := lo8 (uip_len s),
                B_urgp0 := 0, B_urgp1 := 0)
      in ip_send_nolen (s\<lparr>uip_buf := b\<rparr>))"

definition tcp_send :: "nat \<Rightarrow> 'a uip_st_scheme \<Rightarrow> 'a uip_st_scheme" where
  "tcp_send i s =
     (let c = tconn s i;
          b = xtcp_copy_word B_ackno (tc_rcv_nxt c) (uip_buf s);
          b = xtcp_copy_word B_seqno (tc_snd_nxt c) b;
          b = b(B_proto := UIP_PROTO_TCP);
          b = wr16 B_srcport (tc_lport c) b;
          b = wr16 B_destport (tc_rport c) b;
          b = wrip B_srcipaddr (uip_hostaddr s) b;
          b = wrip B_destipaddr (tc_ripaddr c) b;
          b = (if tc_tcpstateflags c AND UIP_STOPPED \<noteq> 0
               then b(B_wnd0 := 0, B_wnd1 := 0)
               else b(B_wnd0 := hi8 UIP_TCP_MSS, B_wnd1 := lo8 UIP_TCP_MSS))
      in tcp_send_noconn (s\<lparr>uip_buf := b\<rparr>))"

definition tcp_send_noopts :: "nat \<Rightarrow> 'a uip_st_scheme \<Rightarrow> 'a uip_st_scheme" where
  "tcp_send_noopts i s = tcp_send i (bput B_tcpoffset 0x50 s)"

definition tcp_send_nodata :: "nat \<Rightarrow> 'a uip_st_scheme \<Rightarrow> 'a uip_st_scheme" where
  "tcp_send_nodata i s = tcp_send_noopts i (s\<lparr>uip_len := 40\<rparr>)"

definition tcp_send_ack :: "nat \<Rightarrow> 'a uip_st_scheme \<Rightarrow> 'a uip_st_scheme" where
  "tcp_send_ack i s = tcp_send_nodata i (bput B_flags TCP_ACK s)"

definition tcp_send_finack :: "nat \<Rightarrow> 'a uip_st_scheme \<Rightarrow> 'a uip_st_scheme" where
  "tcp_send_finack i s = tcp_send_nodata i (bput B_flags (TCP_FIN OR TCP_ACK) s)"

text \<open>The maximum segment size option that goes with a SYN or a SYNACK.\<close>

definition tcp_send_syn :: "nat \<Rightarrow> 'a uip_st_scheme \<Rightarrow> 'a uip_st_scheme" where
  "tcp_send_syn i s =
     (let b = (uip_buf s)(B_flags := uip_buf s B_flags OR TCP_SYN, B_optdata := 2,
                B_optdata + 1 := 4, B_optdata + 2 := hi8 UIP_TCP_MSS,
                B_optdata + 3 := lo8 UIP_TCP_MSS, B_tcpoffset := 0x60)
      in tcp_send i (s\<lparr>uip_buf := b, uip_len := 44\<rparr>))"

definition tcp_send_synack :: "nat \<Rightarrow> 'a uip_st_scheme \<Rightarrow> 'a uip_st_scheme" where
  "tcp_send_synack i s = tcp_send_syn i (bput B_flags TCP_ACK s)"

section \<open>Sending what the application produced\<close>

definition apprexmit :: "nat \<Rightarrow> 'a uip_st_scheme \<Rightarrow> 'a uip_st_scheme" where
  "apprexmit i s0 =
     (let s = s0\<lparr>uip_appdata := uip_sappdata s0\<rparr> in
      if 0 < uip_slen s \<and> 0 < tc_len (tconn s i)
      then tcp_send_noopts i (bput B_flags (TCP_ACK OR TCP_PSH)
             (s\<lparr>uip_len := tc_len (tconn s i) + 40\<rparr>))
      else if uip_flags s AND UIP_NEWDATA \<noteq> 0
      then tcp_send_noopts i (bput B_flags TCP_ACK (s\<lparr>uip_len := 40\<rparr>))
      else drop_lbl s)"

definition appsend :: "nat \<Rightarrow> 'a uip_st_scheme \<Rightarrow> 'a uip_st_scheme" where
  "appsend i s =
     (if uip_flags s AND UIP_ABORT \<noteq> 0 then
        tcp_send_nodata i (bput B_flags (TCP_RST OR TCP_ACK)
          (upd_conn i (\<lambda>c. c\<lparr>tc_tcpstateflags := UIP_CLOSED\<rparr>) (s\<lparr>uip_slen := 0\<rparr>)))
      else if uip_flags s AND UIP_CLOSE \<noteq> 0 then
        tcp_send_nodata i (bput B_flags (TCP_FIN OR TCP_ACK)
          (upd_conn i (\<lambda>c. c\<lparr>tc_len := 1, tc_tcpstateflags := UIP_FIN_WAIT_1, tc_nrtx := 0\<rparr>)
            (s\<lparr>uip_slen := 0\<rparr>)))
      else
        (let s = upd_conn i (\<lambda>c. c\<lparr>tc_nrtx := 0\<rparr>) s in
         if 0 < uip_slen s then
           (let s = (if uip_flags s AND UIP_ACKDATA \<noteq> 0
                     then upd_conn i (\<lambda>c. c\<lparr>tc_len := 0\<rparr>) s else s) in
            if tc_len (tconn s i) = 0 then
              (let s = (if tc_mss (tconn s i) < uip_slen s
                        then s\<lparr>uip_slen := tc_mss (tconn s i)\<rparr> else s)
               in apprexmit i (upd_conn i (\<lambda>c. c\<lparr>tc_len := uip_slen s\<rparr>) s))
            else apprexmit i (s\<lparr>uip_slen := tc_len (tconn s i)\<rparr>))
         else apprexmit i s))"

section \<open>Sequence numbers and resets\<close>

definition uip_add_rcv_nxt :: "u16 \<Rightarrow> 'a uip_st_scheme \<Rightarrow> 'a uip_st_scheme" where
  "uip_add_rcv_nxt n s = (case uip_conn s of
     Some j \<Rightarrow> upd_conn j (\<lambda>c. c\<lparr>tc_rcv_nxt := uip_add32 (tc_rcv_nxt c) n\<rparr>) s
   | None \<Rightarrow> s)"

text \<open>
  \<^verbatim>\<open>xtcp_increment_word (u8_t *a)\<close> is called with \<^verbatim>\<open>iss\<close> and with \<^verbatim>\<open>BUF->ackno\<close>. It stores
  the first half of the result through its argument and the second half, whatever the
  argument is, into \<^verbatim>\<open>BUF->ackno[2]\<close>.
\<close>

datatype inc_target = Inc_iss | Inc_ackno

definition xtcp_increment_word :: "inc_target \<Rightarrow> 'a uip_st_scheme \<Rightarrow> 'a uip_st_scheme" where
  "xtcp_increment_word tgt s = (case tgt of
     Inc_iss \<Rightarrow>
       (let v = xtcp_increment_value (iss s);
            b = wr16 (B_ackno + 2) (ucast (drop_bit 16 v)) (uip_buf s)
        in s\<lparr>iss := (lo8 (ucast v), hi8 (ucast v), fst (snd (snd (iss s))), snd (snd (snd (iss s)))),
             uip_buf := b\<rparr>)
   | Inc_ackno \<Rightarrow>
       (let v = xtcp_increment_value (rd4 (uip_buf s) B_ackno)
        in s\<lparr>uip_buf := wr16 (B_ackno + 2) (ucast (drop_bit 16 v))
               (wr16 B_ackno (ucast v) (uip_buf s))\<rparr>))"

definition reset_lbl :: "'a uip_st_scheme \<Rightarrow> 'a uip_st_scheme" where
  "reset_lbl s =
     (if uip_buf s B_flags AND TCP_RST \<noteq> 0 then drop_lbl s
      else
        (let s = s\<lparr>uip_buf := (uip_buf s)(B_flags := TCP_RST OR TCP_ACK), uip_len := 40\<rparr>;
             s = bput B_tcpoffset 0x50 s;
             s = s\<lparr>uip_buf := xtcp_swap_words B_seqno B_ackno (uip_buf s)\<rparr>;
             s = xtcp_increment_word Inc_ackno s;
             tmp16 = rd16 (uip_buf s) B_srcport;
             s = bput16 B_srcport (rd16 (uip_buf s) B_destport) s;
             s = bput16 B_destport tmp16 s;
             s = bputip B_destipaddr (rdip (uip_buf s) B_srcipaddr) s;
             s = bputip B_srcipaddr (uip_hostaddr s) s
         in tcp_send_noconn s))"

section \<open>The periodic timer\<close>

text \<open>\<^verbatim>\<open>flag == UIP_TIMER\<close> for the connection \<open>i\<close>.\<close>

definition tcp_rexmit :: "'a uip_st_scheme uip_env \<Rightarrow> nat \<Rightarrow> 'a uip_st_scheme \<Rightarrow> 'a uip_st_scheme option" where
  "tcp_rexmit env i s =
     (let st = tc_tcpstateflags (tconn s i) AND UIP_TS_MASK in
      if st = UIP_SYN_RCVD then Some (tcp_send_synack i s)
      else if st = UIP_SYN_SENT then Some (tcp_send_syn i (bput B_flags 0 s))
      else if st = UIP_ESTABLISHED then
        do { s \<leftarrow> appcall env (s\<lparr>uip_flags := UIP_REXMIT\<rparr>); Some (apprexmit i s) }
      else if st = UIP_FIN_WAIT_1 \<or> st = UIP_CLOSING \<or> st = UIP_LAST_ACK
      then Some (tcp_send_finack i s)
      else Some (drop_lbl s))"

definition tcp_timer :: "'a uip_st_scheme uip_env \<Rightarrow> nat \<Rightarrow> 'a uip_st_scheme \<Rightarrow> 'a uip_st_scheme option" where
  "tcp_timer env i s0 =
     (let s = (xtcp_increment_word Inc_iss s0)\<lparr>uip_len := 0, uip_slen := 0\<rparr>;
          c = tconn s i;
          st = tc_tcpstateflags c
      in
      if st = UIP_TIME_WAIT \<or> st = UIP_FIN_WAIT_2 then
        Some (drop_lbl (upd_conn i (\<lambda>c. c\<lparr>tc_timer := tc_timer c + 1,
          tc_tcpstateflags := (if tc_timer c + 1 = UIP_TIME_WAIT_TIMEOUT then UIP_CLOSED
                               else tc_tcpstateflags c)\<rparr>) s))
      else if st \<noteq> UIP_CLOSED then
        (if tc_len c \<noteq> 0 then
           (let s = upd_conn i (\<lambda>c. c\<lparr>tc_timer := tc_timer c - 1\<rparr>) s in
            if tc_timer c = 0 then
              (if tc_nrtx c = UIP_MAXRTX
                  \<or> ((st = UIP_SYN_SENT \<or> st = UIP_SYN_RCVD) \<and> tc_nrtx c = UIP_MAXSYNRTX)
               then do {
                 s \<leftarrow> appcall env ((upd_conn i (\<lambda>c. c\<lparr>tc_tcpstateflags := UIP_CLOSED\<rparr>) s)
                        \<lparr>uip_flags := UIP_TIMEDOUT\<rparr>);
                 Some (tcp_send_nodata i (bput B_flags (TCP_RST OR TCP_ACK) s)) }
               else
                 tcp_rexmit env i (upd_conn i (\<lambda>c. c\<lparr>
                   tc_timer := push_bit (if 4 < tc_nrtx c then 4 else unat (tc_nrtx c)) UIP_RTO,
                   tc_nrtx := tc_nrtx c + 1\<rparr>) s))
            else Some (drop_lbl s))
         else if st AND UIP_TS_MASK = UIP_ESTABLISHED then
           do { s \<leftarrow> appcall env (s\<lparr>uip_flags := UIP_POLL\<rparr>); Some (appsend i s) }
         else Some (drop_lbl s))
      else Some (drop_lbl s))"

definition tcp_poll_request :: "'a uip_st_scheme uip_env \<Rightarrow> nat \<Rightarrow> 'a uip_st_scheme \<Rightarrow> 'a uip_st_scheme option" where
  "tcp_poll_request env i s =
     (if tc_tcpstateflags (tconn s i) AND UIP_TS_MASK = UIP_ESTABLISHED \<and> tc_len (tconn s i) = 0
      then do { s \<leftarrow> appcall env (s\<lparr>uip_flags := UIP_POLL, uip_len := 0, uip_slen := 0\<rparr>);
                Some (appsend i s) }
      else Some (drop_lbl s))"

section \<open>UDP\<close>

definition udp_send :: "'a uip_st_scheme \<Rightarrow> 'a uip_st_scheme option" where
  "udp_send s0 =
     (if uip_slen s0 = 0 then Some (drop_lbl s0)
      else (case uip_udp_conn s0 of
        None \<Rightarrow> None
      | Some j \<Rightarrow>
          (let s = s0\<lparr>uip_len := uip_slen s0 + 28\<rparr>;
               c = uconn s j;
               b = (uip_buf s)(B_len0 := hi8 (uip_len s), B_len1 := lo8 (uip_len s),
                     B_ttl := uc_ttl c, B_proto := UIP_PROTO_UDP);
               b = wr16 B_udplen (htons (uip_slen s + 8)) b;
               b = wr16 B_udpchksum 0 b;
               b = wr16 B_srcport (uc_lport c) b;
               b = wr16 B_destport (uc_rport c) b;
               b = wrip B_srcipaddr (uip_hostaddr s) b;
               b = wrip B_destipaddr (uc_ripaddr c) b;
               b = wr16 B_udpchksum (NOT (uip_udpchksum b)) b;
               b = (if rd16 b B_udpchksum = 0 then wr16 B_udpchksum 0xffff b else b)
           in Some (ip_send_nolen (s\<lparr>uip_buf := b, uip_appdata := 54\<rparr>)))))"

text \<open>From the label \<^verbatim>\<open>udp_found_listener\<close> on; \<open>fl\<close> is the value of \<^verbatim>\<open>uip_flags\<close>.\<close>

definition udp_found :: "'a uip_st_scheme uip_env \<Rightarrow> u32 \<Rightarrow> 'a uip_st_scheme \<Rightarrow> 'a uip_st_scheme option" where
  "udp_found env fl s = do {
     s \<leftarrow> appcall env (s\<lparr>uip_flags := fl, uip_conn := None, uip_appdata := 42,
             uip_sappdata := 42, uip_slen := 0\<rparr>);
     udp_send s
   }"

definition udp_match :: "mem \<Rightarrow> udp_conn \<Rightarrow> bool" where
  "udp_match b c \<longleftrightarrow> uc_lport c \<noteq> 0 \<and> rd16 b B_destport = uc_lport c \<and>
     rd16 b B_srcport = uc_rport c \<and>
     (uip_ipaddr_cmp (rdip b B_srcipaddr) (uc_ripaddr c) \<or> rd16 b B_destport = 0x4400 \<or>
      uip_ipaddr_is_multicast (uc_ripaddr c))"

text \<open>
  The search of the listening ports. The inner loop over the connections uses the same
  variable \<^verbatim>\<open>c\<close> as the outer one, so that after a failed inner search the outer loop goes
  on behind \<^verbatim>\<open>UIP_UDP_CONNS\<close>. The result is the free connection to use, if any.
\<close>

partial_function (option) udp_listen_scan ::
    "u16 \<Rightarrow> u16 list \<Rightarrow> udp_conn list \<Rightarrow> nat \<Rightarrow> nat option option" where
  "udp_listen_scan port ps cs c =
     (if c < length ps then
        (if port = ps ! c then
           (case first_idx (\<lambda>u. uc_lport u = 0) cs of
              Some j \<Rightarrow> Some (Some j)
            | None \<Rightarrow> udp_listen_scan port ps cs (length cs + 1))
         else udp_listen_scan port ps cs (c + 1))
      else Some None)"

declare udp_listen_scan.simps [code]

definition udp_input :: "'a uip_st_scheme uip_env \<Rightarrow> 'a uip_st_scheme \<Rightarrow> 'a uip_st_scheme option" where
  "udp_input env s0 =
     (let s = s0\<lparr>uip_len := uip_len s0 - 28, uip_appdata := 42\<rparr>; b = uip_buf s in
      if rd16 b B_udpchksum \<noteq> 0 \<and> uip_udpchksum b \<noteq> 0xffff then Some (drop_lbl s)
      else (case first_idx (udp_match b) (uip_udp_conns s) of
        Some j \<Rightarrow> udp_found env UIP_NEWDATA (s\<lparr>uip_udp_conn := Some j\<rparr>)
      | None \<Rightarrow> do {
          r \<leftarrow> udp_listen_scan (rd16 b B_destport) (uip_udp_listenports s) (uip_udp_conns s) 0;
          case r of
            None \<Rightarrow> Some (drop_lbl (s\<lparr>uip_udp_conn := None\<rparr>))
          | Some j \<Rightarrow>
              udp_found env (UIP_CONNECTED OR UIP_NEWDATA)
                ((upd_udp j (\<lambda>c. c\<lparr>uc_lport := rd16 b B_destport, uc_rport := rd16 b B_srcport,
                    uc_ttl := UIP_TTL, uc_udpflags := 0, uc_ripaddr := rdip b B_srcipaddr\<rparr>) s)
                  \<lparr>uip_udp_conn := Some j\<rparr>)
        }))"

section \<open>ICMP\<close>

definition icmp_input :: "'a uip_st_scheme \<Rightarrow> 'a uip_st_scheme" where
  "icmp_input s =
     (if uip_buf s B_icmptype \<noteq> 8 then drop_lbl s
      else
        (let b = (uip_buf s)(B_icmptype := 0);
             v = rd16 b B_icmpchksum;
             b = (if htons 0xf7ff \<le> v then wr16 B_icmpchksum (v + (htons 0x0800 + 1)) b
                  else wr16 B_icmpchksum (v + htons 0x0800) b);
             b = wrip B_destipaddr (rdip b B_srcipaddr) b;
             b = wrip B_srcipaddr (uip_hostaddr s) b
         in send_lbl (s\<lparr>uip_buf := b\<rparr>)))"

section \<open>TCP input\<close>

text \<open>
  The loop over the options of a SYN segment. \<open>lim\<close> is the length of the options, \<open>c\<close> an
  8-bit offset. The result is the value of a well-formed maximum segment size option.
\<close>

partial_function (option) mss_option :: "mem \<Rightarrow> nat \<Rightarrow> u8 \<Rightarrow> u16 option option" where
  "mss_option b lim c =
     (if unat c < lim then
        (if b (54 + unat c) = 0 then Some None
         else if b (54 + unat c) = 1 then mss_option b lim (c + 1)
         else if b (54 + unat c) = 2 \<and> b (55 + unat c) = 4
         then Some (Some (push_bit 8 (ucast (b (56 + unat c))) OR ucast (b (57 + unat c))))
         else if b (55 + unat c) = 0 then Some None
         else mss_option b lim (c + b (55 + unat c)))
      else Some None)"

declare mss_option.simps [code]

definition parse_mss :: "mem \<Rightarrow> tcp_conn \<Rightarrow> tcp_conn option" where
  "parse_mss b c =
     (if b B_tcpoffset AND 0xf0 > 0x50 then do {
        r \<leftarrow> mss_option b (4 * (unat (drop_bit 4 (b B_tcpoffset)) - 5)) 0;
        case r of
          None \<Rightarrow> Some c
        | Some t \<Rightarrow>
            (let m = (if UIP_TCP_MSS < t then UIP_TCP_MSS else t)
             in Some (c\<lparr>tc_initialmss := m, tc_mss := m\<rparr>)) }
      else Some c)"

text \<open>A SYN for a listening port: a slot is allocated and a SYNACK is sent.\<close>

definition found_listen :: "'a uip_st_scheme \<Rightarrow> 'a uip_st_scheme option" where
  "found_listen s = (case alloc_conn (uip_conns s) of
     None \<Rightarrow> Some (drop_lbl s)
   | Some i \<Rightarrow>
       (let b = uip_buf s;
            s = s\<lparr>uip_conn := Some i\<rparr>;
            s = upd_conn i (\<lambda>c. c\<lparr>tc_rto := UIP_RTO, tc_timer := UIP_RTO, tc_sa := 0, tc_sv := 4,
                  tc_nrtx := 0, tc_lport := rd16 b B_destport, tc_rport := rd16 b B_srcport,
                  tc_ripaddr := rdip b B_srcipaddr, tc_tcpstateflags := UIP_SYN_RCVD,
                  tc_snd_nxt := iss s, tc_len := 1, tc_rcv_nxt := rd4 b B_seqno\<rparr>) s;
            s = uip_add_rcv_nxt 1 s
        in do {
          c \<leftarrow> parse_mss b (tconn s i);
          Some (tcp_send_synack i (upd_conn i (\<lambda>_. c) s)) }))"

text \<open>
  Round trip time estimation: \<^verbatim>\<open>m\<close> is a \<^verbatim>\<open>signed char\<close>, and every assignment truncates to
  eight bits.
\<close>

definition rtt_estimate :: "tcp_conn \<Rightarrow> tcp_conn" where
  "rtt_estimate c =
     (let m = tc_rto c - tc_timer c;
          m = m - drop_bit 3 (tc_sa c);
          sa = tc_sa c + m;
          m = (if sint m < 0 then - m else m);
          m = m - drop_bit 2 (tc_sv c);
          sv = tc_sv c + m
      in c\<lparr>tc_sa := sa, tc_sv := sv, tc_rto := drop_bit 3 sa + sv\<rparr>)"

text \<open>The acknowledgement processing that precedes the switch on the connection state.\<close>

definition tcp_ack_input :: "nat \<Rightarrow> 'a uip_st_scheme \<Rightarrow> 'a uip_st_scheme" where
  "tcp_ack_input i s =
     (let c = tconn s i; b = uip_buf s; acc = uip_add32 (tc_snd_nxt c) (tc_len c) in
      if b B_flags AND TCP_ACK \<noteq> 0 \<and> tc_len c \<noteq> 0 \<and> xtcp_compare_words (rd4 b B_ackno) acc then
        (upd_conn i (\<lambda>c.
           (let c = c\<lparr>tc_snd_nxt := acc\<rparr>;
                c = (if tc_nrtx c = 0 then rtt_estimate c else c)
            in c\<lparr>tc_timer := tc_rto c, tc_len := 0\<rparr>)) s)\<lparr>uip_flags := UIP_ACKDATA\<rparr>
      else s)"

definition tcp_syn_rcvd :: "'a uip_st_scheme uip_env \<Rightarrow> nat \<Rightarrow> 'a uip_st_scheme \<Rightarrow> 'a uip_st_scheme option" where
  "tcp_syn_rcvd env i s =
     (if uip_flags s AND UIP_ACKDATA \<noteq> 0 then
        (let s = (upd_conn i (\<lambda>c. c\<lparr>tc_tcpstateflags := UIP_ESTABLISHED, tc_len := 0\<rparr>) s)
                   \<lparr>uip_flags := UIP_CONNECTED\<rparr>;
             s = (if 0 < uip_len s
                  then uip_add_rcv_nxt (uip_len s) (s\<lparr>uip_flags := uip_flags s OR UIP_NEWDATA\<rparr>)
                  else s)
         in do { s \<leftarrow> appcall env (s\<lparr>uip_slen := 0\<rparr>); Some (appsend i s) })
      else Some (drop_lbl s))"

definition tcp_syn_sent :: "'a uip_st_scheme uip_env \<Rightarrow> nat \<Rightarrow> 'a uip_st_scheme \<Rightarrow> 'a uip_st_scheme option" where
  "tcp_syn_sent env i s =
     (if uip_flags s AND UIP_ACKDATA \<noteq> 0
         \<and> uip_buf s B_flags AND TCP_CTL = (TCP_SYN OR TCP_ACK) then
        do {
          c \<leftarrow> parse_mss (uip_buf s) (tconn s i);
          let s = upd_conn i (\<lambda>_. c\<lparr>tc_tcpstateflags := UIP_ESTABLISHED,
                    tc_rcv_nxt := rd4 (uip_buf s) B_seqno\<rparr>) s;
          let s = uip_add_rcv_nxt 1 s;
          let s = upd_conn i (\<lambda>c. c\<lparr>tc_len := 0\<rparr>) s;
          s \<leftarrow> appcall env (s\<lparr>uip_flags := UIP_CONNECTED OR UIP_NEWDATA, uip_len := 0,
                 uip_slen := 0\<rparr>);
          Some (appsend i s)
        }
      else do {
        s \<leftarrow> appcall env (s\<lparr>uip_flags := UIP_ABORT\<rparr>);
        Some (reset_lbl (case uip_conn s of
            Some j \<Rightarrow> upd_conn j (\<lambda>c. c\<lparr>tc_tcpstateflags := UIP_CLOSED\<rparr>) s
          | None \<Rightarrow> s))
      })"

text \<open>
  A segment without FIN in ESTABLISHED: the urgent data is skipped, the data accepted unless the
  connection is stopped, and the segment size adjusted to the window of the peer.
\<close>

definition established_accept :: "nat \<Rightarrow> 'a uip_st_scheme \<Rightarrow> 'a uip_st_scheme" where
  "established_accept i s =
     (let urgp = push_bit 8 (ucast (uip_buf s B_urgp0)) OR ucast (uip_buf s B_urgp1) :: u16;
          s = (if uip_buf s B_flags AND TCP_URG \<noteq> 0
               then s\<lparr>uip_appdata := uip_appdata s + unat urgp, uip_len := uip_len s - urgp\<rparr>
               else s);
          s = (if 0 < uip_len s \<and> tc_tcpstateflags (tconn s i) AND UIP_STOPPED = 0
               then uip_add_rcv_nxt (uip_len s) (s\<lparr>uip_flags := uip_flags s OR UIP_NEWDATA\<rparr>)
               else s);
          wnd = push_bit 8 (ucast (uip_buf s B_wnd0)) + ucast (uip_buf s B_wnd1) :: u16
      in upd_conn i (\<lambda>c. c\<lparr>tc_mss :=
           (if tc_initialmss c < wnd \<or> wnd = 0 then tc_initialmss c else wnd)\<rparr>) s)"

definition tcp_established :: "'a uip_st_scheme uip_env \<Rightarrow> nat \<Rightarrow> 'a uip_st_scheme \<Rightarrow> 'a uip_st_scheme option" where
  "tcp_established env i s =
     (if uip_buf s B_flags AND TCP_FIN \<noteq> 0 \<and> tc_tcpstateflags (tconn s i) AND UIP_STOPPED = 0 then
        (if tc_len (tconn s i) \<noteq> 0 then Some (drop_lbl s)
         else
           (let s = uip_add_rcv_nxt (1 + uip_len s) s;
                s = s\<lparr>uip_flags := uip_flags s OR UIP_CLOSE\<rparr>;
                s = (if 0 < uip_len s then s\<lparr>uip_flags := uip_flags s OR UIP_NEWDATA\<rparr> else s)
            in do {
              s \<leftarrow> appcall env s;
              Some (tcp_send_finack i (upd_conn i (\<lambda>c. c\<lparr>tc_len := 1,
                tc_tcpstateflags := UIP_LAST_ACK, tc_nrtx := 0\<rparr>) s)) }))
      else
        (let s = established_accept i s in
         if uip_flags s AND (UIP_NEWDATA OR UIP_ACKDATA) \<noteq> 0
         then do { s \<leftarrow> appcall env (s\<lparr>uip_slen := 0\<rparr>); Some (appsend i s) }
         else Some (drop_lbl s)))"

definition tcp_last_ack :: "'a uip_st_scheme uip_env \<Rightarrow> nat \<Rightarrow> 'a uip_st_scheme \<Rightarrow> 'a uip_st_scheme option" where
  "tcp_last_ack env i s =
     (if uip_flags s AND UIP_ACKDATA \<noteq> 0
      then do {
        s \<leftarrow> appcall env ((upd_conn i (\<lambda>c. c\<lparr>tc_tcpstateflags := UIP_CLOSED\<rparr>) s)
               \<lparr>uip_flags := UIP_CLOSE\<rparr>);
        Some (drop_lbl s) }
      else Some (drop_lbl s))"

definition tcp_fin_wait_1 :: "'a uip_st_scheme uip_env \<Rightarrow> nat \<Rightarrow> 'a uip_st_scheme \<Rightarrow> 'a uip_st_scheme option" where
  "tcp_fin_wait_1 env i s0 =
     (let s = (if 0 < uip_len s0 then uip_add_rcv_nxt (uip_len s0) s0 else s0) in
      if uip_buf s B_flags AND TCP_FIN \<noteq> 0 then
        (let s = (if uip_flags s AND UIP_ACKDATA \<noteq> 0
                  then upd_conn i (\<lambda>c. c\<lparr>tc_tcpstateflags := UIP_TIME_WAIT, tc_timer := 0,
                         tc_len := 0\<rparr>) s
                  else upd_conn i (\<lambda>c. c\<lparr>tc_tcpstateflags := UIP_CLOSING\<rparr>) s);
             s = uip_add_rcv_nxt 1 s
         in do { s \<leftarrow> appcall env (s\<lparr>uip_flags := UIP_CLOSE\<rparr>); Some (tcp_send_ack i s) })
      else if uip_flags s AND UIP_ACKDATA \<noteq> 0
      then Some (drop_lbl (upd_conn i (\<lambda>c. c\<lparr>tc_tcpstateflags := UIP_FIN_WAIT_2, tc_len := 0\<rparr>) s))
      else if 0 < uip_len s then Some (tcp_send_ack i s)
      else Some (drop_lbl s))"

definition tcp_fin_wait_2 :: "'a uip_st_scheme uip_env \<Rightarrow> nat \<Rightarrow> 'a uip_st_scheme \<Rightarrow> 'a uip_st_scheme option" where
  "tcp_fin_wait_2 env i s0 =
     (let s = (if 0 < uip_len s0 then uip_add_rcv_nxt (uip_len s0) s0 else s0) in
      if uip_buf s B_flags AND TCP_FIN \<noteq> 0 then
        (let s = upd_conn i (\<lambda>c. c\<lparr>tc_tcpstateflags := UIP_TIME_WAIT, tc_timer := 0\<rparr>) s;
             s = uip_add_rcv_nxt 1 s
         in do { s \<leftarrow> appcall env (s\<lparr>uip_flags := UIP_CLOSE\<rparr>); Some (tcp_send_ack i s) })
      else if 0 < uip_len s then Some (tcp_send_ack i s)
      else Some (drop_lbl s))"

definition tcp_closing :: "nat \<Rightarrow> 'a uip_st_scheme \<Rightarrow> 'a uip_st_scheme" where
  "tcp_closing i s =
     (if uip_flags s AND UIP_ACKDATA \<noteq> 0
      then drop_lbl (upd_conn i (\<lambda>c. c\<lparr>tc_tcpstateflags := UIP_TIME_WAIT, tc_timer := 0\<rparr>) s)
      else drop_lbl s)"

text \<open>The switch on the state of the connection.\<close>

definition tcp_state_switch :: "'a uip_st_scheme uip_env \<Rightarrow> nat \<Rightarrow> 'a uip_st_scheme \<Rightarrow> 'a uip_st_scheme option" where
  "tcp_state_switch env i s =
     (let st = tc_tcpstateflags (tconn s i) AND UIP_TS_MASK in
      if st = UIP_SYN_RCVD then tcp_syn_rcvd env i s
      else if st = UIP_SYN_SENT then tcp_syn_sent env i s
      else if st = UIP_ESTABLISHED then tcp_established env i s
      else if st = UIP_LAST_ACK then tcp_last_ack env i s
      else if st = UIP_FIN_WAIT_1 then tcp_fin_wait_1 env i s
      else if st = UIP_FIN_WAIT_2 then tcp_fin_wait_2 env i s
      else if st = UIP_TIME_WAIT then Some (tcp_send_ack i s)
      else if st = UIP_CLOSING then Some (tcp_closing i s)
      else Some (drop_lbl s))"

text \<open>The label \<^verbatim>\<open>found\<close>: a segment for the active connection \<open>i\<close>.\<close>

definition tcp_found :: "'a uip_st_scheme uip_env \<Rightarrow> nat \<Rightarrow> 'a uip_st_scheme \<Rightarrow> 'a uip_st_scheme option" where
  "tcp_found env i s0 =
     (let s = s0\<lparr>uip_conn := Some i, uip_flags := 0\<rparr>; b = uip_buf s in
      if b B_flags AND TCP_RST \<noteq> 0 then
        do { s \<leftarrow> appcall env ((upd_conn i (\<lambda>c. c\<lparr>tc_tcpstateflags := UIP_CLOSED\<rparr>) s)
                    \<lparr>uip_flags := UIP_ABORT\<rparr>);
             Some (drop_lbl s) }
      else
        (let hlen = push_bit 2 (drop_bit 4 (b B_tcpoffset));
             s = s\<lparr>uip_len := uip_len s - ucast hlen - 20\<rparr>;
             st = tc_tcpstateflags (tconn s i) AND UIP_TS_MASK
         in
         if \<not> (st = UIP_SYN_SENT \<and> b B_flags AND TCP_CTL = (TCP_SYN OR TCP_ACK))
            \<and> (0 < uip_len s \<or> b B_flags AND (TCP_SYN OR TCP_FIN) \<noteq> 0)
            \<and> \<not> xtcp_compare_words (rd4 b B_seqno) (tc_rcv_nxt (tconn s i))
         then Some (tcp_send_ack i s)
         else
           (let s = tcp_ack_input i s;
                s = (if b B_flags AND TCP_PSH \<noteq> 0
                     then s\<lparr>uip_flags := uip_flags s OR UIP_TCP_PUSH\<rparr> else s)
            in tcp_state_switch env i s)))"

definition tcp_match :: "mem \<Rightarrow> tcp_conn \<Rightarrow> bool" where
  "tcp_match b c \<longleftrightarrow> tc_tcpstateflags c \<noteq> UIP_CLOSED \<and> rd16 b B_destport = tc_lport c \<and>
     rd16 b B_srcport = tc_rport c \<and> uip_ipaddr_cmp (rdip b B_srcipaddr) (tc_ripaddr c)"

definition tcp_input :: "'a uip_st_scheme uip_env \<Rightarrow> 'a uip_st_scheme \<Rightarrow> 'a uip_st_scheme option" where
  "tcp_input env s =
     (let b = uip_buf s in
      if uip_tcpchksum b \<noteq> 0xffff then Some (drop_lbl s)
      else (case first_idx (tcp_match b) (uip_conns s) of
        Some i \<Rightarrow> tcp_found env i s
      | None \<Rightarrow>
          if b B_flags AND TCP_CTL \<noteq> TCP_SYN then Some (reset_lbl s)
          else if rd16 b B_destport \<in> set (uip_listenports s) then found_listen s
          else Some (reset_lbl s)))"

section \<open>IP input and the entry point\<close>

definition ip_dispatch :: "'a uip_st_scheme uip_env \<Rightarrow> 'a uip_st_scheme \<Rightarrow> 'a uip_st_scheme option" where
  "ip_dispatch env s =
     (let b = uip_buf s in
      if uip_ipchksum b \<noteq> 0xffff then Some (drop_lbl s)
      else if b B_proto = UIP_PROTO_TCP then tcp_input env s
      else if b B_proto = UIP_PROTO_UDP then udp_input env s
      else if igmp_enabled env \<and> b B_proto = UIP_PROTO_IGMP then Some (igmp_input env s)
      else if b B_proto \<noteq> UIP_PROTO_ICMP then Some (drop_lbl s)
      else Some (icmp_input s))"

definition ip_input :: "'a uip_st_scheme uip_env \<Rightarrow> 'a uip_st_scheme \<Rightarrow> 'a uip_st_scheme option" where
  "ip_input env s =
     (let b = uip_buf s; iplen = push_bit 8 (ucast (b B_len0)) + ucast (b B_len1) :: u16 in
      if b B_vhl \<noteq> 0x45 then Some (drop_lbl s)
      else if \<not> iplen \<le> uip_len s then Some (drop_lbl s)
      else
        (let s = s\<lparr>uip_len := iplen\<rparr> in
         if b B_ipoffset0 AND 0x3f \<noteq> 0 \<or> b B_ipoffset1 \<noteq> 0 then Some (drop_lbl s)
         else if uip_ipaddr_cmp (uip_hostaddr s) all_zeroes_addr then ip_dispatch env s
         else if b B_proto = UIP_PROTO_UDP \<and>
             (uip_ipaddr_cmp (rdip b B_destipaddr) all_ones_addr \<or>
              uip_ipaddr_is_multicast (rdip b B_destipaddr))
         then udp_input env s
         else if \<not> uip_ipaddr_cmp (rdip b B_destipaddr) (uip_hostaddr s)
             \<and> \<not> (igmp_enabled env \<and> igmp_check env s (rdip b B_destipaddr))
         then Some (drop_lbl s)
         else ip_dispatch env s))"

abbreviation (input) "UIP_DATA \<equiv> 1 :: u8"
abbreviation (input) "UIP_TIMER \<equiv> 2 :: u8"
abbreviation (input) "UIP_POLL_REQUEST \<equiv> 3 :: u8"
abbreviation (input) "UIP_UDP_SEND_CONN \<equiv> 4 :: u8"
abbreviation (input) "UIP_UDP_TIMER \<equiv> 5 :: u8"
abbreviation (input) "UIP_UDP_ARP_EVENT \<equiv> 6 :: u8"
abbreviation (input) "UIP_UDP_ACKDATA \<equiv> 7 :: u8"

text \<open>The UDP events: \<open>j\<close> is the connection \<^verbatim>\<open>uip_udp_conn\<close> points to.\<close>

definition udp_event :: "'a uip_st_scheme uip_env \<Rightarrow> u8 \<Rightarrow> nat \<Rightarrow> 'a uip_st_scheme \<Rightarrow> 'a uip_st_scheme option" where
  "udp_event env flag j s =
     (if uc_lport (uconn s j) \<noteq> 0
         \<and> (flag = UIP_UDP_ARP_EVENT \<longrightarrow> uc_udpflags (uconn s j) AND UDP_PENDING_ARP \<noteq> 0) then
        (let s = s\<lparr>uip_conn := None, uip_appdata := 42, uip_sappdata := 42, uip_len := 0,
                   uip_slen := 0\<rparr>;
             s = (if flag = UIP_UDP_ACKDATA
                  then upd_udp j (\<lambda>c. c\<lparr>uc_udpflags := uc_udpflags c XOR UDP_SENT\<rparr>)
                         (s\<lparr>uip_flags := UIP_ACKDATA\<rparr>)
                  else if flag = UIP_UDP_ARP_EVENT
                  then upd_udp j (\<lambda>c. c\<lparr>uc_udpflags := uc_udpflags c XOR UDP_PENDING_ARP\<rparr>)
                         (s\<lparr>uip_flags := UIP_REXMIT\<rparr>)
                  else s\<lparr>uip_flags := UIP_POLL\<rparr>)
         in do { s \<leftarrow> appcall env s; udp_send s })
      else Some (drop_lbl s))"

definition uip_process :: "'a uip_st_scheme uip_env \<Rightarrow> u8 \<Rightarrow> 'a uip_st_scheme \<Rightarrow> 'a uip_st_scheme option" where
  "uip_process env flag s0 =
     (if flag = UIP_UDP_SEND_CONN then udp_send s0
      else
        (let s = s0\<lparr>uip_appdata := 54, uip_sappdata := 54\<rparr> in
         if flag = UIP_POLL_REQUEST then
           (case uip_conn s of Some i \<Rightarrow> tcp_poll_request env i s | None \<Rightarrow> None)
         else if flag = UIP_TIMER then
           (case uip_conn s of Some i \<Rightarrow> tcp_timer env i s | None \<Rightarrow> None)
         else if flag = UIP_UDP_TIMER \<or> flag = UIP_UDP_ACKDATA \<or> flag = UIP_UDP_ARP_EVENT then
           (case uip_udp_conn s of Some j \<Rightarrow> udp_event env flag j s | None \<Rightarrow> None)
         else ip_input env s))"

text \<open>\<^verbatim>\<open>uip_send (data, len)\<close>, with \<^verbatim>\<open>data\<close> an offset into the packet buffer.\<close>

definition uip_send :: "nat \<Rightarrow> int \<Rightarrow> 'a uip_st_scheme \<Rightarrow> 'a uip_st_scheme" where
  "uip_send data len s =
     (if 0 < len then
        (let s = s\<lparr>uip_slen := of_int len\<rparr> in
         if data \<noteq> uip_sappdata s
         then s\<lparr>uip_buf := wrs (uip_sappdata s) (rds (uip_buf s) data (unat (uip_slen s))) (uip_buf s)\<rparr>
         else s)
      else s)"

text \<open>The entry points of \<^verbatim>\<open>uip.h\<close> that a driver calls.\<close>

definition uip_input :: "'a uip_st_scheme uip_env \<Rightarrow> 'a uip_st_scheme \<Rightarrow> 'a uip_st_scheme option" where
  "uip_input env s = uip_process env UIP_DATA s"

definition uip_periodic :: "'a uip_st_scheme uip_env \<Rightarrow> nat \<Rightarrow> 'a uip_st_scheme \<Rightarrow> 'a uip_st_scheme option" where
  "uip_periodic env i s = uip_process env UIP_TIMER (s\<lparr>uip_conn := Some i\<rparr>)"

definition uip_poll_conn :: "'a uip_st_scheme uip_env \<Rightarrow> nat \<Rightarrow> 'a uip_st_scheme \<Rightarrow> 'a uip_st_scheme option" where
  "uip_poll_conn env i s = uip_process env UIP_POLL_REQUEST (s\<lparr>uip_conn := Some i\<rparr>)"

definition uip_udp_periodic :: "'a uip_st_scheme uip_env \<Rightarrow> nat \<Rightarrow> 'a uip_st_scheme \<Rightarrow> 'a uip_st_scheme option" where
  "uip_udp_periodic env j s = uip_process env UIP_UDP_TIMER (s\<lparr>uip_udp_conn := Some j\<rparr>)"

definition uip_udp_arp_event :: "'a uip_st_scheme uip_env \<Rightarrow> nat \<Rightarrow> 'a uip_st_scheme \<Rightarrow> 'a uip_st_scheme option" where
  "uip_udp_arp_event env j s = uip_process env UIP_UDP_ARP_EVENT (s\<lparr>uip_udp_conn := Some j\<rparr>)"

definition uip_udp_ackdata :: "'a uip_st_scheme uip_env \<Rightarrow> nat \<Rightarrow> 'a uip_st_scheme \<Rightarrow> 'a uip_st_scheme option" where
  "uip_udp_ackdata env j s = uip_process env UIP_UDP_ACKDATA (s\<lparr>uip_udp_conn := Some j\<rparr>)"

definition uip_udp_conn_has_ack :: "udp_conn \<Rightarrow> bool" where
  "uip_udp_conn_has_ack c \<longleftrightarrow> uc_udpflags c AND UDP_SENT \<noteq> 0"

end
