(* ===== verification/Dhcpc.thy ===== *)
theory Dhcpc
  imports Igmp Uip_Tables Uip_Process
begin

text \<open>
  \<^verbatim>\<open>dhcpc/dhcpc.c\<close>: the DHCP client. The protothread \<^verbatim>\<open>handle_dhcp\<close> runs from one yield to the next on every
  call; the place where it continues is a value of type \<open>dhcp_pt\<close>, and the labels of the source are
  definitions. The value that the library function \<^verbatim>\<open>rand\<close> returns (the protothread calls it
  at most once between two yields), the clock reading and the callback \<^verbatim>\<open>dhcpc_configured\<close> are arguments.
\<close>

section \<open>State\<close>

datatype dhcp_machine = STATE_INITIAL | STATE_SENDING | STATE_OFFER_RECEIVED | STATE_CONFIG_RECEIVED | STATE_DISABLED

datatype dhcp_pt = PT_START | PT_INITWAIT | PT_DISCOVER | PT_REQUEST | PT_BOUND | PT_RENEW

record dhcpc_state =
  dh_pt :: dhcp_pt
  dh_state :: dhcp_machine
  dh_conn :: "nat option"
  dh_timer :: uip_timer
  dh_ticks :: u32
  dh_mac_addr :: "u8 list"
  dh_mac_len :: nat
  dh_serverid :: "u8 list"
  dh_lease_time :: "u16 \<times> u16"
  dh_ipaddr :: ipaddr
  dh_netmask :: ipaddr
  dh_dnsaddr :: ipaddr
  dh_default_router :: ipaddr

record dhcp_st = igmp_st +
  dhcp :: dhcpc_state
  dhcp_xid :: "u8 list"

abbreviation upd_dh :: "(dhcpc_state \<Rightarrow> dhcpc_state) \<Rightarrow> 'a dhcp_st_scheme \<Rightarrow> 'a dhcp_st_scheme" where
  "upd_dh f s \<equiv> s\<lparr>dhcp := f (dhcp s)\<rparr>"

abbreviation (input) "DHCPDISCOVER \<equiv> 1 :: u8"
abbreviation (input) "DHCPOFFER \<equiv> 2 :: u8"
abbreviation (input) "DHCPREQUEST \<equiv> 3 :: u8"
abbreviation (input) "DHCPACK \<equiv> 5 :: u8"
abbreviation (input) "DHCPNAK \<equiv> 6 :: u8"

section \<open>Messages\<close>

text \<open>The options, as the bytes the five \<^verbatim>\<open>add\<close> functions write.\<close>

definition add_msg_type :: "u8 \<Rightarrow> u8 list" where
  "add_msg_type ty = [53, 1, ty]"

definition add_server_id :: "dhcpc_state \<Rightarrow> u8 list" where
  "add_server_id d = [54, 4] @ dh_serverid d"

definition add_req_ipaddr :: "dhcpc_state \<Rightarrow> u8 list" where
  "add_req_ipaddr d = [50, 4, lo8 (fst (dh_ipaddr d)), hi8 (fst (dh_ipaddr d)),
     lo8 (snd (dh_ipaddr d)), hi8 (snd (dh_ipaddr d))]"

definition add_req_options :: "u8 list" where
  "add_req_options = [55, 3, 1, 3, 6]"

definition add_end :: "u8 list" where
  "add_end = [255]"

text \<open>
  \<^verbatim>\<open>create_msg\<close>: the message starts at \<^verbatim>\<open>uip_appdata\<close>; \<^verbatim>\<open>chaddr\<close> is at 28 and \<^verbatim>\<open>options\<close> at 236.
\<close>

definition create_msg :: "'a dhcp_st_scheme \<Rightarrow> 'a dhcp_st_scheme" where
  "create_msg s =
     (let d = dhcp s; m = uip_appdata s;
          b = (uip_buf s)(m := 1, m + 1 := 1, m + 2 := of_nat (dh_mac_len d), m + 3 := 0);
          b = wrs (m + 4) (dhcp_xid s) b;
          b = wr16 (m + 8) 0 b;
          b = wr16 (m + 10) (htons 0x8000) b;
          b = wrip (m + 12) (if dh_state d \<noteq> STATE_CONFIG_RECEIVED then (0, 0) else uip_hostaddr s) b;
          b = wrs (m + 16) (replicate 220 0) b;
          b = wrs (m + 28) (take (dh_mac_len d) (dh_mac_addr d)) b
      in s\<lparr>uip_buf := wrs (m + 236) [99, 130, 83, 99] b\<rparr>)"

definition put_options :: "u8 list \<Rightarrow> 'a dhcp_st_scheme \<Rightarrow> 'a dhcp_st_scheme" where
  "put_options os s = (let m = uip_appdata s
     in uip_send m (int (240 + length os)) (s\<lparr>uip_buf := wrs (m + 240) os (uip_buf s)\<rparr>))"

definition send_discover :: "'a dhcp_st_scheme \<Rightarrow> 'a dhcp_st_scheme" where
  "send_discover s = put_options (add_msg_type DHCPDISCOVER @ add_req_options @ add_end) (create_msg s)"

definition send_request :: "'a dhcp_st_scheme \<Rightarrow> 'a dhcp_st_scheme" where
  "send_request s = put_options
     (add_msg_type DHCPREQUEST @ add_server_id (dhcp s) @ add_req_ipaddr (dhcp s) @ add_end) (create_msg s)"

text \<open>One option at address \<open>p\<close>; the two halves of the lease time are swapped in place.\<close>

definition swap_half :: "u16 \<Rightarrow> u16" where
  "swap_half w = push_bit 8 w OR ucast (ucast (drop_bit 8 w) :: u8)"

definition store_option :: "mem \<Rightarrow> nat \<Rightarrow> dhcpc_state \<Rightarrow> dhcpc_state" where
  "store_option b p d =
     (if b p = 1 then d\<lparr>dh_netmask := rdip b (p + 2)\<rparr>
      else if b p = 3 then d\<lparr>dh_default_router := rdip b (p + 2)\<rparr>
      else if b p = 6 then d\<lparr>dh_dnsaddr := rdip b (p + 2)\<rparr>
      else if b p = 54 then d\<lparr>dh_serverid := rds b (p + 2) 4\<rparr>
      else if b p = 51 then d\<lparr>dh_lease_time := (swap_half (rd16 b (p + 2)), swap_half (rd16 b (p + 4)))\<rparr>
      else d)"

function parse_options :: "mem \<Rightarrow> nat \<Rightarrow> nat \<Rightarrow> u8 \<Rightarrow> dhcpc_state \<Rightarrow> u8 \<times> dhcpc_state" where
  "parse_options b p e ty d =
     (if p < e \<and> b p \<noteq> 255
      then parse_options b (p + unat (b (p + 1)) + 2) e (if b p = 53 then b (p + 2) else ty) (store_option b p d)
      else (ty, d))"
  by pat_completeness auto
termination by (relation "measure (\<lambda>(b, p, e, ty, d). e - p)") auto

declare parse_options.simps [simp del]

definition dhcp_reply_for_me :: "'a dhcp_st_scheme \<Rightarrow> bool" where
  "dhcp_reply_for_me s =
     (let m = uip_appdata s; b = uip_buf s in
      b m = 2 \<and> rds b (m + 4) 4 = dhcp_xid s \<and>
      rds b (m + 28) (dh_mac_len (dhcp s)) = take (dh_mac_len (dhcp s)) (dh_mac_addr (dhcp s)))"

text \<open>The end of the options is taken to be \<^verbatim>\<open>uip_datalen ()\<close> bytes after their start.\<close>

definition parse_msg :: "'a dhcp_st_scheme \<Rightarrow> u8 \<times> 'a dhcp_st_scheme" where
  "parse_msg s =
     (if dhcp_reply_for_me s then
        (let m = uip_appdata s;
             d = (dhcp s)\<lparr>dh_ipaddr := rdip (uip_buf s) (m + 16)\<rparr>;
             (ty, d) = parse_options (uip_buf s) (m + 240) (m + 240 + unat (uip_len s)) 0 d
         in (ty, s\<lparr>dhcp := d\<rparr>))
      else (0, s))"

function find_msg_type :: "mem \<Rightarrow> nat \<Rightarrow> nat \<Rightarrow> int" where
  "find_msg_type b p e =
     (if p < e then
        (if b p = 53 then int (unat (b (p + 2)))
         else if b p = 255 then -1
         else find_msg_type b (p + unat (b (p + 1)) + 2) e)
      else -1)"
  by pat_completeness auto
termination by (relation "measure (\<lambda>(b, p, e). e - p)") auto

declare find_msg_type.simps [simp del]

definition msg_for_me :: "'a dhcp_st_scheme \<Rightarrow> int" where
  "msg_for_me s =
     (if dhcp_reply_for_me s
      then find_msg_type (uip_buf s) (uip_appdata s + 240) (uip_appdata s + unat (uip_len s))
      else -1)"

section \<open>The protothread\<close>

definition dh_arm :: "u32 \<Rightarrow> u32 \<Rightarrow> dhcp_pt \<Rightarrow> 'a dhcp_st_scheme \<Rightarrow> 'a dhcp_st_scheme" where
  "dh_arm now ticks pt = upd_dh (\<lambda>d. d\<lparr>dh_timer := timer_set now ticks, dh_pt := pt\<rparr>)"

definition dhcp_initwait :: "nat \<Rightarrow> u32 \<Rightarrow> 'a dhcp_st_scheme \<Rightarrow> 'a dhcp_st_scheme" where
  "dhcp_initwait rnd now s =
     (let s = upd_dh (\<lambda>d. d\<lparr>dh_ticks := of_nat (rnd mod 8192)\<rparr>) s
      in dh_arm now (dh_ticks (dhcp s)) PT_INITWAIT s)"

definition dhcp_discover :: "u32 \<Rightarrow> 'a dhcp_st_scheme \<Rightarrow> 'a dhcp_st_scheme" where
  "dhcp_discover now s = (let s = send_discover s in dh_arm now (dh_ticks (dhcp s)) PT_DISCOVER s)"

definition dhcp_init :: "u32 \<Rightarrow> 'a dhcp_st_scheme \<Rightarrow> 'a dhcp_st_scheme" where
  "dhcp_init now s = dhcp_discover now (upd_dh (\<lambda>d. d\<lparr>dh_state := STATE_SENDING, dh_ticks := CLOCK_SECOND\<rparr>) s)"

definition dhcp_request :: "u32 \<Rightarrow> 'a dhcp_st_scheme \<Rightarrow> 'a dhcp_st_scheme" where
  "dhcp_request now s = (let s = send_request s in dh_arm now (dh_ticks (dhcp s)) PT_REQUEST s)"

definition dhcp_selecting :: "u32 \<Rightarrow> 'a dhcp_st_scheme \<Rightarrow> 'a dhcp_st_scheme" where
  "dhcp_selecting now s = dhcp_request now (upd_dh (\<lambda>d. d\<lparr>dh_ticks := CLOCK_SECOND\<rparr>) s)"

text \<open>Half the lease time, in 32-bit arithmetic; the test against \<^verbatim>\<open>MAX_TICKS32\<close> cannot fail.\<close>

definition lease_ticks :: "dhcpc_state \<Rightarrow> u32" where
  "lease_ticks d =
     (let t = (ucast (fst (dh_lease_time d)) * 65536 + ucast (snd (dh_lease_time d))) * CLOCK_SECOND div 2
      in if t \<le> 0xffffffff then t else 0xffffffff)"

definition dhcp_renew :: "u32 \<Rightarrow> 'a dhcp_st_scheme \<Rightarrow> 'a dhcp_st_scheme" where
  "dhcp_renew now s =
     (let s = send_request s;
          ticks = min (dh_ticks (dhcp s) div 2) 0x7fffffff
      in dh_arm now ticks PT_RENEW (upd_dh (\<lambda>d. d\<lparr>dh_ticks := dh_ticks d - ticks\<rparr>) s))"

text \<open>The loop that waits for half the lease, in steps of at most \<^verbatim>\<open>MAX_TICKS\<close>.\<close>

definition dhcp_wait_lease :: "u32 \<Rightarrow> 'a dhcp_st_scheme \<Rightarrow> 'a dhcp_st_scheme" where
  "dhcp_wait_lease now s =
     (if 0 < dh_ticks (dhcp s) then
        (let ticks = min (dh_ticks (dhcp s)) 0x7fffffff
         in dh_arm now ticks PT_BOUND (upd_dh (\<lambda>d. d\<lparr>dh_ticks := dh_ticks d - ticks\<rparr>) s))
      else dhcp_renew now (upd_dh (\<lambda>d. d\<lparr>dh_ticks := lease_ticks d\<rparr>) s))"

definition dhcp_bound ::
  "(dhcpc_state \<Rightarrow> 'a dhcp_st_scheme \<Rightarrow> 'a dhcp_st_scheme) \<Rightarrow> u32 \<Rightarrow> 'a dhcp_st_scheme \<Rightarrow> 'a dhcp_st_scheme" where
  "dhcp_bound dhcpc_configured now s =
     dhcp_wait_lease now (upd_dh (\<lambda>d. d\<lparr>dh_ticks := lease_ticks d\<rparr>) (dhcpc_configured (dhcp s) s))"

definition handle_dhcp ::
  "(dhcpc_state \<Rightarrow> 'a dhcp_st_scheme \<Rightarrow> 'a dhcp_st_scheme) \<Rightarrow> nat \<Rightarrow> u32 \<Rightarrow> 'a dhcp_st_scheme \<Rightarrow> 'a dhcp_st_scheme" where
  "handle_dhcp dhcpc_configured rnd now s =
     (let expired = timer_expired now (dh_timer (dhcp s));
          newdata = (uip_flags s AND UIP_NEWDATA \<noteq> 0);
          msg = (if newdata then msg_for_me s else -1)
      in case dh_pt (dhcp s) of
        PT_START \<Rightarrow> (if dh_state (dhcp s) = STATE_DISABLED then s else dhcp_initwait rnd now s)
      | PT_INITWAIT \<Rightarrow> (if expired then dhcp_init now s else s)
      | PT_DISCOVER \<Rightarrow>
          (if msg = 2 then dhcp_selecting now (upd_dh (\<lambda>d. d\<lparr>dh_state := STATE_OFFER_RECEIVED\<rparr>) (snd (parse_msg s)))
           else if expired then
             (let s = (if dh_ticks (dhcp s) = 4 * CLOCK_SECOND then autoip_start s else s);
                  s = (if dh_ticks (dhcp s) < 60 * CLOCK_SECOND
                       then upd_dh (\<lambda>d. d\<lparr>dh_ticks := dh_ticks d * 2\<rparr>) s else s)
              in dhcp_discover now s)
           else s)
      | PT_REQUEST \<Rightarrow>
          (if msg = 5 then
             dhcp_bound dhcpc_configured now (upd_dh (\<lambda>d. d\<lparr>dh_state := STATE_CONFIG_RECEIVED\<rparr>) (snd (parse_msg s)))
           else if msg = 6 then dhcp_initwait rnd now s
           else if expired then
             (if dh_ticks (dhcp s) \<le> 10 * CLOCK_SECOND then
                (let s = upd_dh (\<lambda>d. d\<lparr>dh_ticks := dh_ticks d + CLOCK_SECOND\<rparr>) s
                 in if dh_state (dhcp s) \<noteq> STATE_CONFIG_RECEIVED then dhcp_request now s
                    else dhcp_bound dhcpc_configured now s)
              else dhcp_init now s)
           else s)
      | PT_BOUND \<Rightarrow> (if expired then dhcp_wait_lease now s else s)
      | PT_RENEW \<Rightarrow>
          (if msg = 5 then dhcp_bound dhcpc_configured now (snd (parse_msg s))
           else if msg = 6 then dhcp_init now s
           else if expired then
             (if 3 * CLOCK_SECOND \<le> dh_ticks (dhcp s) then dhcp_renew now s else dhcp_init now s)
           else s))"

definition dhcpc_init :: "u8 list \<Rightarrow> nat \<Rightarrow> 'a dhcp_st_scheme \<Rightarrow> 'a dhcp_st_scheme option" where
  "dhcpc_init mac_addr mac_len s =
     (let s = s\<lparr>dhcp := (dhcp s)\<lparr>dh_mac_addr := mac_addr, dh_mac_len := mac_len, dh_state := STATE_DISABLED\<rparr>,
                dhcp_xid := [mac_addr ! 2, mac_addr ! 3, mac_addr ! 4, mac_addr ! 5]\<rparr>
      in do {
        (s, conn) \<leftarrow> uip_udp_new (Some (mk_ipaddr 255 255 255 255)) (htons 67) s;
        let s = (case conn of None \<Rightarrow> s | Some j \<Rightarrow> uip_udp_bind j (htons 68) s);
        Some (upd_dh (\<lambda>d. d\<lparr>dh_conn := conn, dh_pt := PT_START\<rparr>) s)
      })"

definition dhcpc_start :: "'a dhcp_st_scheme \<Rightarrow> 'a dhcp_st_scheme" where
  "dhcpc_start s = upd_dh (\<lambda>d. d\<lparr>dh_pt := PT_START\<rparr>)
     (uip_udp_listen (htons 68) (upd_dh (\<lambda>d. d\<lparr>dh_state := STATE_INITIAL\<rparr>) s))"

definition dhcpc_stop :: "'a dhcp_st_scheme \<Rightarrow> 'a dhcp_st_scheme" where
  "dhcpc_stop s = upd_dh (\<lambda>d. d\<lparr>dh_pt := PT_START\<rparr>)
     (uip_udp_unlisten (htons 68) (upd_dh (\<lambda>d. d\<lparr>dh_state := STATE_DISABLED\<rparr>) s))"

abbreviation (input) dhcpc_appcall where "dhcpc_appcall \<equiv> handle_dhcp"

definition dhcpc_request :: "'a dhcp_st_scheme \<Rightarrow> 'a dhcp_st_scheme" where
  "dhcpc_request s = (if dh_state (dhcp s) = STATE_INITIAL then s\<lparr>uip_hostaddr := mk_ipaddr 0 0 0 0\<rparr> else s)"

section \<open>What the client changes\<close>

named_theorems dhcp_sel \<open>what sending leaves alone\<close>

lemma uip_send_sel [dhcp_sel]:
  "uip_conns (uip_send p n s) = uip_conns s" "uip_conn (uip_send p n s) = uip_conn s"
  "uip_udp_conns (uip_send p n s) = uip_udp_conns s" "uip_hostaddr (uip_send p n s) = uip_hostaddr s"
  "uip_netmask (uip_send p n s) = uip_netmask s" "uip_draddr (uip_send p n s) = uip_draddr s"
  "uip_flags (uip_send p n s) = uip_flags s" "uip_udp_conn (uip_send p n s) = uip_udp_conn s"
  "uip_appdata (uip_send p n s) = uip_appdata s" "uip_sappdata (uip_send p n s) = uip_sappdata s"
  "uip_len (uip_send p n s) = uip_len s"
  by (simp_all add: uip_send_def Let_def)

lemma uip_send_dhcp [dhcp_sel]: "dhcp (uip_send p n s) = dhcp s" "dhcp_xid (uip_send p n s) = dhcp_xid s"
  "autoip (uip_send p n s) = autoip s" "igmp_groups (uip_send p n s) = igmp_groups s"
  by (simp_all add: uip_send_def Let_def)

lemma create_msg_sel [dhcp_sel]:
  "uip_conns (create_msg s) = uip_conns s" "uip_conn (create_msg s) = uip_conn s"
  "uip_udp_conns (create_msg s) = uip_udp_conns s" "uip_hostaddr (create_msg s) = uip_hostaddr s"
  "dhcp (create_msg s) = dhcp s" "uip_appdata (create_msg s) = uip_appdata s" "uip_udp_conn (create_msg s) = uip_udp_conn s"
  by (simp_all add: create_msg_def Let_def)

lemma put_options_sel [dhcp_sel]:
  "uip_conns (put_options os s) = uip_conns s" "uip_conn (put_options os s) = uip_conn s"
  "uip_udp_conns (put_options os s) = uip_udp_conns s" "uip_hostaddr (put_options os s) = uip_hostaddr s"
  "dhcp (put_options os s) = dhcp s" "uip_udp_conn (put_options os s) = uip_udp_conn s"
  by (simp_all add: put_options_def Let_def dhcp_sel)

lemma parse_msg_sel [dhcp_sel]:
  "uip_conns (snd (parse_msg s)) = uip_conns s" "uip_conn (snd (parse_msg s)) = uip_conn s"
  "uip_udp_conns (snd (parse_msg s)) = uip_udp_conns s" "uip_hostaddr (snd (parse_msg s)) = uip_hostaddr s"
  "uip_udp_conn (snd (parse_msg s)) = uip_udp_conn s"
  by (simp_all add: parse_msg_def Let_def split: prod.split)

lemma autoip_start_sel [dhcp_sel]:
  "uip_conns (autoip_start s) = uip_conns s" "uip_conn (autoip_start s) = uip_conn s"
  "uip_udp_conns (autoip_start s) = uip_udp_conns s" "uip_hostaddr (autoip_start s) = uip_hostaddr s"
  "uip_udp_conn (autoip_start s) = uip_udp_conn s"
  by (simp_all add: autoip_start_def autoip_init_def)

lemma autoip_start_dhcp [dhcp_sel]: "dhcp (autoip_start s) = dhcp s"
  by (simp add: autoip_start_def autoip_init_def)

lemmas dhcp_labels = dhcp_initwait_def dhcp_discover_def dhcp_init_def dhcp_request_def dhcp_selecting_def
  dhcp_renew_def dhcp_wait_lease_def dhcp_bound_def dh_arm_def send_discover_def send_request_def Let_def

section \<open>Reachable states\<close>

lemma parse_options_inv:
  assumes "\<And>b p d. f (store_option b p d) = f d"
  shows "f (snd (parse_options b p e ty d)) = f d"
proof (induction b p e ty d rule: parse_options.induct)
  case (1 b p e ty d)
  then show ?case by (subst parse_options.simps) (simp add: assms)
qed

lemma parse_options_keeps:
  "dh_ipaddr (snd (parse_options b p e ty d)) = dh_ipaddr d" "dh_state (snd (parse_options b p e ty d)) = dh_state d"
  "dh_pt (snd (parse_options b p e ty d)) = dh_pt d" "dh_ticks (snd (parse_options b p e ty d)) = dh_ticks d"
  "dh_timer (snd (parse_options b p e ty d)) = dh_timer d"
  by (rule parse_options_inv; simp add: store_option_def)+

lemma parse_msg_keeps:
  "dh_state (dhcp (snd (parse_msg s))) = dh_state (dhcp s)" "dh_pt (dhcp (snd (parse_msg s))) = dh_pt (dhcp s)"
  "dh_ticks (dhcp (snd (parse_msg s))) = dh_ticks (dhcp s)" "dh_timer (dhcp (snd (parse_msg s))) = dh_timer (dhcp s)"
  "dhcp_reply_for_me s \<Longrightarrow> dh_ipaddr (dhcp (snd (parse_msg s))) = rdip (uip_buf s) (uip_appdata s + 16)"
  using parse_options_keeps [of "uip_buf s" "uip_appdata s + 240" "uip_appdata s + 240 + unat (uip_len s)" 0
      "(dhcp s)\<lparr>dh_ipaddr := rdip (uip_buf s) (uip_appdata s + 16)\<rparr>"]
  by (auto simp: parse_msg_def Let_def split: prod.split)

text \<open>The states of the client, whatever the rest of the server does in between.\<close>

inductive dhcp_reach ::
  "(dhcpc_state \<Rightarrow> 'a dhcp_st_scheme \<Rightarrow> 'a dhcp_st_scheme) \<Rightarrow> 'a dhcp_st_scheme \<Rightarrow> bool" for conf where
    init: "dhcpc_init mac n s = Some s' \<Longrightarrow> dhcp_reach conf s'"
  | start: "dhcp_reach conf s \<Longrightarrow> dhcp_reach conf (dhcpc_start s)"
  | stop: "dhcp_reach conf s \<Longrightarrow> dhcp_reach conf (dhcpc_stop s)"
  | call: "dhcp_reach conf s \<Longrightarrow> dhcp_reach conf (handle_dhcp conf rnd now s)"
  | other: "dhcp_reach conf s \<Longrightarrow> dhcp s' = dhcp s \<Longrightarrow> dhcp_reach conf s'"

definition dhcp_inv :: "dhcpc_state \<Rightarrow> bool" where
  "dhcp_inv d \<longleftrightarrow> (case dh_pt d of
      PT_START \<Rightarrow> True
    | PT_INITWAIT \<Rightarrow> dh_state d \<noteq> STATE_DISABLED \<and> (\<exists>k < 8192. tm_interval (dh_timer d) = of_nat k)
    | PT_DISCOVER \<Rightarrow> dh_state d = STATE_SENDING \<and> tm_interval (dh_timer d) = dh_ticks d \<and>
        dh_ticks d \<in> {1000, 2000, 4000, 8000, 16000, 32000, 64000}
    | PT_REQUEST \<Rightarrow> dh_state d = STATE_OFFER_RECEIVED \<and> tm_interval (dh_timer d) = dh_ticks d \<and>
        dh_ticks d \<in> {1000, 2000, 3000, 4000, 5000, 6000, 7000, 8000, 9000, 10000, 11000}
    | PT_BOUND \<Rightarrow> dh_state d = STATE_CONFIG_RECEIVED
    | PT_RENEW \<Rightarrow> dh_state d = STATE_CONFIG_RECEIVED)"

lemma dhcp_inv_labels:
  "dh_state (dhcp s) \<noteq> STATE_DISABLED \<Longrightarrow> dhcp_inv (dhcp (dhcp_initwait rnd now s))"
  "dhcp_inv (dhcp (dhcp_init now s))"
  "dh_state (dhcp s) = STATE_OFFER_RECEIVED \<Longrightarrow> dhcp_inv (dhcp (dhcp_selecting now s))"
  "dh_state (dhcp s) = STATE_CONFIG_RECEIVED \<Longrightarrow> dhcp_inv (dhcp (dhcp_wait_lease now s))"
  "dh_state (dhcp s) = STATE_CONFIG_RECEIVED \<Longrightarrow> dhcp_inv (dhcp (dhcp_renew now s))"
  by (auto simp: dhcp_inv_def dhcp_labels dhcp_sel timer_set_def intro: exI [of _ "rnd mod 8192"])

section \<open>What the client promises\<close>

locale dhcp_client =
  fixes conf :: "dhcpc_state \<Rightarrow> 'a dhcp_st_scheme \<Rightarrow> 'a dhcp_st_scheme"
  assumes conf_conns: "uip_conns (conf d s) = uip_conns s"
    and conf_conn: "uip_conn (conf d s) = uip_conn s"
    and conf_udp: "uip_udp_conns (conf d s) = uip_udp_conns s"
    and conf_dhcp: "dhcp (conf d s) = dhcp s"
    and conf_host: "uip_hostaddr (conf d s) = dh_ipaddr d"
begin

lemma handle_tables:
  "uip_conns (handle_dhcp conf rnd now s) = uip_conns s" "uip_conn (handle_dhcp conf rnd now s) = uip_conn s"
  "uip_udp_conns (handle_dhcp conf rnd now s) = uip_udp_conns s"
  by (simp_all add: handle_dhcp_def dhcp_labels dhcp_sel conf_conns conf_conn conf_udp split: dhcp_pt.split)

lemma handle_inv:
  assumes "dhcp_inv (dhcp s)"
  shows "dhcp_inv (dhcp (handle_dhcp conf rnd now s))"
proof (cases "dh_pt (dhcp s)")
  case PT_START
  with assms dhcp_inv_labels(1) show ?thesis by (auto simp: handle_dhcp_def Let_def)
next
  case PT_INITWAIT
  with assms dhcp_inv_labels(2) show ?thesis by (auto simp: handle_dhcp_def Let_def)
next
  case PT_DISCOVER
  have sel: "dhcp_inv (dhcp (dhcp_selecting now (upd_dh (\<lambda>d. d\<lparr>dh_state := STATE_OFFER_RECEIVED\<rparr>) (snd (parse_msg s)))))"
    by (rule dhcp_inv_labels(3)) simp
  have disc: "dhcp_inv (dhcp (dhcp_discover now u))"
    if "dh_state (dhcp u) = STATE_SENDING" "dh_ticks (dhcp u) \<in> {1000, 2000, 4000, 8000, 16000, 32000, 64000}" for u :: "'a dhcp_st_scheme"
    using that by (simp add: dhcp_inv_def dhcp_labels dhcp_sel timer_set_def)
  show ?thesis
    using assms PT_DISCOVER sel unfolding handle_dhcp_def Let_def
    by (auto simp: dhcp_inv_def [of "dhcp s"] dhcp_sel intro!: disc)
next
  case PT_REQUEST
  have req: "dhcp_inv (dhcp (dhcp_request now u))"
    if "dh_state (dhcp u) = STATE_OFFER_RECEIVED"
      "dh_ticks (dhcp u) \<in> {1000, 2000, 3000, 4000, 5000, 6000, 7000, 8000, 9000, 10000, 11000}" for u :: "'a dhcp_st_scheme"
    using that by (simp add: dhcp_inv_def dhcp_labels dhcp_sel timer_set_def)
  have "dhcp_inv (dhcp (dhcp_bound conf now (upd_dh (\<lambda>d. d\<lparr>dh_state := STATE_CONFIG_RECEIVED\<rparr>) (snd (parse_msg s)))))"
    unfolding dhcp_bound_def by (rule dhcp_inv_labels(4)) (simp add: conf_dhcp)
  then show ?thesis
    using assms PT_REQUEST dhcp_inv_labels(1) [of s rnd now] dhcp_inv_labels(2) [of now s] unfolding handle_dhcp_def Let_def
    by (auto simp: dhcp_inv_def [of "dhcp s"] intro!: req)
next
  case PT_BOUND
  with assms dhcp_inv_labels(4) [of s now] show ?thesis by (auto simp: handle_dhcp_def Let_def dhcp_inv_def [of "dhcp s"])
next
  case PT_RENEW
  then have st: "dh_state (dhcp s) = STATE_CONFIG_RECEIVED" using assms by (simp add: dhcp_inv_def)
  have "dhcp_inv (dhcp (dhcp_bound conf now (snd (parse_msg s))))"
    unfolding dhcp_bound_def by (rule dhcp_inv_labels(4)) (simp add: conf_dhcp parse_msg_keeps st)
  with assms PT_RENEW st dhcp_inv_labels(2,5) show ?thesis by (auto simp: handle_dhcp_def Let_def)
qed

lemma reach_inv: "dhcp_reach conf s \<Longrightarrow> dhcp_inv (dhcp s)"
proof (induction rule: dhcp_reach.induct)
  case (init mac n s s')
  then show ?case by (auto simp: dhcpc_init_def dhcp_inv_def Let_def bind_eq_Some_conv)
next
  case (call s rnd now)
  then show ?case by (intro handle_inv)
qed (simp_all add: dhcp_inv_def dhcpc_start_def dhcpc_stop_def)

lemma host_exact:
  assumes inv: "dhcp_inv (dhcp s)"
  shows "uip_hostaddr (handle_dhcp conf rnd now s) =
    (if dh_pt (dhcp s) \<in> {PT_REQUEST, PT_RENEW} \<and> uip_flags s AND UIP_NEWDATA \<noteq> 0 \<and> msg_for_me s = 5
     then rdip (uip_buf s) (uip_appdata s + 16) else uip_hostaddr s)"
proof -
  have me: "msg_for_me s = 5 \<Longrightarrow> dhcp_reply_for_me s" by (simp add: msg_for_me_def split: if_splits)
  have quiet: "uip_hostaddr (dhcp_initwait rnd now u) = uip_hostaddr u" "uip_hostaddr (dhcp_init now u) = uip_hostaddr u"
    "uip_hostaddr (dhcp_selecting now u) = uip_hostaddr u" "uip_hostaddr (dhcp_wait_lease now u) = uip_hostaddr u"
    "uip_hostaddr (dhcp_renew now u) = uip_hostaddr u" "uip_hostaddr (dhcp_request now u) = uip_hostaddr u"
    "uip_hostaddr (dhcp_discover now u) = uip_hostaddr u" for u :: "'a dhcp_st_scheme"
    by (simp_all add: dhcp_labels dhcp_sel)
  have bound: "uip_hostaddr (dhcp_bound conf now u) = dh_ipaddr (dhcp u)" for u
    by (simp add: dhcp_bound_def quiet conf_host)
  show ?thesis
    using inv me parse_msg_keeps(5) [of s] unfolding handle_dhcp_def Let_def
    by (auto simp: quiet bound dhcp_sel dhcp_inv_def split: dhcp_pt.splits if_splits)
qed

end

section \<open>Options\<close>

text \<open>The encoding of a list of options by a server: code, length, value; the end option last.\<close>

fun encode_options :: "(u8 \<times> u8 list) list \<Rightarrow> u8 list" where
  "encode_options [] = [255]"
| "encode_options ((c, v) # os) = c # of_nat (length v) # v @ encode_options os"

definition option_ok :: "u8 \<times> u8 list \<Rightarrow> bool" where
  "option_ok o' \<longleftrightarrow> (case o' of (c, v) \<Rightarrow> c \<noteq> 255 \<and> length v < 256 \<and>
     (c \<in> {1, 3, 6, 51, 54} \<longrightarrow> 4 \<le> length v) \<and> (c = 53 \<longrightarrow> 1 \<le> length v))"

text \<open>What an option means to the client.\<close>

fun apply_option :: "u8 \<times> u8 list \<Rightarrow> dhcpc_state \<Rightarrow> dhcpc_state" where
  "apply_option (c, v) d =
     (let addr = (le16 (v ! 0) (v ! 1), le16 (v ! 2) (v ! 3)) in
      if c = 1 then d\<lparr>dh_netmask := addr\<rparr>
      else if c = 3 then d\<lparr>dh_default_router := addr\<rparr>
      else if c = 6 then d\<lparr>dh_dnsaddr := addr\<rparr>
      else if c = 54 then d\<lparr>dh_serverid := take 4 v\<rparr>
      else if c = 51 then d\<lparr>dh_lease_time := (le16 (v ! 1) (v ! 0), le16 (v ! 3) (v ! 2))\<rparr>
      else d)"

fun message_type :: "(u8 \<times> u8 list) list \<Rightarrow> u8 \<Rightarrow> u8" where
  "message_type [] ty = ty"
| "message_type ((c, v) # os) ty = message_type os (if c = 53 then v ! 0 else ty)"

lemma swap_half_le16: "swap_half (le16 a b) = le16 b a"
  by (rule bit_word_eqI) (auto simp: swap_half_def le16_def bit_simps bit_u8_high)

lemma rds_eq_append:
  assumes "rds b p n = xs @ ys"
  shows "rds b p (length xs) = xs" and "rds b (p + length xs) (length ys) = ys"
proof -
  have n: "n = length xs + length ys" using arg_cong [OF assms, of length] by simp
  with assms have "rds b p (length xs) @ rds b (p + length xs) (length ys) = xs @ ys"
    using rds_split [of b p "length xs" "length ys"] by simp
  then show "rds b p (length xs) = xs" "rds b (p + length xs) (length ys) = ys" by (auto simp: append_eq_append_conv)
qed

lemma store_option_encoded:
  assumes v: "rds b (p + 2) (length v) = v" and c: "b p = c" and ok: "option_ok (c, v)"
  shows "store_option b p d = apply_option (c, v) d"
proof (cases "c \<in> {1, 3, 6, 51, 54}")
  case True
  then have len: "4 \<le> length v" using ok by (auto simp: option_ok_def)
  have byte: "b (p + 2 + i) = v ! i" if "i < 4" for i
    using arg_cong [OF v, of "\<lambda>xs. xs ! i"] that len nth_rds [of i "length v" b "p + 2"] by simp
  have four: "rds b (p + 2) 4 = take 4 v"
    using len byte by (intro nth_equalityI) (auto simp: nth_rds)
  show ?thesis
    using byte [of 0] byte [of 1] byte [of 2] byte [of 3] True four
    by (auto simp: store_option_def c rdip_def rd16_def Let_def swap_half_le16 add.assoc numeral_eq_Suc)
qed (auto simp: store_option_def c Let_def)

lemma parse_encoded:
  assumes "rds b p (length (encode_options os)) = encode_options os" and "list_all option_ok os"
    and "p + length (encode_options os) \<le> e"
  shows "parse_options b p e ty d = (message_type os ty, fold apply_option os d)"
  using assms
proof (induction os arbitrary: p ty d)
  case Nil
  then have "b p = 255" by (simp add: rds_def)
  then show ?case by (subst parse_options.simps) simp
next
  case (Cons x os)
  obtain c v where x: "x = (c, v)" by fastforce
  let ?hd = "[c, of_nat (length v)]"
  have all: "rds b p (length (encode_options (x # os))) = ?hd @ (v @ encode_options os)" using Cons.prems(1) x by simp
  note 1 = rds_eq_append [OF all]
  note 2 = rds_eq_append [OF 1(2)]
  have hd: "b p = c" "b (p + 1) = of_nat (length v)"
    using 1(1) by (simp_all add: rds_def numeral_2_eq_2)
  have ok: "option_ok (c, v)" "c \<noteq> 255" "length v < 256" using Cons.prems(2) x by (auto simp: option_ok_def)
  have len: "unat (b (p + 1)) = length v" using hd(2) ok(3) by (simp add: unat_of_nat)
  have v: "rds b (p + 2) (length v) = v" using 2(1) by simp
  have ty: "b (p + 2) = v ! 0" if "c = 53"
    using arg_cong [OF v, of "\<lambda>xs. xs ! 0"] ok(1) that nth_rds [of 0 "length v" b "p + 2"]
    by (cases v) (simp_all add: option_ok_def)
  have "parse_options b (p + length v + 2) e (if c = 53 then v ! 0 else ty) (apply_option (c, v) d) =
      (message_type os (if c = 53 then v ! 0 else ty), fold apply_option os (apply_option (c, v) d))"
    using Cons.prems 2(2) x by (intro Cons.IH) (simp_all add: ac_simps)
  moreover have less: "p < e" using Cons.prems(3) by (simp add: x)
  have "(if c = 53 then b (p + 2) else ty) = (if c = 53 then v ! 0 else ty)" using ty by simp
  then have "parse_options b p e ty d =
      parse_options b (p + length v + 2) e (if c = 53 then v ! 0 else ty) (apply_option (c, v) d)"
    using hd(1) less ok(2) store_option_encoded [OF v hd(1) ok(1), of d]
    by (subst parse_options.simps) (simp only: len simp_thms if_True)
  ultimately show ?case by (simp only: x message_type.simps fold.simps o_apply)
qed

text \<open>
  C24. Parsing inverts the encoding of options: from a reply that carries any list of well-formed options, in
  any order and with unknown ones among them, the client extracts exactly the message type and the values
  of the options it knows.
\<close>

theorem dhcp_options_roundtrip:
  assumes "list_all option_ok os"
  shows "parse_options (wrs p (encode_options os) b) p (p + length (encode_options os)) 0 d =
    (message_type os 0, fold apply_option os d)"
  using assms by (intro parse_encoded) (simp_all add: rds_wrs)

definition sample_dhcp :: dhcpc_state where
  "sample_dhcp = \<lparr>dh_pt = PT_START, dh_state = STATE_DISABLED, dh_conn = None, dh_timer = zero_timer, dh_ticks = 0,
     dh_mac_addr = [0, 0x22, 0x97, 1, 2, 3], dh_mac_len = 6, dh_serverid = [0, 0, 0, 0], dh_lease_time = (0, 0),
     dh_ipaddr = (0, 0), dh_netmask = (0, 0), dh_dnsaddr = (0, 0), dh_default_router = (0, 0)\<rparr>"

theorem dhcp_options_roundtrip_witness:
  "parse_options (wrs 282 (encode_options [(53, [5]), (12, [7]), (1, [255, 255, 255, 0])]) (\<lambda>_. 0)) 282 295 0 sample_dhcp =
    (5, sample_dhcp\<lparr>dh_netmask := (0xffff, 0x00ff)\<rparr>)"
  using dhcp_options_roundtrip [of "[(53, [5]), (12, [7]), (1, [255, 255, 255, 0])]" 282 "\<lambda>_. 0" sample_dhcp]
  by (simp add: option_ok_def le16_def)

text \<open>
  The renewal time is half the lease in milliseconds only for leases below 4294968 seconds (about fifty
  days): the product is computed with 32 bits, so that longer leases are renewed far too early. The
  guard against this overflow in the code never triggers.
\<close>

theorem lease_ticks_exact:
  fixes d :: dhcpc_state
  defines "lease \<equiv> 65536 * unat (fst (dh_lease_time d)) + unat (snd (dh_lease_time d))"
  shows "unat (lease_ticks d) = lease * 1000 mod 2 ^ 32 div 2 \<and> (unat (lease_ticks d) = 500 * lease \<longleftrightarrow> lease < 4294968)"
proof -
  let ?w = "(ucast (fst (dh_lease_time d)) * 65536 + ucast (snd (dh_lease_time d))) * 1000 :: u32"
  have "?w = of_nat (lease * 1000)"
    by (simp add: lease_def algebra_simps)
  then have w: "unat ?w = lease * 1000 mod 2 ^ 32" by (simp only: unat_of_nat) simp
  have "x \<le> 0xffffffff" for x :: u32
  proof -
    have "unat x \<le> 4294967295" using unat_u32_bound [of x] by linarith
    then show ?thesis by (simp add: word_le_nat_alt)
  qed
  then have t: "unat (lease_ticks d) = lease * 1000 mod 2 ^ 32 div 2"
    by (simp only: lease_ticks_def Let_def if_True unat_div w) simp
  have "lease * 1000 mod 2 ^ 32 div 2 = 500 * lease \<longleftrightarrow> lease < 4294968"
  proof
    assume "lease < 4294968"
    then show "lease * 1000 mod 2 ^ 32 div 2 = 500 * lease" by simp
  next
    assume eq: "lease * 1000 mod 2 ^ 32 div 2 = 500 * lease"
    have "lease * 1000 mod 2 ^ 32 < 4294967296" by simp
    with eq show "lease < 4294968" by linarith
  qed
  with t show ?thesis by simp
qed

end
