(* ===== verification/Uip_Split.thy ===== *)
theory Uip_Split
  imports Uip_State
begin

text \<open>
  \<^verbatim>\<open>uip-split.c\<close>: a large TCP segment leaves the stack as two segments of about half the
  size, so that the peer acknowledges at once; every other packet leaves as it is. The frames
  handed to the MAC layer by \<^verbatim>\<open>xcoredev_send\<close> are returned as lists of bytes, in order.
\<close>

section \<open>Operations\<close>

text \<open>
  \<^verbatim>\<open>xcoredev_send\<close>: short frames are padded with zeroes, in the packet buffer, to the smallest length of a frame: 60 bytes in
  \<^verbatim>\<open>uip_single_server.xc\<close>, 64 in \<^verbatim>\<open>xcoredev.xc\<close>. It is called for packets that are not empty.
\<close>

definition xcoredev_send :: "'a uip_st_scheme \<Rightarrow> 'a uip_st_scheme \<times> u8 list" where
  "xcoredev_send s =
     (let len = unat (uip_len s); k = mac_min_frame s;
          b = (if len < k then wrs len (replicate (k - len) 0) (uip_buf s) else uip_buf s)
      in (s\<lparr>uip_buf := b\<rparr>, rds b 0 (if len < k then k else len)))"

definition uip_split_output_send :: "'a uip_st_scheme \<Rightarrow> 'a uip_st_scheme \<times> u8 list" where
  "uip_split_output_send s =
     (let b = wr16 B_tcpchksum 0 (uip_buf s);
          b = wr16 B_tcpchksum (NOT (uip_tcpchksum b)) b;
          b = wr16 B_ipchksum 0 b;
          b = wr16 B_ipchksum (NOT (uip_ipchksum b)) b
      in xcoredev_send (s\<lparr>uip_buf := b, uip_len := uip_len s + 14\<rparr>))"

text \<open>\<^verbatim>\<open>for (i = 0; i < n; ++i) dst[i] = src[i];\<close> on 32-bit words.\<close>

fun copy_words :: "nat \<Rightarrow> nat \<Rightarrow> nat \<Rightarrow> mem \<Rightarrow> mem" where
  "copy_words d p 0 m = m"
| "copy_words d p (Suc k) m = copy_words (d + 4) (p + 4) k (wr4 d (rd4 m p) m)"

definition put_iplen :: "u16 \<Rightarrow> mem \<Rightarrow> mem" where
  "put_iplen n b = b(B_len0 := hi8 n, B_len1 := lo8 n)"

text \<open>\<^verbatim>\<open>UIP_PACKET_SPLIT_THRESHOLD\<close> is half of \<^verbatim>\<open>UIP_BUFSIZE\<close>.\<close>

definition split_threshold :: int where
  "split_threshold = int (UIP_BUFSIZE div 2)"

definition uip_split_output :: "'a uip_st_scheme \<Rightarrow> 'a uip_st_scheme \<times> u8 list list" where
  "uip_split_output s =
     (if uip_buf s B_proto = UIP_PROTO_TCP then
        (if split_threshold < int (unat (uip_len s)) - 40 - 14 then
           (let tcplen = uip_len s - 40 - 14;
                len1 = drop_bit 1 tcplen AND NOT 3;
                len2 = tcplen - len1;
                a = uip_appdata s;
                (s1, f1) = uip_split_output_send
                   (s\<lparr>uip_len := len1 + 40, uip_buf := put_iplen (len1 + 40) (uip_buf s)\<rparr>);
                b = put_iplen (len2 + 40) (uip_buf s1);
                b = wr16 a (rd16 b (a + unat len1)) b;
                b = copy_words (a + 2) (a + 2 + unat len1) (unat len2 div 4 + 1) b;
                b = xtcp_copy_word B_seqno (uip_add32 (rd4 b B_seqno) len1) b;
                (s2, f2) = uip_split_output_send (s1\<lparr>uip_len := len2 + 40, uip_buf := b\<rparr>)
            in (s2, [f1, f2]))
         else
           (let b = wr16 B_tcpchksum 0 (uip_buf s);
                b = wr16 B_tcpchksum (NOT (uip_tcpchksum b)) b;
                (s1, f) = xcoredev_send (s\<lparr>uip_buf := b\<rparr>)
            in (s1, [f])))
      else (let (s1, f) = xcoredev_send s in (s1, [f])))"

section \<open>Reading a frame\<close>

definition frame_mem :: "u8 list \<Rightarrow> mem" where
  "frame_mem f i = (if i < length f then f ! i else 0)"

definition iplen :: "mem \<Rightarrow> nat" where
  "iplen m = 256 * unat (m B_len0) + unat (m B_len1)"

definition tcp_payload :: "mem \<Rightarrow> u8 list" where
  "tcp_payload m = rds m 54 (iplen m - 40)"

text \<open>A segment the peer accepts: both checksums hold and the length field fits the frame.\<close>

definition good_segment :: "u8 list \<Rightarrow> bool" where
  "good_segment f \<longleftrightarrow> uip_ipchksum (frame_mem f) = 0xffff \<and> uip_tcpchksum (frame_mem f) = 0xffff
     \<and> 40 \<le> iplen (frame_mem f) \<and> iplen (frame_mem f) + 14 \<le> length f"

text \<open>
  The bytes of the headers other than the length, the two checksums and the sequence number:
  addresses, ports, acknowledgement, offset, flags, window.
\<close>

definition same_header :: "mem \<Rightarrow> mem \<Rightarrow> bool" where
  "same_header m n \<longleftrightarrow> (\<forall>i < 54. i \<notin> {16, 17, 24, 25, 38, 39, 40, 41, 50, 51} \<longrightarrow> m i = n i)"

lemma frame_mem_rds: "frame_mem (rds m 0 n) i = (if i < n then m i else 0)"
  by (simp add: frame_mem_def)

lemma rds_mem_eq: "(\<And>i. p \<le> i \<Longrightarrow> i < p + n \<Longrightarrow> m i = m' i) \<Longrightarrow> rds m p n = rds m' p n"
  by (rule rds_cong)

lemma ipchksum_cong: "(\<And>i. i < 34 \<Longrightarrow> m i = m' i) \<Longrightarrow>
    (uip_ipchksum m = 0xffff) = (uip_ipchksum m' = 0xffff)"
  using rds_mem_eq [of 14 20 m m'] by (simp add: uip_ipchksum_check)

lemma unat_upper_layer_len: "20 \<le> iplen m \<Longrightarrow> unat (upper_layer_len m) = iplen m - 20"
proof -
  assume a: "20 \<le> iplen m"
  have "push_bit 8 (ucast (m 16)) + ucast (m 17) = (of_nat (iplen m) :: u16)"
    by (simp add: iplen_def push_bit_eq_mult mult.commute)
  then have "upper_layer_len m = of_nat (iplen m) - of_nat 20"
    by (simp add: upper_layer_len_def)
  also have "\<dots> = of_nat (iplen m - 20)" using a by (simp add: of_nat_diff)
  finally have "unat (upper_layer_len m) = (iplen m - 20) mod 65536"
    by (simp add: unat_of_nat)
  moreover have "iplen m - 20 < 65536"
    using unat_u8_le [of "m 16"] unat_u8_le [of "m 17"] unfolding iplen_def by linarith
  ultimately show ?thesis by (simp only: mod_less)
qed

lemma tcpchksum_cong:
  assumes "20 \<le> iplen m" and eq: "\<And>i. i < iplen m + 14 \<Longrightarrow> m i = m' i"
  shows "(uip_tcpchksum m = 0xffff) = (uip_tcpchksum m' = 0xffff)"
proof -
  have "m' 16 = m 16" "m' 17 = m 17" using assms(1) by (simp_all add: eq)
  then have len: "upper_layer_len m' = upper_layer_len m" by (simp add: upper_layer_len_def)
  have "rds m 26 8 = rds m' 26 8" using assms(1) by (intro rds_cong eq) linarith
  moreover have "rds m 34 (unat (upper_layer_len m)) = rds m' 34 (unat (upper_layer_len m'))"
    unfolding len unat_upper_layer_len [OF assms(1)] using assms(1) by (intro rds_cong eq) linarith
  ultimately have "pseudo_sum 6 m = pseudo_sum 6 m'" by (simp add: pseudo_sum_def len)
  then show ?thesis by (simp add: uip_tcpchksum_def upper_layer_chksum_check)
qed

section \<open>Copying down\<close>

text \<open>The regions overlap when the distance is at least one word: the copy is still exact.\<close>

lemma wr4_apply: "wr4 d w m i =
  (if i = d then fst w else if i = d + 1 then fst (snd w) else if i = d + 2 then fst (snd (snd w))
   else if i = d + 3 then snd (snd (snd w)) else m i)"
  by (cases w) (simp add: wr4_def)

lemma copy_words_below: "d \<le> p \<Longrightarrow> i < d \<Longrightarrow> copy_words d p k m i = m i"
  by (induction d p k m rule: copy_words.induct) (simp_all add: wr4_apply)

lemma copy_words_apply:
  assumes "d + 4 \<le> p"
  shows "copy_words d p k m i = (if d \<le> i \<and> i < d + 4 * k then m (i + (p - d)) else m i)"
  using assms
proof (induction d p k m arbitrary: i rule: copy_words.induct)
  case (2 d p k m)
  have IH: "copy_words (d + 4) (p + 4) k (wr4 d (rd4 m p) m) i =
     (if d + 4 \<le> i \<and> i < d + 4 + 4 * k then wr4 d (rd4 m p) m (i + (p - d))
      else wr4 d (rd4 m p) m i)"
    using 2 by simp
  consider "i < d" | "i = d" | "i = d + 1" | "i = d + 2" | "i = d + 3" | "d + 4 \<le> i" by linarith
  then show ?case
    using 2(2) unfolding copy_words.simps IH by cases (auto simp: wr4_apply rd4_def add.commute)
qed simp

section \<open>One frame\<close>

lemma xcoredev_send_frame:
  assumes "xcoredev_send s = (s', f)"
  shows "length f = max (mac_min_frame s) (unat (uip_len s))"
    and "i < unat (uip_len s) \<Longrightarrow> frame_mem f i = uip_buf s i"
    and "i < unat (uip_len s) \<or> mac_min_frame s \<le> i \<Longrightarrow> uip_buf s' i = uip_buf s i"
    and "s' = s\<lparr>uip_buf := uip_buf s'\<rparr>"
  using assms by (auto simp: xcoredev_send_def Let_def frame_mem_rds wrs_apply)

definition tcp_checksummed :: "mem \<Rightarrow> mem" where
  "tcp_checksummed b = wr16 50 (NOT (uip_tcpchksum (wr16 50 0 b))) (wr16 50 0 b)"

definition ip_checksummed :: "mem \<Rightarrow> mem" where
  "ip_checksummed b = wr16 24 (NOT (uip_ipchksum (wr16 24 0 b))) (wr16 24 0 b)"

lemma checksummed_other:
  "i \<noteq> 50 \<Longrightarrow> i \<noteq> 51 \<Longrightarrow> tcp_checksummed b i = b i"
  "i \<noteq> 24 \<Longrightarrow> i \<noteq> 25 \<Longrightarrow> ip_checksummed b i = b i"
  by (simp_all add: tcp_checksummed_def ip_checksummed_def wr16_def)

lemma iplen_checksummed [simp]:
  "iplen (tcp_checksummed b) = iplen b" "iplen (ip_checksummed b) = iplen b"
  by (simp_all add: iplen_def checksummed_other)

lemma tcp_checksummed_ok: "38 \<le> iplen b \<Longrightarrow> uip_tcpchksum (tcp_checksummed b) = 0xffff"
  unfolding tcp_checksummed_def uip_tcpchksum_def
  by (rule upper_chksum_generate [where j = 8]) (simp_all add: unat_upper_layer_len)

lemma ip_checksummed_ok: "uip_ipchksum (ip_checksummed b) = 0xffff"
  unfolding ip_checksummed_def by (rule ipchksum_generate)

lemma tcpchksum_ip_checksummed: "uip_tcpchksum (ip_checksummed b) = uip_tcpchksum b"
proof -
  have "upper_layer_len (ip_checksummed b) = upper_layer_len b"
    by (simp add: upper_layer_len_def checksummed_other)
  moreover have "rds (ip_checksummed b) 26 8 = rds b 26 8"
    and "rds (ip_checksummed b) 34 n = rds b 34 n" for n
    by (intro rds_cong checksummed_other; simp)+
  ultimately have "pseudo_sum 6 (ip_checksummed b) = pseudo_sum 6 b" by (simp add: pseudo_sum_def)
  then obtain x y where "uip_tcpchksum (ip_checksummed b) = check_value x" "uip_tcpchksum b = check_value y"
    "unat x = unat y"
    using upper_layer_chksum_value [of 6 "ip_checksummed b"] upper_layer_chksum_value [of 6 b]
    by (auto simp: uip_tcpchksum_def)
  then show ?thesis by (metis word_unat_eq_iff)
qed

lemma split_send_eq: "uip_split_output_send s =
  xcoredev_send (s\<lparr>uip_buf := ip_checksummed (tcp_checksummed (uip_buf s)), uip_len := uip_len s + 14\<rparr>)"
  by (simp add: uip_split_output_send_def Let_def ip_checksummed_def tcp_checksummed_def)

text \<open>A frame whose bytes agree with a buffer up to the length of the packet.\<close>

lemma good_segmentI:
  assumes "uip_ipchksum b = 0xffff" and "uip_tcpchksum b = 0xffff" and "40 \<le> iplen b"
    and "iplen b + 14 \<le> length f" and eq: "\<And>i. i < iplen b + 14 \<Longrightarrow> frame_mem f i = b i"
  shows "good_segment f" and "iplen (frame_mem f) = iplen b" and "tcp_payload (frame_mem f) = tcp_payload b"
proof -
  have [simp]: "frame_mem f 16 = b 16" "frame_mem f 17 = b 17" using assms(3) by (simp_all add: eq)
  show len: "iplen (frame_mem f) = iplen b" by (simp add: iplen_def)
  have "uip_tcpchksum (frame_mem f) = 0xffff"
    using assms(2,3) tcpchksum_cong [of b "frame_mem f"] eq by simp
  moreover have "uip_ipchksum (frame_mem f) = 0xffff"
    using assms(1,3) ipchksum_cong [of b "frame_mem f"] eq by simp
  ultimately show "good_segment f" using assms(3,4) len by (simp add: good_segment_def)
  show "tcp_payload (frame_mem f) = tcp_payload b"
    unfolding tcp_payload_def len using assms(3) by (intro rds_cong eq) linarith
qed

lemma split_send_frame:
  assumes send: "uip_split_output_send s = (s', f)"
    and len: "unat (uip_len s) = iplen (uip_buf s)" "40 \<le> iplen (uip_buf s)" "iplen (uip_buf s) < 65000"
  shows "good_segment f" and "tcp_payload (frame_mem f) = tcp_payload (uip_buf s)"
    and "i < 54 \<Longrightarrow> i \<notin> {24, 25, 50, 51} \<Longrightarrow> frame_mem f i = uip_buf s i"
    and "i < iplen (uip_buf s) + 14 \<or> mac_min_frame s \<le> i \<Longrightarrow> i \<notin> {24, 25, 50, 51} \<Longrightarrow> uip_buf s' i = uip_buf s i"
    and "s' = s\<lparr>uip_len := uip_len s + 14, uip_buf := uip_buf s'\<rparr>"
    and "length f = max (mac_min_frame s) (iplen (uip_buf s) + 14)"
    and "iplen (frame_mem f) = iplen (uip_buf s)"
proof -
  let ?b = "ip_checksummed (tcp_checksummed (uip_buf s))"
  let ?s = "s\<lparr>uip_buf := ?b, uip_len := uip_len s + 14\<rparr>"
  have f: "xcoredev_send ?s = (s', f)" using send by (simp add: split_send_eq)
  have n: "unat (uip_len ?s) = iplen (uip_buf s) + 14"
    using len by (simp add: unat_word_ariths)
  note fr = xcoredev_send_frame [OF f, unfolded n, simplified]
  have ok: "uip_ipchksum ?b = 0xffff" "uip_tcpchksum ?b = 0xffff"
    using len by (simp_all add: ip_checksummed_ok tcpchksum_ip_checksummed tcp_checksummed_ok)
  note good = good_segmentI [OF ok, of f, simplified, OF len(2) _ fr(2)]
  show "good_segment f" "iplen (frame_mem f) = iplen (uip_buf s)" using good fr(1) by auto
  show "length f = max (mac_min_frame s) (iplen (uip_buf s) + 14)" by (rule fr(1))
  have "tcp_payload ?b = tcp_payload (uip_buf s)"
    unfolding tcp_payload_def by (auto intro!: rds_cong simp: checksummed_other)
  then show "tcp_payload (frame_mem f) = tcp_payload (uip_buf s)" using good fr(1) by auto
  show "i < 54 \<Longrightarrow> i \<notin> {24, 25, 50, 51} \<Longrightarrow> frame_mem f i = uip_buf s i"
    using fr(2) len(2) by (simp add: checksummed_other)
  show "i < iplen (uip_buf s) + 14 \<or> mac_min_frame s \<le> i \<Longrightarrow> i \<notin> {24, 25, 50, 51} \<Longrightarrow> uip_buf s' i = uip_buf s i"
    using fr(3) by (simp add: checksummed_other)
  show "s' = s\<lparr>uip_len := uip_len s + 14, uip_buf := uip_buf s'\<rparr>"
    using fr(4) by (metis uip_st.surjective uip_st.update_convs(1) uip_st.update_convs(4))
qed

section \<open>Splitting\<close>

lemma iplen_put_iplen [simp]: "iplen (put_iplen n b) = unat n"
  using unat_le16 [of "lo8 n" "hi8 n"] by (simp add: iplen_def put_iplen_def)

lemma put_iplen_other: "i \<noteq> 16 \<Longrightarrow> i \<noteq> 17 \<Longrightarrow> put_iplen n b i = b i"
  by (simp add: put_iplen_def)

lemma unat_word_multiple: "unat (w AND NOT 3 :: u16) = 4 * (unat w div 4)"
proof -
  have three: "(3 :: u16) = mask 2" by (simp add: mask_eq_exp_minus_1)
  have "w AND NOT 3 = push_bit 2 (drop_bit 2 w)"
  proof (rule bit_word_eqI)
    fix n assume "n < LENGTH(16)"
    show "bit (w AND NOT 3) n = bit (push_bit 2 (drop_bit 2 w)) n"
    proof (cases "n < 2")
      case False
      then obtain k where "n = 2 + k" using le_Suc_ex by (metis not_less)
      then show ?thesis using \<open>n < LENGTH(16)\<close> unfolding three by (simp add: bit_simps)
    qed (use \<open>n < LENGTH(16)\<close> in \<open>simp add: three bit_simps\<close>)
  qed
  also have "\<dots> = of_nat (4 * unat (drop_bit 2 w))"
    by (simp add: push_bit_eq_mult)
  also have "unat (drop_bit 2 w) = unat w div 4"
    by (subst unat_drop_bit_eq) (simp add: drop_bit_eq_div)
  finally have "unat (w AND NOT 3) = (4 * (unat w div 4)) mod 65536"
    by (simp only: unat_of_nat) simp
  moreover have "4 * (unat w div 4) < 65536" using unat_u16_bound [of w] by linarith
  ultimately show ?thesis by (simp only: mod_less)
qed

text \<open>The lengths of the two parts of a payload of \<open>n - 54\<close> bytes.\<close>

lemma split_lengths:
  fixes n :: u16
  assumes "817 < unat n" and "unat n < 65000"
  defines "t \<equiv> n - 40 - 14"
  defines "l1 \<equiv> drop_bit 1 t AND NOT 3"
  shows "unat l1 = 4 * ((unat n - 54) div 8)"
    and "unat (t - l1) = unat n - 54 - unat l1"
    and "unat (l1 + 40) = unat l1 + 40" and "unat (t - l1 + 40) = unat (t - l1) + 40"
proof -
  have "54 \<le> n" using assms(1) by (simp add: word_le_nat_alt)
  moreover have "t = n - 54" by (simp add: t_def)
  ultimately have t: "unat t = unat n - 54" by (simp add: unat_sub)
  show l1: "unat l1 = 4 * ((unat n - 54) div 8)"
    unfolding l1_def unat_word_multiple unat_half t div_mult2_eq [symmetric] by simp
  have le: "unat l1 \<le> unat t" unfolding l1 t by linarith
  then show l2: "unat (t - l1) = unat n - 54 - unat l1"
    using t by (simp add: unat_sub word_le_nat_alt)
  show "unat (l1 + 40) = unat l1 + 40" "unat (t - l1 + 40) = unat (t - l1) + 40"
    using le t l2 assms(2) by (simp_all add: unat_word_ariths)
qed

text \<open>The buffer of the second frame before its checksums are written.\<close>

definition second_part :: "nat \<Rightarrow> u16 \<Rightarrow> u16 \<Rightarrow> mem \<Rightarrow> mem" where
  "second_part a l1 l2 b0 =
     (let b = put_iplen (l2 + 40) b0;
          b = wr16 a (rd16 b (a + unat l1)) b;
          b = copy_words (a + 2) (a + 2 + unat l1) (unat l2 div 4 + 1) b
      in xtcp_copy_word B_seqno (uip_add32 (rd4 b B_seqno) l1) b)"

lemma second_part_data:
  assumes "4 \<le> unat l1" and "i < unat l2"
  shows "second_part 54 l1 l2 b (54 + i) = b (54 + unat l1 + i)"
proof -
  consider "i = 0" | "i = 1" | "2 \<le> i" by linarith
  then show ?thesis
    using assms
    by cases (auto simp: second_part_def Let_def wr4_apply copy_words_apply wr16_def rd16_def
        put_iplen_def ac_simps simp del: copy_words.simps)
qed

lemma second_part_header:
  assumes "4 \<le> unat l1" and "i < 54" and "i \<notin> {38, 39, 40, 41}"
  shows "second_part 54 l1 l2 b i = put_iplen (l2 + 40) b i"
  using assms by (auto simp: second_part_def Let_def wr4_apply copy_words_below wr16_def
      simp del: copy_words.simps)

lemma second_part_seqno:
  assumes "4 \<le> unat l1"
  shows "rd4 (second_part 54 l1 l2 b) 38 = uip_add32 (rd4 b 38) l1"
proof -
  have "rd4 (second_part 54 l1 l2 b) 38 = uip_add32 (rd4 (put_iplen (l2 + 40) b) 38) l1"
    using assms
    by (simp add: second_part_def Let_def rd4_wr4 del: copy_words.simps)
      (simp add: rd4_def copy_words_below wr16_def del: copy_words.simps)
  then show ?thesis by (simp add: rd4_def put_iplen_other)
qed

lemma second_part_iplen: "4 \<le> unat l1 \<Longrightarrow> iplen (second_part 54 l1 l2 b) = unat (l2 + 40)"
  using iplen_put_iplen [of "l2 + 40" b] by (simp add: iplen_def second_part_header)

lemma second_part_payload:
  assumes "4 \<le> unat l1" and "unat (l2 + 40) = unat l2 + 40"
  shows "tcp_payload (second_part 54 l1 l2 b) = rds b (54 + unat l1) (unat l2)"
  by (rule nth_equalityI)
    (simp_all add: tcp_payload_def second_part_iplen [OF assms(1)] second_part_data [OF assms(1)] assms(2))

lemma uip_split_output_split:
  assumes "uip_buf s 23 = 6" and "817 < unat (uip_len s)" and "uip_appdata s = 54"
  defines "t \<equiv> uip_len s - 40 - 14"
  defines "l1 \<equiv> drop_bit 1 t AND NOT 3"
  shows "uip_split_output s =
    (let (s1, f1) = uip_split_output_send
           (s\<lparr>uip_len := l1 + 40, uip_buf := put_iplen (l1 + 40) (uip_buf s)\<rparr>);
         (s2, f2) = uip_split_output_send
           (s1\<lparr>uip_len := t - l1 + 40, uip_buf := second_part 54 l1 (t - l1) (uip_buf s1)\<rparr>)
     in (s2, [f1, f2]))"
proof -
  have "split_threshold < int (unat (uip_len s)) - 40 - 14"
    unfolding split_threshold_def using assms(2) by linarith
  then show ?thesis
    using assms(1)
    by (simp only: uip_split_output_def second_part_def t_def l1_def Let_def if_True assms(3)
        simp_thms)
qed

text \<open>
  C28. A TCP segment with more than half a buffer of data leaves as two segments. Both carry
  correct IP and TCP checksums and a matching length, both keep the addresses, ports,
  acknowledgement number and flags, the first keeps the sequence number and the second
  continues it by the length of the first payload, and the two payloads concatenated are the
  payload of the packet in the buffer.
\<close>

theorem split_output_segments:
  assumes tcp: "uip_buf s 23 = 6" and len: "817 < unat (uip_len s)" "unat (uip_len s) < 65000"
    and app: "uip_appdata s = 54" and pad: "mac_min_frame s \<le> 64"
  shows "\<exists>s' f1 f2. uip_split_output s = (s', [f1, f2]) \<and> good_segment f1 \<and> good_segment f2 \<and>
    tcp_payload (frame_mem f1) @ tcp_payload (frame_mem f2) =
      rds (uip_buf s) 54 (unat (uip_len s) - 54) \<and>
    rd4 (frame_mem f1) 38 = rd4 (uip_buf s) 38 \<and>
    be32 (rd4 (frame_mem f2) 38) =
      be32 (rd4 (uip_buf s) 38) + of_nat (length (tcp_payload (frame_mem f1))) \<and>
    same_header (frame_mem f1) (uip_buf s) \<and> same_header (frame_mem f2) (uip_buf s)"
proof -
  define l1 where "l1 = drop_bit 1 (uip_len s - 40 - 14) AND NOT 3"
  define l2 where "l2 = uip_len s - 40 - 14 - l1"
  define b where "b = uip_buf s"
  note lens = split_lengths [OF len, folded l1_def l2_def]
  have l1_6: "10 \<le> unat l1" unfolding lens(1) using len by linarith
  then have l1_4: "4 \<le> unat l1" by linarith
  let ?s = "s\<lparr>uip_len := l1 + 40, uip_buf := put_iplen (l1 + 40) b\<rparr>"
  obtain s1 f1 where 1: "uip_split_output_send ?s = (s1, f1)" by fastforce
  let ?s1 = "s1\<lparr>uip_len := l2 + 40, uip_buf := second_part 54 l1 l2 (uip_buf s1)\<rparr>"
  obtain s2 f2 where 2: "uip_split_output_send ?s1 = (s2, f2)" by fastforce
  have out: "uip_split_output s = (s2, [f1, f2])"
    using uip_split_output_split [OF tcp len(1) app, folded b_def, folded l1_def, folded l2_def] 1 2
    by simp
  have sz1: "unat (l1 + 40) < 65000" "unat l1 \<le> unat (uip_len s) - 54"
    using lens len by linarith+
  have fr1: "unat (uip_len ?s) = iplen (uip_buf ?s)" "40 \<le> iplen (uip_buf ?s)" "iplen (uip_buf ?s) < 65000"
    using sz1 lens(3) by simp_all
  have fr2: "unat (uip_len ?s1) = iplen (uip_buf ?s1)" "40 \<le> iplen (uip_buf ?s1)" "iplen (uip_buf ?s1) < 65000"
    using lens(2,4) len by (simp_all add: second_part_iplen [OF l1_4])
  note f1 = split_send_frame [OF 1 fr1] and f2 = split_send_frame [OF 2 fr2]
  have s1: "uip_buf s1 i = put_iplen (l1 + 40) b i"
    if "i < unat l1 + 54 \<or> 64 \<le> i" "i \<notin> {24, 25, 50, 51}" for i
    using f1(4) [of i] that lens(3) pad by auto
  have s1': "uip_buf s1 i = b i" if "i \<notin> {16, 17, 24, 25, 50, 51}" for i
  proof -
    have "i < unat l1 + 54 \<or> 64 \<le> i" using l1_6 by linarith
    then show ?thesis using s1 [of i] that by (simp add: put_iplen_other)
  qed
  have pay1: "tcp_payload (frame_mem f1) = rds b 54 (unat l1)"
    unfolding f1(2) using lens(3)
    by (auto simp: tcp_payload_def put_iplen_other intro!: rds_cong)
  have pay2: "tcp_payload (frame_mem f2) = rds b (54 + unat l1) (unat l2)"
    unfolding f2(2) using lens(4) by (auto simp: second_part_payload [OF l1_4] s1' intro!: rds_cong)
  have seq2: "rd4 (frame_mem f2) 38 = uip_add32 (rd4 b 38) l1"
    using f2(3) [of 38] f2(3) [of 39] f2(3) [of 40] f2(3) [of 41]
      second_part_seqno [OF l1_4, of l2 "uip_buf s1"] by (simp add: rd4_def s1')
  have hdr: "frame_mem f2 i = b i"
    if "i < 54" "i \<notin> {16, 17, 24, 25, 38, 39, 40, 41, 50, 51}" for i
    using f2(3) [of i] that by (simp add: second_part_header [OF l1_4] put_iplen_other s1')
  have "rds b 54 (unat (uip_len s) - 54) = rds b 54 (unat l1 + unat l2)"
    using sz1(2) lens(2) by (intro arg_cong [where f = "rds b 54"]) linarith
  then have "tcp_payload (frame_mem f1) @ tcp_payload (frame_mem f2) = rds b 54 (unat (uip_len s) - 54)"
    by (simp add: pay1 pay2 rds_split)
  moreover have "rd4 (frame_mem f1) 38 = rd4 b 38"
    by (simp add: rd4_def f1(3) put_iplen_other)
  moreover have "same_header (frame_mem f1) b" "same_header (frame_mem f2) b"
    using hdr by (auto simp: same_header_def f1(3) put_iplen_other)
  moreover have "be32 (rd4 (frame_mem f2) 38) =
      be32 (rd4 b 38) + of_nat (length (tcp_payload (frame_mem f1)))"
    by (simp add: seq2 uip_add32_be32 pay1)
  ultimately show ?thesis
    using out f1(1) f2(1) unfolding b_def by blast
qed

text \<open>A concrete data packet of the size of the buffer.\<close>

definition sample_data :: uip_st where
  "sample_data = \<lparr>uip_buf = (\<lambda>i. if i = 23 then 6 else of_nat i), uip_appdata = 54,
     uip_sappdata = 54, uip_len = 1526, uip_slen = 0, uip_flags = 0, uip_conn = Some 0,
     uip_conns = [zero_tcp_conn], uip_listenports = [0], uip_udp_listenports = [0],
     uip_udp_conn = None, uip_udp_conns = [zero_udp_conn], ipid = 0, iss = (0, 0, 0, 0),
     lastport = 1024, uip_hostaddr = (0, 0), uip_draddr = (0, 0), uip_netmask = (0, 0),
     uip_ethaddr = replicate 6 0, mac_min_frame = 60\<rparr>"

theorem split_output_segments_witness:
  "\<exists>s' f1 f2. uip_split_output sample_data = (s', [f1, f2]) \<and> good_segment f1 \<and> good_segment f2 \<and>
    tcp_payload (frame_mem f1) @ tcp_payload (frame_mem f2) = rds (uip_buf sample_data) 54 1472"
  using split_output_segments [of sample_data] by (simp add: sample_data_def) blast

text \<open>
  Every other TCP packet leaves as one frame: its bytes are those of the buffer except
  for the TCP checksum, which is now correct, and the padding of a short frame.
\<close>

theorem unsplit_output_segment:
  assumes tcp: "uip_buf s 23 = 6" and len: "unat (uip_len s) \<le> 817"
    and hdr: "40 \<le> iplen (uip_buf s)" "iplen (uip_buf s) + 14 = unat (uip_len s)"
    and ip: "uip_ipchksum (uip_buf s) = 0xffff"
  shows "\<exists>s' f. uip_split_output s = (s', [f]) \<and> good_segment f \<and>
    length f = max (mac_min_frame s) (unat (uip_len s)) \<and> tcp_payload (frame_mem f) = tcp_payload (uip_buf s) \<and>
    (\<forall>i. i < unat (uip_len s) \<longrightarrow> i \<notin> {50, 51} \<longrightarrow> frame_mem f i = uip_buf s i)"
proof -
  let ?b = "tcp_checksummed (uip_buf s)"
  obtain s' f where f: "xcoredev_send (s\<lparr>uip_buf := ?b\<rparr>) = (s', f)" by fastforce
  have "\<not> split_threshold < int (unat (uip_len s)) - 40 - 14"
    unfolding split_threshold_def using len by linarith
  then have out: "uip_split_output s = (s', [f])"
    using tcp f by (simp add: uip_split_output_def Let_def tcp_checksummed_def)
  note fr = xcoredev_send_frame [OF f, simplified]
  have ok: "uip_ipchksum ?b = 0xffff" "uip_tcpchksum ?b = 0xffff"
    using ip hdr ipchksum_cong [of ?b "uip_buf s"]
    by (simp_all add: tcp_checksummed_ok checksummed_other)
  note good = good_segmentI [OF ok, of f, unfolded iplen_checksummed hdr(2), OF hdr(1) _ fr(2)]
  have "tcp_payload ?b = tcp_payload (uip_buf s)"
    unfolding tcp_payload_def by (auto intro!: rds_cong simp: checksummed_other)
  moreover have "\<forall>i. i < unat (uip_len s) \<longrightarrow> i \<notin> {50, 51} \<longrightarrow> frame_mem f i = uip_buf s i"
    using fr(2) by (simp add: checksummed_other)
  ultimately show ?thesis using out good fr(1) by auto
qed

definition sample_ack :: uip_st where
  "sample_ack = sample_data\<lparr>uip_len := 54, uip_buf := (\<lambda>i. if i = 23 then 6 else if i = 17 then 40
     else if i = 24 then 255 else if i = 25 then 209 else 0)\<rparr>"

theorem unsplit_output_segment_witness:
  "\<exists>s' f. uip_split_output sample_ack = (s', [f]) \<and> good_segment f \<and> length f = 60"
proof -
  have "rds (uip_buf sample_ack) 14 20 =
      [0, 0, 0, 40, 0, 0, 0, 0, 0, 6, 255, 209, 0, 0, 0, 0, 0, 0, 0, 0]"
    by (simp add: rds_def sample_ack_def upt_rec)
  then have ip: "uip_ipchksum (uip_buf sample_ack) = 0xffff" by (simp add: uip_ipchksum_check)
  have len: "iplen (uip_buf sample_ack) = 40" by (simp add: iplen_def sample_ack_def)
  have "uip_buf sample_ack 23 = 6" "unat (uip_len sample_ack) = 54" "mac_min_frame sample_ack = 60" by (simp_all add: sample_ack_def sample_data_def)
  with unsplit_output_segment [of sample_ack] ip len show ?thesis by auto
qed

end
