(* ===== verification/Uip_Packets.thy ===== *)
theory Uip_Packets
  imports Uip_Process Uip_Split
begin

text \<open>
  The packets \<^verbatim>\<open>uip_process\<close> leaves in the buffer are well formed: IP headers, UDP datagrams
  and ICMP echo replies carry correct checksums and consistent length fields; and the
  packets it must not accept change nothing but the packet length and the event flags.
\<close>

section \<open>The IP header\<close>

definition ip_header :: "u16 \<Rightarrow> mem \<Rightarrow> mem" where
  "ip_header id' b = b(14 := 0x45, 15 := 0, 20 := 0, 21 := 0, 18 := hi8 id', 19 := lo8 id')"

lemma ip_send_nolen_eq:
  "ip_send_nolen s = s\<lparr>uip_buf := ip_checksummed (ip_header (ipid s + 1) (uip_buf s)),
     ipid := ipid s + 1, uip_flags := 0\<rparr>"
  by (simp add: ip_send_nolen_def send_lbl_def ip_checksummed_def ip_header_def Let_def)

lemma ip_header_other: "i \<notin> {14, 15, 18, 19, 20, 21} \<Longrightarrow> ip_header n b i = b i"
  by (simp add: ip_header_def)

lemma ip_send_other:
  "i \<notin> {14, 15, 18, 19, 20, 21, 24, 25} \<Longrightarrow> uip_buf (ip_send_nolen s) i = uip_buf s i"
  by (simp add: ip_send_nolen_eq checksummed_other ip_header_other)

lemma ip_send_sel [simp]:
  "uip_len (ip_send_nolen s) = uip_len s" "uip_conns (ip_send_nolen s) = uip_conns s"
  "uip_udp_conns (ip_send_nolen s) = uip_udp_conns s" "uip_conn (ip_send_nolen s) = uip_conn s"
  "uip_flags (ip_send_nolen s) = 0" "uip_appdata (ip_send_nolen s) = uip_appdata s"
  "uip_slen (ip_send_nolen s) = uip_slen s" "ipid (ip_send_nolen s) = ipid s + 1"
  "uip_udp_conn (ip_send_nolen s) = uip_udp_conn s"
  by (simp_all add: ip_send_nolen_eq)

lemma udpchksum_ip_send: "uip_udpchksum (uip_buf (ip_send_nolen s)) = 0xffff \<longleftrightarrow>
    uip_udpchksum (uip_buf s) = 0xffff"
proof -
  let ?b = "uip_buf (ip_send_nolen s)"
  have "upper_layer_len ?b = upper_layer_len (uip_buf s)"
    by (simp add: upper_layer_len_def ip_send_other)
  moreover have "rds ?b 26 8 = rds (uip_buf s) 26 8" and "rds ?b 34 n = rds (uip_buf s) 34 n" for n
    by (intro rds_cong ip_send_other; simp)+
  ultimately show ?thesis
    by (simp add: uip_udpchksum_def upper_layer_chksum_check pseudo_sum_def)
qed

text \<open>
  Every packet that leaves through \<^verbatim>\<open>ip_send_nolen\<close> has a version 4 header without options,
  the next packet identifier, no fragment offset and a correct header checksum; the rest of
  the buffer is untouched.
\<close>

theorem ip_send_header:
  defines "out \<equiv> \<lambda>s. uip_buf (ip_send_nolen s)"
  shows "uip_ipchksum (out s) = 0xffff \<and> out s 14 = 0x45 \<and> out s 20 = 0 \<and> out s 21 = 0 \<and>
    htons (rd16 (out s) 18) = ipid s + 1 \<and>
    (i \<notin> {14, 15, 18, 19, 20, 21, 24, 25} \<longrightarrow> out s i = uip_buf s i)"
  unfolding out_def
  by (auto simp: ip_send_other)
    (simp_all add: ip_send_nolen_eq ip_checksummed_ok checksummed_other ip_header_def rd16_def)

theorem ip_send_header_witness:
  "uip_ipchksum (uip_buf (ip_send_nolen sample_data)) = 0xffff \<and>
   htons (rd16 (uip_buf (ip_send_nolen sample_data)) 18) = 1 \<and>
   uip_buf (ip_send_nolen sample_data) 100 = 100"
  using ip_send_header [of sample_data 100] by (simp add: sample_data_def)

section \<open>UDP datagrams\<close>

lemma wr16_zero: "b i = 0 \<Longrightarrow> b (Suc i) = 0 \<Longrightarrow> wr16 i 0 b = b"
  by (rule ext) (simp add: wr16_def lo8_def hi8_def)

definition udp_checksummed :: "mem \<Rightarrow> mem" where
  "udp_checksummed b =
     (let b = wr16 40 (NOT (uip_udpchksum b)) b
      in if rd16 b 40 = 0 then wr16 40 0xffff b else b)"

lemma udp_checksummed_other: "i \<noteq> 40 \<Longrightarrow> i \<noteq> 41 \<Longrightarrow> udp_checksummed b i = b i"
  by (simp add: udp_checksummed_def Let_def wr16_def)

lemma udp_checksummed_ok:
  assumes zero: "b 40 = 0" "b 41 = 0" and len: "28 \<le> iplen b"
  shows "uip_udpchksum (udp_checksummed b) = 0xffff" and "rd16 (udp_checksummed b) 40 \<noteq> 0"
proof -
  have b: "wr16 40 0 b = b" using zero by (simp add: wr16_zero)
  have ul: "2 * 3 + 2 \<le> unat (upper_layer_len b)" using len by (simp add: unat_upper_layer_len)
  have gen: "uip_udpchksum (wr16 40 (NOT (uip_udpchksum b)) b) = 0xffff"
    using upper_chksum_generate [of 40 3 b 17] ul by (simp add: uip_udpchksum_def b)
  have field: "pseudo_sum 17 (wr16 40 v b) = pseudo_sum 17 b + unat (htons v)" for v
    using pseudo_sum_field [of 40 3 b 17 v] ul by (simp add: b)
  show "uip_udpchksum (udp_checksummed b) = 0xffff"
  proof (cases "NOT (uip_udpchksum b) = 0")
    case True
    have "65535 dvd pseudo_sum 17 (wr16 40 0 b)"
      using gen unfolding True by (simp only: uip_udpchksum_def upper_layer_chksum_check)
    then have "65535 dvd pseudo_sum 17 (wr16 40 0xffff b)"
      unfolding field by (simp add: htons_def)
    moreover have "rd16 b 40 = 0" by (metis b rd16_wr16)
    ultimately show ?thesis
      using b True by (simp add: udp_checksummed_def Let_def rd16_wr16 uip_udpchksum_def upper_layer_chksum_check)
  next
    case False
    then show ?thesis using gen by (simp add: udp_checksummed_def Let_def rd16_wr16)
  qed
  show "rd16 (udp_checksummed b) 40 \<noteq> 0"
    by (simp add: udp_checksummed_def Let_def rd16_wr16)
qed

text \<open>The header \<^verbatim>\<open>udp_send\<close> writes in front of \<open>n\<close> bytes of data, checksum zero.\<close>

definition udp_header :: "ipaddr \<Rightarrow> udp_conn \<Rightarrow> u16 \<Rightarrow> mem \<Rightarrow> mem" where
  "udp_header host c n b0 =
     (let b = b0(16 := hi8 (n + 28), 17 := lo8 (n + 28), 22 := uc_ttl c, 23 := 17);
          b = wr16 38 (htons (n + 8)) b;
          b = wr16 40 0 b;
          b = wr16 34 (uc_lport c) b;
          b = wr16 36 (uc_rport c) b;
          b = wrip 26 host b
      in wrip 30 (uc_ripaddr c) b)"

lemma udp_send_eq:
  assumes "uip_slen s \<noteq> 0" and "uip_udp_conn s = Some j"
  shows "udp_send s = Some (ip_send_nolen (s\<lparr>uip_len := uip_slen s + 28,
    uip_buf := udp_checksummed (udp_header (uip_hostaddr s) (uconn s j) (uip_slen s) (uip_buf s)),
    uip_appdata := 54\<rparr>))"
  using assms by (simp add: udp_send_def udp_header_def udp_checksummed_def Let_def)

lemma udp_header_sel:
  "udp_header h c n b 40 = 0" "udp_header h c n b 41 = 0" "udp_header h c n b 23 = 17"
  "rd16 (udp_header h c n b) 34 = uc_lport c" "rd16 (udp_header h c n b) 36 = uc_rport c"
  "rdip (udp_header h c n b) 26 = h" "rdip (udp_header h c n b) 30 = uc_ripaddr c"
  "rd16 (udp_header h c n b) 38 = htons (n + 8)" "iplen (udp_header h c n b) = unat (n + 28)"
  "42 \<le> i \<Longrightarrow> udp_header h c n b i = b i"
  using unat_le16 [of "lo8 (n + 28)" "hi8 (n + 28)"]
  by (simp_all add: udp_header_def Let_def wrip_def rdip_def byte_simps iplen_def)
    (simp_all add: wr16_def lo8_def hi8_def)

lemma rd_ip_send:
  "26 \<le> p \<Longrightarrow> rd16 (uip_buf (ip_send_nolen s)) p = rd16 (uip_buf s) p"
  "26 \<le> p \<Longrightarrow> rdip (uip_buf (ip_send_nolen s)) p = rdip (uip_buf s) p"
  "26 \<le> p \<Longrightarrow> rds (uip_buf (ip_send_nolen s)) p n = rds (uip_buf s) p n"
  "iplen (uip_buf (ip_send_nolen s)) = iplen (uip_buf s)"
  by (auto simp: rd16_def rdip_def iplen_def ip_send_other intro!: rds_cong)

lemma rd_udp_checksummed:
  "p + 1 < 40 \<Longrightarrow> rd16 (udp_checksummed b) p = rd16 b p"
  "p + 3 < 40 \<Longrightarrow> rdip (udp_checksummed b) p = rdip b p"
  "42 \<le> p \<Longrightarrow> rds (udp_checksummed b) p n = rds b p n"
  "iplen (udp_checksummed b) = iplen b"
  by (auto simp: rd16_def rdip_def iplen_def udp_checksummed_other intro!: rds_cong)

text \<open>
  C29. When the application left \<open>n\<close> bytes behind the UDP header, \<^verbatim>\<open>udp_send\<close> turns them
  into a datagram of the current connection: the checksums of both layers are correct and the
  UDP checksum is not the value that means "none", the two length fields agree with the length
  of the packet, addresses and ports are those of the connection, and the data is unchanged.
\<close>

theorem udp_send_datagram:
  assumes n: "uip_slen s \<noteq> 0" "unat (uip_slen s) < 65500" and j: "uip_udp_conn s = Some j"
  shows "\<exists>s'. udp_send s = Some s' \<and>
    uip_ipchksum (uip_buf s') = 0xffff \<and> uip_udpchksum (uip_buf s') = 0xffff \<and>
    rd16 (uip_buf s') 40 \<noteq> 0 \<and> uip_buf s' 23 = 17 \<and>
    unat (uip_len s') = unat (uip_slen s) + 28 \<and> iplen (uip_buf s') = unat (uip_slen s) + 28 \<and>
    unat (htons (rd16 (uip_buf s') 38)) = unat (uip_slen s) + 8 \<and>
    rdip (uip_buf s') 26 = uip_hostaddr s \<and> rdip (uip_buf s') 30 = uc_ripaddr (uconn s j) \<and>
    rd16 (uip_buf s') 34 = uc_lport (uconn s j) \<and> rd16 (uip_buf s') 36 = uc_rport (uconn s j) \<and>
    rds (uip_buf s') 42 (unat (uip_slen s)) = rds (uip_buf s) 42 (unat (uip_slen s))"
proof -
  let ?h = "udp_header (uip_hostaddr s) (uconn s j) (uip_slen s) (uip_buf s)"
  let ?s = "s\<lparr>uip_len := uip_slen s + 28, uip_buf := udp_checksummed ?h, uip_appdata := 54\<rparr>"
  let ?s' = "ip_send_nolen ?s"
  have plus: "unat (uip_slen s + 28) = unat (uip_slen s) + 28" "unat (uip_slen s + 8) = unat (uip_slen s) + 8"
    using n(2) by (simp_all add: unat_word_ariths)
  have len: "iplen ?h = unat (uip_slen s) + 28" by (simp add: udp_header_sel plus)
  note ok = udp_checksummed_ok [of ?h, OF udp_header_sel(1,2), unfolded len, simplified]
  have "uip_ipchksum (uip_buf ?s') = 0xffff"
    by (simp add: ip_send_nolen_eq ip_checksummed_ok)
  moreover have "uip_udpchksum (uip_buf ?s') = 0xffff" "rd16 (uip_buf ?s') 40 \<noteq> 0"
    using ok by (simp_all add: udpchksum_ip_send rd_ip_send)
  moreover have "uip_buf ?s' 23 = 17" "unat (uip_len ?s') = unat (uip_slen s) + 28"
    "iplen (uip_buf ?s') = unat (uip_slen s) + 28" "rdip (uip_buf ?s') 26 = uip_hostaddr s"
    "unat (htons (rd16 (uip_buf ?s') 38)) = unat (uip_slen s) + 8"
    "rdip (uip_buf ?s') 30 = uc_ripaddr (uconn s j)" "rd16 (uip_buf ?s') 34 = uc_lport (uconn s j)"
    "rd16 (uip_buf ?s') 36 = uc_rport (uconn s j)"
    by (simp_all add: ip_send_other rd_ip_send rd_udp_checksummed udp_checksummed_other
        udp_header_sel plus)
  moreover have "rds (uip_buf ?s') 42 m = rds (uip_buf s) 42 m" for m
    by (auto simp: rd_ip_send rd_udp_checksummed udp_header_sel intro!: rds_cong)
  ultimately show ?thesis using udp_send_eq [OF n(1) j] by auto
qed

theorem udp_send_datagram_witness:
  "\<exists>s'. udp_send (sample_data\<lparr>uip_slen := 300, uip_udp_conn := Some 0\<rparr>) = Some s' \<and>
    uip_udpchksum (uip_buf s') = 0xffff \<and> iplen (uip_buf s') = 328"
  using udp_send_datagram [of "sample_data\<lparr>uip_slen := 300, uip_udp_conn := Some 0\<rparr>" 0] by auto

section \<open>ICMP echo\<close>

text \<open>A 16-bit field read in the wrong byte order has the same one's complement value up to a factor.\<close>

lemma htons_mod: "unat (htons v) mod 65535 = 256 * unat v mod 65535"
proof -
  obtain a b where v: "v = le16 a b" by (metis le16_lo8_hi8)
  have "256 * unat v = unat (htons v) + 65535 * unat b"
    by (simp add: v unat_le16)
  then show ?thesis by simp
qed

lemma icmp_adjust_mod:
  fixes v :: u16
  defines "v' \<equiv> if 0xfff7 \<le> v then v + 9 else v + 8"
  shows "unat v' mod 65535 = (unat v + 8) mod 65535"
proof (cases "0xfff7 \<le> v")
  case True
  then have ge: "0xfff7 \<le> unat v" by (simp add: word_le_nat_alt)
  have "unat (v + 9) = (unat v + 9) mod 65536" by (simp add: unat_word_ariths)
  also have "\<dots> = unat v + 9 - 65536"
    using ge unat_u16_bound [of v] by (subst le_mod_geq, linarith, intro mod_less) linarith
  finally have "unat v + 8 = unat v' + 65535"
    using True ge by (simp only: v'_def if_True)
  then show ?thesis by (simp only: mod_add_self2)
next
  case False
  then have lt: "unat v < 0xfff7" by (simp add: word_le_nat_alt)
  have "unat (v + 8) = (unat v + 8) mod 65536" by (simp add: unat_word_ariths)
  also have "\<dots> = unat v + 8" using lt by (intro mod_less) linarith
  finally have "unat (v + 8) = unat v + 8" .
  then show ?thesis using False by (simp only: v'_def if_False)
qed

definition icmp_reply :: "ipaddr \<Rightarrow> mem \<Rightarrow> mem" where
  "icmp_reply host b0 =
     (let b = b0(34 := 0);
          v = rd16 b 36;
          b = wr16 36 (if 0xfff7 \<le> v then v + 9 else v + 8) b;
          b = wrip 30 (rdip b 26) b
      in wrip 26 host b)"

lemma icmp_input_echo:
  assumes "uip_buf s 34 = 8"
  shows "icmp_input s = s\<lparr>uip_buf := icmp_reply (uip_hostaddr s) (uip_buf s), uip_flags := 0\<rparr>"
proof -
  have "htons 0xf7ff = 0xfff7" "htons 0x0800 = 8" by (simp_all add: htons_def)
  then show ?thesis
    using assms by (simp add: icmp_input_def icmp_reply_def Let_def send_lbl_def)
qed

lemma icmp_reply_other: "i \<notin> {34, 36, 37} \<Longrightarrow> i < 26 \<or> 34 \<le> i \<Longrightarrow> icmp_reply h b i = b i"
  by (auto simp: icmp_reply_def Let_def wrip_def wr16_def)

lemma icmp_reply_sel:
  "icmp_reply h b 34 = 0" "rdip (icmp_reply h b) 26 = h" "rdip (icmp_reply h b) 30 = rdip b 26"
  "rd16 (icmp_reply h b) 36 =
     (if 0xfff7 \<le> rd16 b 36 then rd16 b 36 + 9 else rd16 b 36 + 8)"
  by (simp_all add: icmp_reply_def Let_def wrip_def rdip_def byte_simps)

lemma be_sum_rd16: "be_sum (rds m p 2) = unat (htons (rd16 m p))"
  by (simp add: numeral_2_eq_2 rds_Suc rd16_def unat_le16 rds_def)

lemma be_sum_rds_plus:
  "be_sum (rds m p (2 + n)) = unat (htons (rd16 m p)) + be_sum (rds m (p + 2) n)"
  unfolding rds_split by (subst be_sum_append_even) (simp_all add: be_sum_rd16)

lemma icmp_reply_sum:
  assumes type: "b 34 = 8"
  shows "be_sum (rds (icmp_reply h b) 34 (4 + n)) mod 65535 = be_sum (rds b 34 (4 + n)) mod 65535"
proof -
  let ?v = "rd16 b 36" and ?r = "icmp_reply h b"
  have split: "be_sum (rds m 34 (4 + n)) = 256 * unat (m 34) + unat (m 35) +
      unat (htons (rd16 m 36)) + be_sum (rds m 38 n)" for m
  proof -
    have four: "4 + n = 2 + (2 + n)" by simp
    show ?thesis unfolding four be_sum_rds_plus by (simp add: rd16_def unat_le16)
  qed
  have rest: "rds ?r 38 n = rds b 38 n" by (intro rds_cong icmp_reply_other) auto
  have "unat (htons (rd16 ?r 36)) mod 65535 = 256 * (unat (rd16 ?r 36) mod 65535) mod 65535"
    by (simp add: htons_mod mod_mult_right_eq)
  also have "unat (rd16 ?r 36) mod 65535 = (unat ?v + 8) mod 65535"
    by (simp only: icmp_reply_sel icmp_adjust_mod)
  also have "256 * ((unat ?v + 8) mod 65535) mod 65535 = (256 * unat ?v + 2048) mod 65535"
    by (simp add: mod_mult_right_eq distrib_left)
  also have "\<dots> = (unat (htons ?v) + 2048) mod 65535"
    by (metis htons_mod mod_add_left_eq)
  finally have *: "unat (htons (rd16 ?r 36)) mod 65535 = (unat (htons ?v) + 2048) mod 65535" .
  have "be_sum (rds ?r 34 (4 + n)) mod 65535 =
      (unat (htons (rd16 ?r 36)) mod 65535 + (unat (b 35) + be_sum (rds b 38 n))) mod 65535"
    unfolding split rest mod_add_left_eq
    by (rule arg_cong [where f = "\<lambda>t. t mod 65535"]) (simp add: icmp_reply_sel(1) icmp_reply_other)
  also have "\<dots> = (unat (htons ?v) + 2048 + (unat (b 35) + be_sum (rds b 38 n))) mod 65535"
    unfolding * by (rule mod_add_left_eq)
  also have "\<dots> = be_sum (rds b 34 (4 + n)) mod 65535"
    unfolding split by (rule arg_cong [where f = "\<lambda>t. t mod 65535"]) (simp add: type)
  finally show ?thesis .
qed

lemma icmp_reply_ip_sum:
  assumes "rdip b 30 = h"
  shows "be_sum (rds (icmp_reply h b) 14 20) = be_sum (rds b 14 20)"
proof -
  have split: "be_sum (rds m 14 20) = be_sum (rds m 14 12) +
      (unat (htons (fst (rdip m 26))) + unat (htons (snd (rdip m 26)))) +
      (unat (htons (fst (rdip m 30))) + unat (htons (snd (rdip m 30))))" for m
    using rds_split [of m 14 12 8] be_sum_rds_plus [of m 26 6] be_sum_rds_plus [of m 28 4]
      be_sum_rds_plus [of m 30 2] be_sum_rd16 [of m 32]
    by (simp add: be_sum_append_even rdip_def)
  have "rds (icmp_reply h b) 14 12 = rds b 14 12"
    by (intro rds_cong icmp_reply_other) auto
  then show ?thesis
    unfolding split icmp_reply_sel using assms by simp
qed

text \<open>
  C37. An echo request addressed to this host is answered by an echo reply: addresses are
  exchanged, identifier, sequence number and data are returned unchanged, the incremental
  adjustment keeps the ICMP checksum correct, and the unchanged IP checksum still matches.
\<close>

theorem icmp_echo_reply:
  assumes req: "uip_buf s 34 = 8" and dest: "rdip (uip_buf s) 30 = uip_hostaddr s"
    and ip: "uip_ipchksum (uip_buf s) = 0xffff"
    and icmp: "65535 dvd be_sum (rds (uip_buf s) 34 (4 + n))"
  shows "uip_ipchksum (uip_buf (icmp_input s)) = 0xffff \<and>
    65535 dvd be_sum (rds (uip_buf (icmp_input s)) 34 (4 + n)) \<and>
    uip_buf (icmp_input s) 34 = 0 \<and> rdip (uip_buf (icmp_input s)) 26 = uip_hostaddr s \<and>
    rdip (uip_buf (icmp_input s)) 30 = rdip (uip_buf s) 26 \<and>
    rds (uip_buf (icmp_input s)) 38 n = rds (uip_buf s) 38 n \<and>
    uip_len (icmp_input s) = uip_len s"
proof -
  have buf: "uip_buf (icmp_input s) = icmp_reply (uip_hostaddr s) (uip_buf s)"
    and "uip_len (icmp_input s) = uip_len s"
    by (simp_all add: icmp_input_echo [OF req])
  moreover have "rds (icmp_reply h b) 38 n = rds b 38 n" for h b
    by (intro rds_cong icmp_reply_other) auto
  ultimately show ?thesis
    using ip icmp icmp_reply_sum [of "uip_buf s" "uip_hostaddr s" n] req
    by (simp add: uip_ipchksum_check icmp_reply_ip_sum [OF dest] icmp_reply_sel dvd_eq_mod_eq_0)
qed

definition sample_ping :: uip_st where
  "sample_ping = sample_data\<lparr>uip_len := 28, uip_buf := (\<lambda>i. if i = 17 then 28 else if i = 23 then 1
     else if i = 24 then 255 else if i = 25 then 226 else if i = 34 then 8
     else if i = 36 then 247 else if i = 37 then 255 else 0)\<rparr>"

theorem icmp_echo_reply_witness:
  "uip_ipchksum (uip_buf (icmp_input sample_ping)) = 0xffff \<and>
   65535 dvd be_sum (rds (uip_buf (icmp_input sample_ping)) 34 8) \<and>
   uip_buf (icmp_input sample_ping) 34 = 0"
proof -
  have "rds (uip_buf sample_ping) 14 20 =
      [0, 0, 0, 28, 0, 0, 0, 0, 0, 1, 255, 226, 0, 0, 0, 0, 0, 0, 0, 0]"
    and icmp: "rds (uip_buf sample_ping) 34 8 = [8, 0, 247, 255, 0, 0, 0, 0]"
    by (simp_all add: rds_def sample_ping_def upt_rec)
  then have "uip_ipchksum (uip_buf sample_ping) = 0xffff" by (simp add: uip_ipchksum_check)
  moreover have "uip_buf sample_ping 34 = 8" "rdip (uip_buf sample_ping) 30 = uip_hostaddr sample_ping"
    by (simp_all add: sample_ping_def sample_data_def rdip_def rd16_def le16_def)
  ultimately show ?thesis
    using icmp_echo_reply [of sample_ping 4] by (simp add: icmp)
qed

end
