(* ===== verification/Uip_Tcp.thy ===== *)
theory Uip_Tcp
  imports Uip_Packets
begin

text \<open>
  The TCP state machine of \<^verbatim>\<open>uip_process\<close>. The application callback is an interface: what it
  may do to the connection table is stated once, as the laws of the locale \<open>tcp_app\<close>, and the
  transitions of a connection are derived from these laws; the theory of the xtcp layer
  interprets the locale on its callback.
\<close>

section \<open>What sending leaves alone\<close>

named_theorems send_sel \<open>tables and pointers that the output code does not change\<close>

lemma drop_sel [send_sel]:
  "uip_conns (drop_lbl s) = uip_conns s" "uip_conn (drop_lbl s) = uip_conn s"
  "uip_len (drop_lbl s) = 0" "uip_udp_conns (drop_lbl s) = uip_udp_conns s"
  by (simp_all add: drop_lbl_def)

lemma tcp_send_noconn_sel [send_sel]:
  "uip_conns (tcp_send_noconn s) = uip_conns s" "uip_conn (tcp_send_noconn s) = uip_conn s"
  "uip_len (tcp_send_noconn s) = uip_len s" "uip_udp_conns (tcp_send_noconn s) = uip_udp_conns s"
  by (simp_all add: tcp_send_noconn_def Let_def)

lemma tcp_send_sel [send_sel]:
  "uip_conns (tcp_send i s) = uip_conns s" "uip_conn (tcp_send i s) = uip_conn s"
  "uip_len (tcp_send i s) = uip_len s" "uip_udp_conns (tcp_send i s) = uip_udp_conns s"
  by (simp_all add: tcp_send_def Let_def send_sel)

lemma tcp_send_noopts_sel [send_sel]:
  "uip_conns (tcp_send_noopts i s) = uip_conns s" "uip_conn (tcp_send_noopts i s) = uip_conn s"
  "uip_len (tcp_send_noopts i s) = uip_len s" "uip_udp_conns (tcp_send_noopts i s) = uip_udp_conns s"
  by (simp_all add: tcp_send_noopts_def send_sel)

lemma tcp_send_nodata_sel [send_sel]:
  "uip_conns (tcp_send_nodata i s) = uip_conns s" "uip_conn (tcp_send_nodata i s) = uip_conn s"
  "uip_len (tcp_send_nodata i s) = 40" "uip_udp_conns (tcp_send_nodata i s) = uip_udp_conns s"
  by (simp_all add: tcp_send_nodata_def send_sel)

lemma tcp_send_ack_sel [send_sel]:
  "uip_conns (tcp_send_ack i s) = uip_conns s" "uip_conn (tcp_send_ack i s) = uip_conn s"
  "uip_conns (tcp_send_finack i s) = uip_conns s" "uip_conn (tcp_send_finack i s) = uip_conn s"
  "uip_len (tcp_send_ack i s) = 40" "uip_len (tcp_send_finack i s) = 40"
  by (simp_all add: tcp_send_ack_def tcp_send_finack_def send_sel)

lemma tcp_send_syn_sel [send_sel]:
  "uip_conns (tcp_send_syn i s) = uip_conns s" "uip_conn (tcp_send_syn i s) = uip_conn s"
  "uip_conns (tcp_send_synack i s) = uip_conns s" "uip_conn (tcp_send_synack i s) = uip_conn s"
  "uip_len (tcp_send_syn i s) = 44" "uip_len (tcp_send_synack i s) = 44"
  by (simp_all add: tcp_send_syn_def tcp_send_synack_def Let_def send_sel)

lemma apprexmit_sel [send_sel]:
  "uip_conns (apprexmit i s) = uip_conns s" "uip_conn (apprexmit i s) = uip_conn s"
  by (simp_all add: apprexmit_def Let_def send_sel)

lemma increment_word_sel [send_sel]:
  "uip_conns (xtcp_increment_word t s) = uip_conns s" "uip_conn (xtcp_increment_word t s) = uip_conn s"
  by (cases t; simp add: xtcp_increment_word_def Let_def)+

lemma reset_sel [send_sel]:
  "uip_conns (reset_lbl s) = uip_conns s" "uip_conn (reset_lbl s) = uip_conn s"
  by (simp_all add: reset_lbl_def Let_def send_sel)

section \<open>States and transitions\<close>

definition conn_state :: "tcp_conn \<Rightarrow> u8" where
  "conn_state c = tc_tcpstateflags c AND UIP_TS_MASK"

text \<open>
  The transitions a segment, a timer tick or a request of the application may cause, each the
  transition of the TCP state diagram, or the abort to CLOSED. A FIN sent at once on a
  connection that has just been established is one step here. A connection is closed by the
  peer straight from ESTABLISHED to LAST\_ACK, since CLOSE\_WAIT is not implemented.
\<close>

inductive tcp_trans :: "u8 \<Rightarrow> u8 \<Rightarrow> bool" where
  stay: "tcp_trans st st"
| abort: "tcp_trans st UIP_CLOSED"
| syn_rcvd: "st' \<in> {UIP_ESTABLISHED, UIP_FIN_WAIT_1} \<Longrightarrow> tcp_trans UIP_SYN_RCVD st'"
| syn_sent: "st' \<in> {UIP_ESTABLISHED, UIP_FIN_WAIT_1} \<Longrightarrow> tcp_trans UIP_SYN_SENT st'"
| established: "st' \<in> {UIP_FIN_WAIT_1, UIP_LAST_ACK} \<Longrightarrow> tcp_trans UIP_ESTABLISHED st'"
| fin_wait_1: "st' \<in> {UIP_FIN_WAIT_2, UIP_CLOSING, UIP_TIME_WAIT} \<Longrightarrow> tcp_trans UIP_FIN_WAIT_1 st'"
| fin_wait_2: "tcp_trans UIP_FIN_WAIT_2 UIP_TIME_WAIT"
| closing: "tcp_trans UIP_CLOSING UIP_TIME_WAIT"

text \<open>
  The application may reopen a slot that is closed or waiting, when it is asked to connect;
  it never moves a live connection.
\<close>

definition conn_kept :: "tcp_conn \<Rightarrow> tcp_conn \<Rightarrow> bool" where
  "conn_kept c c' \<longleftrightarrow> conn_state c' = conn_state c \<and> tc_ripaddr c' = tc_ripaddr c \<and>
     tc_rport c' = tc_rport c \<and> tc_rcv_nxt c' = tc_rcv_nxt c \<and> tc_snd_nxt c' = tc_snd_nxt c \<and>
     tc_len c' = tc_len c \<and> tc_mss c' = tc_mss c \<and> tc_initialmss c' = tc_initialmss c \<and>
     tc_timer c' = tc_timer c \<and> tc_nrtx c' = tc_nrtx c"

definition conn_reopened :: "tcp_conn \<Rightarrow> tcp_conn \<Rightarrow> bool" where
  "conn_reopened c c' \<longleftrightarrow> conn_state c \<in> {UIP_CLOSED, UIP_TIME_WAIT} \<and>
     conn_state c' = UIP_SYN_SENT \<and> tc_len c' = 1 \<and> tc_nrtx c' = 0"

definition app_step :: "tcp_conn \<Rightarrow> tcp_conn \<Rightarrow> bool" where
  "app_step c c' \<longleftrightarrow> conn_kept c c' \<or> conn_reopened c c'"

lemma app_step_refl [simp]: "app_step c c"
  by (simp add: app_step_def conn_kept_def)

lemma app_step_trans: "app_step c d \<Longrightarrow> app_step d e \<Longrightarrow> app_step c e"
  by (auto simp: app_step_def conn_kept_def conn_reopened_def)

lemma app_step_live:
  "app_step c c' \<Longrightarrow> conn_state c \<notin> {UIP_CLOSED, UIP_TIME_WAIT} \<Longrightarrow> conn_kept c c'"
  by (auto simp: app_step_def conn_reopened_def)

lemma app_step_state:
  "app_step c c' \<Longrightarrow> conn_state c' = conn_state c \<or>
     conn_state c \<in> {UIP_CLOSED, UIP_TIME_WAIT} \<and> conn_state c' = UIP_SYN_SENT"
  by (auto simp: app_step_def conn_kept_def conn_reopened_def)

definition app_table :: "tcp_conn list \<Rightarrow> tcp_conn list \<Rightarrow> bool" where
  "app_table cs cs' \<longleftrightarrow> list_all2 app_step cs cs'"

lemma app_table_refl [simp]: "app_table cs cs"
  by (simp add: app_table_def list_all2_refl)

lemma app_table_trans: "app_table cs ds \<Longrightarrow> app_table ds es \<Longrightarrow> app_table cs es"
  using list_all2_trans [of app_step app_step app_step cs ds es] app_step_trans
  unfolding app_table_def by blast

lemma app_table_nth: "app_table cs cs' \<Longrightarrow> k < length cs \<Longrightarrow> app_step (cs ! k) (cs' ! k)"
  by (simp add: app_table_def list_all2_nthD)

lemma app_table_length: "app_table cs cs' \<Longrightarrow> length cs' = length cs"
  by (simp add: app_table_def list_all2_lengthD)

text \<open>The contract of \<^verbatim>\<open>UIP_APPCALL\<close>.\<close>

locale tcp_app =
  fixes app :: "'a uip_st_scheme \<Rightarrow> 'a uip_st_scheme option"
  assumes app_conns: "app s = Some s' \<Longrightarrow> app_table (uip_conns s) (uip_conns s')"
    and app_current: "app s = Some s' \<Longrightarrow> uip_conn s' = uip_conn s"

definition tcp_effect :: "nat \<Rightarrow> 'a uip_st_scheme \<Rightarrow> 'a uip_st_scheme \<Rightarrow> bool" where
  "tcp_effect i s s' \<longleftrightarrow> length (uip_conns s') = length (uip_conns s) \<and>
     (\<exists>c. tcp_trans (conn_state (tconn s i)) (conn_state c) \<and> app_step c (tconn s' i)) \<and>
     (\<forall>k < length (uip_conns s). k \<noteq> i \<longrightarrow> app_step (tconn s k) (tconn s' k))"

lemma effect_quiet:
  assumes "uip_conns s' = (uip_conns s)[i := c]" and "tcp_trans (conn_state (tconn s i)) (conn_state c)"
    and "i < length (uip_conns s)"
  shows "tcp_effect i s s'"
  using assms by (auto simp: tcp_effect_def intro: exI [of _ c])

lemma effect_none:
  assumes "uip_conns s' = uip_conns s"
  shows "tcp_effect i s s'"
  unfolding tcp_effect_def using assms by (auto intro: tcp_trans.stay exI [of _ "tconn s i"])

lemma effect_cong: "uip_conns s = uip_conns t \<Longrightarrow> uip_conns s' = uip_conns t' \<Longrightarrow> tcp_effect i t t' \<Longrightarrow> tcp_effect i s s'"
  by (simp add: tcp_effect_def)

text \<open>What \<^verbatim>\<open>appsend\<close> does to the connection it works for.\<close>

lemma appsend_conns:
  assumes "i < length (uip_conns s)"
  shows "\<exists>c. uip_conns (appsend i s) = (uip_conns s)[i := c] \<and>
    conn_state c \<in> {conn_state (tconn s i), UIP_CLOSED, UIP_FIN_WAIT_1}"
proof -
  consider "uip_flags s AND UIP_ABORT \<noteq> 0" | "uip_flags s AND UIP_ABORT = 0" "uip_flags s AND UIP_CLOSE \<noteq> 0"
    | "uip_flags s AND UIP_ABORT = 0" "uip_flags s AND UIP_CLOSE = 0" by blast
  then show ?thesis
    by cases (use assms in \<open>auto simp: appsend_def Let_def upd_conn_def send_sel conn_state_def\<close>)
qed

lemma established_accept_conns:
  assumes "uip_conn s = Some i" and "i < length (uip_conns s)"
  shows "\<exists>c. uip_conns (established_accept i s) = (uip_conns s)[i := c] \<and>
    conn_state c = conn_state (tconn s i) \<and> tc_snd_nxt c = tc_snd_nxt (tconn s i) \<and>
    tc_len c = tc_len (tconn s i)"
  using assms
  by (auto simp: established_accept_def Let_def upd_conn_def uip_add_rcv_nxt_def conn_state_def)

lemma tcp_ack_input_sel: "uip_conn (tcp_ack_input i s) = uip_conn s"
  by (simp add: tcp_ack_input_def Let_def)

lemma rtt_estimate_state: "conn_state (rtt_estimate c) = conn_state c"
  by (simp add: rtt_estimate_def Let_def conn_state_def)

lemma tcp_ack_input_conns:
  assumes "i < length (uip_conns s)"
  shows "\<exists>c. uip_conns (tcp_ack_input i s) = (uip_conns s)[i := c] \<and> conn_state c = conn_state (tconn s i)"
proof (cases "uip_conns (tcp_ack_input i s) = uip_conns s")
  case True
  then show ?thesis by (intro exI [of _ "tconn s i"]) simp
next
  case False
  have *: "conn_state ((rtt_estimate c)\<lparr>tc_timer := x, tc_len := y\<rparr>) = conn_state c"
    "conn_state (c\<lparr>tc_snd_nxt := a, tc_timer := x, tc_len := y\<rparr>) = conn_state c"
    "conn_state (c\<lparr>tc_snd_nxt := a\<rparr>) = conn_state c" for c a x y
    using rtt_estimate_state [of c] by (simp_all add: conn_state_def)
  from False show ?thesis by (auto simp: tcp_ack_input_def Let_def upd_conn_def * split: if_splits)
qed

context tcp_app
begin

lemma effect_app:
  assumes app: "app s1 = Some s2" and s1: "uip_conns s1 = (uip_conns s)[i := c]"
    and tr: "tcp_trans (conn_state (tconn s i)) (conn_state c)"
    and i: "i < length (uip_conns s)" and s': "uip_conns s' = uip_conns s2"
  shows "tcp_effect i s s'"
proof -
  note t = app_conns [OF app]
  have "app_step c (tconn s' i)" using app_table_nth [OF t, of i] i by (simp add: s1 s')
  moreover have "app_step (tconn s k) (tconn s' k)" if "k < length (uip_conns s)" "k \<noteq> i" for k
    using app_table_nth [OF t, of k] that by (simp add: s1 s')
  moreover have "length (uip_conns s') = length (uip_conns s)"
    using app_table_length [OF t] by (simp add: s1 s')
  ultimately show ?thesis using tr by (auto simp: tcp_effect_def)
qed

lemma effect_after_app:
  assumes app: "app s1 = Some s2" and s1: "uip_conns s1 = (uip_conns s)[i := c]"
    and s': "uip_conns s' = (uip_conns s2)[i := d]"
    and tr: "tcp_trans (conn_state (tconn s i)) (conn_state d)" and i: "i < length (uip_conns s)"
  shows "tcp_effect i s s'"
proof -
  note t = app_conns [OF app]
  have len: "length (uip_conns s2) = length (uip_conns s)" using app_table_length [OF t] by (simp add: s1)
  then have "tconn s' i = d" using i by (simp add: s')
  moreover have "app_step (tconn s k) (tconn s' k)" if "k < length (uip_conns s)" "k \<noteq> i" for k
    using app_table_nth [OF t, of k] that by (simp add: s1 s')
  ultimately show ?thesis
    using tr len by (auto simp: tcp_effect_def s' intro: exI [of _ d])
qed

lemma effect_appsend:
  assumes app: "app s1 = Some s2" and s1: "uip_conns s1 = (uip_conns s)[i := c]"
    and s': "s' = appsend i s2"
    and est: "conn_state c = UIP_ESTABLISHED"
    and old: "conn_state (tconn s i) \<in> {UIP_SYN_RCVD, UIP_SYN_SENT, UIP_ESTABLISHED}"
    and i: "i < length (uip_conns s)"
  shows "tcp_effect i s s'"
proof -
  note t = app_conns [OF app]
  have i2: "i < length (uip_conns s2)" using app_table_length [OF t] i by (simp add: s1)
  obtain d where d: "uip_conns s' = (uip_conns s2)[i := d]"
    "conn_state d \<in> {conn_state (tconn s2 i), UIP_CLOSED, UIP_FIN_WAIT_1}"
    using appsend_conns [OF i2] s' by auto
  have "conn_state (tconn s2 i) = UIP_ESTABLISHED"
    using app_step_live [OF app_table_nth [OF t, of i]] i est by (simp add: s1 conn_kept_def)
  then have "tcp_trans (conn_state (tconn s i)) (conn_state d)"
    using old d(2) by (auto intro: tcp_trans.intros)
  from effect_after_app [OF app s1 d(1) this i] show ?thesis .
qed

lemmas handler_simps = Let_def upd_conn_def uip_add_rcv_nxt_def bind_eq_Some_conv

lemma syn_rcvd_effect:
  assumes "tcp_syn_rcvd env i s = Some s'" and env: "appcall env = app"
    and i: "i < length (uip_conns s)" and cur: "uip_conn s = Some i"
    and st: "conn_state (tconn s i) = UIP_SYN_RCVD"
  shows "tcp_effect i s s'"
proof (cases "uip_flags s AND UIP_ACKDATA = 0")
  case True
  with assms(1) show ?thesis by (auto simp: tcp_syn_rcvd_def send_sel intro: effect_none)
next
  case False
  let ?r = "if 0 < uip_len s then uip_add32 (tc_rcv_nxt (tconn s i)) (uip_len s) else tc_rcv_nxt (tconn s i)"
  let ?c = "(tconn s i)\<lparr>tc_tcpstateflags := UIP_ESTABLISHED, tc_len := 0, tc_rcv_nxt := ?r\<rparr>"
  from False assms(1) obtain s1 s2 where *: "app s1 = Some s2" "uip_conns s1 = (uip_conns s)[i := ?c]"
      "s' = appsend i s2"
    using i cur by (auto simp: tcp_syn_rcvd_def env handler_simps split: if_splits)
  show ?thesis using i st by (intro effect_appsend [OF *]) (simp_all add: conn_state_def)
qed

lemma syn_sent_effect:
  assumes "tcp_syn_sent env i s = Some s'" and env: "appcall env = app"
    and i: "i < length (uip_conns s)" and cur: "uip_conn s = Some i"
    and st: "conn_state (tconn s i) = UIP_SYN_SENT"
  shows "tcp_effect i s s'"
proof (cases "uip_flags s AND UIP_ACKDATA \<noteq> 0 \<and> uip_buf s B_flags AND TCP_CTL = (TCP_SYN OR TCP_ACK)")
  case True
  from assms(1) obtain c s1 s2 where *:
      "app s1 = Some s2" "uip_conns s1 = (uip_conns s)[i := c\<lparr>tc_tcpstateflags := UIP_ESTABLISHED,
         tc_rcv_nxt := uip_add32 (rd4 (uip_buf s) B_seqno) 1, tc_len := 0\<rparr>]" "s' = appsend i s2"
    using i cur unfolding tcp_syn_sent_def if_P [OF True] by (auto simp: env handler_simps)
  show ?thesis using i st by (intro effect_appsend [OF *]) (simp_all add: conn_state_def)
next
  case False
  from assms(1) obtain s1 s2 where *: "app s1 = Some s2"
      "uip_conns s1 = (uip_conns s)[i := tconn s i]"
      "uip_conns s' = (uip_conns s2)[i := (tconn s2 i)\<lparr>tc_tcpstateflags := UIP_CLOSED\<rparr>]"
    using cur app_current unfolding tcp_syn_sent_def if_not_P [OF False]
    by (fastforce simp: env handler_simps send_sel)
  show ?thesis using i by (intro effect_after_app [OF *]) (simp_all add: conn_state_def tcp_trans.abort)
qed

lemma established_effect:
  assumes "tcp_established env i s = Some s'" and env: "appcall env = app"
    and i: "i < length (uip_conns s)" and cur: "uip_conn s = Some i"
    and st: "conn_state (tconn s i) = UIP_ESTABLISHED"
  shows "tcp_effect i s s'"
proof (cases "uip_buf s B_flags AND TCP_FIN \<noteq> 0 \<and> tc_tcpstateflags (tconn s i) AND UIP_STOPPED = 0")
  case True
  show ?thesis
  proof (cases "tc_len (tconn s i) = 0")
    case len: True
    from assms(1) obtain s1 s2 where *: "app s1 = Some s2"
        "uip_conns s1 = (uip_conns s)[i := (tconn s i)\<lparr>tc_rcv_nxt :=
          uip_add32 (tc_rcv_nxt (tconn s i)) (1 + uip_len s)\<rparr>]"
        "uip_conns s' = (uip_conns s2)[i := (tconn s2 i)\<lparr>tc_len := 1,
          tc_tcpstateflags := UIP_LAST_ACK, tc_nrtx := 0\<rparr>]"
      using cur unfolding tcp_established_def if_P [OF True]
      by (fastforce simp: env handler_simps len send_sel split: if_splits)
    show ?thesis
      using i st by (intro effect_after_app [OF *]) (simp_all add: conn_state_def tcp_trans.established)
  next
    case False
    with assms(1) True show ?thesis
      by (auto simp: tcp_established_def send_sel intro: effect_none)
  qed
next
  case False
  obtain c where c: "uip_conns (established_accept i s) = (uip_conns s)[i := c]" "conn_state c = UIP_ESTABLISHED"
    using established_accept_conns [OF cur i] st by (auto simp: conn_kept_def)
  show ?thesis
  proof (cases "uip_flags (established_accept i s) AND (UIP_NEWDATA OR UIP_ACKDATA) = 0")
    case True
    with assms(1) have "uip_conns s' = (uip_conns s)[i := c]"
      unfolding tcp_established_def if_not_P [OF False] by (auto simp: Let_def c send_sel)
    from effect_quiet [OF this] show ?thesis using c st i by (simp add: tcp_trans.stay)
  next
    case False2: False
    with assms(1) obtain s1 s2 where *: "app s1 = Some s2" "uip_conns s1 = (uip_conns s)[i := c]"
        "s' = appsend i s2"
      unfolding tcp_established_def if_not_P [OF False] by (auto simp: env Let_def bind_eq_Some_conv c)
    show ?thesis using i st c by (intro effect_appsend [OF *]) simp_all
  qed
qed

lemma last_ack_effect:
  assumes "tcp_last_ack env i s = Some s'" and env: "appcall env = app" and i: "i < length (uip_conns s)"
  shows "tcp_effect i s s'"
proof (cases "uip_flags s AND UIP_ACKDATA = 0")
  case True
  with assms(1) show ?thesis by (auto simp: tcp_last_ack_def send_sel intro: effect_none)
next
  case False
  with assms(1) obtain s1 s2 where *: "app s1 = Some s2"
      "uip_conns s1 = (uip_conns s)[i := (tconn s i)\<lparr>tc_tcpstateflags := UIP_CLOSED\<rparr>]"
      "uip_conns s' = uip_conns s2"
    by (fastforce simp: tcp_last_ack_def env handler_simps send_sel)
  show ?thesis using i *(3) by (intro effect_app [OF *(1,2)]) (simp_all add: conn_state_def tcp_trans.abort)
qed

lemma closing_effect:
  assumes "i < length (uip_conns s)" and "conn_state (tconn s i) = UIP_CLOSING"
  shows "tcp_effect i s (tcp_closing i s)"
proof (cases "uip_flags s AND UIP_ACKDATA = 0")
  case False
  then have "uip_conns (tcp_closing i s) =
      (uip_conns s)[i := (tconn s i)\<lparr>tc_tcpstateflags := UIP_TIME_WAIT, tc_timer := 0\<rparr>]"
    by (simp add: tcp_closing_def send_sel upd_conn_def)
  from effect_quiet [OF this] show ?thesis
    using assms by (simp add: conn_state_def tcp_trans.closing)
qed (simp add: tcp_closing_def send_sel effect_none)

text \<open>Both FIN\_WAIT states accept data and wait for the FIN of the peer.\<close>

lemma fin_wait_1_effect:
  assumes "tcp_fin_wait_1 env i s = Some s'" and env: "appcall env = app"
    and i: "i < length (uip_conns s)" and cur: "uip_conn s = Some i"
    and st: "conn_state (tconn s i) = UIP_FIN_WAIT_1"
  shows "tcp_effect i s s'"
proof -
  let ?c = "(tconn s i)\<lparr>tc_rcv_nxt := if 0 < uip_len s then uip_add32 (tc_rcv_nxt (tconn s i)) (uip_len s)
    else tc_rcv_nxt (tconn s i)\<rparr>"
  consider (fin) "uip_buf s B_flags AND TCP_FIN \<noteq> 0"
    | (ack) "uip_buf s B_flags AND TCP_FIN = 0" "uip_flags s AND UIP_ACKDATA \<noteq> 0"
    | (none) "uip_buf s B_flags AND TCP_FIN = 0" "uip_flags s AND UIP_ACKDATA = 0" by blast
  then show ?thesis
  proof cases
    case fin
    with assms(1) cur i obtain s1 s2 d where *: "app s1 = Some s2" "uip_conns s1 = (uip_conns s)[i := d]"
        "conn_state d \<in> {UIP_TIME_WAIT, UIP_CLOSING}" "uip_conns s' = uip_conns s2"
      by (cases "uip_flags s AND UIP_ACKDATA = 0"; cases "0 < uip_len s")
        (fastforce simp: tcp_fin_wait_1_def env handler_simps send_sel conn_state_def)+
    from *(3) have "tcp_trans (conn_state (tconn s i)) (conn_state d)"
      unfolding st by (auto intro: tcp_trans.fin_wait_1)
    from effect_app [OF *(1,2) this i *(4)] show ?thesis .
  next
    case ack
    with assms(1) cur i have "uip_conns s' = (uip_conns s)[i := ?c\<lparr>tc_tcpstateflags := UIP_FIN_WAIT_2, tc_len := 0\<rparr>]"
      by (auto simp: tcp_fin_wait_1_def handler_simps send_sel)
    from effect_quiet [OF this] show ?thesis
      using i st by (simp add: conn_state_def tcp_trans.fin_wait_1)
  next
    case none
    with assms(1) cur i have "uip_conns s' = (uip_conns s)[i := ?c]"
      by (auto simp: tcp_fin_wait_1_def handler_simps send_sel split: if_splits)
    from effect_quiet [OF this] show ?thesis
      using i st by (simp add: conn_state_def tcp_trans.stay)
  qed
qed

lemma fin_wait_2_effect:
  assumes "tcp_fin_wait_2 env i s = Some s'" and env: "appcall env = app"
    and i: "i < length (uip_conns s)" and cur: "uip_conn s = Some i"
    and st: "conn_state (tconn s i) = UIP_FIN_WAIT_2"
  shows "tcp_effect i s s'"
proof -
  let ?c = "(tconn s i)\<lparr>tc_rcv_nxt := if 0 < uip_len s then uip_add32 (tc_rcv_nxt (tconn s i)) (uip_len s)
    else tc_rcv_nxt (tconn s i)\<rparr>"
  show ?thesis
  proof (cases "uip_buf s B_flags AND TCP_FIN = 0")
    case False
    with assms(1) cur i obtain s1 s2 d where *: "app s1 = Some s2" "uip_conns s1 = (uip_conns s)[i := d]"
        "conn_state d = UIP_TIME_WAIT" "uip_conns s' = uip_conns s2"
      by (cases "0 < uip_len s")
        (fastforce simp: tcp_fin_wait_2_def env handler_simps send_sel conn_state_def)+
    from *(3) have "tcp_trans (conn_state (tconn s i)) (conn_state d)"
      unfolding st by (auto intro: tcp_trans.fin_wait_2)
    from effect_app [OF *(1,2) this i *(4)] show ?thesis .
  next
    case True
    with assms(1) cur i have "uip_conns s' = (uip_conns s)[i := ?c]"
      by (auto simp: tcp_fin_wait_2_def handler_simps send_sel split: if_splits)
    from effect_quiet [OF this] show ?thesis
      using i st by (simp add: conn_state_def tcp_trans.stay)
  qed
qed

lemma switch_effect:
  assumes "tcp_state_switch env i s = Some s'" and env: "appcall env = app"
    and i: "i < length (uip_conns s)" and cur: "uip_conn s = Some i"
  shows "tcp_effect i s s'"
proof -
  consider "conn_state (tconn s i) = UIP_SYN_RCVD" | "conn_state (tconn s i) = UIP_SYN_SENT"
    | "conn_state (tconn s i) = UIP_ESTABLISHED" | "conn_state (tconn s i) = UIP_LAST_ACK"
    | "conn_state (tconn s i) = UIP_FIN_WAIT_1" | "conn_state (tconn s i) = UIP_FIN_WAIT_2"
    | "conn_state (tconn s i) = UIP_CLOSING"
    | "conn_state (tconn s i) \<notin> {UIP_SYN_RCVD, UIP_SYN_SENT, UIP_ESTABLISHED, UIP_LAST_ACK,
         UIP_FIN_WAIT_1, UIP_FIN_WAIT_2, UIP_CLOSING}" by blast
  then show ?thesis
    using assms(1) unfolding tcp_state_switch_def Let_def conn_state_def [symmetric]
    by cases (auto intro: syn_rcvd_effect [OF _ env i cur] syn_sent_effect [OF _ env i cur]
        established_effect [OF _ env i cur] last_ack_effect [OF _ env i]
        fin_wait_1_effect [OF _ env i cur] fin_wait_2_effect [OF _ env i cur] closing_effect [OF i]
        effect_none simp: send_sel split: if_splits)
qed

lemma found_effect:
  assumes "tcp_found env i s = Some s'" and env: "appcall env = app" and i: "i < length (uip_conns s)"
  shows "tcp_effect i s s'"
proof (cases "uip_buf s B_flags AND TCP_RST = 0")
  case False
  with assms(1) obtain s1 s2 where *: "app s1 = Some s2"
      "uip_conns s1 = (uip_conns s)[i := (tconn s i)\<lparr>tc_tcpstateflags := UIP_CLOSED\<rparr>]"
      "uip_conns s' = uip_conns s2"
    by (fastforce simp: tcp_found_def env handler_simps send_sel)
  show ?thesis using i *(3) by (intro effect_app [OF *(1,2)]) (simp_all add: conn_state_def tcp_trans.abort)
next
  case True
  show ?thesis
  proof (cases "uip_conns s' = uip_conns s")
    case False
    with True assms(1) obtain t where t: "tcp_state_switch env i t = Some s'" "uip_conn t = Some i"
        "uip_conns t = uip_conns (tcp_ack_input i (s\<lparr>uip_conn := Some i, uip_flags := 0,
           uip_len := uip_len s - ucast (push_bit 2 (drop_bit 4 (uip_buf s B_tcpoffset))) - 20\<rparr>))"
      by (auto simp: tcp_found_def Let_def send_sel tcp_ack_input_sel split: if_splits)
    then obtain c where c: "uip_conns t = (uip_conns s)[i := c]" "conn_state c = conn_state (tconn s i)"
      using tcp_ack_input_conns [of i "s\<lparr>uip_conn := Some i, uip_flags := 0,
           uip_len := uip_len s - ucast (push_bit 2 (drop_bit 4 (uip_buf s B_tcpoffset))) - 20\<rparr>"] i by auto
    have "tcp_effect i t s'" using switch_effect [OF t(1) env _ t(2)] i c(1) by simp
    then show ?thesis
      using i unfolding tcp_effect_def c(1) by (simp add: c(2))
  qed (rule effect_none)
qed

lemma rexmit_effect:
  assumes "tcp_rexmit env i s = Some s'" and env: "appcall env = app"
  shows "app_table (uip_conns s) (uip_conns s')"
  using assms(1) app_conns
  by (fastforce simp: tcp_rexmit_def env Let_def bind_eq_Some_conv send_sel split: if_splits)

lemma poll_request_effect:
  assumes "tcp_poll_request env i s = Some s'" and env: "appcall env = app" and i: "i < length (uip_conns s)"
  shows "tcp_effect i s s'"
proof (cases "conn_state (tconn s i) = UIP_ESTABLISHED \<and> tc_len (tconn s i) = 0")
  case True
  with assms(1) obtain s1 s2 where *: "app s1 = Some s2" "uip_conns s1 = (uip_conns s)[i := tconn s i]"
      "s' = appsend i s2"
    by (fastforce simp: tcp_poll_request_def env bind_eq_Some_conv conn_state_def)
  show ?thesis using True i by (intro effect_appsend [OF *]) simp_all
next
  case False
  with assms(1) show ?thesis
    by (intro effect_none) (auto simp: tcp_poll_request_def send_sel conn_state_def split: if_splits)
qed

lemma effect_rexmit:
  assumes "app_table ((uip_conns s)[i := c]) (uip_conns s')" and "conn_state c = conn_state (tconn s i)"
    and "i < length (uip_conns s)"
  shows "tcp_effect i s s'"
  using assms app_table_nth [OF assms(1)] app_table_length [OF assms(1)]
  unfolding tcp_effect_def by (metis length_list_update nth_list_update_eq nth_list_update_neq tcp_trans.stay)

lemma timer_effect:
  assumes "tcp_timer env i s0 = Some s'" and env: "appcall env = app" and i: "i < length (uip_conns s0)"
  shows "tcp_effect i s0 s'"
proof -
  define s where "s = (xtcp_increment_word Inc_iss s0)\<lparr>uip_len := 0, uip_slen := 0\<rparr>"
  have conns: "uip_conns s = uip_conns s0" by (simp add: s_def send_sel)
  let ?c = "tconn s i" and ?st = "tc_tcpstateflags (tconn s i)"
  note timer = assms(1) [unfolded tcp_timer_def Let_def, folded s_def]
  consider (waiting) "?st = UIP_TIME_WAIT \<or> ?st = UIP_FIN_WAIT_2"
    | (quiet) "?st \<noteq> UIP_TIME_WAIT" "?st \<noteq> UIP_FIN_WAIT_2" "tc_len ?c = 0 \<or> tc_timer ?c \<noteq> 0 \<or> ?st = UIP_CLOSED"
    | (expired) "?st \<noteq> UIP_TIME_WAIT" "?st \<noteq> UIP_FIN_WAIT_2" "?st \<noteq> UIP_CLOSED" "tc_len ?c \<noteq> 0" "tc_timer ?c = 0"
    by blast
  then have "tcp_effect i s s'"
  proof cases
    case waiting
    have "uip_conns s' = (uip_conns s)[i := ?c\<lparr>tc_timer := tc_timer ?c + 1,
        tc_tcpstateflags := if tc_timer ?c + 1 = UIP_TIME_WAIT_TIMEOUT then UIP_CLOSED else ?st\<rparr>]"
      using timer unfolding if_P [OF waiting] by (auto simp: send_sel upd_conn_def)
    from effect_quiet [OF this] show ?thesis
      using i conns by (simp add: conn_state_def tcp_trans.intros)
  next
    case quiet
    show ?thesis
    proof (cases "conn_state ?c = UIP_ESTABLISHED \<and> tc_len ?c = 0 \<and> ?st \<noteq> UIP_CLOSED")
      case True
      with quiet timer obtain s1 s2 where *: "app s1 = Some s2" "uip_conns s1 = (uip_conns s)[i := ?c]"
          "s' = appsend i s2"
        by (fastforce simp: env bind_eq_Some_conv conn_state_def)
      show ?thesis using True i conns by (intro effect_appsend [OF *]) simp_all
    next
      case False
      with quiet timer have "uip_conns s' = uip_conns s \<or>
          uip_conns s' = (uip_conns s)[i := ?c\<lparr>tc_timer := tc_timer ?c - 1\<rparr>]"
        by (auto simp: send_sel upd_conn_def conn_state_def split: if_splits)
      then show ?thesis
        using effect_none [of s' s] effect_quiet [of s' s i "?c\<lparr>tc_timer := tc_timer ?c - 1\<rparr>"] i conns
        by (auto simp: conn_state_def tcp_trans.stay)
    qed
  next
    case expired
    let ?d = "?c\<lparr>tc_timer := push_bit (if 4 < tc_nrtx ?c then 4 else unat (tc_nrtx ?c)) UIP_RTO,
      tc_nrtx := tc_nrtx ?c + 1\<rparr>"
    show ?thesis
    proof (cases "tc_nrtx ?c = UIP_MAXRTX \<or> (?st = UIP_SYN_SENT \<or> ?st = UIP_SYN_RCVD) \<and> tc_nrtx ?c = UIP_MAXSYNRTX")
      case True
      with expired timer i conns obtain s1 s2 where *: "app s1 = Some s2"
          "uip_conns s1 = (uip_conns s)[i := ?c\<lparr>tc_timer := tc_timer ?c - 1, tc_tcpstateflags := UIP_CLOSED\<rparr>]"
          "uip_conns s' = uip_conns s2"
        by (auto simp: env bind_eq_Some_conv send_sel upd_conn_def)
      show ?thesis using i conns *(3)
        by (intro effect_app [OF *(1,2)]) (simp_all add: conn_state_def tcp_trans.abort)
    next
      case False
      with expired timer i conns obtain t where "tcp_rexmit env i t = Some s'" "uip_conns t = (uip_conns s)[i := ?d]"
        by (auto simp: upd_conn_def)
      with rexmit_effect [OF _ env, of i t s'] i conns show ?thesis
        by (intro effect_rexmit [of s i ?d]) (simp_all add: conn_state_def)
    qed
  qed
  then show ?thesis by (rule effect_cong [OF conns [symmetric] refl])
qed

end

section \<open>One call of uip\_process\<close>

text \<open>
  What one call may do to a connection: one transition of the diagram followed by what the
  application may do, or the passive opening of a slot that was free.
\<close>

definition process_step :: "tcp_conn \<Rightarrow> tcp_conn \<Rightarrow> bool" where
  "process_step c c' \<longleftrightarrow> (\<exists>d. tcp_trans (conn_state c) (conn_state d) \<and> app_step d c') \<or>
     conn_state c \<in> {UIP_CLOSED, UIP_TIME_WAIT} \<and> conn_state c' = UIP_SYN_RCVD"

definition process_table :: "tcp_conn list \<Rightarrow> tcp_conn list \<Rightarrow> bool" where
  "process_table = list_all2 process_step"

lemma app_process: "app_table cs cs' \<Longrightarrow> process_table cs cs'"
  unfolding app_table_def process_table_def
  by (erule list_all2_mono) (auto simp: process_step_def intro: tcp_trans.stay)

lemma same_process: "cs' = cs \<Longrightarrow> process_table cs cs'"
  by (simp add: app_process)

lemma effect_process: "tcp_effect i s s' \<Longrightarrow> process_table (uip_conns s) (uip_conns s')"
  unfolding tcp_effect_def process_table_def list_all2_conv_all_nth process_step_def
  by (metis tcp_trans.stay)

lemma found_listen_conns:
  assumes "found_listen s = Some s'"
  shows "uip_conns s' = uip_conns s \<or>
    (\<exists>i c. alloc_conn (uip_conns s) = Some i \<and> conn_state c = UIP_SYN_RCVD \<and> uip_conns s' = (uip_conns s)[i := c])"
proof (cases "alloc_conn (uip_conns s)")
  case None
  with assms show ?thesis by (auto simp: found_listen_def send_sel)
next
  case (Some i)
  have i: "i < length (uip_conns s)" using alloc_conn_Some(1) [OF Some] .
  have parse: "conn_state c' = conn_state c" if "parse_mss b c = Some c'" for b c c'
    using that by (auto simp: parse_mss_def bind_eq_Some_conv Let_def conn_state_def split: if_splits option.splits)
  from assms Some i obtain c c' b where "parse_mss b c = Some c'" "conn_state c = UIP_SYN_RCVD"
      "uip_conns s' = (uip_conns s)[i := c']"
    by (fastforce simp: found_listen_def bind_eq_Some_conv Let_def send_sel upd_conn_def
        uip_add_rcv_nxt_def conn_state_def)
  with Some parse show ?thesis by metis
qed

lemma found_listen_process: "found_listen s = Some s' \<Longrightarrow> process_table (uip_conns s) (uip_conns s')"
proof -
  assume a: "found_listen s = Some s'"
  show ?thesis
  proof (cases "uip_conns s' = uip_conns s")
    case False
    then obtain i c where i: "alloc_conn (uip_conns s) = Some i" "conn_state c = UIP_SYN_RCVD"
      "uip_conns s' = (uip_conns s)[i := c]" using found_listen_conns [OF a] by blast
    have "conn_state (tconn s i) \<in> {UIP_CLOSED, UIP_TIME_WAIT}"
      using alloc_conn_Some(2) [OF i(1)] by (auto simp: reusable_def conn_state_def)
    then have "process_step (tconn s i) c" using i(2) by (simp add: process_step_def)
    moreover have "process_step d d" for d
      by (auto simp: process_step_def intro: tcp_trans.stay exI [of _ d])
    ultimately show ?thesis
      unfolding i(3) process_table_def list_all2_conv_all_nth
      by (metis length_list_update nth_list_update_eq nth_list_update_neq)
  qed (simp add: same_process)
qed

text \<open>The callback together with the IGMP hook.\<close>

locale uip_hooks = tcp_app app for app :: "'a uip_st_scheme \<Rightarrow> 'a uip_st_scheme option" +
  fixes env :: "'a uip_st_scheme uip_env"
  assumes env_app: "appcall env = app"
    and igmp_conns: "uip_conns (igmp_input env s) = uip_conns s"
begin

lemma udp_send_conns: "udp_send s = Some s' \<Longrightarrow> uip_conns s' = uip_conns s"
  by (auto simp: udp_send_def Let_def send_sel split: if_splits option.splits)

lemma udp_found_process: "udp_found env fl s = Some s' \<Longrightarrow> app_table (uip_conns s) (uip_conns s')"
  using app_conns udp_send_conns by (fastforce simp: udp_found_def env_app bind_eq_Some_conv)

lemma udp_input_process: "udp_input env s = Some s' \<Longrightarrow> app_table (uip_conns s) (uip_conns s')"
  by (auto simp: udp_input_def Let_def bind_eq_Some_conv send_sel split: if_splits option.splits
      dest!: udp_found_process)

lemma udp_event_process: "udp_event env flag j s = Some s' \<Longrightarrow> app_table (uip_conns s) (uip_conns s')"
  using app_conns udp_send_conns
  by (fastforce simp: udp_event_def env_app Let_def bind_eq_Some_conv send_sel split: if_splits)

lemma tcp_input_process:
  assumes "tcp_input env s = Some s'"
  shows "process_table (uip_conns s) (uip_conns s')"
proof (cases "first_idx (tcp_match (uip_buf s)) (uip_conns s)")
  case None
  with assms show ?thesis
    by (auto simp: tcp_input_def Let_def send_sel intro: same_process found_listen_process split: if_splits)
next
  case (Some i)
  then have "i < length (uip_conns s)" by (rule first_idx_SomeD)
  with Some assms show ?thesis
    by (auto simp: tcp_input_def Let_def send_sel intro: same_process
        dest!: found_effect [OF _ env_app] effect_process split: if_splits)
qed

lemma icmp_conns: "uip_conns (icmp_input s) = uip_conns s"
  by (simp add: icmp_input_def Let_def send_lbl_def send_sel)

lemma ip_dispatch_process: "ip_dispatch env s = Some s' \<Longrightarrow> process_table (uip_conns s) (uip_conns s')"
  by (auto simp: ip_dispatch_def Let_def send_sel igmp_conns icmp_conns intro: same_process
      dest: tcp_input_process udp_input_process app_process split: if_splits)

lemma ip_input_process: "ip_input env s = Some s' \<Longrightarrow> process_table (uip_conns s) (uip_conns s')"
  by (auto simp: ip_input_def Let_def send_sel intro: same_process
      dest!: ip_dispatch_process udp_input_process [THEN app_process] split: if_splits)

lemma process_connections:
  assumes "uip_process env flag s = Some s'" and cur: "\<And>i. uip_conn s = Some i \<Longrightarrow> i < length (uip_conns s)"
  shows "process_table (uip_conns s) (uip_conns s')"
proof -
  let ?t = "s\<lparr>uip_appdata := 54, uip_sappdata := 54\<rparr>"
  consider (send) "udp_send s = Some s'" | (ip) "ip_input env ?t = Some s'"
    | (poll) i where "uip_conn s = Some i" "tcp_poll_request env i ?t = Some s'"
    | (timer) i where "uip_conn s = Some i" "tcp_timer env i ?t = Some s'"
    | (udp) j where "udp_event env flag j ?t = Some s'"
    using assms(1) by (auto simp: uip_process_def Let_def split: if_splits option.splits)
  then show ?thesis
  proof cases
    case send
    then show ?thesis by (simp add: udp_send_conns same_process)
  next
    case ip
    from ip_input_process [OF ip] show ?thesis by simp
  next
    case poll
    from effect_process [OF poll_request_effect [OF poll(2) env_app]] cur poll(1) show ?thesis by simp
  next
    case timer
    from effect_process [OF timer_effect [OF timer(2) env_app]] cur timer(1) show ?thesis by simp
  next
    case udp
    from app_process [OF udp_event_process [OF udp]] show ?thesis by simp
  qed
qed

end

end
