(* ===== verification/Xtcp.thy ===== *)
theory Xtcp
  imports Dhcpc Uip_Tcp "HOL-Library.Signed_Division"
begin

text \<open>
  The xtcp server between the stack and its clients: \<^verbatim>\<open>xtcp_server.xc\<close> (the channel protocol and
  the commands of the clients) and \<^verbatim>\<open>uip_xtcp.c\<close> (the callback \<^verbatim>\<open>xtcpd_appcall\<close> that turns events of
  the stack into events of the clients).

  A pointer to an \<^verbatim>\<open>xtcpd_state_t\<close> is a \<open>conn_ref\<close>, the table and the index it lives in. What the
  clients do is a script: the list \<open>polls\<close> holds, for every time the server looks at a channel or waits
  on one, the clock and the token it finds there (\<open>None\<close> when the channel is empty). The server waits
  forever when the script is exhausted; then the operation returns \<open>None\<close>. All it sends
  and receives is appended to \<open>xlog\<close>, with the number of the link.
\<close>

section \<open>Messages on the channels\<close>

datatype xtcp_cmd =
    CMD_LISTEN int xtcp_protocol | CMD_UNLISTEN int | CMD_CONNECT int word4 xtcp_protocol
  | CMD_BIND_LOCAL int | CMD_BIND_REMOTE word4 int | CMD_INIT_SEND | CMD_SET_APPSTATE u32
  | CMD_CLOSE | CMD_ABORT | CMD_SET_POLL_INTERVAL int | CMD_JOIN_GROUP word4 | CMD_LEAVE_GROUP word4
  | CMD_GET_MAC_ADDRESS | CMD_GET_IPCONFIG | CMD_ACK_RECV | CMD_ACK_RECV_MODE | CMD_PAUSE | CMD_UNPAUSE

text \<open>
  What a client sends: the control token that says it is ready for an event, a command with the
  connection it is for, the flag of \<^verbatim>\<open>do_recv\<close>, and the data of \<^verbatim>\<open>xtcpd_send\<close>.
\<close>

datatype client_tok = TokEnd | TokCmd xtcp_cmd int | TokReady bool | TokData "u8 list"

datatype xmsg =
    InEnd | InCmd xtcp_cmd int | InReady bool | InData "u8 list"
  | OutCt | OutEvent xtcp_connection | OutRecv "u8 list" | OutMac "u8 list" | OutIpconfig "u8 list"

record listener_info =
  li_active :: bool
  li_port_number :: int
  li_linknum :: int

record xtcp_st = dhcp_st +
  xtcp_num :: nat
  guid :: int
  tcp_listeners :: "listener_info list"
  udp_listeners :: "listener_info list"
  prev_ifstate :: "int list"
  uip_ifstate :: int
  notified :: "bool list"
  pending_event :: "xtcp_event option list"
  dummy_conn :: xtcp_connection
  cfg_igmp :: bool
  rands :: "nat list"
  clock :: u32
  polls :: "(u32 \<times> client_tok option) list"
  xlog :: "(nat \<times> xmsg) list"

abbreviation (input) "MAX_GUID \<equiv> 200 :: int"

definition emit :: "nat \<Rightarrow> xmsg \<Rightarrow> 'a xtcp_st_scheme \<Rightarrow> 'a xtcp_st_scheme" where
  "emit i m s = s\<lparr>xlog := xlog s @ [(i, m)]\<rparr>"

text \<open>The next thing the server finds on a channel.\<close>

definition poll_link :: "'a xtcp_st_scheme \<Rightarrow> ('a xtcp_st_scheme \<times> client_tok option) option" where
  "poll_link s = (case polls s of [] \<Rightarrow> None
     | (t, tok) # ps \<Rightarrow> Some (s\<lparr>clock := t, polls := ps\<rparr>, tok))"

section \<open>The state of a connection\<close>

definition xstate :: "conn_ref \<Rightarrow> 'a uip_st_scheme \<Rightarrow> xtcpd_state" where
  "xstate r s = (case r of TcpRef i \<Rightarrow> tc_appstate (tconn s i) | UdpRef j \<Rightarrow> uc_appstate (uconn s j)
     | NullRef \<Rightarrow> zero_xtcpd_state)"

definition upd_xstate :: "conn_ref \<Rightarrow> (xtcpd_state \<Rightarrow> xtcpd_state) \<Rightarrow> 'a uip_st_scheme \<Rightarrow> 'a uip_st_scheme" where
  "upd_xstate r f s = (case r of TcpRef i \<Rightarrow> upd_conn i (\<lambda>c. c\<lparr>tc_appstate := f (tc_appstate c)\<rparr>) s
     | UdpRef j \<Rightarrow> upd_udp j (\<lambda>c. c\<lparr>uc_appstate := f (uc_appstate c)\<rparr>) s
     | NullRef \<Rightarrow> s)"

abbreviation upd_xs :: "conn_ref \<Rightarrow> (xtcp_server_state \<Rightarrow> xtcp_server_state) \<Rightarrow> 'a uip_st_scheme \<Rightarrow> 'a uip_st_scheme" where
  "upd_xs r f \<equiv> upd_xstate r (\<lambda>x. x\<lparr>xd_s := f (xd_s x)\<rparr>)"

abbreviation upd_xc :: "conn_ref \<Rightarrow> (xtcp_connection \<Rightarrow> xtcp_connection) \<Rightarrow> 'a uip_st_scheme \<Rightarrow> 'a uip_st_scheme" where
  "upd_xc r f \<equiv> upd_xstate r (\<lambda>x. x\<lparr>xd_conn := f (xd_conn x)\<rparr>)"

text \<open>The order in which \<^verbatim>\<open>lookup_xtcpd_state\<close> looks at the two tables.\<close>

definition conn_refs :: "'a uip_st_scheme \<Rightarrow> conn_ref list" where
  "conn_refs s = concat (map (\<lambda>i. (if i < length (uip_conns s) then [TcpRef i] else []) @
       (if i < length (uip_udp_conns s) then [UdpRef i] else []))
     [0..<max (length (uip_conns s)) (length (uip_udp_conns s))])"

definition lookup_xtcpd_state :: "int \<Rightarrow> 'a uip_st_scheme \<Rightarrow> conn_ref option" where
  "lookup_xtcpd_state conn_id s = List.find (\<lambda>r. xc_id (xd_conn (xstate r s)) = conn_id) (conn_refs s)"

definition on_conn :: "int \<Rightarrow> (conn_ref \<Rightarrow> 'a uip_st_scheme \<Rightarrow> 'a uip_st_scheme) \<Rightarrow> 'a uip_st_scheme \<Rightarrow> 'a uip_st_scheme" where
  "on_conn conn_id f s = (case lookup_xtcpd_state conn_id s of None \<Rightarrow> s | Some r \<Rightarrow> f r s)"

section \<open>Listeners\<close>

definition get_listener_linknum :: "listener_info list \<Rightarrow> int \<Rightarrow> int" where
  "get_listener_linknum ls port =
     (case List.find (\<lambda>l. li_active l \<and> port = li_port_number l) ls of None \<Rightarrow> -1 | Some l \<Rightarrow> li_linknum l)"

text \<open>\<^verbatim>\<open>HTONS (port)\<close> of an \<^verbatim>\<open>int\<close>, as a port of the stack and as a value of type \<^verbatim>\<open>int\<close>.\<close>

definition net_port :: "int \<Rightarrow> u16" where
  "net_port p = htons (of_int p)"

definition unregister_listener :: "int \<Rightarrow> int \<Rightarrow> listener_info list \<Rightarrow> listener_info list" where
  "unregister_listener linknum port =
     map (\<lambda>l. if li_port_number l = uint (net_port port) \<and> li_active l then l\<lparr>li_active := False\<rparr> else l)"

definition register_listener :: "int \<Rightarrow> int \<Rightarrow> listener_info list \<Rightarrow> listener_info list" where
  "register_listener linknum port ls = (case first_idx (\<lambda>l. \<not> li_active l) ls of None \<Rightarrow> ls
     | Some i \<Rightarrow> ls[i := (ls ! i)\<lparr>li_active := True, li_port_number := uint (net_port port), li_linknum := linknum\<rparr>])"

definition xtcpd_unlisten :: "int \<Rightarrow> int \<Rightarrow> 'a xtcp_st_scheme \<Rightarrow> 'a xtcp_st_scheme" where
  "xtcpd_unlisten linknum port s =
     uip_unlisten (net_port port) (s\<lparr>tcp_listeners := unregister_listener linknum port (tcp_listeners s)\<rparr>)"

definition xtcpd_listen :: "int \<Rightarrow> int \<Rightarrow> xtcp_protocol \<Rightarrow> 'a xtcp_st_scheme \<Rightarrow> 'a xtcp_st_scheme" where
  "xtcpd_listen linknum port p s =
     (if p = XTCP_PROTOCOL_TCP
      then uip_listen (net_port port) (s\<lparr>tcp_listeners := register_listener linknum port (tcp_listeners s)\<rparr>)
      else uip_udp_listen (net_port port) (s\<lparr>udp_listeners := register_listener linknum port (udp_listeners s)\<rparr>))"

section \<open>Commands\<close>

text \<open>
  \<^verbatim>\<open>xtcpd_bind_local\<close> and \<^verbatim>\<open>xtcpd_bind_remote\<close> use the result of the lookup without a test: a connection
  identifier that is not in use is a null pointer access, \<open>None\<close>. The stack's connection is
  found through \<^verbatim>\<open>s.uip_conn\<close>.
\<close>

definition xtcpd_bind_local :: "int \<Rightarrow> int \<Rightarrow> 'a uip_st_scheme \<Rightarrow> 'a uip_st_scheme option" where
  "xtcpd_bind_local conn_id port s = (case lookup_xtcpd_state conn_id s of None \<Rightarrow> None
     | Some r \<Rightarrow>
         (let s = upd_xc r (\<lambda>c. c\<lparr>xc_local_port := of_int port\<rparr>) s in
          case xs_uip_conn (xd_s (xstate r s)) of
            NullRef \<Rightarrow> None
          | TcpRef i \<Rightarrow> Some (upd_conn i (\<lambda>c. c\<lparr>tc_lport := net_port port\<rparr>) s)
          | UdpRef j \<Rightarrow> Some (upd_udp j (\<lambda>c. c\<lparr>uc_lport := net_port port\<rparr>) s)))"

definition xtcpd_bind_remote :: "int \<Rightarrow> word4 \<Rightarrow> int \<Rightarrow> 'a uip_st_scheme \<Rightarrow> 'a uip_st_scheme option" where
  "xtcpd_bind_remote conn_id addr port s = (case lookup_xtcpd_state conn_id s of None \<Rightarrow> None
     | Some r \<Rightarrow>
         (if xc_protocol (xd_conn (xstate r s)) = XTCP_PROTOCOL_UDP then
            (let s = upd_xc r (\<lambda>c. c\<lparr>xc_remote_port := of_int port\<rparr>) s in
             case xs_uip_conn (xd_s (xstate r s)) of
               UdpRef j \<Rightarrow>
                 (let s = upd_udp j (\<lambda>c. c\<lparr>uc_rport := net_port port\<rparr>) s;
                      s = upd_xc r (\<lambda>c. c\<lparr>xc_remote_addr := addr\<rparr>) s
                  in case addr of (a0, a1, a2, a3) \<Rightarrow>
                    Some (upd_udp j (\<lambda>c. c\<lparr>uc_ripaddr := (le16 a0 a1, le16 a2 a3)\<rparr>) s))
             | _ \<Rightarrow> None)
          else Some s))"

definition xtcpd_connect :: "int \<Rightarrow> int \<Rightarrow> word4 \<Rightarrow> xtcp_protocol \<Rightarrow> 'a uip_st_scheme \<Rightarrow> 'a uip_st_scheme option" where
  "xtcpd_connect linknum port addr p s =
     (case addr of (a0, a1, a2, a3) \<Rightarrow>
       (let uipaddr = mk_ipaddr a0 a1 a2 a3;
            mark = (\<lambda>r. upd_xstate r (\<lambda>x. x\<lparr>xd_linknum := linknum, xd_s := (xd_s x)\<lparr>xs_connect_request := True\<rparr>,
              xd_conn := (xd_conn x)\<lparr>xc_connection_type := XTCP_CLIENT_CONNECTION\<rparr>\<rparr>))
        in if p = XTCP_PROTOCOL_TCP
           then map_option (\<lambda>(s, conn). case conn of None \<Rightarrow> s | Some i \<Rightarrow> mark (TcpRef i) s)
             (uip_connect uipaddr (net_port port) s)
           else map_option (\<lambda>(s, conn). case conn of None \<Rightarrow> s | Some j \<Rightarrow> mark (UdpRef j) s)
             (uip_udp_new (Some uipaddr) (net_port port) s)))"

definition xtcpd_init_send :: "int \<Rightarrow> 'a uip_st_scheme \<Rightarrow> 'a uip_st_scheme" where
  "xtcpd_init_send conn_id = on_conn conn_id (\<lambda>r. upd_xs r (\<lambda>x. x\<lparr>xs_send_request := xs_send_request x + 1\<rparr>))"

definition xtcpd_init_send_from_uip :: "nat \<Rightarrow> 'a uip_st_scheme \<Rightarrow> 'a uip_st_scheme" where
  "xtcpd_init_send_from_uip i = upd_xs (TcpRef i) (\<lambda>x. x\<lparr>xs_send_request := xs_send_request x + 1\<rparr>)"

definition xtcpd_set_appstate :: "int \<Rightarrow> u32 \<Rightarrow> 'a uip_st_scheme \<Rightarrow> 'a uip_st_scheme" where
  "xtcpd_set_appstate conn_id v = on_conn conn_id (\<lambda>r. upd_xc r (\<lambda>c. c\<lparr>xc_appstate := v\<rparr>))"

definition xtcpd_abort :: "int \<Rightarrow> 'a uip_st_scheme \<Rightarrow> 'a uip_st_scheme" where
  "xtcpd_abort conn_id = on_conn conn_id (\<lambda>r. upd_xs r (\<lambda>x. x\<lparr>xs_abort_request := True\<rparr>))"

definition xtcpd_close :: "int \<Rightarrow> 'a uip_st_scheme \<Rightarrow> 'a uip_st_scheme" where
  "xtcpd_close conn_id = on_conn conn_id (\<lambda>r. upd_xs r (\<lambda>x. x\<lparr>xs_close_request := True\<rparr>))"

definition xtcpd_ack_recv_mode :: "int \<Rightarrow> 'a uip_st_scheme \<Rightarrow> 'a uip_st_scheme" where
  "xtcpd_ack_recv_mode conn_id = on_conn conn_id (\<lambda>r. upd_xs r (\<lambda>x. x\<lparr>xs_ack_recv_mode := True\<rparr>))"

text \<open>
  The byte at the offset of \<^verbatim>\<open>tcpstateflags\<close>, changed through a pointer of type
  \<^verbatim>\<open>struct uip_conn *\<close>. In a UDP connection this offset, 25, is the second byte of
  \<^verbatim>\<open>appstate.conn.connection_type\<close>.
\<close>

definition upd_stateflags :: "(u8 \<Rightarrow> u8) \<Rightarrow> conn_ref \<Rightarrow> 'a uip_st_scheme \<Rightarrow> 'a uip_st_scheme" where
  "upd_stateflags f r s = (case r of
     TcpRef i \<Rightarrow> upd_conn i (\<lambda>c. c\<lparr>tc_tcpstateflags := f (tc_tcpstateflags c)\<rparr>) s
   | UdpRef j \<Rightarrow> upd_xc (UdpRef j) (\<lambda>c. c\<lparr>xc_connection_type :=
       (xc_connection_type c AND NOT 0xff00) OR push_bit 8 (ucast (f (ucast (drop_bit 8 (xc_connection_type c)))))\<rparr>) s
   | NullRef \<Rightarrow> s)"

definition xtcpd_pause :: "int \<Rightarrow> 'a uip_st_scheme \<Rightarrow> 'a uip_st_scheme" where
  "xtcpd_pause conn_id = on_conn conn_id (\<lambda>r s. upd_stateflags (\<lambda>f. f OR UIP_STOPPED) (xs_uip_conn (xd_s (xstate r s))) s)"

definition xtcpd_unpause :: "int \<Rightarrow> 'a uip_st_scheme \<Rightarrow> 'a uip_st_scheme" where
  "xtcpd_unpause conn_id = on_conn conn_id (\<lambda>r s. upd_xs r (\<lambda>x. x\<lparr>xs_ack_request := True\<rparr>)
     (upd_stateflags (\<lambda>f. f AND NOT UIP_STOPPED) (xs_uip_conn (xd_s (xstate r s))) s))"

definition xtcpd_ack_recv :: "int \<Rightarrow> 'a uip_st_scheme \<Rightarrow> 'a uip_st_scheme" where
  "xtcpd_ack_recv conn_id = on_conn conn_id (\<lambda>r s. upd_xs r (\<lambda>x. x\<lparr>xs_ack_request := True\<rparr>)
     (upd_stateflags (\<lambda>f. f AND NOT UIP_STOPPED) (xs_uip_conn (xd_s (xstate r s))) s))"

text \<open>\<^verbatim>\<open>poll_interval * CLOCK_SECOND / 1000\<close> in 32-bit signed arithmetic.\<close>

definition poll_ticks :: "int \<Rightarrow> u32" where
  "poll_ticks p = of_int (sint (of_int (p * 1000) :: u32) sdiv 1000)"

definition xtcpd_set_poll_interval :: "int \<Rightarrow> int \<Rightarrow> 'a xtcp_st_scheme \<Rightarrow> 'a xtcp_st_scheme" where
  "xtcpd_set_poll_interval conn_id p s = (case lookup_xtcpd_state conn_id s of None \<Rightarrow> s
     | Some r \<Rightarrow>
         (if xc_protocol (xd_conn (xstate r s)) = XTCP_PROTOCOL_UDP
          then upd_xs r (\<lambda>x. x\<lparr>xs_poll_interval := p, xs_tmr := timer_set (clock s) (poll_ticks p)\<rparr>) s
          else s))"

definition xtcpd_join_group :: "word4 \<Rightarrow> 'a xtcp_st_scheme \<Rightarrow> 'a xtcp_st_scheme" where
  "xtcpd_join_group addr s = (case addr of (a0, a1, a2, a3) \<Rightarrow>
     if cfg_igmp s then igmp_join_group (mk_ipaddr a0 a1 a2 a3) s else s)"

definition xtcpd_leave_group :: "word4 \<Rightarrow> 'a xtcp_st_scheme \<Rightarrow> 'a xtcp_st_scheme" where
  "xtcpd_leave_group addr s = (case addr of (a0, a1, a2, a3) \<Rightarrow>
     if cfg_igmp s then igmp_leave_group (mk_ipaddr a0 a1 a2 a3) s else s)"

definition xtcpd_get_mac_address :: "'a uip_st_scheme \<Rightarrow> u8 list" where
  "xtcpd_get_mac_address s = take 6 (uip_ethaddr s)"

definition ip_octets :: "ipaddr \<Rightarrow> u8 list" where
  "ip_octets a = [lo8 (fst a), hi8 (fst a), lo8 (snd a), hi8 (snd a)]"

definition xtcpd_get_ipconfig :: "'a uip_st_scheme \<Rightarrow> u8 list" where
  "xtcpd_get_ipconfig s = ip_octets (uip_hostaddr s) @ ip_octets (uip_netmask s) @ ip_octets (uip_draddr s)"

definition handle_xtcp_cmd :: "nat \<Rightarrow> xtcp_cmd \<Rightarrow> int \<Rightarrow> 'a xtcp_st_scheme \<Rightarrow> 'a xtcp_st_scheme option" where
  "handle_xtcp_cmd i cmd conn_id s = (case cmd of
     CMD_LISTEN port p \<Rightarrow> Some (xtcpd_listen (int i) port p s)
   | CMD_UNLISTEN port \<Rightarrow> Some (xtcpd_unlisten (int i) port s)
   | CMD_CONNECT port addr p \<Rightarrow> xtcpd_connect (int i) port addr p s
   | CMD_BIND_REMOTE addr port \<Rightarrow> xtcpd_bind_remote conn_id addr port s
   | CMD_BIND_LOCAL port \<Rightarrow> xtcpd_bind_local conn_id port s
   | CMD_INIT_SEND \<Rightarrow> Some (xtcpd_init_send conn_id s)
   | CMD_SET_APPSTATE v \<Rightarrow> Some (xtcpd_set_appstate conn_id v s)
   | CMD_ABORT \<Rightarrow> Some (xtcpd_abort conn_id s)
   | CMD_CLOSE \<Rightarrow> Some (xtcpd_close conn_id s)
   | CMD_SET_POLL_INTERVAL p \<Rightarrow> Some (xtcpd_set_poll_interval conn_id p s)
   | CMD_JOIN_GROUP addr \<Rightarrow> Some (xtcpd_join_group addr s)
   | CMD_LEAVE_GROUP addr \<Rightarrow> Some (xtcpd_leave_group addr s)
   | CMD_GET_MAC_ADDRESS \<Rightarrow> Some (emit i (OutMac (xtcpd_get_mac_address s)) s)
   | CMD_GET_IPCONFIG \<Rightarrow> Some (emit i (OutIpconfig (xtcpd_get_ipconfig s)) s)
   | CMD_ACK_RECV \<Rightarrow> Some (xtcpd_ack_recv conn_id s)
   | CMD_ACK_RECV_MODE \<Rightarrow> Some (xtcpd_ack_recv_mode conn_id s)
   | CMD_PAUSE \<Rightarrow> Some (xtcpd_pause conn_id s)
   | CMD_UNPAUSE \<Rightarrow> Some (xtcpd_unpause conn_id s))"

section \<open>Serving the clients\<close>

definition set_notified :: "nat \<Rightarrow> bool \<Rightarrow> 'a xtcp_st_scheme \<Rightarrow> 'a xtcp_st_scheme" where
  "set_notified i v s = s\<lparr>notified := (notified s)[i := v]\<rparr>"

text \<open>The pending event of a link that is ready; the waiting link is notified again.\<close>

definition deliver_pending :: "nat \<Rightarrow> int \<Rightarrow> xtcp_event \<Rightarrow> 'a xtcp_st_scheme \<Rightarrow> 'a xtcp_st_scheme" where
  "deliver_pending i waiting_link ev s =
     (let s = s\<lparr>dummy_conn := (dummy_conn s)\<lparr>xc_event := ev\<rparr>\<rparr>;
          s = emit i (OutEvent (dummy_conn s)) s;
          s = s\<lparr>pending_event := (pending_event s)[i := None]\<rparr>
      in if int i = waiting_link then set_notified i True (emit i OutCt s) else s)"

text \<open>
  \<^verbatim>\<open>xtcpd_service_client0\<close>: the result is the activity. The waiting link is an \<^verbatim>\<open>int\<close>, minus one when
  nobody waits. A token other than the control token \<^verbatim>\<open>END\<close> starts a command.
\<close>

definition xtcpd_service_client0 :: "nat \<Rightarrow> int \<Rightarrow> 'a xtcp_st_scheme \<Rightarrow> ('a xtcp_st_scheme \<times> bool) option" where
  "xtcpd_service_client0 i waiting_link s0 = do {
     (s, tok) \<leftarrow> poll_link s0;
     case tok of
       None \<Rightarrow> Some (s, False)
     | Some TokEnd \<Rightarrow>
         (let s = set_notified i False (emit i InEnd s) in
          case pending_event s ! i of
            None \<Rightarrow> Some (s, True)
          | Some ev \<Rightarrow> Some (deliver_pending i waiting_link ev s, True))
     | Some (TokCmd cmd conn_id) \<Rightarrow>
         (let s = emit i OutCt s;
              s = (if \<not> notified s ! i then emit i OutCt s else s);
              s = emit i OutCt (emit i (InCmd cmd conn_id) s)
          in do {
            s \<leftarrow> handle_xtcp_cmd i cmd conn_id s;
            Some (if notified s ! i then emit i OutCt s else s, True)
          })
     | _ \<Rightarrow> None
   }"

text \<open>One sweep over the links from \<open>i\<close> on.\<close>

fun service_sweep :: "nat \<Rightarrow> nat \<Rightarrow> int \<Rightarrow> 'a xtcp_st_scheme \<Rightarrow> ('a xtcp_st_scheme \<times> bool) option" where
  "service_sweep i 0 w s = Some (s, False)"
| "service_sweep i (Suc n) w s = do {
     (s, a) \<leftarrow> xtcpd_service_client0 i w s;
     (s, b) \<leftarrow> service_sweep (i + 1) n w s;
     Some (s, a \<or> b)
   }"

partial_function (option) xtcpd_service_clients :: "'a xtcp_st_scheme \<Rightarrow> 'a xtcp_st_scheme option" where
  "xtcpd_service_clients s = do {
     (s, activity) \<leftarrow> service_sweep 0 (xtcp_num s) (-1) s;
     if activity then xtcpd_service_clients s else Some s
   }"

partial_function (option) until_ready_loop :: "nat \<Rightarrow> 'a xtcp_st_scheme \<Rightarrow> 'a xtcp_st_scheme option" where
  "until_ready_loop w s =
     (if notified s ! w then do {
        (s, activity) \<leftarrow> service_sweep 0 (xtcp_num s) (int w) s;
        until_ready_loop w s
      } else Some s)"

declare until_ready_loop.simps [code]

definition xtcpd_service_clients_until_ready :: "int \<Rightarrow> 'a xtcp_st_scheme \<Rightarrow> 'a xtcp_st_scheme option" where
  "xtcpd_service_clients_until_ready w s =
     until_ready_loop (nat w) (if notified s ! nat w then s else set_notified (nat w) True (emit (nat w) OutCt s))"

definition xtcpd_send_event :: "nat \<Rightarrow> xtcp_event \<Rightarrow> conn_ref \<Rightarrow> 'a xtcp_st_scheme \<Rightarrow> 'a xtcp_st_scheme" where
  "xtcpd_send_event link ev r s =
     (let s = upd_xc r (\<lambda>c. c\<lparr>xc_event := ev\<rparr>) s in emit link (OutEvent (xd_conn (xstate r s))) s)"

text \<open>The loop of \<^verbatim>\<open>xtcpd_recv\<close>: the event is repeated until the client takes the data.\<close>

partial_function (option) recv_loop :: "nat \<Rightarrow> conn_ref \<Rightarrow> nat \<Rightarrow> nat \<Rightarrow> 'a xtcp_st_scheme \<Rightarrow> 'a xtcp_st_scheme option" where
  "recv_loop link r data len s = do {
     (s, tok) \<leftarrow> poll_link (xtcpd_send_event link XTCP_RECV_DATA r s);
     case tok of
       Some (TokReady ready) \<Rightarrow>
         (let s = emit link (InReady ready) s in
          if ready then Some (emit link (OutRecv (rds (uip_buf s) data len)) s)
          else do {
            s \<leftarrow> xtcpd_service_clients_until_ready (int link) s;
            recv_loop link r data len s
          })
     | _ \<Rightarrow> None
   }"

definition xtcpd_recv :: "nat \<Rightarrow> conn_ref \<Rightarrow> nat \<Rightarrow> nat \<Rightarrow> 'a xtcp_st_scheme \<Rightarrow> 'a xtcp_st_scheme option" where
  "xtcpd_recv link r data len s = map_option (emit link OutCt) (recv_loop link r data len s)"

definition xtcpd_send :: "nat \<Rightarrow> xtcp_event \<Rightarrow> conn_ref \<Rightarrow> nat \<Rightarrow> u32 \<Rightarrow> 'a xtcp_st_scheme \<Rightarrow> ('a xtcp_st_scheme \<times> int) option" where
  "xtcpd_send link ev r dst mss s = do {
     (s, tok) \<leftarrow> poll_link (xtcpd_send_event link ev r (upd_xc r (\<lambda>c. c\<lparr>xc_mss := mss\<rparr>) s));
     case tok of
       Some (TokData bs) \<Rightarrow>
         Some ((emit link (InData bs) s)\<lparr>uip_buf := wrs dst bs (uip_buf s)\<rparr>, int (length bs))
     | _ \<Rightarrow> None
   }"

definition xtcpd_server_init :: "'a xtcp_st_scheme \<Rightarrow> 'a xtcp_st_scheme" where
  "xtcpd_server_init s = s\<lparr>notified := map (\<lambda>_. False) (notified s),
     pending_event := map (\<lambda>_. None) (pending_event s)\<rparr>"

definition xtcpd_queue_event :: "nat \<Rightarrow> xtcp_event \<Rightarrow> 'a xtcp_st_scheme \<Rightarrow> 'a xtcp_st_scheme" where
  "xtcpd_queue_event i ev s =
     (let s = s\<lparr>pending_event := (pending_event s)[i := Some ev]\<rparr>
      in if \<not> notified s ! i then set_notified i True (emit i OutCt s) else s)"

section \<open>The callback of the stack\<close>

definition xtcpd_init_state ::
  "conn_ref \<Rightarrow> xtcp_protocol \<Rightarrow> ipaddr \<Rightarrow> u16 \<Rightarrow> u16 \<Rightarrow> 'a xtcp_st_scheme \<Rightarrow> 'a xtcp_st_scheme option" where
  "xtcpd_init_state r protocol remote_addr local_port remote_port s =
     (let x = xstate r s;
          connect_request = xs_connect_request (xd_s x);
          ls = (if protocol = XTCP_PROTOCOL_TCP then tcp_listeners s else udp_listeners s);
          linknum = (if connect_request then xd_linknum x else get_listener_linknum ls (uint local_port));
          connection_type = (if connect_request then xc_connection_type (xd_conn x) else XTCP_SERVER_CONNECTION);
          s = upd_xstate r (\<lambda>_. zero_xtcpd_state) s
      in do {
        g \<leftarrow> until_free (\<lambda>g. lookup_xtcpd_state g s \<noteq> None) (\<lambda>g. if MAX_GUID < g + 1 then 1 else g + 1) (guid s);
        let s = s\<lparr>guid := g\<rparr>;
        Some (upd_xstate r (\<lambda>x. x\<lparr>xd_linknum := linknum,
            xd_conn := (xd_conn x)\<lparr>xc_connection_type := connection_type, xc_id := g,
              xc_local_port := ucast (htons local_port), xc_remote_port := ucast (htons remote_port),
              xc_protocol := protocol, xc_remote_addr := (lo8 (fst remote_addr), hi8 (fst remote_addr),
                lo8 (snd remote_addr), hi8 (snd remote_addr))\<rparr>,
            xd_s := (xd_s x)\<lparr>xs_uip_conn := r\<rparr>\<rparr>) s)
      })"

definition xtcpd_event :: "xtcp_event \<Rightarrow> conn_ref \<Rightarrow> 'a xtcp_st_scheme \<Rightarrow> 'a xtcp_st_scheme option" where
  "xtcpd_event ev r s =
     (if xd_linknum (xstate r s) \<noteq> -1 then do {
        s \<leftarrow> xtcpd_service_clients_until_ready (xd_linknum (xstate r s)) s;
        Some (xtcpd_send_event (nat (xd_linknum (xstate r s))) ev r s)
      } else Some s)"

definition do_xtcpd_send ::
  "nat \<Rightarrow> xtcp_event \<Rightarrow> conn_ref \<Rightarrow> nat \<Rightarrow> u32 \<Rightarrow> 'a xtcp_st_scheme \<Rightarrow> ('a xtcp_st_scheme \<times> int) option" where
  "do_xtcpd_send c ev r data mss s = do {
     s \<leftarrow> xtcpd_service_clients_until_ready (xd_linknum (xstate r s)) s;
     xtcpd_send c ev r data mss s
   }"

text \<open>\<^verbatim>\<open>uip_udpconnection () ? XTCP_CLIENT_BUF_SIZE : uip_mss ()\<close>.\<close>

definition send_limit :: "'a uip_st_scheme \<Rightarrow> u32" where
  "send_limit s = (case uip_conn s of None \<Rightarrow> 1472 | Some i \<Rightarrow> ucast (tc_mss (tconn s i)))"

definition ask_data :: "xtcp_event \<Rightarrow> conn_ref \<Rightarrow> 'a xtcp_st_scheme \<Rightarrow> 'a xtcp_st_scheme option" where
  "ask_data ev r s =
     (if xd_linknum (xstate r s) \<noteq> -1 then do {
        (s, len) \<leftarrow> do_xtcpd_send (nat (xd_linknum (xstate r s))) ev r (uip_appdata s) (send_limit s) s;
        Some (uip_send (uip_appdata s) len s)
      } else Some s)"

definition uip_xtcpd_handle_poll :: "conn_ref \<Rightarrow> 'a xtcp_st_scheme \<Rightarrow> 'a xtcp_st_scheme option" where
  "uip_xtcpd_handle_poll r s0 =
     (let s = (if xs_ack_request (xd_s (xstate r s0))
               then upd_xs r (\<lambda>x. x\<lparr>xs_ack_request := False\<rparr>) (s0\<lparr>uip_flags := uip_flags s0 OR UIP_NEWDATA, uip_slen := 0\<rparr>)
               else s0);
          x = xd_s (xstate r s);
          shut = (\<lambda>flag. if uip_udpconnection s
            then (case uip_udp_conn s of None \<Rightarrow> None
              | Some j \<Rightarrow> xtcpd_event XTCP_CLOSED r (upd_udp j (\<lambda>c. c\<lparr>uc_lport := 0\<rparr>) s))
            else Some (s\<lparr>uip_flags := flag\<rparr>))
      in
      if xs_abort_request x then map_option (upd_xs r (\<lambda>x. x\<lparr>xs_abort_request := False\<rparr>)) (shut UIP_ABORT)
      else if xs_close_request x then map_option (upd_xs r (\<lambda>x. x\<lparr>xs_close_request := False\<rparr>)) (shut UIP_CLOSE)
      else if xs_connect_request x then
        (if uip_udpconnection s then
           (case uip_udp_conn s of None \<Rightarrow> None
            | Some j \<Rightarrow> do {
                s \<leftarrow> xtcpd_init_state r XTCP_PROTOCOL_UDP (uc_ripaddr (uconn s j)) (uc_lport (uconn s j)) (uc_rport (uconn s j)) s;
                s \<leftarrow> xtcpd_event XTCP_NEW_CONNECTION r s;
                Some (upd_xs r (\<lambda>x. x\<lparr>xs_connect_request := False\<rparr>) s)
              })
         else Some s)
      else if xs_send_request x \<noteq> 0 then
        map_option (upd_xs r (\<lambda>x. x\<lparr>xs_send_request := xs_send_request x - 1\<rparr>)) (ask_data XTCP_REQUEST_DATA r s)
      else if xs_poll_interval x \<noteq> 0 \<and> timer_expired (clock s) (xs_tmr x) then do {
        s \<leftarrow> xtcpd_event XTCP_POLL r s;
        Some (upd_xs r (\<lambda>x. x\<lparr>xs_tmr := timer_set (clock s) (of_int (xs_poll_interval x))\<rparr>) s)
      }
      else Some s)"

definition app_flag :: "u32 \<Rightarrow> 'a uip_st_scheme \<Rightarrow> bool" where
  "app_flag f s \<longleftrightarrow> uip_flags s AND f \<noteq> 0"

text \<open>The parts of \<^verbatim>\<open>xtcpd_appcall\<close>, in order. A new connection:\<close>

definition app_connected :: "conn_ref \<Rightarrow> 'a xtcp_st_scheme \<Rightarrow> 'a xtcp_st_scheme option" where
  "app_connected r s =
     (if app_flag UIP_CONNECTED s then do {
        s \<leftarrow> (case (uip_conn s, uip_udp_conn s) of
          (Some i, _) \<Rightarrow> xtcpd_init_state r XTCP_PROTOCOL_TCP (tc_ripaddr (tconn s i)) (tc_lport (tconn s i)) (tc_rport (tconn s i)) s
        | (None, Some j) \<Rightarrow> xtcpd_init_state r XTCP_PROTOCOL_UDP (uc_ripaddr (uconn s j)) (uc_lport (uconn s j)) (uc_rport (uconn s j)) s
        | _ \<Rightarrow> None);
        xtcpd_event XTCP_NEW_CONNECTION r s
      } else Some s)"

text \<open>New data, or the end of the connection; the result says whether the function returns.\<close>

definition app_input :: "conn_ref \<Rightarrow> 'a xtcp_st_scheme \<Rightarrow> ('a xtcp_st_scheme \<times> bool) option" where
  "app_input r s =
     (if app_flag UIP_NEWDATA s \<and> 0 < uip_len s then
        (if xd_linknum (xstate r s) \<noteq> -1 then do {
           s \<leftarrow> xtcpd_service_clients_until_ready (xd_linknum (xstate r s)) s;
           s \<leftarrow> xtcpd_recv (nat (xd_linknum (xstate r s))) r (uip_appdata s) (unat (uip_len s)) s;
           Some (case uip_conn s of
               Some i \<Rightarrow> if xs_ack_recv_mode (xd_s (xstate r s))
                 then upd_conn i (\<lambda>c. c\<lparr>tc_tcpstateflags := tc_tcpstateflags c OR UIP_STOPPED\<rparr>) s else s
             | None \<Rightarrow> s, False)
         } else Some (s, False))
      else if app_flag UIP_ABORT s then map_option (\<lambda>s. (s, True)) (xtcpd_event XTCP_ABORTED r s)
      else if app_flag UIP_TIMEDOUT s then map_option (\<lambda>s. (s, True)) (xtcpd_event XTCP_TIMED_OUT r s)
      else Some (s, False))"

definition app_acked :: "conn_ref \<Rightarrow> 'a xtcp_st_scheme \<Rightarrow> 'a xtcp_st_scheme option" where
  "app_acked r s = (if app_flag UIP_ACKDATA s then ask_data XTCP_SENT_DATA r s else Some s)"

definition app_rexmit :: "conn_ref \<Rightarrow> 'a xtcp_st_scheme \<Rightarrow> 'a xtcp_st_scheme option" where
  "app_rexmit r s =
     (if app_flag UIP_REXMIT s \<and> xd_linknum (xstate r s) \<noteq> -1 then do {
        s \<leftarrow> xtcpd_service_clients_until_ready (xd_linknum (xstate r s)) s;
        (s, len) \<leftarrow> xtcpd_send (nat (xd_linknum (xstate r s))) XTCP_RESEND_DATA r (uip_appdata s) (send_limit s) s;
        Some (if len \<noteq> 0 then uip_send (uip_appdata s) len s else s)
      } else Some s)"

definition app_poll :: "conn_ref \<Rightarrow> 'a xtcp_st_scheme \<Rightarrow> 'a xtcp_st_scheme option" where
  "app_poll r s = (if app_flag UIP_POLL s then uip_xtcpd_handle_poll r s else Some s)"

definition app_closed :: "conn_ref \<Rightarrow> 'a xtcp_st_scheme \<Rightarrow> 'a xtcp_st_scheme option" where
  "app_closed r s =
     (if app_flag UIP_CLOSE s \<and> \<not> xs_closed (xd_s (xstate r s))
      then xtcpd_event XTCP_CLOSED r (upd_xs r (\<lambda>x. x\<lparr>xs_closed := True\<rparr>) s)
      else Some s)"

definition xtcpd_appcall_conn :: "conn_ref \<Rightarrow> 'a xtcp_st_scheme \<Rightarrow> 'a xtcp_st_scheme option" where
  "xtcpd_appcall_conn r s = do {
     s \<leftarrow> app_connected r s;
     (s, done) \<leftarrow> app_input r s;
     if done then Some s else do {
       s \<leftarrow> app_acked r s;
       s \<leftarrow> app_rexmit r s;
       s \<leftarrow> app_poll r s;
       app_closed r s
     }
   }"

text \<open>
  The function itself. UDP packets of the DHCP ports go to the DHCP client; the values of \<^verbatim>\<open>rand\<close> are
  the list \<open>rands\<close>, zero when it is exhausted.
\<close>

definition xtcpd_appcall ::
  "(dhcpc_state \<Rightarrow> 'a xtcp_st_scheme \<Rightarrow> 'a xtcp_st_scheme) \<Rightarrow> 'a xtcp_st_scheme \<Rightarrow> 'a xtcp_st_scheme option" where
  "xtcpd_appcall dhcpc_configured s = (case uip_conn s of
     Some i \<Rightarrow> xtcpd_appcall_conn (TcpRef i) s
   | None \<Rightarrow> (case uip_udp_conn s of None \<Rightarrow> None
     | Some j \<Rightarrow>
         (if uc_lport (uconn s j) = htons 68 \<or> uc_lport (uconn s j) = htons 67
          then Some (handle_dhcp dhcpc_configured (case rands s of [] \<Rightarrow> 0 | v # _ \<Rightarrow> v) (clock s) (s\<lparr>rands := tl (rands s)\<rparr>))
          else
            (let s = (if app_flag UIP_NEWDATA s
                  then upd_xc (UdpRef j) (\<lambda>c. c\<lparr>xc_remote_port := ucast (htons (rd16 (uip_buf s) B_srcport)),
                         xc_remote_addr := rd4 (uip_buf s) B_srcipaddr\<rparr>) s
                  else s)
             in xtcpd_appcall_conn (UdpRef j) s))))"

section \<open>The state of the interface\<close>

definition xtcpd_init :: "nat \<Rightarrow> 'a xtcp_st_scheme \<Rightarrow> 'a xtcp_st_scheme" where
  "xtcpd_init n s = xtcpd_server_init (s\<lparr>xtcp_num := n, prev_ifstate := map (\<lambda>_. -1) (prev_ifstate s)\<rparr>)"

definition uip_xtcpd_send_config :: "nat \<Rightarrow> 'a xtcp_st_scheme \<Rightarrow> 'a xtcp_st_scheme" where
  "uip_xtcpd_send_config i s =
     xtcpd_queue_event i (if uip_ifstate s \<noteq> 0 then XTCP_IFUP else XTCP_IFDOWN) s"

definition checkstate_step :: "nat \<Rightarrow> 'a xtcp_st_scheme \<Rightarrow> 'a xtcp_st_scheme" where
  "checkstate_step i s =
     (if uip_ifstate s \<noteq> prev_ifstate s ! i then
        (let s = uip_xtcpd_send_config i s in s\<lparr>prev_ifstate := (prev_ifstate s)[i := uip_ifstate s]\<rparr>)
      else s)"

definition uip_xtcp_checkstate :: "'a xtcp_st_scheme \<Rightarrow> 'a xtcp_st_scheme" where
  "uip_xtcp_checkstate s = fold checkstate_step [0..<xtcp_num s] s"

definition uip_xtcp_up :: "'a xtcp_st_scheme \<Rightarrow> 'a xtcp_st_scheme" where
  "uip_xtcp_up s = s\<lparr>uip_ifstate := 1\<rparr>"

definition uip_xtcp_down :: "'a xtcp_st_scheme \<Rightarrow> 'a xtcp_st_scheme" where
  "uip_xtcp_down s = s\<lparr>uip_ifstate := 0\<rparr>"

end
