(* ===== verification/Xtcp_App.thy ===== *)
theory Xtcp_App
  imports Xtcp
begin

text \<open>
  What the callback and the commands of the clients leave alone. The loops that serve the clients are
  analysed once, in the locale \<open>client_rel\<close>, for any relation between states that the commands
  respect; its interpretations say that the packet in progress is untouched and that the connection
  table changes only as the stack allows. From the second one follow the laws of the interface
  \<open>tcp_app\<close> of the stack for \<^verbatim>\<open>xtcpd_appcall\<close>.
\<close>

section \<open>Relations that serving the clients respects\<close>

locale client_rel =
  fixes R :: "'a xtcp_st_scheme \<Rightarrow> 'a xtcp_st_scheme \<Rightarrow> bool"
  assumes R_refl: "R s s"
    and R_trans: "R s t \<Longrightarrow> R t u \<Longrightarrow> R s u"
    and R_cmd: "handle_xtcp_cmd i cmd conn_id s = Some s' \<Longrightarrow> R s s'"
    and R_emit: "(\<And>bs. m \<noteq> OutRecv bs) \<Longrightarrow> (\<And>bs. m \<noteq> InData bs) \<Longrightarrow> R s (emit i m s)"
    and R_notified: "R s (s\<lparr>notified := n\<rparr>)"
    and R_pending: "R s (s\<lparr>pending_event := p\<rparr>)"
    and R_dummy: "R s (s\<lparr>dummy_conn := d\<rparr>)"
    and R_poll: "R s (s\<lparr>clock := now, polls := ps\<rparr>)"
    and R_event: "R s (upd_xc r (\<lambda>c. c\<lparr>xc_event := ev\<rparr>) s)"
begin

lemma R_emits: "R s (emit i OutCt s)" "R s (emit i InEnd s)" "R s (emit i (InCmd cmd c) s)" "R s (emit i (OutEvent x) s)"
    "R s (emit i (InReady v) s)"
  by (simp_all add: R_emit)

lemma R_set_notified: "R s (set_notified i v s)" by (simp add: set_notified_def R_notified)

lemma R_poll_link: "poll_link s = Some (s', tok) \<Longrightarrow> R s s'"
  by (auto simp: poll_link_def R_poll split: list.splits prod.splits)

lemma R_end:
  assumes "R s0 s"
  shows "R s0 (set_notified i False (emit i InEnd s))"
  by (rule R_trans [OF R_trans [OF assms R_emits(2)] R_set_notified])

lemma R_deliver: "R s (deliver_pending i w ev s)"
proof -
  let ?v = "s\<lparr>dummy_conn := (dummy_conn s)\<lparr>xc_event := ev\<rparr>\<rparr>"
  let ?y = "emit i (OutEvent (dummy_conn ?v)) ?v"
  let ?x = "?y\<lparr>pending_event := (pending_event ?y)[i := None]\<rparr>"
  have x: "R s ?x" by (rule R_trans [OF R_trans [OF R_dummy R_emits(4)] R_pending])
  have "R s (set_notified i True (emit i OutCt ?x))" by (rule R_trans [OF x R_trans [OF R_emits(1) R_set_notified]])
  with x show ?thesis unfolding deliver_pending_def Let_def by (simp only: split: if_split) simp
qed

lemma R_client0: "xtcpd_service_client0 i w s = Some (s', a) \<Longrightarrow> R s s'"
proof -
  assume run: "xtcpd_service_client0 i w s = Some (s', a)"
  then obtain s1 tok where poll: "poll_link s = Some (s1, tok)"
    by (auto simp: xtcpd_service_client0_def bind_eq_Some_conv)
  have s1: "R s s1" by (rule R_poll_link [OF poll])
  show ?thesis
  proof (cases tok)
    case None
    with run poll s1 show ?thesis by (simp add: xtcpd_service_client0_def)
  next
    case (Some t)
    show ?thesis
    proof (cases t)
      case TokEnd
      let ?u = "set_notified i False (emit i InEnd s1)"
      have u: "R s ?u" by (rule R_end [OF s1])
      show ?thesis
      proof (cases "pending_event ?u ! i")
        case None
        with run poll Some TokEnd u show ?thesis by (simp add: xtcpd_service_client0_def Let_def)
      next
        case (Some ev)
        with run poll \<open>tok = Some t\<close> TokEnd have "s' = deliver_pending i w ev ?u"
          by (simp add: xtcpd_service_client0_def Let_def)
        then show ?thesis using R_trans [OF u R_deliver] by simp
      qed
    next
      case (TokCmd cmd conn_id)
      define u where "u = emit i OutCt s1"
      define v where "v = (if \<not> notified u ! i then emit i OutCt u else u)"
      define x where "x = emit i OutCt (emit i (InCmd cmd conn_id) v)"
      have u: "R s u" unfolding u_def by (rule R_trans [OF s1 R_emits(1)])
      have "R s v" unfolding v_def using u R_trans [OF u R_emits(1)] by simp
      from R_trans [OF R_trans [OF this R_emits(3)] R_emits(1)] have x: "R s x" unfolding x_def .
      from run poll Some TokCmd
      have "Option.bind (handle_xtcp_cmd i cmd conn_id x) (\<lambda>y. Some (if notified y ! i then emit i OutCt y else y, True)) = Some (s', a)"
        unfolding x_def v_def u_def by (simp add: xtcpd_service_client0_def Let_def split del: if_split)
      then obtain y where y: "handle_xtcp_cmd i cmd conn_id x = Some y" "s' = (if notified y ! i then emit i OutCt y else y)"
        by (auto simp: bind_eq_Some_conv)
      from R_trans [OF x R_cmd [OF y(1)]] have "R s y" .
      then show ?thesis using y(2) R_trans [OF _ R_emits(1)] by simp
    qed (use run poll Some in \<open>simp_all add: xtcpd_service_client0_def\<close>)
  qed
qed

lemma R_sweep: "service_sweep i n w s = Some (s', a) \<Longrightarrow> R s s'"
proof (induction n arbitrary: i s a)
  case (Suc n)
  then obtain u b c where "xtcpd_service_client0 i w s = Some (u, b)" "service_sweep (i + 1) n w u = Some (s', c)"
    by (auto simp: bind_eq_Some_conv)
  from R_trans [OF R_client0 [OF this(1)] Suc.IH [OF this(2)]] show ?case .
qed (simp add: R_refl)

lemma R_clients: "xtcpd_service_clients s = Some s' \<Longrightarrow> R s s'"
proof (induction rule: xtcpd_service_clients.raw_induct [rotated, consumes 1])
  case (1 f s s')
  from 1(2) obtain u act where u: "service_sweep 0 (xtcp_num s) (-1) s = Some (u, act)"
    "(if act then f u else Some u) = Some s'" by (auto simp: bind_eq_Some_conv)
  show ?case
  proof (cases act)
    case True
    with u(2) have "f u = Some s'" by simp
    from R_trans [OF R_sweep [OF u(1)] 1(1) [OF this]] show ?thesis .
  next
    case False
    with u R_sweep [OF u(1)] show ?thesis by simp
  qed
qed

lemma R_until_loop: "until_ready_loop w s = Some s' \<Longrightarrow> R s s'"
proof (induction rule: until_ready_loop.raw_induct [rotated, consumes 1])
  case (1 f w s s')
  show ?case
  proof (cases "notified s ! w")
    case True
    with 1(2) obtain u act where u: "service_sweep 0 (xtcp_num s) (int w) s = Some (u, act)" "f w u = Some s'"
      by (auto simp: bind_eq_Some_conv)
    from R_trans [OF R_sweep [OF u(1)] 1(1) [OF u(2)]] show ?thesis .
  next
    case False
    with 1(2) R_refl show ?thesis by simp
  qed
qed

lemma R_until: "xtcpd_service_clients_until_ready w s = Some s' \<Longrightarrow> R s s'"
proof -
  let ?u = "if notified s ! nat w then s else set_notified (nat w) True (emit (nat w) OutCt s)"
  assume "xtcpd_service_clients_until_ready w s = Some s'"
  then have "R ?u s'" by (intro R_until_loop) (simp add: xtcpd_service_clients_until_ready_def)
  moreover have "R s ?u" using R_refl R_trans [OF R_emits(1) R_set_notified] by simp
  ultimately show ?thesis using R_trans by blast
qed

lemma R_send_event: "R s (xtcpd_send_event link ev r s)"
  unfolding xtcpd_send_event_def Let_def by (rule R_trans [OF R_event R_emits(4)])

lemma R_xtcpd_event: "xtcpd_event ev r s = Some s' \<Longrightarrow> R s s'"
proof (cases "xd_linknum (xstate r s) = -1")
  case False
  assume "xtcpd_event ev r s = Some s'"
  with False obtain u where u: "xtcpd_service_clients_until_ready (xd_linknum (xstate r s)) s = Some u"
    "s' = xtcpd_send_event (nat (xd_linknum (xstate r u))) ev r u"
    by (auto simp: xtcpd_event_def bind_eq_Some_conv)
  from R_trans [OF R_until [OF u(1)] R_send_event] show ?thesis unfolding u(2) .
qed (simp add: xtcpd_event_def R_refl)

text \<open>The transfer of received data: it ends with the one message that carries the bytes.\<close>

lemma R_recv_loop:
  "recv_loop link r data len s = Some s' \<Longrightarrow> \<exists>u. R s u \<and> s' = emit link (OutRecv (rds (uip_buf u) data len)) u"
proof (induction rule: recv_loop.raw_induct [rotated, consumes 1])
  case (1 f link r data len s s')
  from 1(2) obtain s1 tok where poll: "poll_link (xtcpd_send_event link XTCP_RECV_DATA r s) = Some (s1, tok)"
    by (auto simp: bind_eq_Some_conv)
  with 1(2) obtain ready where tok: "tok = Some (TokReady ready)"
    by (cases tok) (auto split: client_tok.splits)
  let ?e = "emit link (InReady ready) s1"
  have e: "R s ?e" using R_trans [OF R_trans [OF R_send_event R_poll_link [OF poll]] R_emits(5)] .
  show ?case
  proof (cases ready)
    case True
    with 1(2) poll tok have "s' = emit link (OutRecv (rds (uip_buf ?e) data len)) ?e"
      by (simp add: Let_def)
    with e show ?thesis by blast
  next
    case False
    with 1(2) poll tok obtain s2 where s2: "xtcpd_service_clients_until_ready (int link) ?e = Some s2"
      "f link r data len s2 = Some s'" by (auto simp: bind_eq_Some_conv)
    from R_trans [OF e R_until [OF s2(1)]] 1(1) [OF s2(2)] R_trans show ?thesis by blast
  qed
qed

lemma R_recv:
  assumes "xtcpd_recv link r data len s = Some s'"
  obtains u where "R s u" and "s' = emit link OutCt (emit link (OutRecv (rds (uip_buf u) data len)) u)"
  using assms R_recv_loop that by (auto simp: xtcpd_recv_def) blast

end

section \<open>Relations that the callback respects\<close>

text \<open>
  For the callback, a relation must also allow every change of the xtcp state of a connection, and every
  change that leaves the TCP connections and the messages alone.
\<close>

locale callback_rel = client_rel R for R :: "'a xtcp_st_scheme \<Rightarrow> 'a xtcp_st_scheme \<Rightarrow> bool" +
  assumes R_xstate: "R s (upd_xstate r f s)"
    and R_data: "R s (emit l (InData bs) s)"
    and R_same: "uip_conns s' = uip_conns s \<Longrightarrow> uip_conn s' = uip_conn s \<Longrightarrow> xlog s' = xlog s \<Longrightarrow> R s s'"
begin

lemma R_upd_udp: "R s (upd_udp j f s)" by (rule R_same) (simp_all add: upd_udp_def)

lemma R_uip_send: "R s (uip_send p n s)"
  by (rule R_same) (simp_all add: dhcp_sel uip_send_def Let_def)

lemma R_flags: "R s (s\<lparr>uip_flags := f\<rparr>)" by (rule R_same) simp_all

lemma R_xtcpd_send: "xtcpd_send l ev r d m s = Some (s', n) \<Longrightarrow> R s s'"
proof -
  assume run: "xtcpd_send l ev r d m s = Some (s', n)"
  let ?u = "xtcpd_send_event l ev r (upd_xc r (\<lambda>c. c\<lparr>xc_mss := m\<rparr>) s)"
  from run obtain s1 tok where poll: "poll_link ?u = Some (s1, tok)" by (auto simp: xtcpd_send_def bind_eq_Some_conv)
  with run obtain bs where "tok = Some (TokData bs)" by (cases tok) (auto simp: xtcpd_send_def split: client_tok.splits)
  with run poll have "s' = (emit l (InData bs) s1)\<lparr>uip_buf := wrs d bs (uip_buf s1)\<rparr>" by (simp add: xtcpd_send_def emit_def)
  then have "R (emit l (InData bs) s1) s'" by (intro R_same) simp_all
  with R_data have "R s1 s'" by (rule R_trans)
  with R_trans [OF R_trans [OF R_xstate R_send_event] R_poll_link [OF poll]]
  show ?thesis by (rule R_trans)
qed

lemma R_init_state: "xtcpd_init_state r pr a lp rp s = Some s' \<Longrightarrow> R s s'"
proof -
  assume run: "xtcpd_init_state r pr a lp rp s = Some s'"
  let ?u = "upd_xstate r (\<lambda>_. zero_xtcpd_state) s"
  from run obtain g f where "s' = upd_xstate r f (?u\<lparr>guid := g\<rparr>)"
    by (auto simp: xtcpd_init_state_def Let_def bind_eq_Some_conv)
  moreover have "R ?u (?u\<lparr>guid := g\<rparr>)" by (rule R_same) simp_all
  ultimately show ?thesis using R_trans [OF R_trans [OF R_xstate] R_xstate] by simp
qed

lemma R_ask_data: "ask_data ev r s = Some s' \<Longrightarrow> R s s'"
proof (cases "xd_linknum (xstate r s) = -1")
  case False
  assume "ask_data ev r s = Some s'"
  with False obtain u v n where u: "xtcpd_service_clients_until_ready (xd_linknum (xstate r s)) s = Some u"
    "xtcpd_send (nat (xd_linknum (xstate r s))) ev r (uip_appdata s) (send_limit s) u = Some (v, n)" "s' = uip_send (uip_appdata v) n v"
    by (auto simp: ask_data_def do_xtcpd_send_def bind_eq_Some_conv)
  from R_trans [OF R_trans [OF R_until [OF u(1)] R_xtcpd_send [OF u(2)]] R_uip_send]
  show ?thesis unfolding u(3) .
qed (simp add: ask_data_def R_refl)

lemma R_shut: "xtcpd_event ev r (upd_udp j g s) = Some s' \<Longrightarrow> R s s'"
  using R_trans [OF R_upd_udp R_xtcpd_event] .

lemma R_handle_poll: "uip_xtcpd_handle_poll r s = Some s' \<Longrightarrow> R s s'"
proof -
  define u where "u = (if xs_ack_request (xd_s (xstate r s))
    then upd_xs r (\<lambda>x. x\<lparr>xs_ack_request := False\<rparr>) (s\<lparr>uip_flags := uip_flags s OR UIP_NEWDATA, uip_slen := 0\<rparr>) else s)"
  let ?x = "xd_s (xstate r u)"
  have "R s (s\<lparr>uip_flags := f, uip_slen := 0\<rparr>)" for f by (rule R_same) simp_all
  from R_trans [OF this R_xstate] have su: "R s u" by (simp add: u_def R_refl)
  assume run: "uip_xtcpd_handle_poll r s = Some s'"
  have "R u s'"
  proof (cases "xs_abort_request ?x \<or> xs_close_request ?x")
    case True
    with run show ?thesis
      unfolding uip_xtcpd_handle_poll_def u_def [symmetric] Let_def
      by (auto intro!: R_trans [OF _ R_xstate] R_flags intro: R_shut split: if_splits option.splits)
  next
    case False
    then have ab: "\<not> xs_abort_request ?x" "\<not> xs_close_request ?x" by auto
    show ?thesis
    proof (cases "xs_connect_request ?x")
      case True
      show ?thesis
      proof (cases "uip_udpconnection u")
        case udp: True
        with run True ab obtain j v w where v: "xtcpd_init_state r XTCP_PROTOCOL_UDP (uc_ripaddr (uconn u j)) (uc_lport (uconn u j))
            (uc_rport (uconn u j)) u = Some v" "xtcpd_event XTCP_NEW_CONNECTION r v = Some w"
            "s' = upd_xs r (\<lambda>x. x\<lparr>xs_connect_request := False\<rparr>) w"
          unfolding uip_xtcpd_handle_poll_def u_def [symmetric] Let_def by (auto simp: bind_eq_Some_conv split: option.splits)
        from R_trans [OF R_trans [OF R_init_state [OF v(1)] R_xtcpd_event [OF v(2)]] R_xstate]
        show ?thesis unfolding v(3) .
      next
        case False
        with run True ab have "s' = u" unfolding uip_xtcpd_handle_poll_def u_def [symmetric] Let_def by auto
        then show ?thesis by (simp add: R_refl)
      qed
    next
      case nc: False
      show ?thesis
      proof (cases "xs_send_request ?x = 0")
        case False
        with run ab nc show ?thesis
          unfolding uip_xtcpd_handle_poll_def u_def [symmetric] Let_def by (auto intro!: R_trans [OF _ R_xstate] intro: R_ask_data)
      next
        case True
        show ?thesis
        proof (cases "xs_poll_interval ?x \<noteq> 0 \<and> timer_expired (clock u) (xs_tmr ?x)")
          case p: True
          with run ab nc True obtain v where v: "xtcpd_event XTCP_POLL r u = Some v"
            "s' = upd_xs r (\<lambda>x. x\<lparr>xs_tmr := timer_set (clock v) (of_int (xs_poll_interval x))\<rparr>) v"
            unfolding uip_xtcpd_handle_poll_def u_def [symmetric] Let_def by (auto simp: bind_eq_Some_conv)
          from R_trans [OF R_xtcpd_event [OF v(1)] R_xstate] show ?thesis unfolding v(2) .
        qed (use run ab nc True R_refl in \<open>auto simp add: uip_xtcpd_handle_poll_def u_def [symmetric] Let_def\<close>)
      qed
    qed
  qed
  with su show ?thesis by (rule R_trans)
qed

lemma R_open: "Option.bind (xtcpd_init_state r pr a lp rp s) (xtcpd_event ev r) = Some s' \<Longrightarrow> R s s'"
  using R_trans [OF R_init_state [of r pr a lp rp s] R_xtcpd_event] by (auto simp: bind_eq_Some_conv)

lemma R_connected: "app_connected r s = Some s' \<Longrightarrow> R s s'"
  by (auto simp: app_connected_def R_refl intro: R_open split: if_splits option.splits)

lemma R_rexmit: "app_rexmit r s = Some s' \<Longrightarrow> R s s'"
proof (cases "app_flag UIP_REXMIT s \<and> xd_linknum (xstate r s) \<noteq> -1")
  case True
  assume "app_rexmit r s = Some s'"
  with True obtain u v n where u: "xtcpd_service_clients_until_ready (xd_linknum (xstate r s)) s = Some u"
    "xtcpd_send (nat (xd_linknum (xstate r u))) XTCP_RESEND_DATA r (uip_appdata u) (send_limit u) u = Some (v, n)"
    "s' = (if n \<noteq> 0 then uip_send (uip_appdata v) n v else v)"
    by (auto simp: app_rexmit_def bind_eq_Some_conv)
  from R_trans [OF R_until [OF u(1)] R_xtcpd_send [OF u(2)]] have "R s v" .
  moreover have "R v s'" unfolding u(3) by (simp add: R_refl R_uip_send)
  ultimately show ?thesis by (rule R_trans)
qed (auto simp: app_rexmit_def R_refl)

lemma R_closed: "app_closed r s = Some s' \<Longrightarrow> R s s'"
  using R_trans [OF R_xstate R_xtcpd_event] by (auto simp: app_closed_def R_refl split: if_splits)

text \<open>What the callback does after the input has been taken.\<close>

lemma R_rest:
  assumes "app_acked r s = Some w" and "app_rexmit r w = Some x" and "app_poll r x = Some y" and "app_closed r y = Some s'"
  shows "R s s'"
proof -
  have "R s w" using assms(1) R_ask_data by (auto simp: app_acked_def R_refl split: if_splits)
  moreover have "R x y" using assms(3) R_handle_poll by (auto simp: app_poll_def R_refl split: if_splits)
  ultimately show ?thesis using R_rexmit [OF assms(2)] R_closed [OF assms(4)] by (blast intro: R_trans)
qed

end

section \<open>The packet in progress\<close>

definition packet_kept :: "'a uip_st_scheme \<Rightarrow> 'a uip_st_scheme \<Rightarrow> bool" where
  "packet_kept s s' \<longleftrightarrow> uip_buf s' = uip_buf s \<and> uip_appdata s' = uip_appdata s \<and> uip_sappdata s' = uip_sappdata s \<and>
     uip_len s' = uip_len s \<and> uip_slen s' = uip_slen s \<and> uip_flags s' = uip_flags s \<and> uip_conn s' = uip_conn s \<and>
     uip_udp_conn s' = uip_udp_conn s \<and> length (uip_conns s') = length (uip_conns s) \<and>
     length (uip_udp_conns s') = length (uip_udp_conns s)"

named_theorems packet_intro \<open>operations that leave the packet alone\<close>

lemma packet_refl [packet_intro]: "packet_kept s s"
  by (simp add: packet_kept_def)

lemma packet_upd_conn [packet_intro]: "packet_kept s s' \<Longrightarrow> packet_kept s (upd_conn i f s')"
  by (simp add: packet_kept_def upd_conn_def)

lemma packet_upd_udp [packet_intro]: "packet_kept s s' \<Longrightarrow> packet_kept s (upd_udp i f s')"
  by (simp add: packet_kept_def upd_udp_def)

lemma packet_upd_xstate [packet_intro]: "packet_kept s s' \<Longrightarrow> packet_kept s (upd_xstate r f s')"
  by (cases r) (simp_all add: upd_xstate_def packet_intro)

lemma packet_upd_stateflags [packet_intro]: "packet_kept s s' \<Longrightarrow> packet_kept s (upd_stateflags f r s')"
  by (cases r) (simp_all add: upd_stateflags_def packet_intro)

lemma packet_on_conn [packet_intro]: "(\<And>r. packet_kept s (f r s)) \<Longrightarrow> packet_kept s (on_conn conn_id f s)"
  by (auto simp: on_conn_def packet_refl split: option.split)

lemma packet_connect: "uip_connect a p s = Some (s', r) \<Longrightarrow> packet_kept s s'"
  by (auto simp: uip_connect_def Let_def bind_eq_Some_conv packet_kept_def upd_conn_def split: option.splits)

lemma packet_udp_new: "uip_udp_new a p s = Some (s', r) \<Longrightarrow> packet_kept s s'"
  by (auto simp: uip_udp_new_def Let_def bind_eq_Some_conv packet_kept_def upd_udp_def split: option.splits)

lemma packet_xtcpd_connect: "xtcpd_connect l p a pr s = Some s' \<Longrightarrow> packet_kept s s'"
  by (auto simp: xtcpd_connect_def Let_def split: prod.splits option.splits if_splits
      intro!: packet_upd_xstate dest: packet_connect packet_udp_new)

lemma packet_bind_local: "xtcpd_bind_local conn_id p s = Some s' \<Longrightarrow> packet_kept s s'"
  by (auto simp: xtcpd_bind_local_def Let_def split: option.splits conn_ref.splits intro!: packet_intro)

lemma packet_bind_remote: "xtcpd_bind_remote conn_id a p s = Some s' \<Longrightarrow> packet_kept s s'"
  by (auto simp: xtcpd_bind_remote_def Let_def split: option.splits conn_ref.splits prod.splits if_splits intro!: packet_intro)

lemma packet_listen [packet_intro]: "packet_kept s (xtcpd_listen l p pr s)" "packet_kept s (xtcpd_unlisten l p s)"
  "packet_kept s (emit i m s)" "packet_kept s (igmp_join_group a s)" "packet_kept s (igmp_leave_group a s)"
  by (simp_all add: packet_kept_def xtcpd_listen_def xtcpd_unlisten_def uip_listen_def uip_unlisten_def uip_udp_listen_def
      emit_def igmp_join_group_def igmp_leave_group_def upd_group_def split: option.split)

lemmas cmd_on_conn_defs = xtcpd_init_send_def xtcpd_set_appstate_def xtcpd_abort_def xtcpd_close_def
  xtcpd_ack_recv_mode_def xtcpd_pause_def xtcpd_unpause_def xtcpd_ack_recv_def

lemma packet_cmd: "handle_xtcp_cmd i cmd conn_id s = Some s' \<Longrightarrow> packet_kept s s'"
proof (cases cmd)
  case (CMD_SET_POLL_INTERVAL p)
  then show "handle_xtcp_cmd i cmd conn_id s = Some s' \<Longrightarrow> packet_kept s s'"
    by (auto simp: handle_xtcp_cmd_def xtcpd_set_poll_interval_def split: option.splits intro!: packet_intro)
qed (auto simp: handle_xtcp_cmd_def cmd_on_conn_defs xtcpd_join_group_def xtcpd_leave_group_def
    intro!: packet_intro dest: packet_xtcpd_connect packet_bind_local packet_bind_remote split: prod.splits)

lemma packet_trans: "packet_kept s t \<Longrightarrow> packet_kept t u \<Longrightarrow> packet_kept s u"
  by (simp add: packet_kept_def)

lemma packet_fields [packet_intro]:
  "packet_kept s (emit i m s)" "packet_kept s (s\<lparr>notified := n\<rparr>)" "packet_kept s (s\<lparr>pending_event := p\<rparr>)"
  "packet_kept s (s\<lparr>dummy_conn := d\<rparr>)" "packet_kept s (s\<lparr>clock := now, polls := ps\<rparr>)"
  by (simp_all add: packet_kept_def emit_def)

interpretation packet: client_rel packet_kept
proof
  fix s s' :: "'a xtcp_st_scheme" and i cmd conn_id
  assume "handle_xtcp_cmd i cmd conn_id s = Some s'"
  then show "packet_kept s s'" by (rule packet_cmd)
qed (auto intro: packet_intro packet_trans)

section \<open>The connection table\<close>

definition stack_kept :: "'a uip_st_scheme \<Rightarrow> 'a uip_st_scheme \<Rightarrow> bool" where
  "stack_kept s s' \<longleftrightarrow> app_table (uip_conns s) (uip_conns s') \<and> uip_conn s' = uip_conn s"

named_theorems stack_intro \<open>operations that change the connection table as the stack allows\<close>

lemma stack_refl [stack_intro]: "stack_kept s s"
  by (simp add: stack_kept_def)

lemma stack_trans: "stack_kept s t \<Longrightarrow> stack_kept t u \<Longrightarrow> stack_kept s u"
  unfolding stack_kept_def using app_table_trans by auto

lemma app_table_update: "app_step (cs ! i) c \<Longrightarrow> app_table cs (cs[i := c])"
  by (cases "i < length cs") (auto simp: app_table_def list_all2_conv_all_nth nth_list_update intro: app_step_refl)

lemma app_table_upd: "(\<And>c. conn_kept c (f c)) \<Longrightarrow> app_table cs (cs[i := f (cs ! i)])"
  by (rule app_table_update) (simp add: app_step_def)

lemma stack_upd_conn: "(\<And>c. conn_kept c (f c)) \<Longrightarrow> stack_kept s (upd_conn i f s)"
  by (simp add: stack_kept_def upd_conn_def app_table_upd)

lemma stack_upd_udp [stack_intro]: "stack_kept s (upd_udp i f s)"
  by (simp add: stack_kept_def upd_udp_def)

lemma stack_upd_xstate [stack_intro]: "stack_kept s (upd_xstate r f s)"
  by (cases r) (auto simp: upd_xstate_def conn_kept_def conn_state_def intro: stack_intro stack_upd_conn)

lemma state_flags:
  "(f OR UIP_STOPPED) AND UIP_TS_MASK = f AND UIP_TS_MASK" "(f AND NOT UIP_STOPPED) AND UIP_TS_MASK = f AND UIP_TS_MASK"
proof -
  have "(f OR 16) AND 15 = (f AND 15) OR (16 AND 15)" by (rule bit.conj_disj_distrib2)
  then show "(f OR 16) AND 15 = f AND 15" by simp
  have "(f AND NOT 16) AND 15 = f AND (NOT 16 AND 15)" by (simp only: ac_simps)
  then show "(f AND NOT 16) AND 15 = f AND 15" by simp
qed

lemma stack_upd_stateflags:
  assumes "\<And>x. f x AND UIP_TS_MASK = x AND UIP_TS_MASK"
  shows "stack_kept s (upd_stateflags f r s)"
proof (cases r)
  case (TcpRef i)
  have "conn_kept c (c\<lparr>tc_tcpstateflags := f (tc_tcpstateflags c)\<rparr>)" for c
    by (simp add: conn_kept_def conn_state_def assms)
  then show ?thesis by (simp add: TcpRef upd_stateflags_def stack_upd_conn)
qed (simp_all add: upd_stateflags_def stack_refl stack_upd_xstate)

lemmas stack_stopped = stack_upd_stateflags [OF state_flags(1)] stack_upd_stateflags [OF state_flags(2)]

lemma stack_on_conn [stack_intro]: "(\<And>r. stack_kept s (f r s)) \<Longrightarrow> stack_kept s (on_conn conn_id f s)"
  by (auto simp: on_conn_def stack_refl split: option.split)

lemma stack_connect: "uip_connect a p s = Some (s', r) \<Longrightarrow> stack_kept s s'"
proof -
  assume run: "uip_connect a p s = Some (s', r)"
  have step: "app_step (cs ! i) (open_conn (iss s) lp p a (cs ! i))" if "alloc_conn cs = Some i" for cs i lp
    using alloc_conn_Some(2) [OF that] by (auto simp: app_step_def conn_reopened_def conn_state_def reusable_def open_conn_def)
  show ?thesis
  proof (cases "alloc_conn (uip_conns s)")
    case None
    with run show ?thesis by (auto simp: uip_connect_def Let_def bind_eq_Some_conv stack_kept_def)
  next
    case (Some i)
    with run app_table_update [OF step [OF Some]] show ?thesis
      by (auto simp: uip_connect_def Let_def bind_eq_Some_conv stack_kept_def upd_conn_def)
  qed
qed

lemma stack_udp_new: "uip_udp_new a p s = Some (s', r) \<Longrightarrow> stack_kept s s'"
  by (auto simp: uip_udp_new_def Let_def bind_eq_Some_conv stack_kept_def upd_udp_def split: option.splits)

lemma stack_xtcpd_connect: "xtcpd_connect l p a pr s = Some s' \<Longrightarrow> stack_kept s s'"
  by (auto simp: xtcpd_connect_def Let_def split: prod.splits option.splits if_splits
      intro!: stack_trans [OF _ stack_upd_xstate] dest: stack_connect stack_udp_new)

lemma stack_upd_lport: "stack_kept s (upd_conn i (\<lambda>c. c\<lparr>tc_lport := p\<rparr>) s)"
  by (rule stack_upd_conn) (simp add: conn_kept_def conn_state_def)

lemma stack_bind_local: "xtcpd_bind_local conn_id p s = Some s' \<Longrightarrow> stack_kept s s'"
  unfolding xtcpd_bind_local_def Let_def
  using stack_trans [OF stack_upd_xstate stack_upd_lport] stack_trans [OF stack_upd_xstate stack_upd_udp]
  by (auto split: option.splits conn_ref.splits)

lemma stack_bind_remote: "xtcpd_bind_remote conn_id a p s = Some s' \<Longrightarrow> stack_kept s s'"
  by (auto simp: xtcpd_bind_remote_def Let_def split: option.splits conn_ref.splits prod.splits if_splits
      intro!: stack_trans [OF _ stack_upd_udp] stack_trans [OF _ stack_upd_xstate] stack_refl)

lemma stack_listen [stack_intro]: "stack_kept s (xtcpd_listen l p pr s)" "stack_kept s (xtcpd_unlisten l p s)"
  "stack_kept s (emit i m s)" "stack_kept s (igmp_join_group a s)" "stack_kept s (igmp_leave_group a s)"
  by (simp_all add: stack_kept_def xtcpd_listen_def xtcpd_unlisten_def uip_listen_def uip_unlisten_def uip_udp_listen_def
      emit_def igmp_join_group_def igmp_leave_group_def upd_group_def split: option.split)

lemma stack_ack [stack_intro]:
  "stack_kept s (xtcpd_pause conn_id s)" "stack_kept s (xtcpd_unpause conn_id s)" "stack_kept s (xtcpd_ack_recv conn_id s)"
  unfolding xtcpd_pause_def xtcpd_unpause_def xtcpd_ack_recv_def
  by (rule stack_on_conn, rule stack_stopped | rule stack_on_conn, rule stack_trans [OF _ stack_upd_xstate], rule stack_stopped)+

lemma stack_cmd: "handle_xtcp_cmd i cmd conn_id s = Some s' \<Longrightarrow> stack_kept s s'"
proof (cases cmd)
  case (CMD_SET_POLL_INTERVAL p)
  then show "handle_xtcp_cmd i cmd conn_id s = Some s' \<Longrightarrow> stack_kept s s'"
    by (auto simp: handle_xtcp_cmd_def xtcpd_set_poll_interval_def split: option.splits intro!: stack_intro)
qed (auto simp: handle_xtcp_cmd_def xtcpd_join_group_def xtcpd_leave_group_def xtcpd_init_send_def
    xtcpd_set_appstate_def xtcpd_abort_def xtcpd_close_def xtcpd_ack_recv_mode_def
    intro!: stack_intro dest: stack_xtcpd_connect stack_bind_local stack_bind_remote split: prod.splits)

lemma stack_fields [stack_intro]:
  "stack_kept s (emit i m s)" "stack_kept s (s\<lparr>notified := n\<rparr>)" "stack_kept s (s\<lparr>pending_event := p\<rparr>)"
  "stack_kept s (s\<lparr>dummy_conn := d\<rparr>)" "stack_kept s (s\<lparr>clock := now, polls := ps\<rparr>)"
  by (simp_all add: stack_kept_def emit_def)

lemma stack_same: "uip_conns s' = uip_conns s \<Longrightarrow> uip_conn s' = uip_conn s \<Longrightarrow> stack_kept s s'"
  by (simp add: stack_kept_def)

interpretation table: callback_rel stack_kept
proof
  fix s s' :: "'a xtcp_st_scheme" and i cmd conn_id
  assume "handle_xtcp_cmd i cmd conn_id s = Some s'"
  then show "stack_kept s s'" by (rule stack_cmd)
qed (auto intro: stack_intro stack_trans stack_same)

section \<open>The callback\<close>

lemma stack_stop: "stack_kept s (upd_conn i (\<lambda>c. c\<lparr>tc_tcpstateflags := tc_tcpstateflags c OR UIP_STOPPED\<rparr>) s)"
  by (rule stack_upd_conn) (simp add: conn_kept_def conn_state_def state_flags)

lemma stack_recv:
  assumes "xtcpd_recv link r data len s = Some s'"
  shows "stack_kept s s'"
proof -
  obtain u where u: "stack_kept s u" "s' = emit link OutCt (emit link (OutRecv (rds (uip_buf u) data len)) u)"
    using table.R_recv [OF assms] .
  have "stack_kept u s'" unfolding u(2) by (rule stack_same) (simp_all add: emit_def)
  with u(1) show ?thesis by (rule stack_trans)
qed

lemma stack_input: "app_input r s = Some (s', dn) \<Longrightarrow> stack_kept s s'"
proof (cases "app_flag UIP_NEWDATA s \<and> 0 < uip_len s \<and> xd_linknum (xstate r s) \<noteq> -1")
  case True
  assume "app_input r s = Some (s', dn)"
  with True obtain u v where u: "xtcpd_service_clients_until_ready (xd_linknum (xstate r s)) s = Some u"
    "xtcpd_recv (nat (xd_linknum (xstate r u))) r (uip_appdata u) (unat (uip_len u)) u = Some v"
    "s' = (case uip_conn v of Some i \<Rightarrow> if xs_ack_recv_mode (xd_s (xstate r v))
        then upd_conn i (\<lambda>c. c\<lparr>tc_tcpstateflags := tc_tcpstateflags c OR UIP_STOPPED\<rparr>) v else v | None \<Rightarrow> v)"
    by (auto simp: app_input_def bind_eq_Some_conv)
  from stack_trans [OF table.R_until [OF u(1)] stack_recv [OF u(2)]] have "stack_kept s v" .
  moreover have "stack_kept v s'" unfolding u(3) by (auto simp: stack_refl stack_stop split: option.split)
  ultimately show ?thesis by (rule stack_trans)
next
  case False
  assume "app_input r s = Some (s', dn)"
  with False show ?thesis
    by (auto simp: app_input_def stack_refl dest: table.R_xtcpd_event split: if_splits)
qed

lemma stack_appcall_conn: "xtcpd_appcall_conn r s = Some s' \<Longrightarrow> stack_kept s s'"
proof -
  assume "xtcpd_appcall_conn r s = Some s'"
  then obtain u v dn where u: "app_connected r s = Some u" "app_input r u = Some (v, dn)"
    and rest: "if dn then v = s' else \<exists>w x y. app_acked r v = Some w \<and> app_rexmit r w = Some x \<and> app_poll r x = Some y \<and> app_closed r y = Some s'"
    by (auto simp: xtcpd_appcall_conn_def bind_eq_Some_conv split: if_splits)
  have v: "stack_kept s v" by (rule stack_trans [OF table.R_connected [OF u(1)] stack_input [OF u(2)]])
  show ?thesis
  proof (cases dn)
    case True
    with rest v show ?thesis by simp
  next
    case False
    with rest stack_trans [OF v table.R_rest] show ?thesis by auto
  qed
qed

text \<open>The callback satisfies the interface that the stack relies on.\<close>

locale xtcp_callback = dhcp_client conf for conf :: "dhcpc_state \<Rightarrow> 'a xtcp_st_scheme \<Rightarrow> 'a xtcp_st_scheme"
begin

lemma stack_appcall: "xtcpd_appcall conf s = Some s' \<Longrightarrow> stack_kept s s'"
proof -
  assume run: "xtcpd_appcall conf s = Some s'"
  have "stack_kept s (handle_dhcp conf v n (s\<lparr>rands := w\<rparr>))" for v n w
    by (rule stack_same) (simp_all add: handle_tables)
  with run show ?thesis
    using stack_trans [OF stack_upd_xstate stack_appcall_conn] stack_appcall_conn
    by (auto simp: xtcpd_appcall_def Let_def split: option.splits if_splits)
qed

end

sublocale xtcp_callback \<subseteq> app: tcp_app "xtcpd_appcall conf"
proof
  fix s s' assume "xtcpd_appcall conf s = Some s'"
  then have "stack_kept s s'" by (rule stack_appcall)
  then show "app_table (uip_conns s) (uip_conns s')" "uip_conn s' = uip_conn s" by (simp_all add: stack_kept_def)
qed

text \<open>The environment of the stack: the callback and the IGMP hooks.\<close>

definition xtcp_env ::
  "bool \<Rightarrow> (dhcpc_state \<Rightarrow> 'a xtcp_st_scheme \<Rightarrow> 'a xtcp_st_scheme) \<Rightarrow> 'a xtcp_st_scheme uip_env" where
  "xtcp_env igmp dhcpc_configured = \<lparr>appcall = xtcpd_appcall dhcpc_configured, igmp_enabled = igmp,
     igmp_check = igmp_check_addr, igmp_input = (\<lambda>s. igmp_in (clock s) s)\<rparr>"

sublocale xtcp_callback \<subseteq> hooks: uip_hooks "xtcpd_appcall conf" "xtcp_env igmp conf" for igmp
  by unfold_locales (simp_all add: xtcp_env_def igmp_in_ignored)

end
