(* ===== verification/Xtcp_Ids.thy ===== *)
theory Xtcp_Ids
  imports Xtcp_App "HOL-Library.Multiset"
begin

text \<open>
  Identifiers and ports of the xtcp server: every connection that is reported to a client gets an
  identifier that no other connection has, by which the commands of the client find it again;
  and the ports the stack listens on agree with the listeners that are registered.
\<close>

section \<open>Looking up connections\<close>

definition valid_ref :: "conn_ref \<Rightarrow> 'a uip_st_scheme \<Rightarrow> bool" where
  "valid_ref r s \<longleftrightarrow> (case r of TcpRef i \<Rightarrow> i < length (uip_conns s) | UdpRef j \<Rightarrow> j < length (uip_udp_conns s)
     | NullRef \<Rightarrow> False)"

lemma set_conn_refs: "r \<in> set (conn_refs s) \<longleftrightarrow> valid_ref r s"
  by (cases r) (auto simp: conn_refs_def valid_ref_def less_max_iff_disj)

lemma xstate_upd_same [simp]: "valid_ref r s \<Longrightarrow> xstate r (upd_xstate r f s) = f (xstate r s)"
  by (cases r) (simp_all add: valid_ref_def xstate_def upd_xstate_def)

lemma xstate_upd_other [simp]: "q \<noteq> r \<Longrightarrow> xstate q (upd_xstate r f s) = xstate q s"
  by (cases q; cases r) (simp_all add: xstate_def upd_xstate_def upd_conn_def upd_udp_def)

lemma upd_xstate_len [simp]:
  "length (uip_conns (upd_xstate r f s)) = length (uip_conns s)"
  "length (uip_udp_conns (upd_xstate r f s)) = length (uip_udp_conns s)"
  by (cases r; simp add: upd_xstate_def upd_conn_def upd_udp_def)+

lemma conn_refs_upd [simp]: "conn_refs (upd_xstate r f s) = conn_refs s" "valid_ref q (upd_xstate r f s) = valid_ref q s"
  by (simp_all add: conn_refs_def valid_ref_def split: conn_ref.split)

lemma conn_refs_guid [simp]: "conn_refs (s\<lparr>guid := g\<rparr>) = conn_refs s" "valid_ref q (s\<lparr>guid := g\<rparr>) = valid_ref q s"
    "xstate q (s\<lparr>guid := g\<rparr>) = xstate q s" for s :: "'a xtcp_st_scheme"
  by (simp_all add: conn_refs_def valid_ref_def xstate_def split: conn_ref.split)

lemma find_unique: "r \<in> set xs \<Longrightarrow> P r \<Longrightarrow> (\<And>q. q \<in> set xs \<Longrightarrow> P q \<Longrightarrow> q = r) \<Longrightarrow> List.find P xs = Some r"
proof (induction xs)
  case (Cons x xs)
  show ?case
  proof (cases "P x")
    case True
    with Cons.prems(3) [of x] show ?thesis by simp
  next
    case False
    with Cons.prems(1,2) have "r \<in> set xs" by auto
    from Cons.IH [OF this Cons.prems(2)] Cons.prems(3) False show ?thesis by simp
  qed
qed simp

lemma card_conn_refs: "card (set (conn_refs s)) \<le> length (uip_conns s) + length (uip_udp_conns s)"
proof -
  have "set (conn_refs s) \<subseteq> TcpRef ` {..<length (uip_conns s)} \<union> UdpRef ` {..<length (uip_udp_conns s)}"
    by (auto simp: set_conn_refs valid_ref_def image_iff split: conn_ref.splits)
  then have "card (set (conn_refs s)) \<le> card (TcpRef ` {..<length (uip_conns s)} \<union> UdpRef ` {..<length (uip_udp_conns s)})"
    by (intro card_mono) auto
  also have "\<dots> \<le> card (TcpRef ` {..<length (uip_conns s)}) + card (UdpRef ` {..<length (uip_udp_conns s)})"
    by (rule card_Un_le)
  also have "\<dots> \<le> length (uip_conns s) + length (uip_udp_conns s)"
    by (intro add_mono order_trans [OF card_image_le]) auto
  finally show ?thesis .
qed

section \<open>Fresh identifiers\<close>

definition next_guid :: "int \<Rightarrow> int" where
  "next_guid g = (if MAX_GUID < g + 1 then 1 else g + 1)"

lemma next_guid_iter: "1 \<le> g \<Longrightarrow> g \<le> 200 \<Longrightarrow> (next_guid ^^ n) g = (g - 1 + int n) mod 200 + 1"
proof (induction n)
  case (Suc n)
  let ?k = "(g - 1 + int n) mod 200"
  have "0 \<le> ?k" "?k < 200" by simp_all
  moreover have "(g - 1 + int (Suc n)) mod 200 = (?k + 1) mod 200"
    by (metis add.assoc add.commute mod_add_left_eq of_nat_Suc)
  moreover have "?k = 199 \<or> (?k + 1) mod 200 = ?k + 1" using \<open>0 \<le> ?k\<close> \<open>?k < 200\<close> by (auto simp: zmod_trivial_iff)
  ultimately show ?case using Suc by (auto simp: next_guid_def)
qed simp

lemma next_guid_inj: "1 \<le> g \<Longrightarrow> g \<le> 200 \<Longrightarrow> inj_on (\<lambda>n. (next_guid ^^ n) g) {..<200}"
proof (rule inj_onI)
  fix m n :: nat
  assume g: "1 \<le> g" "g \<le> 200" and mn: "m \<in> {..<200}" "n \<in> {..<200}" and eq: "(next_guid ^^ m) g = (next_guid ^^ n) g"
  then have "(g - 1 + int m) mod 200 = (g - 1 + int n) mod 200" by (simp add: next_guid_iter)
  then have "(200 :: int) dvd int m - int n"
    using mod_eq_dvd_iff [of "g - 1 + int m" 200 "g - 1 + int n"] by simp
  then obtain k where "int m - int n = 200 * k" by (auto elim: dvdE)
  with mn show "m = n" by simp presburger
qed

lemma guid_search:
  assumes g: "1 \<le> g" "g \<le> 200" and n: "length (uip_conns s) + length (uip_udp_conns s) \<le> 200"
    and r: "valid_ref r s" and zero: "xc_id (xd_conn (xstate r s)) = 0"
  shows "\<exists>g'. until_free (\<lambda>g. lookup_xtcpd_state g s \<noteq> None) next_guid g = Some g' \<and> 1 \<le> g' \<and> g' \<le> 200 \<and>
    lookup_xtcpd_state g' s = None"
proof -
  let ?bad = "\<lambda>g. lookup_xtcpd_state g s \<noteq> None" and ?id = "\<lambda>q. xc_id (xd_conn (xstate q s))"
  have bad: "?bad y \<longleftrightarrow> y \<in> ?id ` set (conn_refs s)" for y
    by (auto simp: lookup_xtcpd_state_def find_None_iff)
  have range: "1 \<le> (next_guid ^^ i) g" "(next_guid ^^ i) g \<le> 200" for i
    using pos_mod_bound [of 200 "g - 1 + int i"] by (simp_all add: next_guid_iter [OF g])
  have "\<exists>i < 200. \<not> ?bad ((next_guid ^^ i) g)"
  proof (rule ccontr)
    assume none: "\<not> ?thesis"
    have "(\<lambda>i. (next_guid ^^ i) g) ` {..<200} \<subseteq> ?id ` (set (conn_refs s) - {r})"
    proof
      fix y assume "y \<in> (\<lambda>i. (next_guid ^^ i) g) ` {..<200}"
      then obtain i where i: "i < 200" "y = (next_guid ^^ i) g" by auto
      with none have "y \<in> ?id ` set (conn_refs s)" unfolding bad by auto
      moreover have "y \<noteq> ?id r" using range(1) [of i] i zero by simp
      ultimately show "y \<in> ?id ` (set (conn_refs s) - {r})" by auto
    qed
    then have "card ((\<lambda>i. (next_guid ^^ i) g) ` {..<200 :: nat}) \<le> card (?id ` (set (conn_refs s) - {r}))"
      by (intro card_mono) auto
    also have "\<dots> \<le> card (set (conn_refs s) - {r})" by (rule card_image_le) simp
    also have "\<dots> < card (set (conn_refs s))" using r by (intro card_Diff1_less) (simp_all only: set_conn_refs finite_set)
    finally have "card ((\<lambda>i. (next_guid ^^ i) g) ` {..<200 :: nat}) < card (set (conn_refs s))" .
    moreover have "card ((\<lambda>i. (next_guid ^^ i) g) ` {..<200 :: nat}) = 200"
      unfolding card_image [OF next_guid_inj [OF g]] by (rule card_lessThan)
    ultimately show False using card_conn_refs [of s] n by linarith
  qed
  then obtain i where "\<not> ?bad ((next_guid ^^ i) g)" by blast
  from until_free_stops [where bad = ?bad, OF this] obtain k where k: "until_free ?bad next_guid g = Some ((next_guid ^^ k) g)"
    "\<not> ?bad ((next_guid ^^ k) g)" by blast
  from k(2) have "lookup_xtcpd_state ((next_guid ^^ k) g) s = None" by blast
  then show ?thesis by (intro exI [of _ "(next_guid ^^ k) g"] conjI k(1) range)
qed

text \<open>
  C33. Starting a connection returns, and gives it an identifier between 1 and 200 that no other
  connection has, so that the commands of the client that name it find this connection; it
  belongs to the link that asked for it or, when it was opened from outside, to the link that
  listens on its port (none if there is none).
\<close>

theorem init_state_fresh:
  assumes r: "valid_ref r s" and g: "1 \<le> guid s" "guid s \<le> 200"
    and n: "length (uip_conns s) + length (uip_udp_conns s) \<le> 200"
  shows "\<exists>s' g'. xtcpd_init_state r protocol addr lport rport s = Some s' \<and> xc_id (xd_conn (xstate r s')) = g' \<and>
    1 \<le> g' \<and> g' \<le> 200 \<and> guid s' = g' \<and>
    (\<forall>q. valid_ref q s \<longrightarrow> q \<noteq> r \<longrightarrow> xc_id (xd_conn (xstate q s')) \<noteq> g' \<and> xstate q s' = xstate q s) \<and>
    lookup_xtcpd_state g' s' = Some r \<and> xs_uip_conn (xd_s (xstate r s')) = r \<and>
    xd_linknum (xstate r s') = (if xs_connect_request (xd_s (xstate r s)) then xd_linknum (xstate r s)
      else get_listener_linknum (if protocol = XTCP_PROTOCOL_TCP then tcp_listeners s else udp_listeners s) (uint lport))"
proof -
  let ?u = "upd_xstate r (\<lambda>_. zero_xtcpd_state) s"
  have listeners: "tcp_listeners ?u = tcp_listeners s" "udp_listeners ?u = udp_listeners s" "guid ?u = guid s"
    by (cases r; simp add: upd_xstate_def upd_conn_def upd_udp_def)+
  have "xc_id (xd_conn (xstate r ?u)) = 0" using r by (simp add: zero_xtcpd_state_def)
  from guid_search [of "guid s" ?u r, OF g _ _ this] n r obtain g' where
    g': "until_free (\<lambda>g. lookup_xtcpd_state g ?u \<noteq> None) next_guid (guid s) = Some g'" "1 \<le> g'" "g' \<le> 200"
      "lookup_xtcpd_state g' ?u = None" by auto
  have fresh: "xc_id (xd_conn (xstate q s)) \<noteq> g'" if "valid_ref q s" "q \<noteq> r" for q
    using g'(4) that by (auto simp: lookup_xtcpd_state_def find_None_iff set_conn_refs dest!: bspec [of _ _ q])
  have step: "(\<lambda>g. if MAX_GUID < g + 1 then 1 else g + 1) = next_guid" by (auto simp: next_guid_def)
  from g' obtain f where s': "xtcpd_init_state r protocol addr lport rport s = Some (upd_xstate r f (?u\<lparr>guid := g'\<rparr>))"
    and f: "\<And>x. xc_id (xd_conn (f x)) = g' \<and> xs_uip_conn (xd_s (f x)) = r \<and>
      xd_linknum (f x) = (if xs_connect_request (xd_s (xstate r s)) then xd_linknum (xstate r s)
        else get_listener_linknum (if protocol = XTCP_PROTOCOL_TCP then tcp_listeners s else udp_listeners s) (uint lport))"
    unfolding xtcpd_init_state_def Let_def step by (simp add: listeners)
  let ?s' = "upd_xstate r f (?u\<lparr>guid := g'\<rparr>)"
  have guid': "guid ?s' = g'" by (cases r; simp add: upd_xstate_def upd_conn_def upd_udp_def)
  have id: "xc_id (xd_conn (xstate r ?s')) = g'" using r f by simp
  have "lookup_xtcpd_state g' ?s' = Some r"
    unfolding lookup_xtcpd_state_def
  proof (rule find_unique)
    fix q assume "q \<in> set (conn_refs ?s')" "xc_id (xd_conn (xstate q ?s')) = g'"
    then show "q = r" using fresh by (cases "q = r") (auto simp: set_conn_refs)
  qed (use r f in \<open>simp_all add: set_conn_refs\<close>)
  then show ?thesis using s' id guid' g'(2,3) fresh f r by auto
qed

text \<open>A server with two TCP and two UDP slots, for examples.\<close>

definition sample_slot :: "int \<Rightarrow> u16 \<Rightarrow> tcp_conn" where
  "sample_slot cid port = zero_tcp_conn\<lparr>tc_lport := port, tc_tcpstateflags := UIP_ESTABLISHED,
     tc_appstate := zero_xtcpd_state\<lparr>xd_conn := (xd_conn zero_xtcpd_state)\<lparr>xc_id := cid\<rparr>\<rparr>\<rparr>"

definition sample_xtcp :: "tcp_conn list \<Rightarrow> (u32 \<times> client_tok option) list \<Rightarrow> xtcp_st" where
  "sample_xtcp cs ps = igmp_st.extend
     ((sample_igmp [NON_MEMBER])\<lparr>uip_conns := cs, uip_udp_conns := [zero_udp_conn, zero_udp_conn],
        uip_listenports := [htons 80, 0], uip_udp_listenports := [0, 0]\<rparr>)
     \<lparr>dhcp = sample_dhcp, dhcp_xid = [0x97, 1, 2, 3], xtcp_num = 2, guid = 1,
      tcp_listeners = [\<lparr>li_active = True, li_port_number = uint (htons 80), li_linknum = 1\<rparr>,
        \<lparr>li_active = False, li_port_number = 0, li_linknum = 0\<rparr>],
      udp_listeners = [\<lparr>li_active = False, li_port_number = 0, li_linknum = 0\<rparr>],
      prev_ifstate = [-1, -1], uip_ifstate = 0, notified = [False, False], pending_event = [None, None],
      dummy_conn = xd_conn zero_xtcpd_state, cfg_igmp = True, rands = [], clock = 0, polls = ps, xlog = []\<rparr>"

lemmas sample_defs = sample_xtcp_def sample_igmp_def sample_slot_def igmp_st.defs
  zero_tcp_conn_def zero_udp_conn_def zero_xtcpd_state_def

theorem init_state_fresh_witness:
  "\<exists>s'. xtcpd_init_state (TcpRef 1) XTCP_PROTOCOL_TCP (0, 0) (htons 80) (htons 4096)
        (sample_xtcp [sample_slot 1 (htons 80), zero_tcp_conn] []) = Some s' \<and>
     lookup_xtcpd_state (guid s') s' = Some (TcpRef 1) \<and> xd_linknum (xstate (TcpRef 1) s') = 1"
proof -
  let ?s = "sample_xtcp [sample_slot 1 (htons 80), zero_tcp_conn] []"
  have "valid_ref (TcpRef 1) ?s" "guid ?s = 1" "length (uip_conns ?s) + length (uip_udp_conns ?s) = 4"
    "\<not> xs_connect_request (xd_s (xstate (TcpRef 1) ?s))" "get_listener_linknum (tcp_listeners ?s) (uint (htons 80)) = 1"
    by (simp_all add: sample_defs valid_ref_def xstate_def get_listener_linknum_def)
  with init_state_fresh [of "TcpRef 1" ?s XTCP_PROTOCOL_TCP "(0, 0)" "htons 80" "htons 4096"] show ?thesis
    by (auto simp del: One_nat_def)
qed

section \<open>Listeners and listening ports\<close>

text \<open>
  The two tables agree when the ports of the active listeners are exactly the ports the stack listens
  on; as multisets, so that they have the same number of free slots.
\<close>

definition active_ports :: "listener_info list \<Rightarrow> int multiset" where
  "active_ports ls = image_mset li_port_number (filter_mset li_active (mset ls))"

definition stack_ports :: "u16 list \<Rightarrow> int multiset" where
  "stack_ports ps = image_mset uint (filter_mset (\<lambda>p. p \<noteq> 0) (mset ps))"

definition ports_agree :: "'a xtcp_st_scheme \<Rightarrow> bool" where
  "ports_agree s \<longleftrightarrow> length (tcp_listeners s) = length (uip_listenports s) \<and>
     active_ports (tcp_listeners s) = stack_ports (uip_listenports s)"

lemma filter_mset_update:
  "i < length xs \<Longrightarrow> \<not> P (xs ! i) \<Longrightarrow> P x \<Longrightarrow> filter_mset P (mset (xs[i := x])) = add_mset x (filter_mset P (mset xs))"
proof (induction xs arbitrary: i)
  case (Cons y ys)
  then show ?case by (cases i) (auto simp: nth_Cons')
qed simp

lemma free_slots:
  assumes "ports_agree s"
  shows "(\<forall>l \<in> set (tcp_listeners s). li_active l) \<longleftrightarrow> (\<forall>p \<in> set (uip_listenports s). p \<noteq> 0)"
proof -
  let ?A = "filter_mset li_active (mset (tcp_listeners s))" and ?B = "filter_mset (\<lambda>p. p \<noteq> 0) (mset (uip_listenports s))"
  have full: "(\<forall>x \<in># M. P x) \<longleftrightarrow> size (filter_mset P M) = size M" for P and M :: "'b multiset"
    by (metis filter_mset_eq_conv multiset_filter_subset multiset_partition size_filter_mset_lesseq
        filter_mset_True mset_subset_size nat_less_le subset_mset.le_imp_less_or_eq)
  have "size ?A = size ?B"
    using arg_cong [OF conjunct2 [OF assms [unfolded ports_agree_def]], of size] by (simp add: active_ports_def stack_ports_def)
  moreover have "length (tcp_listeners s) = length (uip_listenports s)" using assms by (simp add: ports_agree_def)
  ultimately show ?thesis
    using full [of "mset (tcp_listeners s)" li_active] full [of "mset (uip_listenports s)" "\<lambda>p. p \<noteq> 0"] by simp
qed

lemma register_ports:
  "active_ports (register_listener link port ls) = (if \<forall>l \<in> set ls. li_active l then active_ports ls
     else add_mset (uint (net_port port)) (active_ports ls))"
proof (cases "first_idx (\<lambda>l. \<not> li_active l) ls")
  case None
  then have all: "\<forall>l \<in> set ls. li_active l" by (simp add: first_idx_None)
  then show ?thesis by (simp add: register_listener_def None)
next
  case (Some i)
  then have i: "i < length ls" "\<not> li_active (ls ! i)" by (rule first_idx_SomeD)+
  moreover have "ls ! i \<in> set ls" using i by simp
  ultimately show ?thesis
    using Some filter_mset_update [of i ls li_active "(ls ! i)\<lparr>li_active := True, li_port_number := uint (net_port port), li_linknum := link\<rparr>"]
    by (auto simp: register_listener_def active_ports_def)
qed

lemma listen_ports:
  assumes "port \<noteq> 0"
  shows "stack_ports (port_listen port ps) = (if \<forall>p \<in> set ps. p \<noteq> 0 then stack_ports ps else add_mset (uint port) (stack_ports ps))"
proof (cases "first_idx (\<lambda>p. p = 0) ps")
  case None
  then have "\<forall>p \<in> set ps. p \<noteq> 0" by (simp add: first_idx_None)
  then show ?thesis by (simp add: port_listen_def upd_first_none)
next
  case (Some i)
  then have i: "i < length ps" "ps ! i = 0" by (rule first_idx_SomeD)+
  moreover have "0 \<in> set ps" using i nth_mem by metis
  ultimately show ?thesis
    using Some assms filter_mset_update [of i ps "\<lambda>p. p \<noteq> 0" port]
    by (auto simp: port_listen_def upd_first_def stack_ports_def)
qed

lemma unregister_ports:
  "active_ports (unregister_listener link port ls) = filter_mset (\<lambda>p. p \<noteq> uint (net_port port)) (active_ports ls)"
  by (induction ls) (auto simp: unregister_listener_def active_ports_def)

lemma unlisten_ports:
  assumes "port \<noteq> 0" and "count (stack_ports ps) (uint port) \<le> 1"
  shows "stack_ports (port_unlisten port ps) = filter_mset (\<lambda>p. p \<noteq> uint port) (stack_ports ps)"
  using assms(2)
proof (induction ps)
  case (Cons p ps)
  have none: "uint port \<notin># M \<Longrightarrow> filter_mset (\<lambda>q. q \<noteq> uint port) M = M" for M
    by (induction M) auto
  show ?case
  proof (cases "p = port")
    case True
    have "stack_ports (p # ps) = add_mset (uint port) (stack_ports ps)"
      using True assms(1) by (simp add: stack_ports_def)
    with Cons.prems have "uint port \<notin># stack_ports ps" by (simp only: not_in_iff count_add_mset) simp
    from none [OF this] True assms(1) show ?thesis by (simp add: stack_ports_def port_unlisten_def)
  next
    case False
    with Cons show ?thesis by (cases "p = 0") (auto simp: stack_ports_def port_unlisten_def dest: word_uint_eqI)
  qed
qed (simp add: stack_ports_def port_unlisten_def)

text \<open>
  A command that the discipline allows: no port zero, and no port that is already registered.
\<close>

fun listen_ok :: "xtcp_cmd \<Rightarrow> 'a xtcp_st_scheme \<Rightarrow> bool" where
  "listen_ok (CMD_LISTEN port p) s = (net_port port \<noteq> 0 \<and> uint (net_port port) \<notin># active_ports (tcp_listeners s))"
| "listen_ok (CMD_UNLISTEN port) s = (net_port port \<noteq> 0)"
| "listen_ok _ s = True"

definition ports_inv :: "'a xtcp_st_scheme \<Rightarrow> bool" where
  "ports_inv s \<longleftrightarrow> ports_agree s \<and> (\<forall>p. count (stack_ports (uip_listenports s)) p \<le> 1)"

lemma ports_inv_cong:
  "tcp_listeners s' = tcp_listeners s \<Longrightarrow> uip_listenports s' = uip_listenports s \<Longrightarrow> ports_inv s \<Longrightarrow> ports_inv s'"
  unfolding ports_inv_def ports_agree_def by metis

lemma ports_inv_listen:
  assumes "ports_inv s" and "listen_ok (CMD_LISTEN port p) s"
  shows "ports_inv (xtcpd_listen link port p s)"
proof (cases "p = XTCP_PROTOCOL_TCP")
  case True
  have len: "length (register_listener link port (tcp_listeners s)) = length (tcp_listeners s)"
    "length (port_listen (net_port port) (uip_listenports s)) = length (uip_listenports s)"
    by (simp_all add: register_listener_def port_listen_def split: option.split)
  show ?thesis
    using assms True free_slots [of s] register_ports [of link port "tcp_listeners s"]
      listen_ports [of "net_port port" "uip_listenports s"] len
    by (auto simp: ports_inv_def ports_agree_def xtcpd_listen_def uip_listen_def not_in_iff)
next
  case False
  then show ?thesis by (intro ports_inv_cong [OF _ _ assms(1)]) (simp_all add: xtcpd_listen_def uip_udp_listen_def)
qed

lemma ports_inv_unlisten:
  assumes "ports_inv s" and "net_port port \<noteq> 0"
  shows "ports_inv (xtcpd_unlisten link port s)"
proof -
  have len: "length (unregister_listener link port (tcp_listeners s)) = length (tcp_listeners s)"
    "length (port_unlisten (net_port port) (uip_listenports s)) = length (uip_listenports s)"
    by (simp_all add: unregister_listener_def port_unlisten_def)
  have "count (stack_ports (uip_listenports s)) (uint (net_port port)) \<le> 1"
    using assms(1) unfolding ports_inv_def ports_agree_def by metis
  then show ?thesis
    using assms unregister_ports [of link port "tcp_listeners s"] unlisten_ports [of "net_port port" "uip_listenports s"] len
    by (simp add: ports_inv_def ports_agree_def xtcpd_unlisten_def uip_unlisten_def)
qed

text \<open>No other command touches the two tables.\<close>

definition ports_same :: "'a xtcp_st_scheme \<Rightarrow> 'a xtcp_st_scheme \<Rightarrow> bool" where
  "ports_same s s' \<longleftrightarrow> tcp_listeners s' = tcp_listeners s \<and> uip_listenports s' = uip_listenports s"

named_theorems ports_intro \<open>operations that leave the listening ports alone\<close>

lemma ports_refl [ports_intro]: "ports_same s s"
  by (simp add: ports_same_def)

lemma ports_upd [ports_intro]:
  "ports_same s s' \<Longrightarrow> ports_same s (upd_conn i f s')" "ports_same s s' \<Longrightarrow> ports_same s (upd_udp i g s')"
  by (simp_all add: ports_same_def upd_conn_def upd_udp_def)

lemma ports_upd_xstate [ports_intro]: "ports_same s s' \<Longrightarrow> ports_same s (upd_xstate r f s')"
  by (cases r) (simp_all add: upd_xstate_def ports_intro)

lemma ports_upd_stateflags [ports_intro]: "ports_same s s' \<Longrightarrow> ports_same s (upd_stateflags f r s')"
  by (cases r) (simp_all add: upd_stateflags_def ports_intro)

lemma ports_on_conn [ports_intro]: "(\<And>r. ports_same s (f r s)) \<Longrightarrow> ports_same s (on_conn conn_id f s)"
  by (auto simp: on_conn_def ports_refl split: option.split)

lemma ports_emit [ports_intro]: "ports_same s (emit i m s)" "ports_same s (igmp_join_group a s)" "ports_same s (igmp_leave_group a s)"
  by (simp_all add: ports_same_def emit_def igmp_join_group_def igmp_leave_group_def upd_group_def split: option.split)

lemma ports_connect: "xtcpd_connect l p a pr s = Some s' \<Longrightarrow> ports_same s s'"
proof -
  have c: "uip_connect x q s = Some (u, w) \<Longrightarrow> ports_same s u" for x q u w
    by (auto simp: uip_connect_def Let_def bind_eq_Some_conv ports_same_def upd_conn_def split: option.splits)
  have n: "uip_udp_new x q s = Some (u, w) \<Longrightarrow> ports_same s u" for x q u w
    by (auto simp: uip_udp_new_def Let_def bind_eq_Some_conv ports_same_def upd_udp_def split: option.splits)
  show "xtcpd_connect l p a pr s = Some s' \<Longrightarrow> ports_same s s'"
    by (auto simp: xtcpd_connect_def Let_def split: prod.splits option.splits if_splits intro!: ports_upd_xstate dest: c n)
qed

lemma ports_bind: "xtcpd_bind_local conn_id p s = Some s' \<Longrightarrow> ports_same s s'"
    "xtcpd_bind_remote conn_id a p s = Some s' \<Longrightarrow> ports_same s s'"
  by (auto simp: xtcpd_bind_local_def xtcpd_bind_remote_def Let_def
      split: option.splits conn_ref.splits prod.splits if_splits intro!: ports_intro)

lemma ports_cmd:
  assumes "handle_xtcp_cmd i cmd conn_id s = Some s'"
    and "\<And>port p. cmd \<noteq> CMD_LISTEN port p" and "\<And>port. cmd \<noteq> CMD_UNLISTEN port"
  shows "ports_same s s'"
proof (cases cmd)
  case (CMD_SET_POLL_INTERVAL p)
  with assms(1) show ?thesis
    by (auto simp: handle_xtcp_cmd_def xtcpd_set_poll_interval_def split: option.splits intro!: ports_intro)
qed (use assms in \<open>auto simp: handle_xtcp_cmd_def cmd_on_conn_defs xtcpd_join_group_def xtcpd_leave_group_def
    split: prod.splits intro!: ports_intro dest: ports_connect ports_bind\<close>)

text \<open>
  C25. The ports the TCP stack listens on are exactly the ports of the registered listeners, each once, and a command of a client
  keeps this so, provided that it does not name port 0, in LISTEN or in UNLISTEN, and that a LISTEN is not for a port that is
  already registered.
\<close>

theorem listening_ports_agree:
  assumes inv: "ports_inv s" and ok: "listen_ok cmd s" and run: "handle_xtcp_cmd i cmd conn_id s = Some s'"
  shows "ports_inv s'"
proof -
  consider (listen) port p where "cmd = CMD_LISTEN port p" | (unlisten) port where "cmd = CMD_UNLISTEN port"
    | (other) "\<And>port p. cmd \<noteq> CMD_LISTEN port p" "\<And>port. cmd \<noteq> CMD_UNLISTEN port" by blast
  then show ?thesis
  proof cases
    case listen
    with run ok ports_inv_listen [OF inv] show ?thesis by (auto simp: handle_xtcp_cmd_def)
  next
    case unlisten
    with run ok ports_inv_unlisten [OF inv] show ?thesis by (auto simp: handle_xtcp_cmd_def)
  next
    case other
    from ports_cmd [OF run other] ports_inv_cong [OF _ _ inv] show ?thesis unfolding ports_same_def by blast
  qed
qed

theorem listening_ports_agree_witness:
  "ports_inv (xtcpd_listen 0 8080 XTCP_PROTOCOL_TCP (sample_xtcp [zero_tcp_conn] []))"
proof -
  let ?s = "sample_xtcp [zero_tcp_conn] []"
  have ports: "net_port 8080 = 36895" "htons 80 = 20480" by code_simp+
  have "count (stack_ports (uip_listenports ?s)) p \<le> 1" for p
    by (simp add: sample_defs stack_ports_def ports)
  moreover have "ports_agree ?s"
    by (simp add: sample_defs ports_agree_def active_ports_def stack_ports_def ports)
  ultimately have "ports_inv ?s" by (simp add: ports_inv_def)
  moreover have "listen_ok (CMD_LISTEN 8080 XTCP_PROTOCOL_TCP) ?s"
    by (simp add: sample_defs active_ports_def ports)
  moreover have "handle_xtcp_cmd 0 (CMD_LISTEN 8080 XTCP_PROTOCOL_TCP) 0 ?s = Some (xtcpd_listen 0 8080 XTCP_PROTOCOL_TCP ?s)"
    by (simp add: handle_xtcp_cmd_def)
  ultimately show ?thesis by (rule listening_ports_agree)
qed

text \<open>
  What happens otherwise: UNLISTEN drops every registration of the port, but the stack stops listening only once, so that a
  port that was opened twice stays open without a listener; and port 0 is registered, but the stack does not listen on it.
\<close>

definition two_listeners :: xtcp_st where
  "two_listeners = (sample_xtcp [zero_tcp_conn] [])\<lparr>uip_listenports := [0, 0],
     tcp_listeners := replicate 2 \<lparr>li_active = False, li_port_number = 0, li_linknum = 0\<rparr>\<rparr>"

lemma double_listen:
  "let s = xtcpd_unlisten 0 8080 (xtcpd_listen 0 8080 XTCP_PROTOCOL_TCP (xtcpd_listen 0 8080 XTCP_PROTOCOL_TCP two_listeners))
   in active_ports (tcp_listeners s) = {#} \<and> uip_listenports s = [0, net_port 8080]"
  by (simp add: two_listeners_def xtcpd_listen_def xtcpd_unlisten_def register_listener_def unregister_listener_def uip_listen_def
      uip_unlisten_def port_listen_def port_unlisten_def upd_first_def active_ports_def Let_def numeral_2_eq_2 net_port_def htons_def)

lemma listen_port_zero:
  "let s = xtcpd_listen 0 0 XTCP_PROTOCOL_TCP two_listeners
   in active_ports (tcp_listeners s) = {#0#} \<and> stack_ports (uip_listenports s) = {#}"
  by (simp add: two_listeners_def xtcpd_listen_def register_listener_def uip_listen_def
      port_listen_def upd_first_def active_ports_def stack_ports_def Let_def numeral_2_eq_2 net_port_def htons_def)

end
