(* ===== verification/Uip_Server.thy ===== *)
theory Uip_Server
  imports Xtcp_Ids Uip_Split
begin

text \<open>
  The server around the stack: \<^verbatim>\<open>uip_server_support.c\<close> (initialisation, the handlers of packets and
  timers, the callbacks of the address configuration, the link state) and the main loop of
  \<^verbatim>\<open>uip_single_server.xc\<close>, in the configuration with DHCP and link-local addresses. Frames handed to the
  MAC layer are appended to \<open>mac_tx\<close>.
\<close>

section \<open>State\<close>

record xtcp_ipconfig =
  ic_ipaddr :: word4
  ic_netmask :: word4
  ic_gateway :: word4

record server_st = xtcp_st +
  dhcp_done :: bool
  uip_static_ip :: bool
  uip_static_ipconfig :: xtcp_ipconfig
  mac_tx :: "u8 list list"
  linkstate :: bool
  arp_timer :: u32
  autoip_timer :: u32

text \<open>The address in the bytes that \<^verbatim>\<open>uip_ipaddr_copy\<close> reads as two 16-bit words.\<close>

definition ip_of_bytes :: "word4 \<Rightarrow> ipaddr" where
  "ip_of_bytes w = (case w of (a, b, c, d) \<Rightarrow> (le16 a b, le16 c d))"

section \<open>Output\<close>

definition xtcp_tx_buffer :: "'a server_st_scheme \<Rightarrow> 'a server_st_scheme" where
  "xtcp_tx_buffer s = (case uip_split_output s of (s, fs) \<Rightarrow> s\<lparr>uip_len := 0, mac_tx := mac_tx s @ fs\<rparr>)"

text \<open>\<^verbatim>\<open>if (uip_len > 0) { uip_arp_out (conn); xtcp_tx_buffer (mac_tx); }\<close>\<close>

definition send_pending :: "nat option \<Rightarrow> 'a server_st_scheme \<Rightarrow> 'a server_st_scheme" where
  "send_pending conn s = (if 0 < uip_len s then xtcp_tx_buffer (uip_arp_out conn s) else s)"

section \<open>Address configuration\<close>

definition dhcpc_configured :: "dhcpc_state \<Rightarrow> 'a server_st_scheme \<Rightarrow> 'a server_st_scheme" where
  "dhcpc_configured d s =
     (uip_xtcp_up ((autoip_stop s)\<lparr>uip_hostaddr := dh_ipaddr d, uip_draddr := dh_default_router d,
        uip_netmask := dh_netmask d\<rparr>))\<lparr>dhcp_done := True\<rparr>"

definition autoip_configured :: "ipaddr \<Rightarrow> 'a server_st_scheme \<Rightarrow> 'a server_st_scheme" where
  "autoip_configured a s =
     (if \<not> dhcp_done s
      then uip_xtcp_up (s\<lparr>uip_hostaddr := a, uip_netmask := mk_ipaddr 255 255 0 0, uip_draddr := mk_ipaddr 0 0 0 0\<rparr>)
      else s)"

definition uip_linkup :: "'a server_st_scheme \<Rightarrow> 'a server_st_scheme" where
  "uip_linkup s0 =
     (let s = (if uip_ifstate s0 \<noteq> 0 then uip_xtcp_down s0 else s0); c = uip_static_ipconfig s in
      if uip_static_ip s
      then uip_xtcp_up (s\<lparr>uip_hostaddr := ip_of_bytes (ic_ipaddr c), uip_draddr := ip_of_bytes (ic_gateway c),
             uip_netmask := ip_of_bytes (ic_netmask c)\<rparr>)
      else dhcpc_start (autoip_stop (dhcpc_stop (s\<lparr>dhcp_done := False\<rparr>))))"

definition uip_linkdown :: "'a server_st_scheme \<Rightarrow> 'a server_st_scheme" where
  "uip_linkdown s = uip_xtcp_down (autoip_stop (dhcpc_stop (s\<lparr>dhcp_done := False\<rparr>)))"

text \<open>The seed of the link-local address generator is computed in 32-bit arithmetic.\<close>

definition autoip_seed :: "u8 list \<Rightarrow> u32" where
  "autoip_seed mac = (let hwsum = sum_list (map ucast (take 6 mac)) in hwsum + push_bit 16 hwsum + push_bit 24 hwsum)"

definition uip_server_init ::
  "nat \<Rightarrow> xtcp_ipconfig option \<Rightarrow> u8 list \<Rightarrow> 'a server_st_scheme \<Rightarrow> 'a server_st_scheme option" where
  "uip_server_init num_xtcp ipconfig mac s =
     (let s = (case ipconfig of None \<Rightarrow> s | Some c \<Rightarrow> s\<lparr>uip_static_ipconfig := c\<rparr>);
          s = uip_init (s\<lparr>uip_ethaddr := take 6 mac\<rparr>);
          s = (if cfg_igmp s then igmp_init s else s);
          s = (case ipconfig of None \<Rightarrow> s
               | Some c \<Rightarrow> if ic_ipaddr c \<noteq> (0, 0, 0, 0) then s\<lparr>uip_static_ip := True\<rparr> else s);
          s = (case ipconfig of
                 None \<Rightarrow> s\<lparr>uip_hostaddr := mk_ipaddr 0 0 0 0, uip_draddr := mk_ipaddr 0 0 0 0, uip_netmask := mk_ipaddr 0 0 0 0\<rparr>
               | Some c \<Rightarrow> s\<lparr>uip_hostaddr := ip_of_bytes (ic_ipaddr c), uip_draddr := ip_of_bytes (ic_gateway c),
                   uip_netmask := ip_of_bytes (ic_netmask c)\<rparr>);
          s = autoip_init (autoip_seed mac) s
      in do {
        s \<leftarrow> dhcpc_init (uip_ethaddr s) 6 s;
        Some (xtcpd_init num_xtcp s)
      })"

section \<open>Handlers\<close>

text \<open>The loops over the connection tables stop when the server waits forever.\<close>

fun for_each :: "(nat \<Rightarrow> 's \<Rightarrow> 's option) \<Rightarrow> nat list \<Rightarrow> 's \<Rightarrow> 's option" where
  "for_each f [] s = Some s"
| "for_each f (i # is) s = Option.bind (f i s) (for_each f is)"

definition server_env :: "'a server_st_scheme \<Rightarrow> 'a server_st_scheme uip_env" where
  "server_env s = xtcp_env (cfg_igmp s) dhcpc_configured"

definition needs_poll :: "conn_ref \<Rightarrow> 'a uip_st_scheme \<Rightarrow> bool" where
  "needs_poll r s \<longleftrightarrow> (let x = xd_s (xstate r s) in
     xs_connect_request x \<or> xs_send_request x \<noteq> 0 \<or> xs_abort_request x \<or> xs_close_request x \<or> xs_ack_request x)"

definition xtcpd_check_connection_poll :: "'a server_st_scheme \<Rightarrow> 'a server_st_scheme option" where
  "xtcpd_check_connection_poll s = do {
     s \<leftarrow> for_each (\<lambda>i s. if needs_poll (TcpRef i) s
            then map_option (send_pending None) (uip_poll_conn (server_env s) i s) else Some s)
          [0..<length (uip_conns s)] s;
     for_each (\<lambda>j s. if needs_poll (UdpRef j) s
            then map_option (send_pending (Some j)) (uip_udp_periodic (server_env s) j s) else Some s)
          [0..<length (uip_udp_conns s)] s
   }"

text \<open>
  \<^verbatim>\<open>uip_arp_ipin\<close> is an empty macro, so that \<^verbatim>\<open>uip_len\<close> still counts the Ethernet header when the packet is
  processed.
\<close>

definition xtcp_process_incoming_packet :: "nat \<Rightarrow> 'a server_st_scheme \<Rightarrow> 'a server_st_scheme option" where
  "xtcp_process_incoming_packet len s =
     (if rd16 (uip_buf s) 12 = htons 0x0800 then
        map_option (\<lambda>s. send_pending
          (if uip_udpconnection s \<and> uip_buf s B_proto \<noteq> UIP_PROTO_ICMP \<and> uip_buf s B_proto \<noteq> UIP_PROTO_IGMP
           then uip_udp_conn s else None) s) (uip_input (server_env s) (s\<lparr>uip_len := of_nat len\<rparr>))
      else if rd16 (uip_buf s) 12 = htons 0x0806 then
        (let s = uip_arp_arpin autoip_arp_in (s\<lparr>uip_len := of_nat len\<rparr>);
             s = (if 0 < uip_len s then xtcp_tx_buffer s else s)
         in for_each (\<lambda>j s. map_option (send_pending (Some j)) (uip_udp_arp_event (server_env s) j s))
              [0..<length (uip_udp_conns s)] s)
      else Some s)"

definition xtcp_process_udp_acks :: "'a server_st_scheme \<Rightarrow> 'a server_st_scheme option" where
  "xtcp_process_udp_acks s =
     for_each (\<lambda>j s. if uip_udp_conn_has_ack (uconn s j)
            then map_option (send_pending (Some j)) (uip_udp_ackdata (server_env s) j s) else Some s)
       [0..<length (uip_udp_conns s)] s"

definition xtcp_process_periodic_timer :: "'a server_st_scheme \<Rightarrow> 'a server_st_scheme option" where
  "xtcp_process_periodic_timer s =
     (let s = (if cfg_igmp s
               then (let s = igmp_periodic (clock s) s in if 0 < uip_len s then xtcp_tx_buffer s else s) else s)
      in do {
        s \<leftarrow> for_each (\<lambda>j s. map_option (send_pending (Some j)) (uip_udp_periodic (server_env s) j s))
             [0..<length (uip_udp_conns s)] s;
        for_each (\<lambda>i s. map_option (send_pending None) (uip_periodic (server_env s) i s))
             [0..<length (uip_conns s)] s
      })"

section \<open>The main loop\<close>

text \<open>
  What the \<^verbatim>\<open>select\<close> of the main loop finds: nothing, the timer (with the state of the link), or packets in
  the receive buffers, each the memory of the buffer and the length of the frame.
\<close>

datatype server_event = NoEvent | TimerEvent bool | PacketsEvent "(u8 list \<times> nat) list"

definition copy_packet :: "u8 list \<Rightarrow> nat \<Rightarrow> mem \<Rightarrow> mem" where
  "copy_packet bytes len b = wrs 0 (take (4 * ((len + 3) div 4)) bytes) b"

definition check_link :: "bool \<Rightarrow> 'a server_st_scheme \<Rightarrow> 'a server_st_scheme" where
  "check_link status s =
     (let s = (if \<not> status \<and> linkstate s then uip_linkdown s else s);
          s = (if status \<and> \<not> linkstate s then uip_linkup s else s)
      in s\<lparr>linkstate := status\<rparr>)"

definition server_arp_tick :: "'a server_st_scheme \<Rightarrow> 'a server_st_scheme" where
  "server_arp_tick s =
     (let s = s\<lparr>arp_timer := arp_timer s + 1\<rparr>
      in if arp_timer s = 100 then uip_arp_timer (s\<lparr>arp_timer := 0\<rparr>) else s)"

definition server_autoip_tick :: "'a server_st_scheme \<Rightarrow> 'a server_st_scheme" where
  "server_autoip_tick s =
     (let s = s\<lparr>autoip_timer := autoip_timer s + 1\<rparr>
      in if autoip_timer s = 5
         then (let s = autoip_periodic autoip_configured (clock s) (s\<lparr>autoip_timer := 0\<rparr>)
               in if 0 < uip_len s then xtcp_tx_buffer s else s)
         else s)"

fun receive_packets :: "(u8 list \<times> nat) list \<Rightarrow> 'a server_st_scheme \<Rightarrow> 'a server_st_scheme option" where
  "receive_packets [] s = Some s"
| "receive_packets ((bytes, len) # ps) s = do {
     s \<leftarrow> (if len \<le> UIP_BUFSIZE
          then xtcp_process_incoming_packet len (s\<lparr>uip_buf := copy_packet bytes len (uip_buf s)\<rparr>) else Some s);
     receive_packets ps s
   }"

definition server_step :: "server_event \<Rightarrow> 'a server_st_scheme \<Rightarrow> 'a server_st_scheme option" where
  "server_step ev s = do {
     s \<leftarrow> xtcpd_service_clients s;
     s \<leftarrow> xtcpd_check_connection_poll s;
     s \<leftarrow> xtcp_process_udp_acks (uip_xtcp_checkstate s);
     case ev of
       NoEvent \<Rightarrow> Some s
     | TimerEvent status \<Rightarrow> xtcp_process_periodic_timer (server_autoip_tick (server_arp_tick (check_link status s)))
     | PacketsEvent ps \<Rightarrow> receive_packets ps s
   }"

section \<open>The interfaces of the components\<close>

lemma server_up_sel:
  "autoip (autoip_configured a s) = autoip s" "uip_conns (dhcpc_configured d s) = uip_conns s"
  "uip_conn (dhcpc_configured d s) = uip_conn s" "uip_udp_conns (dhcpc_configured d s) = uip_udp_conns s"
  "dhcp (dhcpc_configured d s) = dhcp s" "uip_hostaddr (dhcpc_configured d s) = dh_ipaddr d"
  by (simp_all add: autoip_configured_def dhcpc_configured_def uip_xtcp_up_def autoip_stop_def)

interpretation aip: autoip_client autoip_configured
  by unfold_locales (rule server_up_sel)

interpretation server: xtcp_callback dhcpc_configured
  by unfold_locales (rule server_up_sel)+

text \<open>
  C36. Duplicate address detection: a link-local address is announced and configured only after three probes
  for it have been sent, and only if no ARP packet that arrived since it was picked came from
  that address; with the callback of this server.
\<close>

theorem autoip_claims_free_address:
  assumes "autoip_reach autoip_configured heard s"
    and "ai_state (autoip s) = ANNOUNCING \<or> ai_state (autoip s) = CONFIGURED"
  shows "ai_ipaddr (autoip s) \<notin> set heard \<and> ai_probes_sent (autoip s) = 3 \<and> link_local (ai_ipaddr (autoip s))"
  using assms by (rule aip.claims_free_address)

definition sample_server :: "tcp_conn list \<Rightarrow> (u32 \<times> client_tok option) list \<Rightarrow> server_st" where
  "sample_server cs ps = xtcp_st.extend (sample_xtcp cs ps)
     \<lparr>dhcp_done = False, uip_static_ip = False,
      uip_static_ipconfig = \<lparr>ic_ipaddr = (0, 0, 0, 0), ic_netmask = (0, 0, 0, 0), ic_gateway = (0, 0, 0, 0)\<rparr>,
      mac_tx = [], linkstate = False, arp_timer = 0, autoip_timer = 0\<rparr>"

lemmas server_sample_defs = sample_server_def sample_defs xtcp_st.defs

lemma reach_run: "autoip_reach conf h s \<Longrightarrow> ai_state (autoip s) = NO_ADDRESS \<Longrightarrow> \<exists>h'. autoip_reach conf h' (autoip_run conf ts s)"
proof -
  have "autoip_reach conf h s \<Longrightarrow> \<exists>h'. autoip_reach conf h' (autoip_run conf ts s)" for h s
    by (induction ts arbitrary: h s) (auto simp: autoip_run_def intro: autoip_reach.periodic)
  then show "autoip_reach conf h s \<Longrightarrow> ?thesis" .
qed

text \<open>The callback is called in the last of the states only, and leaves the mark of DHCP alone.\<close>

lemma periodic_keeps:
  "dhcp_done (autoip_periodic autoip_configured now s) = dhcp_done s"
  "dhcp_done s \<Longrightarrow> uip_hostaddr (autoip_periodic autoip_configured now s) = uip_hostaddr s"
  by (simp_all add: autoip_periodic_def Let_def send_probe_def send_announce_def create_arp_packet_def autoip_configured_def
      uip_xtcp_up_def split: autoip_machine_state.split)

lemma run_keeps:
  "dhcp_done (autoip_run autoip_configured ts s) = dhcp_done s"
  "dhcp_done s \<Longrightarrow> uip_hostaddr (autoip_run autoip_configured ts s) = uip_hostaddr s"
  by (induction ts arbitrary: s) (simp_all add: autoip_run_def periodic_keeps)

text \<open>
  When no other host answers, seven calls of the periodic handler at least two seconds apart lead from no
  address to a configured link-local address: unless DHCP has already given an address, the host
  has the address that was picked, the mask 255.255.0.0, and the interface is up; an address
  from DHCP is left alone.
\<close>

theorem autoip_configures:
  assumes "autoip_reach autoip_configured heard s" and "ai_state (autoip s) = NO_ADDRESS"
    and "spaced t1 [t2, t3, t4, t5, t6, t7]"
  shows "let s' = autoip_run autoip_configured [t1, t2, t3, t4, t5, t6, t7] s; ip = picked_address (autoip s) in
    ai_state (autoip s') = CONFIGURED \<and> link_local ip \<and>
    (if dhcp_done s then uip_hostaddr s' = uip_hostaddr s
     else uip_hostaddr s' = ip \<and> uip_netmask s' = mk_ipaddr 255 255 0 0 \<and> uip_ifstate s' = 1)"
proof -
  let ?s' = "autoip_run autoip_configured [t1, t2, t3, t4, t5, t6, t7] s" and ?ip = "picked_address (autoip s)"
  obtain u where u: "?s' = autoip_configured ?ip u" "ai_state (autoip ?s') = CONFIGURED" "link_local ?ip"
    using aip.configures [OF assms] by auto
  have "dhcp_done u = dhcp_done s"
    using run_keeps(1) [of "[t1, t2, t3, t4, t5, t6, t7]" s] by (simp add: u(1) autoip_configured_def uip_xtcp_up_def split: if_splits)
  then show ?thesis
    using u run_keeps(2) [of s "[t1, t2, t3, t4, t5, t6, t7]"] by (simp add: Let_def autoip_configured_def uip_xtcp_up_def)
qed

definition sample_autoip :: server_st where
  "sample_autoip = autoip_start (autoip_init 0x01234567 (sample_server [] []))"

lemma sample_autoip_reach: "autoip_reach autoip_configured [] sample_autoip" "ai_state (autoip sample_autoip) = NO_ADDRESS"
  unfolding sample_autoip_def by (intro autoip_reach.start autoip_reach.init) (simp add: autoip_start_def autoip_init_def)

theorem autoip_configures_witness:
  "uip_hostaddr (autoip_run autoip_configured [0, 2000, 4000, 6000, 8000, 10000, 12000] sample_autoip) =
     picked_address (autoip sample_autoip)"
proof -
  have "spaced 0 [2000, 4000, 6000, 8000, 10000, 12000]" by simp
  moreover have "\<not> dhcp_done sample_autoip"
    by (simp add: sample_autoip_def autoip_start_def autoip_init_def server_sample_defs)
  ultimately show ?thesis
    using autoip_configures [OF sample_autoip_reach, of 0 2000 4000 6000 8000 10000 12000] by (simp add: Let_def)
qed

theorem autoip_claims_free_address_witness:
  "\<exists>(s :: server_st) heard. autoip_reach autoip_configured heard s \<and> ai_state (autoip s) = CONFIGURED \<and>
     ai_ipaddr (autoip s) \<notin> set heard \<and> link_local (ai_ipaddr (autoip s))"
proof -
  let ?s = "autoip_run autoip_configured [0, 2000, 4000, 6000, 8000, 10000, 12000] sample_autoip"
  have "spaced 0 [2000, 4000, 6000, 8000, 10000, 12000]" by simp
  from aip.configures [OF sample_autoip_reach this] have c: "ai_state (autoip ?s) = CONFIGURED" by auto
  obtain h where "autoip_reach autoip_configured h ?s" using reach_run [OF sample_autoip_reach] by blast
  from this autoip_claims_free_address [OF this] c show ?thesis by blast
qed

text \<open>
  C23. The address of the host comes from DHCP only by an acknowledgement: one call of the DHCP client
  changes it exactly when it waits for the answer to a request (or to a renewal) and the packet
  is a DHCPACK that carries our transaction identifier and hardware address; the new address is
  then the \<^verbatim>\<open>yiaddr\<close> of this message.
\<close>

theorem dhcp_address_from_ack:
  assumes "dhcp_inv (dhcp s)"
  shows "uip_hostaddr (handle_dhcp dhcpc_configured rnd now s) =
    (if dh_pt (dhcp s) \<in> {PT_REQUEST, PT_RENEW} \<and> uip_flags s AND UIP_NEWDATA \<noteq> 0 \<and> msg_for_me s = 5
     then rdip (uip_buf s) (uip_appdata s + 16) else uip_hostaddr s)"
  using assms by (rule server.host_exact)

text \<open>
  The retry timers of the DHCP client stay bounded in every reachable state: it waits less than 8192
  milliseconds before the first message, retries a discovery after 1, 2, 4, \<open>\<dots>\<close> and never more than 64
  seconds, and a request after 1, 2, \<open>\<dots>\<close> 11 seconds; every waiting place of the protothread goes with
  the state it belongs to.
\<close>

theorem dhcp_timers_bounded:
  assumes "dhcp_reach dhcpc_configured s"
  shows "dhcp_inv (dhcp s)"
  using assms by (rule server.reach_inv)

definition ack_message :: "u8 list" where
  "ack_message = [2, 1, 6, 0, 0x97, 1, 2, 3, 0, 0, 0, 0, 0, 0, 0, 0, 192, 168, 0, 77] @ replicate 8 0 @
     [0, 0x22, 0x97, 1, 2, 3] @ replicate 202 0 @ [99, 130, 83, 99, 53, 1, 5, 255]"

definition sample_request :: server_st where
  "sample_request = (sample_server [] [])\<lparr>uip_flags := UIP_NEWDATA, uip_len := 244, uip_appdata := 42,
     uip_buf := wrs 42 ack_message (\<lambda>_. 0),
     dhcp := sample_dhcp\<lparr>dh_pt := PT_REQUEST, dh_state := STATE_OFFER_RECEIVED, dh_ticks := 1000,
       dh_timer := timer_set 0 1000\<rparr>\<rparr>"

lemma sample_request_ack: "msg_for_me sample_request = 5" "rdip (uip_buf sample_request) 58 = (le16 192 168, le16 0 77)"
  by code_simp+

theorem dhcp_address_from_ack_witness:
  "uip_hostaddr (handle_dhcp dhcpc_configured 0 7 sample_request) = (le16 192 168, le16 0 77)"
proof -
  have "dhcp_inv (dhcp sample_request)" "dh_pt (dhcp sample_request) = PT_REQUEST"
    "uip_flags sample_request AND UIP_NEWDATA \<noteq> 0" "uip_appdata sample_request = 42"
    by (simp_all add: sample_request_def dhcp_inv_def timer_set_def)
  with dhcp_address_from_ack [of sample_request 0 7] sample_request_ack show ?thesis by simp
qed

theorem dhcp_timers_bounded_witness:
  "\<exists>s. dhcp_reach dhcpc_configured s \<and> dh_pt (dhcp s) = PT_INITWAIT \<and> dhcp_inv (dhcp (s :: server_st))"
proof -
  have "dhcpc_init (uip_ethaddr sample_request) 6 sample_request \<noteq> None"
    by code_simp
  then obtain s0 :: server_st where s0: "dhcp_reach dhcpc_configured s0" by (auto intro: dhcp_reach.init)
  define s where "s = handle_dhcp dhcpc_configured 5000 7 (dhcpc_start s0)"
  have "dhcp_reach dhcpc_configured s" unfolding s_def by (intro dhcp_reach.call dhcp_reach.start s0)
  moreover have "dh_pt (dhcp s) = PT_INITWAIT"
    by (simp add: s_def handle_dhcp_def dhcpc_start_def uip_udp_listen_def dhcp_initwait_def dh_arm_def Let_def)
  ultimately show ?thesis using dhcp_timers_bounded by blast
qed

section \<open>The state of the interface\<close>

lemma checkstate_step_effect:
  assumes "i < length (prev_ifstate s)" and "i < length (pending_event s)" and "i < length (notified s)"
  shows "let s' = checkstate_step i s in uip_ifstate s' = uip_ifstate s \<and> xtcp_num s' = xtcp_num s \<and>
    length (prev_ifstate s') = length (prev_ifstate s) \<and> length (pending_event s') = length (pending_event s) \<and>
    length (notified s') = length (notified s) \<and> prev_ifstate s' ! i = uip_ifstate s \<and>
    (prev_ifstate s ! i \<noteq> uip_ifstate s \<longrightarrow> notified s' ! i \<and>
       pending_event s' ! i = Some (if uip_ifstate s \<noteq> 0 then XTCP_IFUP else XTCP_IFDOWN)) \<and>
    (prev_ifstate s ! i = uip_ifstate s \<longrightarrow> s' = s) \<and>
    (\<forall>j. j \<noteq> i \<longrightarrow> prev_ifstate s' ! j = prev_ifstate s ! j \<and> pending_event s' ! j = pending_event s ! j \<and>
       notified s' ! j = notified s ! j)"
  using assms
  by (auto simp: checkstate_step_def uip_xtcpd_send_config_def xtcpd_queue_event_def set_notified_def emit_def Let_def)

text \<open>
  Every client learns the state of the interface: after \<^verbatim>\<open>uip_xtcp_checkstate\<close>, each client whose last
  reported state differs from the present one has the event of the present state pending and has
  been notified; the other clients are left alone. In particular an event that is overwritten before
  the client took it is replaced by the one of the newer state.
\<close>

theorem interface_change_queued:
  assumes "xtcp_num s \<le> length (prev_ifstate s)" and "xtcp_num s \<le> length (pending_event s)" and "xtcp_num s \<le> length (notified s)"
    and "i < xtcp_num s"
  shows "prev_ifstate (uip_xtcp_checkstate s) ! i = uip_ifstate s \<and>
    (if prev_ifstate s ! i \<noteq> uip_ifstate s
     then notified (uip_xtcp_checkstate s) ! i \<and>
       pending_event (uip_xtcp_checkstate s) ! i = Some (if uip_ifstate s \<noteq> 0 then XTCP_IFUP else XTCP_IFDOWN)
     else notified (uip_xtcp_checkstate s) ! i = notified s ! i \<and> pending_event (uip_xtcp_checkstate s) ! i = pending_event s ! i)"
proof -
  have "n \<le> xtcp_num s \<Longrightarrow> let s' = fold checkstate_step [0..<n] s in uip_ifstate s' = uip_ifstate s \<and>
      length (prev_ifstate s') = length (prev_ifstate s) \<and> length (pending_event s') = length (pending_event s) \<and>
      length (notified s') = length (notified s) \<and>
      (i < n \<longrightarrow> prev_ifstate s' ! i = uip_ifstate s \<and> (prev_ifstate s ! i \<noteq> uip_ifstate s \<longrightarrow> notified s' ! i \<and>
         pending_event s' ! i = Some (if uip_ifstate s \<noteq> 0 then XTCP_IFUP else XTCP_IFDOWN))) \<and>
      (n \<le> i \<or> prev_ifstate s ! i = uip_ifstate s \<longrightarrow> prev_ifstate s' ! i = prev_ifstate s ! i \<and>
         pending_event s' ! i = pending_event s ! i \<and> notified s' ! i = notified s ! i)" for n
  proof (induction n)
    case (Suc n)
    let ?u = "fold checkstate_step [0..<n] s"
    from Suc have IH: "uip_ifstate ?u = uip_ifstate s" "length (prev_ifstate ?u) = length (prev_ifstate s)"
      "length (pending_event ?u) = length (pending_event s)" "length (notified ?u) = length (notified s)"
      "i < n \<Longrightarrow> prev_ifstate ?u ! i = uip_ifstate s"
      "i < n \<Longrightarrow> prev_ifstate s ! i \<noteq> uip_ifstate s \<Longrightarrow> notified ?u ! i \<and>
         pending_event ?u ! i = Some (if uip_ifstate s \<noteq> 0 then XTCP_IFUP else XTCP_IFDOWN)"
      "n \<le> i \<or> prev_ifstate s ! i = uip_ifstate s \<Longrightarrow> prev_ifstate ?u ! i = prev_ifstate s ! i \<and>
         pending_event ?u ! i = pending_event s ! i \<and> notified ?u ! i = notified s ! i"
      by (auto simp: Let_def)
    have "n < length (prev_ifstate ?u)" "n < length (pending_event ?u)" "n < length (notified ?u)"
      using Suc.prems assms(1,2,3) IH(2,3,4) by simp_all
    from checkstate_step_effect [OF this] IH show ?case
      by (cases "i = n") (auto simp: Let_def less_Suc_eq)
  qed (simp add: Let_def)
  from this [of "xtcp_num s"] assms(4) show ?thesis by (simp add: uip_xtcp_checkstate_def Let_def)
qed

theorem interface_change_queued_witness:
  "pending_event (uip_xtcp_checkstate (uip_xtcp_up (sample_server [] []))) ! 1 = Some XTCP_IFUP"
proof -
  have "1 < xtcp_num (uip_xtcp_up (sample_server [] []))" "prev_ifstate (uip_xtcp_up (sample_server [] [])) ! 1 \<noteq> uip_ifstate (uip_xtcp_up (sample_server [] []))"
    "uip_ifstate (uip_xtcp_up (sample_server [] [])) \<noteq> 0"
    by (simp_all add: uip_xtcp_up_def server_sample_defs)
  with interface_change_queued [of "uip_xtcp_up (sample_server [] [])" 1] show ?thesis
    by (simp add: uip_xtcp_up_def server_sample_defs)
qed

end
