(* ===== verification/Uip_Moves.thy ===== *)
theory Uip_Moves
  imports Uip_Server
begin

text \<open>
  The TCP state diagram for the whole server. Whatever one turn of the main loop does (serving clients,
  packets, timers, link changes, configuration), it changes connections only by calling the stack and by serving the clients, and
  each of these calls moves every connection along at most one transition of the diagram.
\<close>

text \<open>
  The calls that may change connections: the entry points of the stack, with the environment of the server, and the service of
  the clients; everything else leaves the table of connections as it is.
\<close>

inductive tcp_call :: "'a server_st_scheme \<Rightarrow> 'a server_st_scheme \<Rightarrow> bool" where
  input: "uip_input (server_env t) s = Some s' \<Longrightarrow> tcp_call s s'"
| poll: "uip_poll_conn (server_env t) i s = Some s' \<Longrightarrow> i < length (uip_conns s) \<Longrightarrow> tcp_call s s'"
| periodic: "uip_periodic (server_env t) i s = Some s' \<Longrightarrow> i < length (uip_conns s) \<Longrightarrow> tcp_call s s'"
| udp_periodic: "uip_udp_periodic (server_env t) j s = Some s' \<Longrightarrow> tcp_call s s'"
| udp_arp_event: "uip_udp_arp_event (server_env t) j s = Some s' \<Longrightarrow> tcp_call s s'"
| udp_ackdata: "uip_udp_ackdata (server_env t) j s = Some s' \<Longrightarrow> tcp_call s s'"
| clients: "xtcpd_service_clients s = Some s' \<Longrightarrow> tcp_call s s'"
| other: "uip_conns s' = uip_conns s \<Longrightarrow> tcp_call s s'"

definition tcp_moves :: "'a server_st_scheme \<Rightarrow> 'a server_st_scheme \<Rightarrow> bool" where
  "tcp_moves = tcp_call\<^sup>*\<^sup>*"

named_theorems moves_intro \<open>operations that move connections along the diagram\<close>

lemma moves_step [moves_intro]: "tcp_call s s' \<Longrightarrow> tcp_moves s s'"
  by (simp add: tcp_moves_def)

lemma moves_same [moves_intro]: "uip_conns s' = uip_conns s \<Longrightarrow> tcp_moves s s'"
  by (intro moves_step tcp_call.other)

lemma moves_trans: "tcp_moves s t \<Longrightarrow> tcp_moves t u \<Longrightarrow> tcp_moves s u"
  by (simp add: tcp_moves_def)

text \<open>The table of connections may change in ways that do not matter before and after.\<close>

lemma moves_around:
  fixes s t s0 t' :: "'a server_st_scheme"
  shows "tcp_moves s t \<Longrightarrow> uip_conns s0 = uip_conns s \<Longrightarrow> uip_conns t = uip_conns t' \<Longrightarrow> tcp_moves s0 t'"
proof -
  assume m: "tcp_moves s t" and a: "uip_conns s0 = uip_conns s" and b: "uip_conns t = uip_conns t'"
  have "tcp_moves s0 s" by (rule moves_same) (simp add: a)
  moreover have "tcp_moves t t'" by (rule moves_same) (simp add: b)
  ultimately show ?thesis using m by (blast intro: moves_trans)
qed

section \<open>Operations that leave the connections alone\<close>

named_theorems conns_kept \<open>operations that leave the TCP connections alone\<close>

lemma split_conns [conns_kept]: "uip_conns (fst (uip_split_output s)) = uip_conns s"
  by (simp add: uip_split_output_def uip_split_output_send_def xcoredev_send_def Let_def)

lemma tx_conns [conns_kept]: "uip_conns (xtcp_tx_buffer s) = uip_conns s"
  using split_conns [of s] by (cases "uip_split_output s") (simp add: xtcp_tx_buffer_def)

lemma arp_conns [conns_kept]: "uip_conns (uip_arp_out c s) = uip_conns s"
  "(\<And>t. uip_conns (h t) = uip_conns t) \<Longrightarrow> uip_conns (uip_arp_arpin h s) = uip_conns s"
  "uip_conns (uip_arp_timer s) = uip_conns s"
  by (auto simp: uip_arp_out_def udp_mark_def Let_def uip_arp_arpin_def uip_arp_timer_def uip_arp_update_def split: option.split)

lemma pending_conns [conns_kept]: "uip_conns (send_pending c s) = uip_conns s"
  by (simp add: send_pending_def conns_kept)

lemma autoip_conns [conns_kept]: "uip_conns (autoip_arp_in s) = uip_conns s" "uip_conns (autoip_start s) = uip_conns s"
  "uip_conns (autoip_stop s) = uip_conns s" "uip_conns (autoip_configured a t) = uip_conns t"
  "uip_conns (send_probe now s) = uip_conns s" "uip_conns (send_announce now s) = uip_conns s"
  by (simp_all add: autoip_arp_in_def autoip_start_def autoip_init_def autoip_stop_def autoip_configured_def
      uip_xtcp_up_def send_probe_def send_announce_def create_arp_packet_def Let_def)

lemma autoip_periodic_conns [conns_kept]: "uip_conns (autoip_periodic autoip_configured now s) = uip_conns s"
  by (simp add: autoip_periodic_def Let_def conns_kept split: autoip_machine_state.split)

lemma igmp_conns [conns_kept]: "uip_conns (igmp_periodic now s) = uip_conns s"
proof -
  have g: "uip_conns (igmp_group_periodic now i t) = uip_conns t" for i and t :: "'a igmp_st_scheme"
    by (simp add: igmp_group_periodic_def upd_group_def send_membership_report_def send_leave_group_def
        create_igmp_msg_def Let_def split: igmp_state.split)
  have "uip_conns (igmp_periodic_loop now i n t) = uip_conns t" for i n and t :: "'a igmp_st_scheme"
    by (induction n arbitrary: i t) (simp_all add: g Let_def)
  then show ?thesis by (simp add: igmp_periodic_def)
qed

lemma link_conns [conns_kept]: "uip_conns (check_link b s) = uip_conns s"
  by (simp add: check_link_def uip_linkup_def uip_linkdown_def dhcpc_start_def dhcpc_stop_def uip_udp_listen_def
      uip_udp_unlisten_def uip_xtcp_up_def uip_xtcp_down_def autoip_stop_def Let_def)

lemma tick_conns [conns_kept]: "uip_conns (server_arp_tick s) = uip_conns s" "uip_conns (server_autoip_tick s) = uip_conns s"
  by (simp_all add: server_arp_tick_def server_autoip_tick_def Let_def conns_kept)

lemma checkstate_conns [conns_kept]: "uip_conns (uip_xtcp_checkstate s) = uip_conns s"
proof -
  have "uip_conns (checkstate_step i t) = uip_conns t" for i and t :: "'a xtcp_st_scheme"
    by (simp add: checkstate_step_def uip_xtcpd_send_config_def xtcpd_queue_event_def set_notified_def emit_def Let_def)
  then have "uip_conns (fold checkstate_step is s) = uip_conns s" for "is"
    by (induction "is" arbitrary: s) simp_all
  then show ?thesis by (simp add: uip_xtcp_checkstate_def)
qed

section \<open>Calls of the stack\<close>

text \<open>One call, one transition of each connection.\<close>

lemma tcp_call_process: "tcp_call s s' \<Longrightarrow> process_table (uip_conns s) (uip_conns s')"
proof (induction rule: tcp_call.induct)
  case (input t s s')
  then show ?case by (auto simp: uip_input_def uip_process_def Let_def server_env_def dest: server.hooks.ip_input_process)
next
  case (poll t i s s')
  then show ?case using server.hooks.process_connections [of "cfg_igmp t" _ "s\<lparr>uip_conn := Some i\<rparr>" s']
    by (auto simp: uip_poll_conn_def server_env_def)
next
  case (periodic t i s s')
  then show ?case using server.hooks.process_connections [of "cfg_igmp t" _ "s\<lparr>uip_conn := Some i\<rparr>" s']
    by (auto simp: uip_periodic_def server_env_def)
next
  case (udp_periodic t j s s')
  then show ?case by (auto simp: uip_udp_periodic_def uip_process_def Let_def server_env_def
      dest!: server.hooks.udp_event_process app_process)
next
  case (udp_arp_event t j s s')
  then show ?case by (auto simp: uip_udp_arp_event_def uip_process_def Let_def server_env_def
      dest!: server.hooks.udp_event_process app_process)
next
  case (udp_ackdata t j s s')
  then show ?case by (auto simp: uip_udp_ackdata_def uip_process_def Let_def server_env_def
      dest!: server.hooks.udp_event_process app_process)
next
  case (clients s s')
  then show ?case using table.R_clients [of s s'] by (intro app_process) (simp add: stack_kept_def)
next
  case (other s' s)
  then show ?case by (rule same_process)
qed

lemma moves_length: "tcp_moves s s' \<Longrightarrow> length (uip_conns s') = length (uip_conns s)"
  unfolding tcp_moves_def
  by (induction rule: rtranclp_induct) (auto dest!: tcp_call_process simp: process_table_def list_all2_lengthD)

section \<open>The main loop\<close>

lemma for_each_moves:
  assumes "for_each f is s = Some s'"
    and "\<And>i t t'. i \<in> set is \<Longrightarrow> length (uip_conns s) = length (uip_conns t) \<Longrightarrow> f i t = Some t' \<Longrightarrow> tcp_moves t t'"
  shows "tcp_moves s s'"
  using assms
proof (induction "is" arbitrary: s)
  case Nil
  then show ?case by (simp add: moves_same)
next
  case (Cons i "is")
  then obtain t where t: "f i s = Some t" "for_each f is t = Some s'" by (auto simp: bind_eq_Some_conv)
  have "tcp_moves s t" using Cons.prems(2) [OF _ refl t(1)] by simp
  moreover have "tcp_moves t s'"
    by (rule Cons.IH [OF t(2)]) (use Cons.prems(2) moves_length [OF calculation] in auto)
  ultimately show ?case by (rule moves_trans)
qed

text \<open>A call of the stack and the output that follows it.\<close>

lemma pending_moves:
  assumes "map_option (send_pending c) x = Some t'" and "\<And>u. x = Some u \<Longrightarrow> tcp_call t u"
  shows "tcp_moves t t'"
proof -
  obtain u where "x = Some u" "t' = send_pending c u" using assms(1) by blast
  with moves_step [OF assms(2)] show ?thesis by (auto simp: pending_conns intro: moves_around)
qed

lemma if_pending_moves:
  assumes "(if b then map_option (send_pending c) x else Some t) = Some t'" and "\<And>u. x = Some u \<Longrightarrow> tcp_call t u"
  shows "tcp_moves t t'"
  using assms by (cases b) (auto intro: pending_moves moves_same)

lemma check_poll_moves:
  assumes "xtcpd_check_connection_poll s = Some s'"
  shows "tcp_moves s s'"
proof -
  from assms obtain t where t: "for_each (\<lambda>i s. if needs_poll (TcpRef i) s
        then map_option (send_pending None) (uip_poll_conn (server_env s) i s) else Some s) [0..<length (uip_conns s)] s = Some t"
    "for_each (\<lambda>j s. if needs_poll (UdpRef j) s
        then map_option (send_pending (Some j)) (uip_udp_periodic (server_env s) j s) else Some s) [0..<length (uip_udp_conns t)] t = Some s'"
    by (auto simp: xtcpd_check_connection_poll_def bind_eq_Some_conv)
  have "tcp_moves s t" by (rule for_each_moves [OF t(1)], erule if_pending_moves) (auto intro: tcp_call.poll)
  moreover have "tcp_moves t s'" by (rule for_each_moves [OF t(2)], erule if_pending_moves) (rule tcp_call.udp_periodic)
  ultimately show ?thesis by (rule moves_trans)
qed

lemma acks_moves: "xtcp_process_udp_acks s = Some s' \<Longrightarrow> tcp_moves s s'"
  unfolding xtcp_process_udp_acks_def
  by (erule for_each_moves, erule if_pending_moves) (rule tcp_call.udp_ackdata)

lemma timer_moves:
  assumes "xtcp_process_periodic_timer s = Some s'"
  shows "tcp_moves s s'"
proof -
  define t0 where "t0 = (if cfg_igmp s
    then (let s = igmp_periodic (clock s) s in if 0 < uip_len s then xtcp_tx_buffer s else s) else s)"
  have t0: "uip_conns t0 = uip_conns s" by (simp add: t0_def Let_def conns_kept)
  from assms obtain t where t:
    "for_each (\<lambda>j s. map_option (send_pending (Some j)) (uip_udp_periodic (server_env s) j s)) [0..<length (uip_udp_conns t0)] t0 = Some t"
    "for_each (\<lambda>i s. map_option (send_pending None) (uip_periodic (server_env s) i s)) [0..<length (uip_conns t)] t = Some s'"
    unfolding xtcp_process_periodic_timer_def t0_def [symmetric] by (auto simp: Let_def bind_eq_Some_conv)
  have "tcp_moves t0 t" by (rule for_each_moves [OF t(1)], erule pending_moves) (rule tcp_call.udp_periodic)
  moreover have "tcp_moves t s'" by (rule for_each_moves [OF t(2)], erule pending_moves) (auto intro: tcp_call.periodic)
  ultimately show ?thesis using moves_same [OF t0] by (blast intro: moves_trans)
qed

lemma incoming_moves:
  assumes "xtcp_process_incoming_packet len s = Some s'"
  shows "tcp_moves s s'"
proof -
  consider (ip) u c where "uip_input (server_env s) (s\<lparr>uip_len := of_nat len\<rparr>) = Some u" "s' = send_pending c u"
    | (arp) t where "uip_conns t = uip_conns s"
      "for_each (\<lambda>j s. map_option (send_pending (Some j)) (uip_udp_arp_event (server_env s) j s)) [0..<length (uip_udp_conns t)] t = Some s'"
    | (none) "s' = s"
  proof (cases "rd16 (uip_buf s) 12 = htons 0x0800 \<or> rd16 (uip_buf s) 12 \<noteq> htons 0x0806")
    case True
    with assms that(1,3) show ?thesis by (auto simp: xtcp_process_incoming_packet_def split: if_splits)
  next
    case False
    then have type: "rd16 (uip_buf s) 12 \<noteq> htons 0x0800" "rd16 (uip_buf s) 12 = htons 0x0806" by simp_all
    let ?a = "uip_arp_arpin autoip_arp_in (s\<lparr>uip_len := of_nat len\<rparr>)"
    let ?t = "if 0 < uip_len ?a then xtcp_tx_buffer ?a else ?a"
    have "uip_conns ?t = uip_conns s" by (simp add: conns_kept)
    moreover have "for_each (\<lambda>j s. map_option (send_pending (Some j)) (uip_udp_arp_event (server_env s) j s))
        [0..<length (uip_udp_conns ?t)] ?t = Some s'"
      using assms unfolding xtcp_process_incoming_packet_def Let_def if_not_P [OF type(1)] if_P [OF type(2)] .
    ultimately show ?thesis by (rule that(2))
  qed
  then show ?thesis
  proof cases
    case ip
    show ?thesis by (rule moves_around [OF moves_step [OF tcp_call.input [OF ip(1)]]]) (simp_all add: ip(2) conns_kept)
  next
    case arp
    have "tcp_moves t s'" by (rule for_each_moves [OF arp(2)], erule pending_moves) (rule tcp_call.udp_arp_event)
    with moves_same [OF arp(1)] show ?thesis by (rule moves_trans)
  next
    case none
    then show ?thesis by (simp add: moves_same)
  qed
qed

lemma receive_moves: "receive_packets ps s = Some s' \<Longrightarrow> tcp_moves s s'"
proof (induction ps arbitrary: s)
  case Nil
  then show ?case by (simp add: moves_same)
next
  case (Cons p ps)
  obtain bytes len where p: "p = (bytes, len)" by fastforce
  from Cons.prems obtain t where t: "(if len \<le> UIP_BUFSIZE
      then xtcp_process_incoming_packet len (s\<lparr>uip_buf := copy_packet bytes len (uip_buf s)\<rparr>) else Some s) = Some t"
    "receive_packets ps t = Some s'" by (auto simp: p bind_eq_Some_conv)
  have "tcp_moves s t"
    using t(1) by (auto intro: moves_same moves_around dest!: incoming_moves split: if_splits)
  from moves_trans [OF this Cons.IH [OF t(2)]] show ?case .
qed

lemma turn_moves:
  assumes "server_step ev s = Some s'"
  shows "tcp_moves s s'"
proof -
  from assms obtain a b c where a: "xtcpd_service_clients s = Some a"
    and b: "xtcpd_check_connection_poll a = Some b"
    and c: "xtcp_process_udp_acks (uip_xtcp_checkstate b) = Some c"
    and ev: "(case ev of NoEvent \<Rightarrow> Some c
     | TimerEvent status \<Rightarrow> xtcp_process_periodic_timer (server_autoip_tick (server_arp_tick (check_link status c)))
     | PacketsEvent ps \<Rightarrow> receive_packets ps c) = Some s'"
    by (auto simp: server_step_def bind_eq_Some_conv)
  have "tcp_moves s b" using moves_trans [OF moves_step [OF tcp_call.clients [OF a]] check_poll_moves [OF b]] .
  moreover have "tcp_moves b c" by (rule moves_around [OF acks_moves [OF c]]) (simp_all add: conns_kept)
  moreover have "tcp_moves c s'"
  proof (cases ev)
    case (TimerEvent status)
    with ev have "xtcp_process_periodic_timer (server_autoip_tick (server_arp_tick (check_link status c))) = Some s'" by simp
    from timer_moves [OF this] show ?thesis by (rule moves_around) (simp_all add: conns_kept)
  qed (use ev in \<open>auto intro: moves_same receive_moves\<close>)
  ultimately show ?thesis by (blast intro: moves_trans)
qed

text \<open>
  C5. The TCP state machine of the whole server. One turn of the main loop, whatever the clients command,
  whatever packets arrive and whatever the timers and the link do, is a sequence of calls of the stack, of calls that serve the clients,
  and of steps that leave all connections alone. Each such call, in any state, keeps the number of connections and moves
  each connection along at most one transition of the TCP state diagram, after which the clients may still
  open a connection in a slot that is closed or waiting in TIME\_WAIT. So no call takes a connection, say, from closed to
  established, and a turn does so only through the calls in between.
\<close>

theorem server_follows_tcp_diagram:
  fixes s :: "'a server_st_scheme"
  assumes "server_step ev s = Some s'"
  shows "tcp_call\<^sup>*\<^sup>* s s' \<and>
    (\<forall>(t :: 'a server_st_scheme) t'. tcp_call t t' \<longrightarrow> process_table (uip_conns t) (uip_conns t'))"
  using turn_moves [OF assms] tcp_call_process unfolding tcp_moves_def by blast

lemma sample_turn: "server_step NoEvent (sample_server [sample_slot 1 (htons 80)] [(5, None), (6, None)]) \<noteq> None"
proof -
  let ?s = "sample_server [sample_slot 1 (htons 80)]"
  have "service_sweep 0 (xtcp_num (?s ps)) (-1) (?s [(5, None), (6, None)]) = Some ((?s [])\<lparr>clock := 6\<rparr>, False)" for ps
    by (simp add: server_sample_defs numeral_2_eq_2 xtcpd_service_client0_def poll_link_def)
  then have "xtcpd_service_clients (?s [(5, None), (6, None)]) = Some ((?s [])\<lparr>clock := 6\<rparr>)"
    by (subst xtcpd_service_clients.simps) simp
  moreover have "Option.bind (xtcpd_check_connection_poll ((?s [])\<lparr>clock := 6\<rparr>))
      (\<lambda>s. Option.bind (xtcp_process_udp_acks (uip_xtcp_checkstate s)) Some) \<noteq> None"
    by code_simp
  ultimately show ?thesis by (simp add: server_step_def)
qed

theorem server_follows_tcp_diagram_witness:
  "\<exists>s'. server_step NoEvent (sample_server [sample_slot 1 (htons 80)] [(5, None), (6, None)]) = Some s' \<and>
     tcp_call\<^sup>*\<^sup>* (sample_server [sample_slot 1 (htons 80)] [(5, None), (6, None)]) s'"
proof -
  let ?s = "sample_server [sample_slot 1 (htons 80)] [(5, None), (6, None)]"
  obtain s' where s': "server_step NoEvent ?s = Some s'" using sample_turn by blast
  from server_follows_tcp_diagram [OF this] s' show ?thesis by blast
qed

section \<open>Runs of the main loop\<close>

text \<open>\<^verbatim>\<open>while (1)\<close>: one event, or none, for each turn.\<close>

fun server_run :: "server_event list \<Rightarrow> 'a server_st_scheme \<Rightarrow> 'a server_st_scheme option" where
  "server_run [] s = Some s"
| "server_run (ev # evs) s = do { s \<leftarrow> server_step ev s; server_run evs s }"

text \<open>The states a connection can be in: \<^verbatim>\<open>uip.h\<close> has no LISTEN and no CLOSE\_WAIT.\<close>

definition tcp_states :: "u8 set" where
  "tcp_states = {UIP_CLOSED, UIP_SYN_RCVD, UIP_SYN_SENT, UIP_ESTABLISHED, UIP_FIN_WAIT_1, UIP_FIN_WAIT_2, UIP_CLOSING,
     UIP_TIME_WAIT, UIP_LAST_ACK}"

definition well_typed :: "tcp_conn list \<Rightarrow> bool" where
  "well_typed cs \<longleftrightarrow> list_all (\<lambda>c. conn_state c \<in> tcp_states) cs"

lemma trans_states: "tcp_trans st st' \<Longrightarrow> st \<in> tcp_states \<Longrightarrow> st' \<in> tcp_states"
  by (cases rule: tcp_trans.cases, assumption) (auto simp: tcp_states_def)

lemma step_states: "process_step c c' \<Longrightarrow> conn_state c \<in> tcp_states \<Longrightarrow> conn_state c' \<in> tcp_states"
  by (auto simp: process_step_def dest!: app_step_state trans_states) (simp_all add: tcp_states_def)

lemma table_well_typed: "process_table cs cs' \<Longrightarrow> well_typed cs \<Longrightarrow> well_typed cs'"
  unfolding process_table_def well_typed_def list_all_length list_all2_conv_all_nth
  using step_states by metis

lemma moves_well_typed: "tcp_moves s s' \<Longrightarrow> well_typed (uip_conns s) \<Longrightarrow> well_typed (uip_conns s')"
  unfolding tcp_moves_def by (induction rule: rtranclp_induct) (auto intro: table_well_typed tcp_call_process)

text \<open>
  C32. A type invariant of the connection table: however long the server runs and whatever happens, the table
  keeps its size and every connection is in one of the nine states the code knows; no sequence of assignments
  to the state byte leaves any other value in its low bits.
\<close>

theorem server_states_typed:
  assumes "server_run evs s = Some s'" and "well_typed (uip_conns s)"
  shows "well_typed (uip_conns s') \<and> length (uip_conns s') = length (uip_conns s)"
  using assms
proof (induction evs arbitrary: s)
  case (Cons ev evs)
  from Cons.prems(1) obtain t where t: "server_step ev s = Some t" "server_run evs t = Some s'"
    by (auto simp: bind_eq_Some_conv)
  note moves = turn_moves [OF t(1)]
  with Cons.IH [OF t(2)] moves_well_typed [OF moves Cons.prems(2)] moves_length [OF moves] show ?case by simp
qed simp

theorem server_states_typed_witness:
  "\<exists>s'. server_run [NoEvent] (sample_server [sample_slot 1 (htons 80)] [(5, None), (6, None)]) = Some s' \<and> well_typed (uip_conns s')"
proof -
  let ?s = "sample_server [sample_slot 1 (htons 80)] [(5, None), (6, None)]"
  obtain s' where s': "server_run [NoEvent] ?s = Some s'" using sample_turn by auto
  have "well_typed (uip_conns ?s)" by (simp add: well_typed_def server_sample_defs conn_state_def tcp_states_def)
  from server_states_typed [OF s' this] s' show ?thesis by blast
qed

end
