(* ===== verification/Uip_Separate.thy ===== *)
theory Uip_Separate
  imports Uip_Moves
begin

text \<open>
  The server with a separate MAC component: the main loop of \<^verbatim>\<open>uip_server.c\<close>, the device \<^verbatim>\<open>xcoredev.xc\<close> and the filter of
  \<^verbatim>\<open>xtcp_mac_filter.h\<close>. It calls the handlers of \<^theory_text>\<open>Uip_Server\<close>, with timers of \<^verbatim>\<open>timer.c\<close> in place of counters, and
  frames are padded to 64 bytes. The Ethernet component is not part of the repository; what its function \<^verbatim>\<open>safe_mac_rx\<close>
  delivers is an input, and the length that marks a packet on the state of the link is a parameter.
\<close>

section \<open>The device\<close>

text \<open>The Ethernet type, behind a VLAN tag if there is one, in the byte order of the processor.\<close>

definition mac_custom_filter :: "mem \<Rightarrow> bool" where
  "mac_custom_filter m =
     (let etype = rd16 m 12; etype = (if etype = 0x0081 then rd16 m 16 else etype)
      in etype = 0x0608 \<or> etype = 0x0008)"



section \<open>The main loop\<close>

record separate_st = server_st +
  sep_periodic_timer :: uip_timer
  sep_arp_timer :: uip_timer
  sep_autoip_timer :: uip_timer

definition xtcp_server_uip :: "nat \<Rightarrow> xtcp_ipconfig option \<Rightarrow> u8 list \<Rightarrow> 'a separate_st_scheme \<Rightarrow> 'a separate_st_scheme option" where
  "xtcp_server_uip num_xtcp ipconfig hwaddr s =
     uip_server_init num_xtcp ipconfig hwaddr
       (s\<lparr>mac_min_frame := 64, sep_periodic_timer := timer_set (clock s) (CLOCK_SECOND div 10),
          sep_autoip_timer := timer_set (clock s) (CLOCK_SECOND div 2), sep_arp_timer := timer_set (clock s) (CLOCK_SECOND * 10)\<rparr>)"


definition separate_arp_tick :: "'a separate_st_scheme \<Rightarrow> 'a separate_st_scheme" where
  "separate_arp_tick s =
     (if timer_expired (clock s) (sep_arp_timer s)
      then uip_arp_timer (s\<lparr>sep_arp_timer := timer_reset (sep_arp_timer s)\<rparr>) else s)"

definition separate_autoip_tick :: "'a separate_st_scheme \<Rightarrow> 'a separate_st_scheme" where
  "separate_autoip_tick s =
     (if timer_expired (clock s) (sep_autoip_timer s)
      then (let s = autoip_periodic autoip_configured (clock s) (s\<lparr>sep_autoip_timer := timer_reset (sep_autoip_timer s)\<rparr>)
            in if 0 < uip_len s then xtcp_tx_buffer s else s)
      else s)"




section \<open>The TCP state diagram\<close>

lemma link_change_conns [conns_kept]: "uip_conns (uip_linkup s) = uip_conns s" "uip_conns (uip_linkdown s) = uip_conns s"
  by (simp_all add: uip_linkup_def uip_linkdown_def dhcpc_start_def dhcpc_stop_def uip_udp_listen_def
      uip_udp_unlisten_def uip_xtcp_up_def uip_xtcp_down_def autoip_stop_def Let_def)


lemma separate_tick_conns [conns_kept]: "uip_conns (separate_arp_tick s) = uip_conns s" "uip_conns (separate_autoip_tick s) = uip_conns s"
  by (simp_all add: separate_arp_tick_def separate_autoip_tick_def Let_def conns_kept)




section \<open>Frames of other types\<close>

text \<open>
  A frame that is neither IPv4 nor ARP leaves \<^verbatim>\<open>uip_len\<close> as it was, and the handler of the link-local addresses, which has
  nothing to send, then sends the frame back. The filter lets frames with a VLAN tag through.
\<close>

lemma idle_autoip: "ai_state (autoip s) \<in> {DISABLED, CONFIGURED} \<Longrightarrow> autoip_periodic conf now s = s"
  by (auto simp: autoip_periodic_def Let_def)

lemma tx_other: "uip_buf s 23 \<noteq> UIP_PROTO_TCP \<Longrightarrow> mac_tx (xtcp_tx_buffer s) = mac_tx s @ [snd (xcoredev_send s)]"
proof -
  assume "uip_buf s 23 \<noteq> UIP_PROTO_TCP"
  then have "uip_split_output s = (fst (xcoredev_send s), [snd (xcoredev_send s)])" by (simp add: uip_split_output_def case_prod_beta)
  moreover have "mac_tx (fst (xcoredev_send s)) = mac_tx s" by (simp add: xcoredev_send_def Let_def)
  ultimately show ?thesis by (simp add: xtcp_tx_buffer_def)
qed

lemma other_frame_echoed:
  assumes type: "rd16 (uip_buf s) 12 \<noteq> htons 0x0800" "rd16 (uip_buf s) 12 \<noteq> htons 0x0806" and "0 < uip_len s" and "uip_buf s 23 \<noteq> UIP_PROTO_TCP"
    and "timer_expired (clock s) (sep_autoip_timer s)" and "ai_state (autoip s) \<in> {DISABLED, CONFIGURED}"
  shows "xtcp_process_incoming_packet (unat (uip_len s)) s = Some s" and
    "\<exists>f. mac_tx (separate_autoip_tick s) = mac_tx s @ [f] \<and> (\<forall>i < unat (uip_len s). frame_mem f i = uip_buf s i)"
proof -
  show "xtcp_process_incoming_packet (unat (uip_len s)) s = Some s" using type by (simp add: xtcp_process_incoming_packet_def)
  define t where "t = s\<lparr>sep_autoip_timer := timer_reset (sep_autoip_timer s)\<rparr>"
  have t: "uip_buf t = uip_buf s" "uip_len t = uip_len s" "mac_tx t = mac_tx s" by (simp_all add: t_def)
  have "autoip t = autoip s" by (simp add: t_def)
  then have "separate_autoip_tick s = xtcp_tx_buffer t"
    using assms(3,5,6) idle_autoip [of t autoip_configured "clock s"] by (simp add: separate_autoip_tick_def t_def [symmetric] t Let_def)
  then have "mac_tx (separate_autoip_tick s) = mac_tx s @ [snd (xcoredev_send t)]" using tx_other [of t] assms(4) by (simp add: t)
  moreover have "frame_mem (snd (xcoredev_send t)) i = uip_buf s i" if "i < unat (uip_len s)" for i
    using xcoredev_send_frame(2) [of t _ _ i] that by (metis prod.collapse t(1,2))
  ultimately show "\<exists>f. mac_tx (separate_autoip_tick s) = mac_tx s @ [f] \<and> (\<forall>i < unat (uip_len s). frame_mem f i = uip_buf s i)" by blast
qed

lemma tagged_frame_passes: "rd16 m 12 = 0x0081 \<Longrightarrow> rd16 m 16 = 0x0008 \<Longrightarrow> mac_custom_filter m \<and> rd16 m 12 \<noteq> htons 0x0800 \<and> rd16 m 12 \<noteq> htons 0x0806"
  by (simp add: mac_custom_filter_def htons_def)

section \<open>A sample turn\<close>




end
