(* ===== verification/Uip_Segments.thy ===== *)
theory Uip_Segments
  imports Uip_Tcp
begin

text \<open>
  The behaviour of the TCP code on every branch: the header of each segment it sends, what it
  does with segments that are out of order, the passive and the active opening, the
  amount of data it sends, retransmission and its limit, and the option parser.
\<close>

section \<open>The header of an outgoing segment\<close>

text \<open>The fields of a segment that belong to connection \<open>c\<close> of host \<open>h\<close>.\<close>

definition segment_of :: "ipaddr \<Rightarrow> tcp_conn \<Rightarrow> mem \<Rightarrow> bool" where
  "segment_of h c b \<longleftrightarrow> uip_ipchksum b = 0xffff \<and> b 14 = 0x45 \<and> b 23 = 6 \<and>
     rdip b 26 = h \<and> rdip b 30 = tc_ripaddr c \<and> rd16 b 34 = tc_lport c \<and> rd16 b 36 = tc_rport c \<and>
     rd4 b 38 = tc_snd_nxt c \<and> rd4 b 42 = tc_rcv_nxt c"

lemma rd4_cong: "(\<And>j. i \<le> j \<Longrightarrow> j < i + 4 \<Longrightarrow> b j = b' j) \<Longrightarrow> rd4 b i = rd4 b' i"
  by (simp add: rd4_def)

definition tcp_header :: "ipaddr \<Rightarrow> tcp_conn \<Rightarrow> u16 \<Rightarrow> mem \<Rightarrow> mem" where
  "tcp_header h c len b0 =
     (let b = wr4 42 (tc_rcv_nxt c) b0;
          b = wr4 38 (tc_snd_nxt c) b;
          b = b(23 := 6);
          b = wr16 34 (tc_lport c) b;
          b = wr16 36 (tc_rport c) b;
          b = wrip 26 h b;
          b = wrip 30 (tc_ripaddr c) b;
          b = (if tc_tcpstateflags c AND UIP_STOPPED \<noteq> 0 then b(48 := 0, 49 := 0) else b(48 := 5, 49 := 192))
      in b(22 := 64, 16 := hi8 len, 17 := lo8 len, 52 := 0, 53 := 0))"

lemma tcp_send_eq: "tcp_send i s =
  ip_send_nolen (s\<lparr>uip_buf := tcp_header (uip_hostaddr s) (tconn s i) (uip_len s) (uip_buf s)\<rparr>)"
proof -
  have "hi8 1472 = 5" "lo8 1472 = 192" by (simp_all add: hi8_def lo8_def)
  then show ?thesis
    by (simp add: tcp_send_def tcp_send_noconn_def tcp_header_def Let_def)
qed

lemma tcp_header_sel:
  "tcp_header h c n b 23 = 6" "rdip (tcp_header h c n b) 26 = h" "rdip (tcp_header h c n b) 30 = tc_ripaddr c"
  "rd16 (tcp_header h c n b) 34 = tc_lport c" "rd16 (tcp_header h c n b) 36 = tc_rport c"
  "rd4 (tcp_header h c n b) 38 = tc_snd_nxt c" "rd4 (tcp_header h c n b) 42 = tc_rcv_nxt c"
  "tcp_header h c n b 46 = b 46" "tcp_header h c n b 47 = b 47" "54 \<le> i \<Longrightarrow> tcp_header h c n b i = b i"
  "iplen (tcp_header h c n b) = unat n"
  using unat_le16 [of "lo8 n" "hi8 n"]
  by (simp_all add: tcp_header_def Let_def wrip_def rdip_def rd16_def rd4_def wr16_def wr4_apply iplen_def)

lemma rd4_ip_send: "26 \<le> p \<Longrightarrow> rd4 (uip_buf (ip_send_nolen s)) p = rd4 (uip_buf s) p"
  by (intro rd4_cong ip_send_other) auto

lemma tcp_send_segment:
  "segment_of (uip_hostaddr s) (tconn s i) (uip_buf (tcp_send i s))"
  "iplen (uip_buf (tcp_send i s)) = unat (uip_len s)"
  "uip_buf (tcp_send i s) 47 = uip_buf s 47" "uip_buf (tcp_send i s) 46 = uip_buf s 46"
  "54 \<le> p \<Longrightarrow> uip_buf (tcp_send i s) p = uip_buf s p"
  unfolding tcp_send_eq segment_of_def
  by (auto simp: rd_ip_send rd4_ip_send tcp_header_sel ip_send_other)
    (simp_all add: ip_send_nolen_eq ip_checksummed_ok checksummed_other ip_header_def)

lemma tcp_send_ack_segment:
  "segment_of (uip_hostaddr s) (tconn s i) (uip_buf (tcp_send_ack i s))"
  "uip_buf (tcp_send_ack i s) 47 = TCP_ACK" "iplen (uip_buf (tcp_send_ack i s)) = 40"
  using tcp_send_segment [where s = "bput 46 0x50 ((bput 47 TCP_ACK s)\<lparr>uip_len := 40\<rparr>)" and i = i]
  by (simp_all add: tcp_send_ack_def tcp_send_nodata_def tcp_send_noopts_def)

section \<open>Segments out of order\<close>

definition tcp_data_len :: "'a uip_st_scheme \<Rightarrow> u16" where
  "tcp_data_len s = uip_len s - ucast (push_bit 2 (drop_bit 4 (uip_buf s 46))) - 20"

text \<open>
  A segment that carries data, SYN or FIN and does not start at the sequence number the
  connection expects is not delivered and changes no connection: it is answered with an
  acknowledgement of the expected sequence number, unless it is a reset or the answer to an
  active open.
\<close>

theorem out_of_order_reacked:
  assumes "uip_buf s 47 AND TCP_RST = 0" and "conn_state (tconn s i) \<noteq> UIP_SYN_SENT"
    and "0 < tcp_data_len s \<or> uip_buf s 47 AND (TCP_SYN OR TCP_FIN) \<noteq> 0"
    and "rd4 (uip_buf s) 38 \<noteq> tc_rcv_nxt (tconn s i)"
  shows "\<exists>s'. tcp_found env i s = Some s' \<and> uip_conns s' = uip_conns s \<and> uip_len s' = 40 \<and>
    segment_of (uip_hostaddr s) (tconn s i) (uip_buf s') \<and> uip_buf s' 47 = TCP_ACK"
proof -
  let ?s = "s\<lparr>uip_conn := Some i, uip_flags := 0, uip_len := tcp_data_len s\<rparr>"
  have "tcp_found env i s = Some (tcp_send_ack i ?s)"
    using assms by (simp add: tcp_found_def Let_def tcp_data_len_def conn_state_def)
  then show ?thesis
    using tcp_send_ack_segment [where s = ?s and i = i] by (simp add: send_sel)
qed

text \<open>An environment without application, for concrete runs.\<close>

definition idle_env :: "uip_st uip_env" where
  "idle_env = \<lparr>appcall = (\<lambda>s. Some s), igmp_enabled = False, igmp_check = (\<lambda>s a. False),
     igmp_input = (\<lambda>s. s)\<rparr>"

definition sample_conn :: tcp_conn where
  "sample_conn = zero_tcp_conn\<lparr>tc_tcpstateflags := UIP_ESTABLISHED, tc_rcv_nxt := (0, 0, 1, 0),
     tc_snd_nxt := (0, 0, 2, 0), tc_mss := 536, tc_initialmss := 536\<rparr>"

definition sample_old :: uip_st where
  "sample_old = sample_data\<lparr>uip_buf := (\<lambda>i. if i = 46 then 0x50 else if i = 47 then 0x18 else 0),
     uip_len := 140, uip_conns := [sample_conn]\<rparr>"

theorem out_of_order_reacked_witness:
  "\<exists>s'. tcp_found idle_env 0 sample_old = Some s' \<and> uip_conns s' = uip_conns sample_old \<and>
     uip_buf s' 47 = TCP_ACK"
proof -
  have "uip_buf sample_old 47 AND TCP_RST = 0" "conn_state (tconn sample_old 0) \<noteq> UIP_SYN_SENT"
    "0 < tcp_data_len sample_old" "rd4 (uip_buf sample_old) 38 \<noteq> tc_rcv_nxt (tconn sample_old 0)"
    by (simp_all add: sample_old_def conn_state_def sample_conn_def tcp_data_len_def rd4_def)
  then show ?thesis using out_of_order_reacked [of sample_old 0 idle_env] by auto
qed

section \<open>Passive open\<close>

lemma parse_mss_keeps:
  assumes "parse_mss b c = Some c'"
  shows "\<exists>m n. c' = c\<lparr>tc_initialmss := m, tc_mss := n\<rparr>"
  using assms
  by (auto simp: parse_mss_def bind_eq_Some_conv Let_def split: if_splits option.splits)
    (metis tcp_conn.surjective tcp_conn.update_convs(7,8))+

lemma tcp_send_synack_segment:
  "segment_of (uip_hostaddr s) (tconn s i) (uip_buf (tcp_send_synack i s))"
  "uip_buf (tcp_send_synack i s) 47 = (TCP_SYN OR TCP_ACK)" "iplen (uip_buf (tcp_send_synack i s)) = 44"
  "rds (uip_buf (tcp_send_synack i s)) 54 4 = [2, 4, 5, 192]" "uip_buf (tcp_send_synack i s) 46 = 0x60"
proof -
  let ?b = "(uip_buf s)(47 := 0x12, 54 := 2, 55 := 4, 56 := 5, 57 := 192, 46 := 0x60)"
  have "hi8 1472 = 5" "lo8 1472 = 192" by (simp_all add: hi8_def lo8_def)
  then have eq: "tcp_send_synack i s = tcp_send i (s\<lparr>uip_buf := ?b, uip_len := 44\<rparr>)"
    by (simp add: tcp_send_synack_def tcp_send_syn_def Let_def)
  note seg = tcp_send_segment [where s = "s\<lparr>uip_buf := ?b, uip_len := 44\<rparr>" and i = i, folded eq]
  show "segment_of (uip_hostaddr s) (tconn s i) (uip_buf (tcp_send_synack i s))"
    "uip_buf (tcp_send_synack i s) 47 = (TCP_SYN OR TCP_ACK)" "iplen (uip_buf (tcp_send_synack i s)) = 44"
    "uip_buf (tcp_send_synack i s) 46 = 0x60"
    using seg(1-4) by simp_all
  show "rds (uip_buf (tcp_send_synack i s)) 54 4 = [2, 4, 5, 192]"
    using seg(5) [of 54] seg(5) [of 55] seg(5) [of 56] seg(5) [of 57]
    by (simp add: rds_def upt_rec)
qed

section \<open>The option parser\<close>

text \<open>
  The offset into the options is an 8-bit variable. The loop ends when no option reaches past
  offset 255, which holds for every option that fits into a TCP header.
\<close>

definition options_fit :: "mem \<Rightarrow> nat \<Rightarrow> bool" where
  "options_fit b lim \<longleftrightarrow> list_all (\<lambda>k. k + unat (b (55 + k)) < 256) [0 ..< lim]"

lemma mss_option_returns:
  assumes fit: "options_fit b lim" and lim: "lim < 256"
  shows "\<exists>r. mss_option b lim c = Some r"
proof (induction "lim - unat c" arbitrary: c rule: less_induct)
  case less
  show ?case
  proof (cases "unat c < lim")
    case True
    have step: "\<exists>r. mss_option b lim (c + d) = Some r" if "d \<noteq> 0" "unat c + unat d < 256" for d
    proof (rule less)
      have "unat (c + d) = unat c + unat d" using that by (simp add: unat_word_ariths)
      moreover have "unat d \<noteq> 0" using that by (simp add: unat_eq_zero)
      ultimately show "lim - unat (c + d) < lim - unat c" using True by linarith
    qed
    have "unat c + unat (b (55 + unat c)) < 256"
      using fit True by (simp add: options_fit_def list_all_iff)
    with step [of 1] step [of "b (55 + unat c)"] True lim show ?thesis
      by (subst mss_option.simps) (auto simp del: mss_option.simps)
  qed (simp add: mss_option.simps)
qed

text \<open>A no-operation option followed by an option of length 255 sends the offset back to zero.\<close>

definition hanging_options :: "mem \<Rightarrow> bool" where
  "hanging_options b \<longleftrightarrow> b 54 = 1 \<and> b 55 \<notin> {0, 1} \<and> b 56 = 255"

lemma mss_option_hangs:
  assumes "hanging_options b" and "1 < lim"
  shows "mss_option b lim 0 = None"
proof -
  let ?P = "\<lambda>b lim c (r :: u16 option). \<not> (hanging_options b \<and> 1 < lim \<and> c \<in> {0, 1})"
  have "?P b lim c r" if "mss_option b lim c = Some r" for b lim c r
  proof (rule mss_option.raw_induct [where P = ?P, OF _ that])
    fix mss :: "mem \<Rightarrow> nat \<Rightarrow> u8 \<Rightarrow> u16 option option" and b lim c r
    assume IH: "\<And>b lim c r. mss b lim c = Some r \<Longrightarrow> ?P b lim c r"
      and body: "(if unat c < lim
         then if b (54 + unat c) = 0 then Some None
              else if b (54 + unat c) = 1 then mss b lim (c + 1)
              else if b (54 + unat c) = 2 \<and> b (55 + unat c) = 4
              then Some (Some (push_bit 8 (ucast (b (56 + unat c))) OR ucast (b (57 + unat c))))
              else if b (55 + unat c) = 0 then Some None else mss b lim (c + b (55 + unat c))
         else Some None) = Some r"
    show "?P b lim c r"
    proof
      assume bad: "hanging_options b \<and> 1 < lim \<and> c \<in> {0, 1}"
      have wrap: "(256 :: u8) = 0" by (simp add: word_unat_eq_iff)
      from bad body have "mss b lim (if c = 0 then 1 else 0) = Some r"
        by (auto simp: hanging_options_def wrap)
      from IH [OF this] bad show False by (auto split: if_splits)
    qed
  qed
  with assms show ?thesis by (cases "mss_option b lim 0") auto
qed

definition syn_options_len :: "mem \<Rightarrow> nat" where
  "syn_options_len b = 4 * (unat (drop_bit 4 (b 46)) - 5)"

lemma unat_nibble: "unat (drop_bit 4 (w :: u8)) = unat w div 16"
  by (subst unat_drop_bit_eq) (simp add: drop_bit_eq_div)

lemma unat_and_f0: "unat (w AND 0xf0 :: u8) = 16 * (unat w div 16)"
proof -
  have f0: "(0xf0 :: u8) = push_bit 4 (mask 4)" by (simp add: push_bit_eq_mult mask_eq_exp_minus_1)
  have "w AND 0xf0 = push_bit 4 (drop_bit 4 w)"
  proof (rule bit_word_eqI)
    fix n assume n: "n < LENGTH(8)"
    show "bit (w AND 0xf0) n = bit (push_bit 4 (drop_bit 4 w)) n"
    proof (cases "n < 4")
      case False
      then obtain k where "n = 4 + k" using le_Suc_ex by (metis not_less)
      then show ?thesis using n unfolding f0 by (auto simp: bit_simps)
    qed (use n in \<open>simp add: f0 bit_simps\<close>)
  qed
  also have "\<dots> = of_nat (16 * (unat w div 16))"
    by (simp add: push_bit_eq_mult flip: unat_nibble)
  finally have "unat (w AND 0xf0) = (16 * (unat w div 16)) mod 256"
    by (simp only: unat_of_nat) simp
  moreover have "16 * (unat w div 16) < 256" using unat_u8_bound [of w] by linarith
  ultimately show ?thesis by (simp only: mod_less)
qed

lemma syn_options_len_bound: "syn_options_len b < 256"
proof -
  have "unat (b 46) div 16 < 16" using unat_u8_bound [of "b 46"] by linarith
  then show ?thesis by (simp add: syn_options_len_def unat_nibble)
qed

lemma parse_mss_returns:
  assumes "options_fit b (syn_options_len b)"
  shows "\<exists>c'. parse_mss b c = Some c'"
  using mss_option_returns [OF assms syn_options_len_bound, of 0]
  by (auto simp: parse_mss_def syn_options_len_def Let_def split: option.split)

text \<open>The connection a SYN creates, before its options are read.\<close>

definition passive_conn :: "'a uip_st_scheme \<Rightarrow> nat \<Rightarrow> tcp_conn" where
  "passive_conn s i = (let b = uip_buf s in (tconn s i)\<lparr>tc_rto := UIP_RTO, tc_timer := UIP_RTO,
     tc_sa := 0, tc_sv := 4, tc_nrtx := 0, tc_lport := rd16 b B_destport, tc_rport := rd16 b B_srcport,
     tc_ripaddr := rdip b B_srcipaddr, tc_tcpstateflags := UIP_SYN_RCVD, tc_snd_nxt := iss s,
     tc_len := 1, tc_rcv_nxt := uip_add32 (rd4 b B_seqno) 1\<rparr>)"

lemma found_listen_eq:
  assumes "alloc_conn (uip_conns s) = Some i"
  shows "found_listen s = map_option (\<lambda>c. tcp_send_synack i
    (s\<lparr>uip_conn := Some i, uip_conns := (uip_conns s)[i := c]\<rparr>)) (parse_mss (uip_buf s) (passive_conn s i))"
  using assms alloc_conn_Some(1) [OF assms]
  by (simp add: found_listen_def Let_def upd_conn_def uip_add_rcv_nxt_def passive_conn_def
      map_conv_bind_option comp_def)

lemma found_listen_opens:
  assumes slot: "alloc_conn (uip_conns s) = Some i"
    and fit: "options_fit (uip_buf s) (syn_options_len (uip_buf s))"
  shows "\<exists>s' c. found_listen s = Some s' \<and> uip_conns s' = (uip_conns s)[i := c] \<and>
    tc_tcpstateflags c = UIP_SYN_RCVD \<and> tc_lport c = rd16 (uip_buf s) 36 \<and> tc_rport c = rd16 (uip_buf s) 34 \<and>
    tc_ripaddr c = rdip (uip_buf s) 26 \<and> be32 (tc_rcv_nxt c) = be32 (rd4 (uip_buf s) 38) + 1 \<and>
    tc_snd_nxt c = iss s \<and> tc_len c = 1 \<and>
    segment_of (uip_hostaddr s) c (uip_buf s') \<and> uip_buf s' 47 = (TCP_SYN OR TCP_ACK) \<and>
    uip_len s' = 44 \<and> rds (uip_buf s') 54 4 = [2, 4, 5, 192]"
proof -
  obtain c where c: "parse_mss (uip_buf s) (passive_conn s i) = Some c" using parse_mss_returns [OF fit] by blast
  from parse_mss_keeps [OF c] obtain m n where "c = (passive_conn s i)\<lparr>tc_initialmss := m, tc_mss := n\<rparr>" by blast
  then have fields: "tc_tcpstateflags c = UIP_SYN_RCVD" "tc_lport c = rd16 (uip_buf s) 36"
    "tc_rport c = rd16 (uip_buf s) 34" "tc_ripaddr c = rdip (uip_buf s) 26" "tc_snd_nxt c = iss s"
    "tc_len c = 1" "be32 (tc_rcv_nxt c) = be32 (rd4 (uip_buf s) 38) + 1"
    by (simp_all add: passive_conn_def Let_def uip_add32_be32)
  let ?s = "s\<lparr>uip_conn := Some i, uip_conns := (uip_conns s)[i := c]\<rparr>"
  have "found_listen s = Some (tcp_send_synack i ?s)" using c by (simp add: found_listen_eq [OF slot])
  moreover have "tconn ?s i = c" using alloc_conn_Some(1) [OF slot] by simp
  ultimately show ?thesis
    using fields tcp_send_synack_segment [where s = ?s and i = i]
    by (intro exI [of _ "tcp_send_synack i ?s"] exI [of _ c]) (simp add: send_sel)
qed

text \<open>
  C16. What the stack does with a SYN for a port it listens on, when its checksum is right, no connection has its addresses and
  ports, and its options can be read, because no length in them reaches past offset 255. If every connection is in use, it is dropped:
  there is no answer and no connection changes. Otherwise a closed slot, or if there is none the one that has waited longest
  in TIME\_WAIT, becomes a connection in SYN\_RCVD with the addresses and ports of the segment, which expects the sequence
  number after the SYN, and the reply is a SYNACK that acknowledges it and offers the segment size of the stack; the other
  slots are left alone.
\<close>

theorem passive_open:
  assumes "uip_tcpchksum (uip_buf s) = 0xffff" and "\<forall>c \<in> set (uip_conns s). \<not> tcp_match (uip_buf s) c"
    and "uip_buf s 47 AND TCP_CTL = TCP_SYN" and "rd16 (uip_buf s) 36 \<in> set (uip_listenports s)"
    and fit: "options_fit (uip_buf s) (syn_options_len (uip_buf s))"
  shows "\<exists>s' r. tcp_input env s = Some s' \<and> slot_for (uip_conns s) r \<and>
    (case r of None \<Rightarrow> uip_conns s' = uip_conns s \<and> uip_len s' = 0
     | Some i \<Rightarrow> \<exists>c. uip_conns s' = (uip_conns s)[i := c] \<and>
        tc_tcpstateflags c = UIP_SYN_RCVD \<and> tc_lport c = rd16 (uip_buf s) 36 \<and> tc_rport c = rd16 (uip_buf s) 34 \<and>
        tc_ripaddr c = rdip (uip_buf s) 26 \<and> be32 (tc_rcv_nxt c) = be32 (rd4 (uip_buf s) 38) + 1 \<and>
        tc_snd_nxt c = iss s \<and> tc_len c = 1 \<and>
        segment_of (uip_hostaddr s) c (uip_buf s') \<and> uip_buf s' 47 = (TCP_SYN OR TCP_ACK) \<and>
        uip_len s' = 44 \<and> rds (uip_buf s') 54 4 = [2, 4, 5, 192])"
proof -
  have "first_idx (tcp_match (uip_buf s)) (uip_conns s) = None" using assms(2) by (simp add: first_idx_None)
  then have run: "tcp_input env s = found_listen s" using assms(1,3,4) by (simp add: tcp_input_def Let_def)
  show ?thesis
  proof (cases "alloc_conn (uip_conns s)")
    case None
    then have "tcp_input env s = Some (drop_lbl s)" by (simp add: run found_listen_def)
    with slot_allocation [of "uip_conns s"] None show ?thesis
      by (intro exI [of _ "drop_lbl s"] exI [of _ None]) (simp add: send_sel drop_lbl_def)
  next
    case (Some i)
    from found_listen_opens [OF Some fit] slot_allocation [of "uip_conns s"] Some show ?thesis
      unfolding run by (elim exE, intro exI [of _ "Some i"] exI) auto
  qed
qed

definition sample_syn :: uip_st where
  "sample_syn = sample_data\<lparr>uip_buf := (\<lambda>i. if i = 46 then 0x60 else if i = 47 then 0x02
     else if i = 54 then 2 else if i = 55 then 4 else if i = 56 then 2 else 0),
     uip_len := 44\<rparr>"

definition checked_syn :: uip_st where
  "checked_syn = sample_syn\<lparr>uip_buf := tcp_checksummed ((uip_buf sample_syn)(17 := 44))\<rparr>"

theorem passive_open_witness:
  "\<exists>s' c. tcp_input idle_env checked_syn = Some s' \<and> uip_conns s' = [c] \<and> tc_tcpstateflags c = UIP_SYN_RCVD"
proof -
  have buf: "uip_buf checked_syn i = ((uip_buf sample_syn)(17 := 44)) i" if "i \<noteq> 50" "i \<noteq> 51" for i
    using that by (simp add: checked_syn_def checksummed_other)
  have conns: "uip_conns checked_syn = [zero_tcp_conn]" "uip_listenports checked_syn = [0]"
    by (simp_all add: checked_syn_def sample_syn_def sample_data_def)
  have "uip_tcpchksum (uip_buf checked_syn) = 0xffff"
    unfolding checked_syn_def by (simp add: tcp_checksummed_ok iplen_def)
  moreover have "uip_buf checked_syn 47 AND TCP_CTL = TCP_SYN" by (simp add: buf sample_syn_def)
  moreover have "rd16 (uip_buf checked_syn) 36 \<in> set (uip_listenports checked_syn)"
    unfolding conns by (simp add: rd16_def buf sample_syn_def le16_def)
  moreover have "syn_options_len (uip_buf checked_syn) = 4"
    by (simp add: syn_options_len_def buf sample_syn_def drop_bit_eq_div)
  moreover have "options_fit (uip_buf checked_syn) 4"
    by (simp add: options_fit_def buf sample_syn_def upt_rec)
  moreover have "\<forall>c \<in> set (uip_conns checked_syn). \<not> tcp_match (uip_buf checked_syn) c"
    unfolding conns by (simp add: tcp_match_def zero_tcp_conn_def)
  ultimately obtain s' r where r: "tcp_input idle_env checked_syn = Some s'" "slot_for [zero_tcp_conn] r"
    and c: "\<And>i. r = Some i \<Longrightarrow> \<exists>c. uip_conns s' = [zero_tcp_conn][i := c] \<and> tc_tcpstateflags c = UIP_SYN_RCVD"
    using passive_open [of checked_syn idle_env] unfolding conns by fastforce
  have "r = Some 0" using r(2) by (cases r) (simp_all add: slot_for_def zero_tcp_conn_def)
  with r(1) c [OF this] show ?thesis by auto
qed

text \<open>
  C40. One SYN segment with a malformed option list stops the stack: when the options begin with
  a no-operation followed by an option that claims 255 bytes, the 8-bit offset wraps to zero and
  \<^verbatim>\<open>uip_process\<close> does not return.
\<close>

theorem syn_options_hang:
  assumes "alloc_conn (uip_conns s) \<noteq> None" and "hanging_options (uip_buf s)" and "0x60 \<le> uip_buf s 46"
  shows "found_listen s = None"
proof -
  obtain i where i: "alloc_conn (uip_conns s) = Some i" using assms(1) by blast
  have ge: "6 \<le> unat (uip_buf s 46) div 16" using assms(3) by (simp add: word_le_nat_alt)
  then have "1 < syn_options_len (uip_buf s)" by (simp add: syn_options_len_def unat_nibble)
  from mss_option_hangs [OF assms(2) this] have "mss_option (uip_buf s) (syn_options_len (uip_buf s)) 0 = None" .
  moreover have "uip_buf s 46 AND 0xf0 > 0x50"
    unfolding word_less_nat_alt unat_and_f0 using ge by simp
  ultimately show ?thesis
    by (simp add: found_listen_eq [OF i] parse_mss_def syn_options_len_def)
qed

theorem syn_options_hang_witness:
  "found_listen (sample_syn\<lparr>uip_buf := (\<lambda>i. if i = 46 then 0x60 else if i = 47 then 0x02
     else if i = 54 then 1 else if i = 55 then 3 else if i = 56 then 255 else 0)\<rparr>) = None"
  by (rule syn_options_hang)
    (simp_all add: sample_syn_def sample_data_def alloc_conn_def zero_tcp_conn_def hanging_options_def)

section \<open>How much is sent\<close>

lemma tcp_send_noopts_segment:
  "segment_of (uip_hostaddr s) (tconn s i) (uip_buf (tcp_send_noopts i s))"
  "iplen (uip_buf (tcp_send_noopts i s)) = unat (uip_len s)"
  "uip_buf (tcp_send_noopts i s) 47 = uip_buf s 47"
  "rds (uip_buf (tcp_send_noopts i s)) 54 n = rds (uip_buf s) 54 n"
  using tcp_send_segment [where s = "bput 46 0x50 s" and i = i]
  by (auto simp: tcp_send_noopts_def intro!: rds_cong)

text \<open>The connection \<^verbatim>\<open>appsend\<close> leaves behind when the application wants to send.\<close>

definition sending_conn :: "'a uip_st_scheme \<Rightarrow> nat \<Rightarrow> tcp_conn" where
  "sending_conn s i = (tconn s i)\<lparr>tc_nrtx := 0, tc_len :=
     (if uip_flags s AND UIP_ACKDATA \<noteq> 0 \<or> tc_len (tconn s i) = 0
      then min (uip_slen s) (tc_mss (tconn s i)) else tc_len (tconn s i))\<rparr>"

lemma appsend_segment:
  assumes i: "i < length (uip_conns s)" and data: "0 < uip_slen s" "0 < tc_mss (tconn s i)"
    and flags: "uip_flags s AND UIP_ABORT = 0" "uip_flags s AND UIP_CLOSE = 0"
  shows "uip_conns (appsend i s) = (uip_conns s)[i := sending_conn s i] \<and>
    uip_len (appsend i s) = tc_len (sending_conn s i) + 40 \<and>
    segment_of (uip_hostaddr s) (sending_conn s i) (uip_buf (appsend i s)) \<and>
    uip_buf (appsend i s) 47 = (TCP_ACK OR TCP_PSH) \<and>
    rds (uip_buf (appsend i s)) 54 n = rds (uip_buf s) 54 n"
proof -
  let ?c = "sending_conn s i"
  have pos: "0 < tc_len ?c" using data by (auto simp: sending_conn_def min_def word_gt_0)
  have "\<exists>u. appsend i s = tcp_send_noopts i u \<and> uip_conns u = (uip_conns s)[i := ?c] \<and>
     uip_len u = tc_len ?c + 40 \<and> uip_hostaddr u = uip_hostaddr s \<and>
     uip_buf u = (uip_buf s)(47 := TCP_ACK OR TCP_PSH)"
  proof -
    let ?t = "s\<lparr>uip_conns := (uip_conns s)[i := ?c], uip_slen := tc_len ?c\<rparr>"
    have "appsend i s = apprexmit i ?t"
      using i data flags
      by (cases "uip_flags s AND UIP_ACKDATA = 0"; cases "tc_len (tconn s i) = 0";
          cases "tc_mss (tconn s i) < uip_slen s")
        (auto simp: appsend_def sending_conn_def Let_def upd_conn_def min_def not_less not_le
          intro!: arg_cong [where f = "apprexmit i"] uip_st.equality)
    with pos i show ?thesis
      by (intro exI [of _ "bput 47 (TCP_ACK OR TCP_PSH) (?t\<lparr>uip_appdata := uip_sappdata s, uip_len := tc_len ?c + 40\<rparr>)"])
        (simp add: apprexmit_def Let_def)
  qed
  then obtain u where u: "appsend i s = tcp_send_noopts i u" "uip_conns u = (uip_conns s)[i := ?c]"
     "uip_len u = tc_len ?c + 40" "uip_hostaddr u = uip_hostaddr s"
     "uip_buf u = (uip_buf s)(47 := TCP_ACK OR TCP_PSH)" by blast
  have "rds (uip_buf u) 54 n = rds (uip_buf s) 54 n" by (intro rds_cong) (simp add: u)
  moreover have "tconn u i = ?c" using i u(2) by simp
  ultimately show ?thesis
    using tcp_send_noopts_segment [where s = u and i = i] u by (simp add: send_sel)
qed

text \<open>
  C10. When the application supplies data and neither closes nor aborts, on a connection whose segment size is not zero, the connection records \<open>n\<close> bytes as outstanding and exactly the first \<open>n\<close> bytes
  after the headers leave in one segment. When nothing was outstanding, or all of it has been acknowledged, \<open>n\<close> is the length
  of the data cut to the maximum segment size of the connection; otherwise the
  segment that is outstanding is repeated, with its old length, whatever the segment size is now. The sequence number
  does not advance until the data is acknowledged, and no other connection changes.
\<close>

theorem appsend_data:
  assumes i: "i < length (uip_conns s)" and data: "0 < uip_slen s" "0 < tc_mss (tconn s i)"
    and flags: "uip_flags s AND UIP_ABORT = 0" "uip_flags s AND UIP_CLOSE = 0"
  shows "let n = (if uip_flags s AND UIP_ACKDATA \<noteq> 0 \<or> tc_len (tconn s i) = 0
        then min (uip_slen s) (tc_mss (tconn s i)) else tc_len (tconn s i));
      c = (tconn s i)\<lparr>tc_nrtx := 0, tc_len := n\<rparr>
    in uip_conns (appsend i s) = (uip_conns s)[i := c] \<and> uip_len (appsend i s) = n + 40 \<and>
      segment_of (uip_hostaddr s) c (uip_buf (appsend i s)) \<and>
      uip_buf (appsend i s) 47 = (TCP_ACK OR TCP_PSH) \<and>
      rds (uip_buf (appsend i s)) 54 (unat n) = rds (uip_buf s) 54 (unat n)"
  using appsend_segment [OF assms] by (simp add: sending_conn_def Let_def)

theorem appsend_data_witness:
  "tc_len (tconn (appsend 0 (sample_old\<lparr>uip_slen := 1000\<rparr>)) 0) = 536 \<and>
   uip_len (appsend 0 (sample_old\<lparr>uip_slen := 1000\<rparr>)) = 576"
  using appsend_data [where i = 0 and s = "sample_old\<lparr>uip_slen := 1000\<rparr>"]
  by (simp add: sample_old_def sample_data_def sample_conn_def zero_tcp_conn_def Let_def)

section \<open>Retransmission\<close>

definition half_open :: "tcp_conn \<Rightarrow> bool" where
  "half_open c \<longleftrightarrow> tc_tcpstateflags c \<in> {UIP_SYN_RCVD, UIP_SYN_SENT} \<and> tc_len c \<noteq> 0 \<and> unat (tc_nrtx c) \<le> 5"

text \<open>Ticks of the periodic timer from the \<open>n\<close>-th retransmission to the last one.\<close>

definition backoff :: "nat \<Rightarrow> nat" where
  "backoff n = sum_list (map (\<lambda>k. 3 * 2 ^ k + 1) [n ..< 5])"

lemma backoff_step: "n < 5 \<Longrightarrow> backoff n = 3 * 2 ^ n + 1 + backoff (Suc n)"
  by (simp add: backoff_def upt_conv_Cons)

lemma backoff_end: "5 \<le> n \<Longrightarrow> backoff n = 0"
  by (simp add: backoff_def)

definition ticks_left :: "tcp_conn \<Rightarrow> nat" where
  "ticks_left c = unat (tc_timer c) + backoff (unat (tc_nrtx c))"

fun periodic_ticks :: "'a uip_st_scheme uip_env \<Rightarrow> nat \<Rightarrow> nat \<Rightarrow> 'a uip_st_scheme \<Rightarrow> 'a uip_st_scheme option" where
  "periodic_ticks env i 0 s = Some s"
| "periodic_ticks env i (Suc n) s = do { s \<leftarrow> uip_periodic env i s; periodic_ticks env i n s }"

lemma periodic_timer: "uip_periodic env i s =
  tcp_timer env i (s\<lparr>uip_conn := Some i, uip_appdata := 54, uip_sappdata := 54\<rparr>)"
  by (simp add: uip_periodic_def uip_process_def Let_def)

lemma unat_backoff_timer: "n \<le> 4 \<Longrightarrow> unat (push_bit n (3 :: u8)) = 3 * 2 ^ n"
proof -
  assume "n \<le> 4"
  then consider "n = 0" | "n = 1" | "n = 2" | "n = 3" | "n = 4" by linarith
  then show ?thesis by cases (simp_all add: push_bit_eq_mult)
qed

text \<open>One tick of a half-open connection that has not run out of attempts.\<close>

lemma half_open_tick:
  assumes ho: "half_open (tconn s i)" and i: "i < length (uip_conns s)" and left: "ticks_left (tconn s i) \<noteq> 0"
  shows "\<exists>s'. uip_periodic env i s = Some s' \<and> half_open (tconn s' i) \<and>
    length (uip_conns s') = length (uip_conns s) \<and> ticks_left (tconn s i) = Suc (ticks_left (tconn s' i))"
proof -
  let ?c = "tconn s i"
  define t where "t = (xtcp_increment_word Inc_iss (s\<lparr>uip_conn := Some i, uip_appdata := 54, uip_sappdata := 54\<rparr>))
    \<lparr>uip_len := 0, uip_slen := 0\<rparr>"
  have t: "uip_conns t = uip_conns s" by (simp add: t_def send_sel)
  note timer = periodic_timer [of env i s, unfolded tcp_timer_def Let_def, folded t_def]
  show ?thesis
  proof (cases "tc_timer ?c = 0")
    case False
    then have "uip_periodic env i s = Some (drop_lbl (upd_conn i (\<lambda>c. c\<lparr>tc_timer := tc_timer c - 1\<rparr>) t))"
      using ho unfolding timer by (auto simp: half_open_def t)
    moreover have "unat (tc_timer ?c) = Suc (unat (tc_timer ?c - 1))"
      using False by (simp add: unat_minus_one unat_gt_0)
    ultimately show ?thesis
      using ho i by (simp add: send_sel upd_conn_def t half_open_def ticks_left_def)
  next
    case True
    have n: "unat (tc_nrtx ?c) < 5"
      using left ho True by (cases "unat (tc_nrtx ?c) = 5") (auto simp: ticks_left_def half_open_def backoff_end)
    let ?u = "upd_conn i (\<lambda>c. c\<lparr>tc_timer := push_bit (if 4 < tc_nrtx c then 4 else unat (tc_nrtx c)) UIP_RTO,
      tc_nrtx := tc_nrtx c + 1\<rparr>) (upd_conn i (\<lambda>c. c\<lparr>tc_timer := tc_timer c - 1\<rparr>) t)"
    let ?d = "?c\<lparr>tc_timer := push_bit (unat (tc_nrtx ?c)) 3, tc_nrtx := tc_nrtx ?c + 1\<rparr>"
    have nrtx: "tc_nrtx ?c \<noteq> UIP_MAXRTX" "tc_nrtx ?c \<noteq> UIP_MAXSYNRTX" "\<not> 4 < tc_nrtx ?c"
      using n by (auto simp: word_less_nat_alt)
    have "uip_periodic env i s = tcp_rexmit env i ?u"
      using ho True nrtx unfolding timer by (auto simp: half_open_def t)
    moreover have u: "uip_conns ?u = (uip_conns s)[i := ?d]"
      using i nrtx by (simp add: upd_conn_def t)
    moreover have "\<exists>s'. tcp_rexmit env i ?u = Some s' \<and> uip_conns s' = uip_conns ?u"
      using ho i by (auto simp: tcp_rexmit_def u half_open_def send_sel)
    moreover have "unat (tc_nrtx ?c + 1) = Suc (unat (tc_nrtx ?c))"
      using n by (simp add: unat_word_ariths)
    ultimately show ?thesis
      using ho i n True
      by (auto simp: half_open_def ticks_left_def unat_backoff_timer backoff_step)
  qed
qed

lemma half_open_ticks:
  assumes "half_open (tconn s i)" and "i < length (uip_conns s)"
  shows "\<exists>t. periodic_ticks env i (ticks_left (tconn s i)) s = Some t \<and> half_open (tconn t i) \<and>
    i < length (uip_conns t) \<and> ticks_left (tconn t i) = 0"
  using assms
proof (induction "ticks_left (tconn s i)" arbitrary: s)
  case (Suc n)
  then obtain s1 where 1: "uip_periodic env i s = Some s1" "half_open (tconn s1 i)"
      "length (uip_conns s1) = length (uip_conns s)" "Suc n = Suc (ticks_left (tconn s1 i))"
    using half_open_tick [of s i env] by auto
  with Suc.hyps(1) [of s1] Suc.prems(2) obtain t where
    "periodic_ticks env i n s1 = Some t" "half_open (tconn t i)" "i < length (uip_conns t)"
    "ticks_left (tconn t i) = 0" by auto
  with 1 show ?case by (simp flip: Suc.hyps(2))
qed auto

lemma backoff_le: "backoff n \<le> 98"
proof (cases "n < 5")
  case True
  then consider "n = 0" | "n = 1" | "n = 2" | "n = 3" | "n = 4" by linarith
  then show ?thesis by cases (simp_all add: backoff_def upt_rec)
qed (simp add: backoff_end)

lemma half_open_last:
  assumes "half_open c" and "ticks_left c = 0"
  shows "tc_timer c = 0" and "tc_nrtx c = UIP_MAXSYNRTX"
proof -
  have "unat (tc_timer c) = 0" "backoff (unat (tc_nrtx c)) = 0" using assms(2) by (simp_all add: ticks_left_def)
  then show "tc_timer c = 0" by (simp add: unat_eq_zero)
  have "\<not> unat (tc_nrtx c) < 5" using \<open>backoff _ = 0\<close> backoff_step by auto
  with assms(1) have "unat (tc_nrtx c) = unat (5 :: u8)" by (simp add: half_open_def)
  then show "tc_nrtx c = UIP_MAXSYNRTX" by (rule word_unat_eq_iff [THEN iffD2])
qed

text \<open>
  C15. A connection that is being opened and gets no answer is given up after five
  retransmissions: after exactly \<open>ticks_left\<close> ticks, at most 353, the next tick closes the
  connection, tells the application that it timed out, and sends a reset. Until then every tick
  returns and the connection stays half open.
\<close>

theorem half_open_times_out:
  assumes "half_open (tconn s i)" and "i < length (uip_conns s)"
  shows "ticks_left (tconn s i) \<le> 353 \<and>
    (\<exists>t u. periodic_ticks env i (ticks_left (tconn s i)) s = Some t \<and> half_open (tconn t i) \<and>
      uip_periodic env i t =
        map_option (\<lambda>v. tcp_send_nodata i (bput 47 (TCP_RST OR TCP_ACK) v)) (appcall env u) \<and>
      uip_flags u = UIP_TIMEDOUT \<and> tc_tcpstateflags (tconn u i) = UIP_CLOSED)"
proof
  show "ticks_left (tconn s i) \<le> 353"
    using backoff_le [of "unat (tc_nrtx (tconn s i))"] unat_u8_le [of "tc_timer (tconn s i)"]
    unfolding ticks_left_def by linarith
next
  obtain t where t: "periodic_ticks env i (ticks_left (tconn s i)) s = Some t" "half_open (tconn t i)"
    "i < length (uip_conns t)" "ticks_left (tconn t i) = 0" using half_open_ticks [OF assms] by blast
  let ?c = "tconn t i"
  note last = half_open_last [OF t(2,4)]
  define v where "v = (xtcp_increment_word Inc_iss (t\<lparr>uip_conn := Some i, uip_appdata := 54, uip_sappdata := 54\<rparr>))
    \<lparr>uip_len := 0, uip_slen := 0\<rparr>"
  have v: "uip_conns v = uip_conns t" by (simp add: v_def send_sel)
  let ?u = "(upd_conn i (\<lambda>c. c\<lparr>tc_tcpstateflags := UIP_CLOSED\<rparr>)
     (upd_conn i (\<lambda>c. c\<lparr>tc_timer := tc_timer c - 1\<rparr>) v))\<lparr>uip_flags := UIP_TIMEDOUT\<rparr>"
  have "uip_periodic env i t = map_option (\<lambda>v. tcp_send_nodata i (bput 47 (TCP_RST OR TCP_ACK) v)) (appcall env ?u)"
    using t(2) last unfolding periodic_timer tcp_timer_def Let_def v_def [symmetric] map_conv_bind_option comp_def
    by (auto simp: half_open_def v)
  moreover have "tc_tcpstateflags (tconn ?u i) = UIP_CLOSED" using t(3) by (simp add: upd_conn_def v)
  ultimately show "\<exists>t u. periodic_ticks env i (ticks_left (tconn s i)) s = Some t \<and> half_open (tconn t i) \<and>
      uip_periodic env i t =
        map_option (\<lambda>v. tcp_send_nodata i (bput 47 (TCP_RST OR TCP_ACK) v)) (appcall env u) \<and>
      uip_flags u = UIP_TIMEDOUT \<and> tc_tcpstateflags (tconn u i) = UIP_CLOSED"
    using t by (intro exI [of _ t] exI [of _ ?u]) simp
qed

theorem half_open_times_out_witness:
  "\<exists>t. periodic_ticks idle_env 0 101 (sample_data\<lparr>uip_conns := [zero_tcp_conn\<lparr>
     tc_tcpstateflags := UIP_SYN_RCVD, tc_len := 1, tc_timer := 3\<rparr>]\<rparr>) = Some t \<and>
     half_open (tconn t 0)"
  using half_open_times_out [of "sample_data\<lparr>uip_conns := [zero_tcp_conn\<lparr>
     tc_tcpstateflags := UIP_SYN_RCVD, tc_len := 1, tc_timer := 3\<rparr>]\<rparr>" 0 idle_env]
  by (auto simp: half_open_def ticks_left_def zero_tcp_conn_def backoff_def upt_rec)

section \<open>Acknowledgements and data in order\<close>

text \<open>
  C9. Only an acknowledgement of everything outstanding is accepted: it moves the send sequence
  number forward to the acknowledged one, clears the outstanding length, restarts the timer and
  raises \<^verbatim>\<open>UIP_ACKDATA\<close>; any other segment leaves the sending side as it is.
\<close>

theorem ack_input_exact:
  assumes i: "i < length (uip_conns s)"
  shows "if uip_buf s 47 AND TCP_ACK \<noteq> 0 \<and> tc_len (tconn s i) \<noteq> 0 \<and>
        be32 (rd4 (uip_buf s) 42) = be32 (tc_snd_nxt (tconn s i)) + ucast (tc_len (tconn s i))
     then tc_snd_nxt (tconn (tcp_ack_input i s) i) = rd4 (uip_buf s) 42 \<and>
        tc_len (tconn (tcp_ack_input i s) i) = 0 \<and>
        tc_timer (tconn (tcp_ack_input i s) i) = tc_rto (tconn (tcp_ack_input i s) i) \<and>
        uip_flags (tcp_ack_input i s) = UIP_ACKDATA
     else tcp_ack_input i s = s"
proof -
  have *: "be32 v = be32 w + ucast n \<longleftrightarrow> v = uip_add32 w n" for v w n
    by (simp flip: uip_add32_be32)
  have snd: "tc_snd_nxt (rtt_estimate c) = tc_snd_nxt c" "tc_rto (c\<lparr>tc_timer := x, tc_len := y\<rparr>) = tc_rto c" for c x y
    by (simp_all add: rtt_estimate_def Let_def)
  show ?thesis unfolding * using i by (auto simp: tcp_ack_input_def Let_def upd_conn_def snd)
qed

theorem ack_input_exact_witness:
  "tcp_ack_input 0 sample_old = sample_old"
proof -
  have "uip_buf sample_old 47 AND TCP_ACK \<noteq> 0" "tc_len (tconn sample_old 0) = 0"
    by (simp_all add: sample_old_def sample_conn_def zero_tcp_conn_def)
  then show ?thesis using ack_input_exact [of 0 sample_old] by (simp add: sample_old_def)
qed

lemma newdata_flag:
  "(w OR UIP_NEWDATA) AND UIP_NEWDATA \<noteq> 0" "(w OR UIP_NEWDATA) AND (UIP_NEWDATA OR UIP_ACKDATA) \<noteq> 0"
proof -
  have "bit ((w OR UIP_NEWDATA) AND UIP_NEWDATA) 1" "bit ((w OR UIP_NEWDATA) AND (UIP_NEWDATA OR UIP_ACKDATA)) 1"
    by (simp_all add: bit_simps)
  then show "(w OR UIP_NEWDATA) AND UIP_NEWDATA \<noteq> 0" "(w OR UIP_NEWDATA) AND (UIP_NEWDATA OR UIP_ACKDATA) \<noteq> 0"
    by auto
qed

lemma tcp_ack_input_keeps:
  "uip_buf (tcp_ack_input i s) = uip_buf s" "uip_len (tcp_ack_input i s) = uip_len s"
  "uip_appdata (tcp_ack_input i s) = uip_appdata s" "uip_conn (tcp_ack_input i s) = uip_conn s"
  "length (uip_conns (tcp_ack_input i s)) = length (uip_conns s)"
  by (simp_all add: tcp_ack_input_def Let_def upd_conn_def)

lemma tcp_ack_input_receiver:
  assumes "i < length (uip_conns s)"
  shows "tc_tcpstateflags (tconn (tcp_ack_input i s) i) = tc_tcpstateflags (tconn s i)"
    and "tc_rcv_nxt (tconn (tcp_ack_input i s) i) = tc_rcv_nxt (tconn s i)"
proof -
  have "tc_tcpstateflags (rtt_estimate c) = tc_tcpstateflags c" "tc_rcv_nxt (rtt_estimate c) = tc_rcv_nxt c" for c
    by (simp_all add: rtt_estimate_def Let_def)
  then show "tc_tcpstateflags (tconn (tcp_ack_input i s) i) = tc_tcpstateflags (tconn s i)"
    "tc_rcv_nxt (tconn (tcp_ack_input i s) i) = tc_rcv_nxt (tconn s i)"
    using assms by (simp_all add: tcp_ack_input_def Let_def upd_conn_def)
qed

lemma established_accept_data:
  assumes "uip_buf s 47 AND TCP_URG = 0" and "0 < uip_len s" and "tc_tcpstateflags (tconn s i) = UIP_ESTABLISHED"
    and "uip_conn s = Some i" and "i < length (uip_conns s)"
  shows "tc_rcv_nxt (tconn (established_accept i s) i) = uip_add32 (tc_rcv_nxt (tconn s i)) (uip_len s)"
    and "uip_flags (established_accept i s) = uip_flags s OR UIP_NEWDATA"
    and "uip_buf (established_accept i s) = uip_buf s" "uip_len (established_accept i s) = uip_len s"
    and "uip_appdata (established_accept i s) = uip_appdata s" "uip_conn (established_accept i s) = uip_conn s"
  using assms by (simp_all add: established_accept_def Let_def upd_conn_def uip_add_rcv_nxt_def)

text \<open>The state in which the callback sees a segment that arrives in order.\<close>

definition in_order_state :: "nat \<Rightarrow> tcp_conn list \<Rightarrow> u32 \<Rightarrow> 'a uip_st_scheme \<Rightarrow> 'a uip_st_scheme" where
  "in_order_state i cs f s = s\<lparr>uip_conn := Some i, uip_flags := f, uip_len := tcp_data_len s, uip_slen := 0, uip_conns := cs\<rparr>"

lemma flag_bits: "w AND UIP_NEWDATA \<noteq> 0 \<longleftrightarrow> bit w 1" "w AND UIP_CONNECTED \<noteq> 0 \<longleftrightarrow> bit w 6" "w AND UIP_ACKDATA \<noteq> 0 \<longleftrightarrow> bit w 0"
  "w AND UIP_REXMIT \<noteq> 0 \<longleftrightarrow> bit w 2" "w AND UIP_POLL \<noteq> 0 \<longleftrightarrow> bit w 3" "w AND UIP_CLOSE \<noteq> 0 \<longleftrightarrow> bit w 4"
  for w :: u32
proof -
  have *: "w AND 2 ^ n \<noteq> 0 \<longleftrightarrow> bit w n" if "n < 32" for n
    using that by (auto simp: and_exp_eq_0_iff_not_bit)
  show "w AND UIP_NEWDATA \<noteq> 0 \<longleftrightarrow> bit w 1" "w AND UIP_CONNECTED \<noteq> 0 \<longleftrightarrow> bit w 6" "w AND UIP_ACKDATA \<noteq> 0 \<longleftrightarrow> bit w 0"
    "w AND UIP_REXMIT \<noteq> 0 \<longleftrightarrow> bit w 2" "w AND UIP_POLL \<noteq> 0 \<longleftrightarrow> bit w 3" "w AND UIP_CLOSE \<noteq> 0 \<longleftrightarrow> bit w 4"
    using *[of 1] *[of 6] *[of 0] *[of 2] *[of 3] *[of 4] by simp_all
qed

lemma in_order_call:
  assumes i: "i < length (uip_conns s)" and st: "tc_tcpstateflags (tconn s i) = UIP_ESTABLISHED"
    and fl: "uip_buf s 47 AND TCP_RST = 0" "uip_buf s 47 AND TCP_FIN = 0" "uip_buf s 47 AND TCP_URG = 0"
    and len: "0 < tcp_data_len s" and seq: "rd4 (uip_buf s) 38 = tc_rcv_nxt (tconn s i)"
  obtains cs f where "tcp_found env i s = map_option (appsend i) (appcall env (in_order_state i cs f s))"
    "f \<in> {UIP_NEWDATA, UIP_NEWDATA OR UIP_TCP_PUSH, UIP_ACKDATA OR UIP_NEWDATA, UIP_ACKDATA OR UIP_TCP_PUSH OR UIP_NEWDATA}"
    "tc_len (tconn s i) = 0 \<Longrightarrow> \<not> bit f 0"
    "length cs = length (uip_conns s)" "tc_appstate (cs ! i) = tc_appstate (tconn s i)" "tc_tcpstateflags (cs ! i) = UIP_ESTABLISHED"
    "be32 (tc_rcv_nxt (cs ! i)) = be32 (tc_rcv_nxt (tconn s i)) + ucast (tcp_data_len s)"
proof -
  define t0 where "t0 = s\<lparr>uip_conn := Some i, uip_flags := 0, uip_len := tcp_data_len s\<rparr>"
  define p where "p \<longleftrightarrow> uip_buf s 47 AND TCP_PSH \<noteq> 0"
  define g where "g = uip_flags (tcp_ack_input i t0)"
  define ds where "ds = uip_conns (tcp_ack_input i t0)"
  let ?g = "if p then g OR UIP_TCP_PUSH else g"
  have i0: "i < length (uip_conns t0)" using i by (simp add: t0_def)
  have a: "tcp_ack_input i t0 = s\<lparr>uip_conn := Some i, uip_flags := g, uip_len := tcp_data_len s, uip_conns := ds\<rparr>"
    by (simp add: tcp_ack_input_def Let_def t0_def upd_conn_def g_def ds_def)
  have g: "g = 0 \<or> g = UIP_ACKDATA" "tc_len (tconn s i) = 0 \<Longrightarrow> g = 0"
    by (simp_all add: g_def tcp_ack_input_def Let_def t0_def)
  have "tc_appstate (rtt_estimate c) = tc_appstate c" for c by (simp add: rtt_estimate_def Let_def)
  then have ds: "length ds = length (uip_conns s)" "tc_appstate (ds ! i) = tc_appstate (tconn s i)"
    "tc_tcpstateflags (ds ! i) = UIP_ESTABLISHED" "tc_rcv_nxt (ds ! i) = tc_rcv_nxt (tconn s i)"
    using i tcp_ack_input_receiver [OF i0] st by (simp_all add: ds_def tcp_ack_input_def Let_def t0_def upd_conn_def)
  define t where "t = s\<lparr>uip_conn := Some i, uip_flags := ?g, uip_len := tcp_data_len s, uip_conns := ds\<rparr>"
  let ?cs = "uip_conns (established_accept i t)"
  have step: "(established_accept i t)\<lparr>uip_slen := 0\<rparr> = in_order_state i ?cs (?g OR UIP_NEWDATA) s"
    using fl(3) len ds i by (simp add: t_def in_order_state_def established_accept_def Let_def uip_add_rcv_nxt_def upd_conn_def)
  have cs: "length ?cs = length (uip_conns s)" "tc_appstate (?cs ! i) = tc_appstate (tconn s i)"
    "tc_tcpstateflags (?cs ! i) = UIP_ESTABLISHED"
    "be32 (tc_rcv_nxt (?cs ! i)) = be32 (tc_rcv_nxt (tconn s i)) + ucast (tcp_data_len s)"
    using fl(3) len ds i
    by (simp_all add: t_def established_accept_def Let_def uip_add_rcv_nxt_def upd_conn_def uip_add32_be32)
  have "tcp_found env i s = tcp_state_switch env i (if p
      then (tcp_ack_input i t0)\<lparr>uip_flags := uip_flags (tcp_ack_input i t0) OR UIP_TCP_PUSH\<rparr> else tcp_ack_input i t0)"
    using fl seq st unfolding tcp_found_def Let_def t0_def tcp_data_len_def p_def by simp
  also have "\<dots> = tcp_state_switch env i t" unfolding a t_def by (cases s) simp
  also have "\<dots> = tcp_established env i t" by (simp add: tcp_state_switch_def Let_def t_def ds)
  also have "\<dots> = map_option (appsend i) (appcall env ((established_accept i t)\<lparr>uip_slen := 0\<rparr>))"
    using fl newdata_flag(2) arg_cong [OF step, of uip_flags] ds(3) unfolding tcp_established_def Let_def
    by (simp add: map_conv_bind_option comp_def t_def in_order_state_def)
  finally have run: "tcp_found env i s = map_option (appsend i) (appcall env (in_order_state i ?cs (?g OR UIP_NEWDATA) s))"
    unfolding step .
  show ?thesis
    by (rule that [OF run]) (use g cs in \<open>auto simp: ac_simps bit_simps\<close>)
qed

text \<open>
  A data segment that arrives in order on an established connection is delivered: the
  application is called once with the new-data flag, the length and the position of the data, after
  the connection has moved its receive sequence number forward by exactly that length; what the
  application then wants to send leaves through \<^verbatim>\<open>appsend\<close>.
\<close>

theorem in_order_delivered:
  assumes i: "i < length (uip_conns s)" and st: "tc_tcpstateflags (tconn s i) = UIP_ESTABLISHED"
    and fl: "uip_buf s 47 AND TCP_RST = 0" "uip_buf s 47 AND TCP_FIN = 0" "uip_buf s 47 AND TCP_URG = 0"
    and len: "0 < tcp_data_len s" and seq: "rd4 (uip_buf s) 38 = tc_rcv_nxt (tconn s i)"
  shows "\<exists>u. tcp_found env i s = map_option (appsend i) (appcall env u) \<and>
    uip_flags u AND UIP_NEWDATA \<noteq> 0 \<and> uip_len u = tcp_data_len s \<and> uip_buf u = uip_buf s \<and>
    uip_appdata u = uip_appdata s \<and> uip_slen u = 0 \<and> uip_conn u = Some i \<and>
    be32 (tc_rcv_nxt (tconn u i)) = be32 (tc_rcv_nxt (tconn s i)) + ucast (tcp_data_len s)"
proof -
  obtain cs f where run: "tcp_found env i s = map_option (appsend i) (appcall env (in_order_state i cs f s))"
    and f: "f \<in> {UIP_NEWDATA, UIP_NEWDATA OR UIP_TCP_PUSH, UIP_ACKDATA OR UIP_NEWDATA, UIP_ACKDATA OR UIP_TCP_PUSH OR UIP_NEWDATA}"
    and seq': "be32 (tc_rcv_nxt (cs ! i)) = be32 (tc_rcv_nxt (tconn s i)) + ucast (tcp_data_len s)"
    using in_order_call [OF assms] by metis
  have "f AND UIP_NEWDATA \<noteq> 0" using f by auto
  then show ?thesis
    using run seq' by (intro exI [of _ "in_order_state i cs f s"]) (simp add: in_order_state_def)
qed

theorem in_order_delivered_witness:
  "\<exists>u. tcp_found idle_env 0 (sample_old\<lparr>uip_conns := [sample_conn\<lparr>tc_rcv_nxt := (0, 0, 0, 0)\<rparr>]\<rparr>) =
       map_option (appsend 0) (appcall idle_env u) \<and> uip_len u = 100 \<and>
     be32 (tc_rcv_nxt (tconn u 0)) = 100"
proof -
  let ?s = "sample_old\<lparr>uip_conns := [sample_conn\<lparr>tc_rcv_nxt := (0, 0, 0, 0)\<rparr>]\<rparr>"
  have "tcp_data_len ?s = 100" by (simp add: tcp_data_len_def sample_old_def)
  moreover have "uip_buf ?s 47 AND TCP_RST = 0" "uip_buf ?s 47 AND TCP_FIN = 0" "uip_buf ?s 47 AND TCP_URG = 0"
    "rd4 (uip_buf ?s) 38 = tc_rcv_nxt (tconn ?s 0)" "tc_tcpstateflags (tconn ?s 0) = UIP_ESTABLISHED"
    by (simp_all add: sample_old_def sample_conn_def rd4_def)
  ultimately show ?thesis
    using in_order_delivered [of 0 ?s idle_env] by (auto simp: be32_def le32_def)
qed

end
