(* ===== verification/Xtcp_Delivery.thy ===== *)
theory Xtcp_Delivery
  imports Uip_Server Uip_Segments
begin

text \<open>
  From the wire to the client: a TCP segment that arrives in order is handed to the client of the
  connection exactly once, byte for byte. The theory follows the data through the stack
  (\<open>in_order_call\<close>), the callback and the channel protocol.
\<close>

section \<open>What serving the clients keeps\<close>

text \<open>The data that has been handed to clients, with the links.\<close>

definition delivered :: "nat \<times> xmsg \<Rightarrow> (nat \<times> u8 list) list" where
  "delivered im = (case snd im of OutRecv bs \<Rightarrow> [(fst im, bs)] | _ \<Rightarrow> [])"

definition deliveries :: "(nat \<times> xmsg) list \<Rightarrow> (nat \<times> u8 list) list" where
  "deliveries l = concat (map delivered l)"

definition link_of :: "nat \<Rightarrow> 'a uip_st_scheme \<Rightarrow> int" where
  "link_of i s = xd_linknum (tc_appstate (tconn s i))"

definition live :: "nat \<Rightarrow> 'a uip_st_scheme \<Rightarrow> bool" where
  "live i s \<longleftrightarrow> i < length (uip_conns s) \<and> conn_state (tconn s i) \<notin> {UIP_CLOSED, UIP_TIME_WAIT}"

text \<open>
  A connection keeps its link while clients are served, unless its slot is closed or in TIME\_WAIT and a client
  opens a new connection in it, which is then in SYN\_SENT.
\<close>

definition links_kept :: "nat \<Rightarrow> 'a xtcp_st_scheme \<Rightarrow> 'a xtcp_st_scheme \<Rightarrow> bool" where
  "links_kept i s s' \<longleftrightarrow> deliveries (xlog s') = deliveries (xlog s) \<and>
     (i < length (uip_conns s) \<and> (live i s \<or> conn_state (tconn s' i) \<noteq> UIP_SYN_SENT) \<longrightarrow> link_of i s' = link_of i s)"

named_theorems links_intro \<open>operations that deliver nothing and keep the link of a live connection\<close>

lemma links_refl [links_intro]: "links_kept i s s"
  by (simp add: links_kept_def)

lemma link_upd_conn:
  "(\<And>c. xd_linknum (tc_appstate (f c)) = xd_linknum (tc_appstate c)) \<Longrightarrow> link_of i (upd_conn k f s) = link_of i s"
  by (cases "i = k"; cases "k < length (uip_conns s)") (simp_all add: link_of_def upd_conn_def list_update_beyond)

lemma state_upd_conn: "(\<And>c. conn_state (f c) = conn_state c) \<Longrightarrow> conn_state (tconn (upd_conn k f s) i) = conn_state (tconn s i)"
  by (cases "i = k"; cases "k < length (uip_conns s)") (simp_all add: upd_conn_def list_update_beyond)

lemma links_upd_conn [links_intro]:
  "links_kept i s s' \<Longrightarrow> (\<And>c. xd_linknum (tc_appstate (f c)) = xd_linknum (tc_appstate c)) \<Longrightarrow>
    (\<And>c. conn_state (f c) = conn_state c) \<Longrightarrow> links_kept i s (upd_conn k f s')"
  using link_upd_conn [of f i k s'] state_upd_conn [of f k s' i] by (simp add: links_kept_def) (simp add: upd_conn_def)

lemma links_upd_udp [links_intro]: "links_kept i s s' \<Longrightarrow> links_kept i s (upd_udp j f s')"
  by (simp add: links_kept_def link_of_def upd_udp_def)

lemma links_upd_xstate [links_intro]:
  "links_kept i s s' \<Longrightarrow> (\<And>x. xd_linknum (f x) = xd_linknum x) \<Longrightarrow> links_kept i s (upd_xstate r f s')"
  by (cases r) (simp_all add: upd_xstate_def links_intro conn_state_def)

lemma links_stateflags [links_intro]:
  "links_kept i s s' \<Longrightarrow> (\<And>w. f w AND UIP_TS_MASK = w AND UIP_TS_MASK) \<Longrightarrow> links_kept i s (upd_stateflags f r s')"
  by (cases r) (simp_all add: upd_stateflags_def links_intro conn_state_def)

lemma links_on_conn [links_intro]: "(\<And>r. links_kept i s (f r s)) \<Longrightarrow> links_kept i s (on_conn conn_id f s)"
  by (auto simp: on_conn_def links_refl split: option.split)

lemma links_same: "uip_conns s' = uip_conns s \<Longrightarrow> deliveries (xlog s') = deliveries (xlog s) \<Longrightarrow> links_kept i s s'"
  by (simp add: links_kept_def link_of_def)

lemma links_emit [links_intro]: "(\<And>bs. m \<noteq> OutRecv bs) \<Longrightarrow> links_kept i s (emit k m s)"
  by (rule links_same) (auto simp: emit_def deliveries_def delivered_def split: xmsg.split)

lemma live_step: "stack_kept s s' \<Longrightarrow> live i s \<Longrightarrow> live i s'"
  using app_table_nth [of "uip_conns s" "uip_conns s'" i] app_table_length [of "uip_conns s" "uip_conns s'"]
  by (auto simp: live_def stack_kept_def dest!: app_step_live) (simp_all add: conn_kept_def)

lemma still_syn_sent:
  assumes "stack_kept t u" and "i < length (uip_conns t)" and "conn_state (tconn t i) = UIP_SYN_SENT"
  shows "conn_state (tconn u i) = UIP_SYN_SENT"
  using assms app_table_nth [of "uip_conns t" "uip_conns u" i]
  by (auto simp: stack_kept_def dest!: app_step_live) (simp add: conn_kept_def)

lemma live_links: "links_kept i s s' \<Longrightarrow> live i s \<Longrightarrow> link_of i s' = link_of i s"
  by (simp add: links_kept_def live_def)

lemma links_trans:
  assumes "stack_kept s t" and "stack_kept t u" and "links_kept i s t" and "links_kept i t u"
  shows "links_kept i s u"
proof -
  have "length (uip_conns t) = length (uip_conns s)" using assms(1) app_table_length by (auto simp: stack_kept_def)
  then show ?thesis
    using assms(3,4) live_step [OF assms(1), of i] still_syn_sent [OF assms(2), of i] unfolding links_kept_def by metis
qed

lemma uip_connect_SomeD:
  assumes "uip_connect b q s = Some (u, Some k)"
  shows "\<exists>lp. alloc_conn (uip_conns s) = Some k \<and> u = upd_conn k (open_conn (iss s) lp q b) (s\<lparr>lastport := lp\<rparr>)"
proof -
  from assms obtain lp where "(case alloc_conn (uip_conns s) of None \<Rightarrow> Some (s\<lparr>lastport := lp\<rparr>, None)
     | Some i \<Rightarrow> Some (upd_conn i (open_conn (iss s) lp q b) (s\<lparr>lastport := lp\<rparr>), Some i)) = Some (u, Some k)"
    unfolding uip_connect_def Let_def bind_eq_Some_conv by blast
  then show ?thesis by (cases "alloc_conn (uip_conns s)") auto
qed

lemma links_connect: "xtcpd_connect l p a pr s = Some s' \<Longrightarrow> links_kept i s s'"
proof -
  assume run: "xtcpd_connect l p a pr s = Some s'"
  have other: "link_of i (upd_conn k f t) = link_of i t" if "i \<noteq> k" for k f and t :: "'a xtcp_st_scheme"
    using that by (simp add: link_of_def)
  have tcp: "links_kept i s (upd_xstate (TcpRef k) g u)" if "uip_connect b q s = Some (u, Some k)" for b q u k g
  proof -
    from uip_connect_SomeD [OF that] obtain lp where k: "alloc_conn (uip_conns s) = Some k"
      and u': "u = upd_conn k (open_conn (iss s) lp q b) (s\<lparr>lastport := lp\<rparr>)" by blast
    define c where "c = open_conn (iss s) lp q b (tconn s k)"
    have u: "xlog u = xlog s" "uip_conns u = (uip_conns s)[k := c]" by (simp_all add: u' upd_conn_def c_def)
    have "i \<noteq> k" if "live i s"
      using that alloc_conn_Some(2) [OF k] by (auto simp: live_def reusable_def conn_state_def)
    moreover have "link_of i u = link_of i s" if "i \<noteq> k"
      using that by (simp add: link_of_def u(2))
    moreover have "xlog (upd_xstate (TcpRef k) g u) = xlog u" by (simp add: upd_xstate_def upd_conn_def)
    moreover have "conn_state (tconn (upd_xstate (TcpRef k) g u) k) = UIP_SYN_SENT" if "k < length (uip_conns s)"
      using that by (simp add: upd_xstate_def upd_conn_def u(2) c_def open_conn_def conn_state_def)
    ultimately show ?thesis by (cases "i = k") (auto simp: links_kept_def u(1) upd_xstate_def other)
  qed
  have none: "links_kept i s u" if "uip_connect b q s = Some (u, None)" for b q u
    using that by (intro links_same) (auto simp: uip_connect_def Let_def bind_eq_Some_conv split: option.splits)
  have udp: "uip_conns u = uip_conns s" "xlog u = xlog s" if "uip_udp_new b q s = Some (u, w)" for b q u w
    using that by (auto simp: uip_udp_new_def Let_def bind_eq_Some_conv upd_udp_def split: option.splits)
  have udp': "links_kept i s (upd_xstate (UdpRef j) g u)" "links_kept i s u" if "uip_udp_new b q s = Some (u, w)" for b q u w j g
    using udp [OF that] by (auto intro!: links_same simp: upd_xstate_def upd_udp_def)
  have tcp': "links_kept i s (case w of None \<Rightarrow> u | Some k \<Rightarrow> upd_xstate (TcpRef k) g u)" if "uip_connect b q s = Some (u, w)" for b q u w g
    using that tcp none by (cases w) auto
  have udp'': "links_kept i s (case w of None \<Rightarrow> u | Some j \<Rightarrow> upd_xstate (UdpRef j) g u)" if "uip_udp_new b q s = Some (u, w)" for b q u w g
    using udp' [OF that] by (cases w) auto
  from run show ?thesis
    by (auto simp: xtcpd_connect_def Let_def split: prod.splits if_splits intro: tcp' udp'')
qed

lemma links_bind: "xtcpd_bind_local conn_id p s = Some s' \<Longrightarrow> links_kept i s s'"
    "xtcpd_bind_remote conn_id a p s = Some s' \<Longrightarrow> links_kept i s s'"
  by (auto simp: xtcpd_bind_local_def xtcpd_bind_remote_def Let_def
      split: option.splits conn_ref.splits prod.splits if_splits intro!: links_intro) (simp_all add: conn_state_def)

lemma links_listen [links_intro]: "links_kept i s (xtcpd_listen l p pr s)" "links_kept i s (xtcpd_unlisten l p s)"
  "links_kept i s (igmp_join_group a s)" "links_kept i s (igmp_leave_group a s)"
  by (rule links_same; simp add: xtcpd_listen_def xtcpd_unlisten_def uip_listen_def uip_unlisten_def uip_udp_listen_def
      igmp_join_group_def igmp_leave_group_def upd_group_def split: option.split)+

lemma state_masks: "(w OR 16) AND 15 = w AND 15" "(w AND - 17) AND 15 = w AND 15" for w :: u8
  using state_flags [of w] by simp_all

lemma links_cmd:
  assumes "handle_xtcp_cmd k cmd conn_id s = Some s'"
  shows "links_kept i s s'"
proof (cases cmd)
  case (CMD_SET_POLL_INTERVAL p)
  with assms show ?thesis
    by (auto simp: handle_xtcp_cmd_def xtcpd_set_poll_interval_def split: option.splits intro!: links_intro)
qed (use assms in \<open>auto simp: handle_xtcp_cmd_def cmd_on_conn_defs xtcpd_join_group_def xtcpd_leave_group_def state_masks
    intro!: links_intro dest: links_connect links_bind split: prod.splits\<close>)

text \<open>
  The relation for serving the clients while the data of connection \<open>i\<close> waits: the packet stays, the table
  changes as the stack allows, nothing is delivered, and the connection keeps its link.
\<close>

definition waits_for :: "nat \<Rightarrow> 'a xtcp_st_scheme \<Rightarrow> 'a xtcp_st_scheme \<Rightarrow> bool" where
  "waits_for i s s' \<longleftrightarrow> packet_kept s s' \<and> stack_kept s s' \<and> links_kept i s s'"

lemma waits_trans: "waits_for i s t \<Longrightarrow> waits_for i t u \<Longrightarrow> waits_for i s u"
  unfolding waits_for_def by (blast intro: packet_trans stack_trans links_trans)

lemma waits_same:
  "packet_kept s s' \<Longrightarrow> uip_conns s' = uip_conns s \<Longrightarrow> xlog s' = xlog s \<Longrightarrow> waits_for i s s'"
  by (auto simp: waits_for_def packet_kept_def intro: stack_same links_same)

interpretation waiting: client_rel "waits_for i" for i
proof
  fix s s' :: "'a xtcp_st_scheme" and k cmd conn_id
  assume "handle_xtcp_cmd k cmd conn_id s = Some s'"
  then show "waits_for i s s'" unfolding waits_for_def using packet_cmd stack_cmd links_cmd by blast
next
  fix s :: "'a xtcp_st_scheme" and k m
  assume "\<And>bs. m \<noteq> OutRecv bs" "\<And>bs. m \<noteq> InData bs"
  then show "waits_for i s (emit k m s)" unfolding waits_for_def by (intro conjI packet_fields stack_fields links_emit)
next
  fix s :: "'a xtcp_st_scheme" and r ev
  show "waits_for i s (upd_xc r (\<lambda>c. c\<lparr>xc_event := ev\<rparr>) s)"
    unfolding waits_for_def by (intro conjI packet_intro stack_intro links_intro) simp
next
  fix s t u :: "'a xtcp_st_scheme"
  assume "waits_for i s t" "waits_for i t u"
  then show "waits_for i s u" by (rule waits_trans)
qed (rule waits_same; simp add: packet_kept_def)+

text \<open>The callback as a whole delivers nothing but what the input hands over.\<close>

definition quiet :: "'a xtcp_st_scheme \<Rightarrow> 'a xtcp_st_scheme \<Rightarrow> bool" where
  "quiet s s' \<longleftrightarrow> deliveries (xlog s') = deliveries (xlog s)"

lemma quiet_links: "links_kept i s s' \<Longrightarrow> quiet s s'"
  by (simp add: quiet_def links_kept_def)

interpretation quiet: callback_rel quiet
proof
  fix s s' :: "'a xtcp_st_scheme" and k cmd conn_id
  assume "handle_xtcp_cmd k cmd conn_id s = Some s'"
  then show "quiet s s'" by (rule quiet_links [OF links_cmd])
next
  fix s :: "'a xtcp_st_scheme" and k m
  assume "\<And>bs. m \<noteq> OutRecv bs" "\<And>bs. m \<noteq> InData bs"
  then show "quiet s (emit k m s)" by (intro quiet_links [OF links_emit])
next
  fix s :: "'a xtcp_st_scheme" and r f
  show "quiet s (upd_xstate r f s)" by (cases r) (simp_all add: quiet_def upd_xstate_def upd_conn_def upd_udp_def)
next
  fix s :: "'a xtcp_st_scheme" and k bs
  show "quiet s (emit k (InData bs) s)" by (rule quiet_links [OF links_emit]) simp
qed (auto simp: quiet_def upd_xstate_def upd_conn_def upd_udp_def split: conn_ref.split)

section \<open>The path of the data\<close>

lemma deliveries_append: "deliveries (l @ m) = deliveries l @ deliveries m"
  by (simp add: deliveries_def)

lemma deliveries_one: "deliveries [(k, OutRecv bs), (k, OutCt)] = [(k, bs)]"
  by (simp_all add: deliveries_def delivered_def)

lemma link_xstate: "xd_linknum (xstate (TcpRef i) s) = link_of i s"
  by (simp add: xstate_def link_of_def)

text \<open>The input part of the callback hands over what is in the packet, once, to the link of the connection.\<close>

lemma input_delivers:
  assumes run: "app_input (TcpRef i) s = Some (s', dn)" and new: "app_flag UIP_NEWDATA s" "0 < uip_len s"
    and conn: "live i s" "link_of i s = int l"
  shows "deliveries (xlog s') = deliveries (xlog s) @ [(l, rds (uip_buf s) (uip_appdata s) (unat (uip_len s)))]" and "\<not> dn"
proof -
  have "xd_linknum (xstate (TcpRef i) s) \<noteq> -1" using conn(2) by (simp add: link_xstate)
  with run new obtain u v where u: "xtcpd_service_clients_until_ready (link_of i s) s = Some u"
    "xtcpd_recv (nat (link_of i u)) (TcpRef i) (uip_appdata u) (unat (uip_len u)) u = Some v"
    and s': "s' = (case uip_conn v of Some i' \<Rightarrow> if xs_ack_recv_mode (xd_s (xstate (TcpRef i) v))
        then upd_conn i' (\<lambda>c. c\<lparr>tc_tcpstateflags := tc_tcpstateflags c OR UIP_STOPPED\<rparr>) v else v | None \<Rightarrow> v)"
    and dn: "\<not> dn"
    by (auto simp: app_input_def bind_eq_Some_conv link_xstate)
  have su: "waits_for i s u" by (rule waiting.R_until [OF u(1)])
  obtain w where uw: "waits_for i u w"
    and v: "v = emit (nat (link_of i u)) OutCt (emit (nat (link_of i u)) (OutRecv (rds (uip_buf w) (uip_appdata u) (unat (uip_len u)))) w)"
    using waiting.R_recv [OF u(2)] .
  from waits_trans [OF su uw] have sw: "packet_kept s w" "links_kept i s w" by (simp_all add: waits_for_def)
  from su have pu: "packet_kept s u" "links_kept i s u" by (simp_all add: waits_for_def)
  have "xlog s' = xlog v" unfolding s' by (simp add: upd_conn_def split: option.split)
  moreover have "nat (link_of i u) = l" using live_links [OF pu(2) conn(1)] conn(2) by simp
  ultimately show "deliveries (xlog s') = deliveries (xlog s) @ [(l, rds (uip_buf s) (uip_appdata s) (unat (uip_len s)))]"
    using sw pu by (simp add: v emit_def deliveries_append deliveries_one packet_kept_def links_kept_def)
  show "\<not> dn" by (rule dn)
qed

lemma appcall_delivers:
  assumes run: "xtcpd_appcall_conn (TcpRef i) s = Some s'" and new: "app_flag UIP_NEWDATA s" "0 < uip_len s"
    and old: "\<not> app_flag UIP_CONNECTED s" and conn: "live i s" "link_of i s = int l"
  shows "deliveries (xlog s') = deliveries (xlog s) @ [(l, rds (uip_buf s) (uip_appdata s) (unat (uip_len s)))]"
proof -
  from run old obtain v dn where v: "app_input (TcpRef i) s = Some (v, dn)"
    and rest: "if dn then v = s' else \<exists>w x y. app_acked (TcpRef i) v = Some w \<and> app_rexmit (TcpRef i) w = Some x \<and>
      app_poll (TcpRef i) x = Some y \<and> app_closed (TcpRef i) y = Some s'"
    by (auto simp: xtcpd_appcall_conn_def app_connected_def bind_eq_Some_conv split: if_splits)
  note inp = input_delivers [OF v new conn]
  from rest inp(2) quiet.R_rest [of "TcpRef i" v] have "quiet v s'" by auto
  with inp(1) show ?thesis by (simp add: quiet_def)
qed

lemma send_keeps_log: "xlog (drop_lbl s) = xlog s" "xlog (tcp_send i s) = xlog s"
  by (simp_all add: drop_lbl_def tcp_send_def tcp_send_noconn_def ip_send_nolen_def send_lbl_def Let_def)

lemma appsend_keeps_log: "xlog (appsend i s) = xlog s"
proof -
  have "xlog (apprexmit i t) = xlog t" for t :: "'a xtcp_st_scheme"
    by (simp add: apprexmit_def tcp_send_noopts_def Let_def send_keeps_log)
  then show ?thesis
    by (simp add: appsend_def tcp_send_nodata_def tcp_send_noopts_def Let_def upd_conn_def send_keeps_log)
qed

lemma in_order_flags:
  assumes "f \<in> {UIP_NEWDATA, UIP_NEWDATA OR UIP_TCP_PUSH, UIP_ACKDATA OR UIP_NEWDATA, UIP_ACKDATA OR UIP_TCP_PUSH OR UIP_NEWDATA}"
  shows "f AND UIP_NEWDATA \<noteq> 0" "f AND UIP_CONNECTED = 0" "f AND UIP_REXMIT = 0" "f AND UIP_POLL = 0" "f AND UIP_CLOSE = 0"
  using assms by auto

lemma kept_state: "stack_kept s s' \<Longrightarrow> i < length (uip_conns s) \<Longrightarrow> conn_state (tconn s' i) \<noteq> UIP_SYN_SENT \<Longrightarrow>
    conn_kept (tconn s i) (tconn s' i)"
  using app_table_nth [of "uip_conns s" "uip_conns s'" i] by (auto simp: stack_kept_def app_step_def conn_reopened_def)

lemma kept_live: "stack_kept s s' \<Longrightarrow> live i s \<Longrightarrow> conn_kept (tconn s i) (tconn s' i)"
  using app_table_nth [of "uip_conns s" "uip_conns s'" i] by (auto simp: stack_kept_def live_def intro: app_step_live)

lemma appcall_server: "uip_conn s = Some i \<Longrightarrow> appcall (server_env t) s = xtcpd_appcall_conn (TcpRef i) s"
  by (simp add: server_env_def xtcp_env_def xtcpd_appcall_def)

text \<open>What the callback gets for a segment that arrives in order, delivered.\<close>

lemma segment_delivered:
  assumes "i < length (uip_conns s)" and "tc_tcpstateflags (tconn s i) = UIP_ESTABLISHED"
    and "uip_buf s 47 AND TCP_RST = 0" and "uip_buf s 47 AND TCP_FIN = 0" and "uip_buf s 47 AND TCP_URG = 0"
    and "0 < tcp_data_len s" and "rd4 (uip_buf s) 38 = tc_rcv_nxt (tconn s i)"
    and link: "link_of i s = int l" and run: "tcp_found (server_env t) i s = Some s'"
  shows "deliveries (xlog s') = deliveries (xlog s) @ [(l, rds (uip_buf s) (uip_appdata s) (unat (tcp_data_len s)))]"
proof -
  obtain cs f where found: "tcp_found (server_env t) i s = map_option (appsend i) (appcall (server_env t) (in_order_state i cs f s))"
    and f: "f \<in> {UIP_NEWDATA, UIP_NEWDATA OR UIP_TCP_PUSH, UIP_ACKDATA OR UIP_NEWDATA, UIP_ACKDATA OR UIP_TCP_PUSH OR UIP_NEWDATA}"
    and cs: "length cs = length (uip_conns s)" "tc_appstate (cs ! i) = tc_appstate (tconn s i)" "tc_tcpstateflags (cs ! i) = UIP_ESTABLISHED"
    using in_order_call [OF assms(1-7)] by metis
  let ?u = "in_order_state i cs f s"
  have "uip_conn ?u = Some i" by (simp add: in_order_state_def)
  then have "appcall (server_env t) ?u = xtcpd_appcall_conn (TcpRef i) ?u"
    by (simp add: server_env_def xtcp_env_def xtcpd_appcall_def)
  with run found obtain v where v: "xtcpd_appcall_conn (TcpRef i) ?u = Some v" "s' = appsend i v" by auto
  have "live i ?u" "link_of i ?u = int l"
    using assms(1) cs link by (simp_all add: live_def conn_state_def in_order_state_def link_of_def)
  from appcall_delivers [OF v(1) _ _ _ this] assms(6) in_order_flags [OF f]
  show ?thesis unfolding v(2) appsend_keeps_log by (simp add: app_flag_def in_order_state_def)
qed

text \<open>The data of a segment without options stands behind 40 bytes of headers, which is where \<^verbatim>\<open>uip_appdata\<close> points.\<close>

definition plain_segment :: "'a uip_st_scheme \<Rightarrow> bool" where
  "plain_segment s \<longleftrightarrow> drop_bit 4 (uip_buf s 46) = 5 \<and> uip_appdata s = 54 \<and> 40 < uip_len s"

definition segment_payload :: "'a uip_st_scheme \<Rightarrow> u8 list" where
  "segment_payload s = rds (uip_buf s) 54 (unat (uip_len s) - 40)"

lemma plain_payload:
  assumes "plain_segment s"
  shows "0 < tcp_data_len s" "rds (uip_buf s) (uip_appdata s) (unat (tcp_data_len s)) = segment_payload s"
proof -
  have len: "40 < unat (uip_len s)" using assms by (simp add: plain_segment_def word_less_nat_alt)
  have "drop_bit 4 (uip_buf s 46) = 5" using assms by (simp add: plain_segment_def)
  then have "tcp_data_len s = uip_len s - 40" unfolding tcp_data_len_def by (simp add: push_bit_eq_mult)
  moreover have "40 \<le> uip_len s" using len by (simp add: word_le_nat_alt)
  ultimately have n: "unat (tcp_data_len s) = unat (uip_len s) - 40" by (simp add: unat_sub)
  with len show "0 < tcp_data_len s" by (simp add: word_less_nat_alt)
  show "rds (uip_buf s) (uip_appdata s) (unat (tcp_data_len s)) = segment_payload s"
    using assms by (simp add: n plain_segment_def segment_payload_def)
qed

text \<open>
  C4. From the wire to the client: when a data segment without TCP options arrives in order on an established connection
  that belongs to a client, without RST, FIN or URG, then by the time the stack has dealt with the segment, exactly one message
  with data has been sent to the clients: it goes to the link of this connection and carries exactly
  the bytes of the segment behind its headers; whatever commands the clients send in the meantime, and whatever
  events they get.
\<close>

theorem segment_reaches_client:
  assumes "i < length (uip_conns s)" and "tc_tcpstateflags (tconn s i) = UIP_ESTABLISHED"
    and "uip_buf s 47 AND TCP_RST = 0" and "uip_buf s 47 AND TCP_FIN = 0" and "uip_buf s 47 AND TCP_URG = 0"
    and plain: "plain_segment s" and "rd4 (uip_buf s) 38 = tc_rcv_nxt (tconn s i)"
    and link: "link_of i s = int l" and run: "tcp_found (server_env t) i s = Some s'"
  shows "deliveries (xlog s') = deliveries (xlog s) @ [(l, segment_payload s)]"
  using segment_delivered [OF assms(1-5) plain_payload(1) [OF plain] assms(7-9)] unfolding plain_payload(2) [OF plain] .

section \<open>A client that answers\<close>

text \<open>
  What the server finds on its \<open>n\<close> channels from \<open>i\<close> on when only the client of link \<open>w\<close> has something to
  say, the answer to its notification.
\<close>

definition answer_polls :: "u32 \<Rightarrow> nat \<Rightarrow> nat \<Rightarrow> nat \<Rightarrow> (u32 \<times> client_tok option) list" where
  "answer_polls t w i n = map (\<lambda>k. (t, if k = w then Some TokEnd else None)) [i..<i + n]"

lemma answer_polls_Suc: "answer_polls t w i (Suc n) = (t, if i = w then Some TokEnd else None) # answer_polls t w (i + 1) n"
  by (simp add: answer_polls_def upt_rec [of i])

lemma sweep_answer:
  assumes "polls s = answer_polls t w i n @ ps" and "pending_event s ! w = None" and "w < length (notified s)"
    and "w < i \<Longrightarrow> \<not> notified s ! w"
  shows "\<exists>s' a. service_sweep i n (int w) s = Some (s', a) \<and> polls s' = ps \<and> (w < i + n \<longrightarrow> \<not> notified s' ! w) \<and>
    uip_conns s' = uip_conns s"
  using assms
proof (induction n arbitrary: i s)
  case 0
  then show ?case by (intro exI [of _ s] exI [of _ False]) (simp add: answer_polls_def)
next
  case (Suc n)
  let ?u = "s\<lparr>clock := t, polls := answer_polls t w (i + 1) n @ ps\<rparr>"
  show ?case
  proof (cases "i = w")
    case True
    let ?v = "set_notified w False (emit w InEnd ?u)"
    have v: "xtcpd_service_client0 i (int w) s = Some (?v, True)"
      using Suc.prems(1,2) True
      by (simp add: answer_polls_Suc xtcpd_service_client0_def poll_link_def set_notified_def emit_def Let_def)
    have "polls ?v = answer_polls t w (i + 1) n @ ps" "pending_event ?v ! w = None" "w < length (notified ?v)" "\<not> notified ?v ! w"
      using Suc.prems by (simp_all add: set_notified_def emit_def)
    from Suc.IH [OF this(1-4)] obtain s' a where "service_sweep (i + 1) n (int w) ?v = Some (s', a)" "polls s' = ps"
      "w < i + 1 + n \<longrightarrow> \<not> notified s' ! w" "uip_conns s' = uip_conns ?v" by blast
    then show ?thesis using v by (intro exI [of _ s'] exI [of _ True]) (simp add: True set_notified_def emit_def)
  next
    case False
    have v: "xtcpd_service_client0 i (int w) s = Some (?u, False)"
      using Suc.prems(1) False by (simp add: answer_polls_Suc xtcpd_service_client0_def poll_link_def)
    have "polls ?u = answer_polls t w (i + 1) n @ ps" "pending_event ?u ! w = None" "w < length (notified ?u)"
      "w < i + 1 \<Longrightarrow> \<not> notified ?u ! w" using Suc.prems(2-) False by simp_all
    from Suc.IH [OF this] obtain s' a where "service_sweep (i + 1) n (int w) ?u = Some (s', a)" "polls s' = ps"
      "w < i + 1 + n \<longrightarrow> \<not> notified s' ! w" "uip_conns s' = uip_conns ?u" by blast
    then show ?thesis using v by (intro exI [of _ s'] exI [of _ a]) simp
  qed
qed

lemma until_ready_returns:
  assumes "polls s = answer_polls t w 0 (xtcp_num s) @ ps" and "pending_event s ! w = None" and "w < length (notified s)"
    and "w < xtcp_num s"
  shows "\<exists>s'. xtcpd_service_clients_until_ready (int w) s = Some s' \<and> polls s' = ps \<and> uip_conns s' = uip_conns s"
proof -
  let ?u = "if notified s ! w then s else set_notified w True (emit w OutCt s)"
  have u: "polls ?u = answer_polls t w 0 (xtcp_num ?u) @ ps" "pending_event ?u ! w = None" "w < length (notified ?u)"
    "notified ?u ! w" "w < 0 + xtcp_num ?u"
    using assms by (simp_all add: set_notified_def emit_def)
  from sweep_answer [OF u(1-3)] u(5) obtain s' a where s': "service_sweep 0 (xtcp_num ?u) (int w) ?u = Some (s', a)"
    "polls s' = ps" "\<not> notified s' ! w" "uip_conns s' = uip_conns ?u" by auto
  have "until_ready_loop w s' = Some s'" by (subst until_ready_loop.simps) (simp add: s'(3))
  then have "until_ready_loop w ?u = Some s'" by (subst until_ready_loop.simps) (simp only: u(4) s'(1) if_True bind.bind_lunit prod.case)
  moreover have "uip_conns s' = uip_conns s" using s'(4) by (simp add: set_notified_def emit_def)
  ultimately show ?thesis using s'(2) unfolding xtcpd_service_clients_until_ready_def nat_int by blast
qed

lemma answering_run:
  assumes seg: "i < length (uip_conns s)" "tc_tcpstateflags (tconn s i) = UIP_ESTABLISHED"
    "uip_buf s 47 AND TCP_RST = 0" "uip_buf s 47 AND TCP_FIN = 0" "uip_buf s 47 AND TCP_URG = 0"
    "0 < tcp_data_len s" "rd4 (uip_buf s) 38 = tc_rcv_nxt (tconn s i)"
    and idle: "tc_len (tconn s i) = 0" and link: "link_of i s = int l" "l < xtcp_num s" "l < length (notified s)"
    and client: "pending_event s ! l = None" "polls s = answer_polls now l 0 (xtcp_num s) @ [(now', Some (TokReady True))]"
  shows "\<exists>s'. tcp_found (server_env t) i s = Some s' \<and> polls s' = [] \<and>
    (l, OutRecv (rds (uip_buf s) (uip_appdata s) (unat (tcp_data_len s)))) \<in> set (xlog s')"
proof -
  obtain cs f where found: "tcp_found (server_env t) i s = map_option (appsend i) (appcall (server_env t) (in_order_state i cs f s))"
    and f: "f \<in> {UIP_NEWDATA, UIP_NEWDATA OR UIP_TCP_PUSH, UIP_ACKDATA OR UIP_NEWDATA, UIP_ACKDATA OR UIP_TCP_PUSH OR UIP_NEWDATA}"
    and bit: "tc_len (tconn s i) = 0 \<Longrightarrow> \<not> bit f 0"
    and cs: "length cs = length (uip_conns s)" "tc_appstate (cs ! i) = tc_appstate (tconn s i)" "tc_tcpstateflags (cs ! i) = UIP_ESTABLISHED"
    using in_order_call [OF seg] by metis
  let ?u = "in_order_state i cs f s" and ?r = "TcpRef i"
  have flags: "f AND UIP_NEWDATA \<noteq> 0" "f AND UIP_CONNECTED = 0" "f AND UIP_ACKDATA = 0" "f AND UIP_REXMIT = 0" "f AND UIP_POLL = 0"
    "f AND UIP_CLOSE = 0" using in_order_flags [OF f] bit [OF idle] flag_bits(3) [of f] by auto
  have u: "uip_conn ?u = Some i" "live i ?u" "link_of i ?u = int l" "uip_flags ?u = f" "uip_len ?u = tcp_data_len s"
    "polls ?u = polls s" "xtcp_num ?u = xtcp_num s" "pending_event ?u = pending_event s" "notified ?u = notified s"
    "uip_buf ?u = uip_buf s" "uip_appdata ?u = uip_appdata s"
    using seg(1) cs link by (simp_all add: live_def conn_state_def in_order_state_def link_of_def)
  obtain v where v: "xtcpd_service_clients_until_ready (int l) ?u = Some v" "polls v = [(now', Some (TokReady True))]"
    using until_ready_returns [of ?u now l "[(now', Some (TokReady True))]"] client link by (auto simp: u)
  have wv: "packet_kept ?u v" "links_kept i ?u v" using waiting.R_until [OF v(1), of i] by (simp_all add: waits_for_def)
  let ?e = "xtcpd_send_event l XTCP_RECV_DATA ?r v"
  let ?w = "emit l (InReady True) (?e\<lparr>clock := now', polls := []\<rparr>)"
  let ?x = "emit l (OutRecv (rds (uip_buf ?w) (uip_appdata s) (unat (tcp_data_len s)))) ?w"
  have e: "polls ?e = [(now', Some (TokReady True))]" "uip_buf ?e = uip_buf v" "uip_flags ?e = uip_flags v"
    using v(2) by (simp_all add: xtcpd_send_event_def emit_def upd_xstate_def upd_conn_def Let_def)
  have recv: "xtcpd_recv l ?r (uip_appdata s) (unat (tcp_data_len s)) v = Some (emit l OutCt ?x)"
    unfolding xtcpd_recv_def by (subst recv_loop.simps) (simp add: poll_link_def e(1) Let_def)
  let ?y = "emit l OutCt ?x"
  define z where "z = (case uip_conn ?y of Some i' \<Rightarrow> if xs_ack_recv_mode (xd_s (xstate ?r ?y))
      then upd_conn i' (\<lambda>c. c\<lparr>tc_tcpstateflags := tc_tcpstateflags c OR UIP_STOPPED\<rparr>) ?y else ?y | None \<Rightarrow> ?y)"
  have keep: "uip_appdata v = uip_appdata s" "uip_len v = tcp_data_len s" "link_of i v = int l" "uip_flags v = f" "uip_buf v = uip_buf s"
    using live_links [OF wv(2) u(2)] wv(1) u by (simp_all add: packet_kept_def)
  have "app_input ?r ?u = Some (z, False)"
    using flags u seg(6) recv by (simp add: app_input_def app_flag_def link_xstate v(1) keep z_def)
  moreover have zf: "uip_flags z = f" using e(3) keep(4) by (simp add: z_def emit_def upd_conn_def split: option.split)
  ultimately have call: "xtcpd_appcall_conn ?r ?u = Some z"
    using flags u by (simp add: xtcpd_appcall_conn_def app_connected_def app_acked_def app_rexmit_def app_poll_def app_closed_def app_flag_def)
  have "appcall (server_env t) ?u = xtcpd_appcall_conn ?r ?u"
    using u(1) by (simp add: server_env_def xtcp_env_def xtcpd_appcall_def)
  with found call have run: "tcp_found (server_env t) i s = Some (appsend i z)" by simp
  have log: "xlog z = xlog ?w @ [(l, OutRecv (rds (uip_buf s) (uip_appdata s) (unat (tcp_data_len s)))), (l, OutCt)]" "polls z = []"
    using e(2) keep(5) by (simp_all add: z_def emit_def upd_conn_def split: option.split)
  have "polls (appsend i z) = polls z"
  proof -
    have 1: "polls (drop_lbl s) = polls s" "polls (tcp_send i s) = polls s" for s :: "'a server_st_scheme"
      by (simp_all add: drop_lbl_def tcp_send_def tcp_send_noconn_def ip_send_nolen_def send_lbl_def Let_def)
    have "polls (apprexmit i t) = polls t" for t :: "'a server_st_scheme"
      by (simp add: apprexmit_def tcp_send_noopts_def Let_def 1)
    then show ?thesis by (simp add: appsend_def tcp_send_nodata_def tcp_send_noopts_def Let_def upd_conn_def 1)
  qed
  then show ?thesis using run log by (simp add: appsend_keeps_log)
qed

text \<open>
  C8. A client that answers gets its data. A data segment without TCP options arrives in order on an established
  connection, without RST, FIN or URG, while nothing that the host has sent on it is outstanding. No event is pending for the
  client of the connection; in the first sweep over the channels the client, and no other, answers the notification that has been
  sent to it, and then it takes the data. Then the processing of the segment returns without waiting for any other client,
  and the payload of the segment is the one message with data that it has sent.
\<close>

theorem answering_client_served:
  assumes seg: "i < length (uip_conns s)" "tc_tcpstateflags (tconn s i) = UIP_ESTABLISHED"
    "uip_buf s 47 AND TCP_RST = 0" "uip_buf s 47 AND TCP_FIN = 0" "uip_buf s 47 AND TCP_URG = 0"
    "plain_segment s" "rd4 (uip_buf s) 38 = tc_rcv_nxt (tconn s i)"
    and idle: "tc_len (tconn s i) = 0" and link: "link_of i s = int l" "l < xtcp_num s" "l < length (notified s)"
    and client: "pending_event s ! l = None" "polls s = answer_polls now l 0 (xtcp_num s) @ [(now', Some (TokReady True))]"
  shows "\<exists>s'. tcp_found (server_env t) i s = Some s' \<and> polls s' = [] \<and>
    deliveries (xlog s') = deliveries (xlog s) @ [(l, segment_payload s)]"
proof -
  note payload = plain_payload [OF seg(6)]
  obtain s' where s': "tcp_found (server_env t) i s = Some s'" "polls s' = []"
    using answering_run [OF seg(1-5) payload(1) seg(7) idle link client, of t] by blast
  with segment_delivered [OF seg(1-5) payload(1) seg(7) link(1) s'(1)] show ?thesis by (simp add: payload(2))
qed

definition sample_segment :: server_st where
  "sample_segment = (sample_server [sample_slot 7 (htons 80)] (answer_polls 3 0 0 2 @ [(9, Some (TokReady True))]))
     \<lparr>uip_len := 43, uip_appdata := 54,
      uip_buf := (\<lambda>_. 0)(46 := 0x50, 47 := 0x10, 54 := 1, 55 := 2, 56 := 3)\<rparr>"

lemma sample_segment_data: "tcp_data_len sample_segment = 3" "rds (uip_buf sample_segment) 54 3 = [1, 2, 3]"
  by code_simp+

lemma sample_segment_facts:
  "0 < length (uip_conns sample_segment)" "tc_tcpstateflags (tconn sample_segment 0) = UIP_ESTABLISHED"
  "uip_buf sample_segment 47 AND TCP_RST = 0" "uip_buf sample_segment 47 AND TCP_FIN = 0"
  "uip_buf sample_segment 47 AND TCP_URG = 0" "0 < tcp_data_len sample_segment"
  "rd4 (uip_buf sample_segment) 38 = tc_rcv_nxt (tconn sample_segment 0)"
  "tc_len (tconn sample_segment 0) = 0" "link_of 0 sample_segment = int 0" "0 < xtcp_num sample_segment"
  "0 < length (notified sample_segment)" "pending_event sample_segment ! 0 = None"
  "polls sample_segment = answer_polls 3 0 0 (xtcp_num sample_segment) @ [(9, Some (TokReady True))]"
  by (simp_all add: sample_segment_data) (simp_all add: sample_segment_def server_sample_defs rd4_def link_of_def)

lemma sample_segment_plain: "plain_segment sample_segment" "segment_payload sample_segment = [1, 2, 3]" "xlog sample_segment = []"
proof -
  have len: "uip_len sample_segment = 43" by (simp add: sample_segment_def)
  show "plain_segment sample_segment" by (simp add: plain_segment_def len) (simp add: sample_segment_def drop_bit_eq_div)
  show "segment_payload sample_segment = [1, 2, 3]" using sample_segment_data(2) by (simp add: segment_payload_def len)
  show "xlog sample_segment = []" by (simp add: sample_segment_def server_sample_defs)
qed

theorem answering_client_served_witness:
  "\<exists>s'. tcp_found (server_env sample_segment) 0 sample_segment = Some s' \<and> deliveries (xlog s') = [(0, [1, 2, 3])]"
  using answering_client_served [OF sample_segment_facts(1-5) sample_segment_plain(1) sample_segment_facts(7-), of sample_segment]
  by (auto simp: sample_segment_plain deliveries_def)

theorem segment_reaches_client_witness:
  "\<exists>s'. tcp_found (server_env sample_segment) 0 sample_segment = Some s' \<and> deliveries (xlog s') = [(0, [1, 2, 3])]"
proof -
  obtain s' where s': "tcp_found (server_env sample_segment) 0 sample_segment = Some s'"
    using answering_run [OF sample_segment_facts, of sample_segment] by blast
  with segment_reaches_client [OF sample_segment_facts(1-5) sample_segment_plain(1) sample_segment_facts(7,9) s'] show ?thesis
    by (simp add: sample_segment_plain deliveries_def)
qed

end
