(* ===== verification/Xtcp_Stream.thy ===== *)
theory Xtcp_Stream
  imports Xtcp_Delivery
begin

text \<open>
  The receiving side of an established connection as a stream: whatever segments arrive, in whatever order and
  however often, what its client gets is a prefix of what the peer sent, without gaps, without repetitions and in order,
  and the acknowledged sequence number counts its bytes.
\<close>

section \<open>Segments that are not accepted\<close>

lemma appcall_quiet:
  assumes run: "xtcpd_appcall_conn r s = Some s'" and "\<not> app_flag UIP_NEWDATA s" "\<not> app_flag UIP_CONNECTED s"
  shows "quiet s s'"
proof -
  from run assms(3) obtain v dn where v: "app_input r s = Some (v, dn)"
    and rest: "if dn then v = s' else \<exists>w x y. app_acked r v = Some w \<and> app_rexmit r w = Some x \<and>
      app_poll r x = Some y \<and> app_closed r y = Some s'"
    by (auto simp: xtcpd_appcall_conn_def app_connected_def bind_eq_Some_conv split: if_splits)
  from v assms(2) have "quiet s v" by (auto simp: app_input_def intro: quiet.R_xtcpd_event quiet.R_refl split: if_splits)
  with rest quiet.R_rest [of r v] show ?thesis by (auto simp: quiet_def split: if_splits)
qed

lemma appsend_rcv_nxt: "tc_rcv_nxt (tconn (appsend i s) k) = tc_rcv_nxt (tconn s k)" "length (uip_conns (appsend i s)) = length (uip_conns s)"
proof -
  have nxt: "tc_rcv_nxt (tconn (upd_conn i f t) k) = tc_rcv_nxt (tconn t k)" if "\<And>c. tc_rcv_nxt (f c) = tc_rcv_nxt c" for f and t :: "'a uip_st_scheme"
    using that by (cases "i = k"; cases "k < length (uip_conns t)") (simp_all add: upd_conn_def list_update_beyond)
  have len: "length (uip_conns (upd_conn i f t)) = length (uip_conns t)" for f and t :: "'a uip_st_scheme" by (simp add: upd_conn_def)
  have rex: "tc_rcv_nxt (tconn (apprexmit i t) k) = tc_rcv_nxt (tconn t k)" "length (uip_conns (apprexmit i t)) = length (uip_conns t)"
    for t :: "'a uip_st_scheme"
    by (simp_all add: apprexmit_def tcp_send_noopts_def Let_def send_sel drop_lbl_def)
  show "tc_rcv_nxt (tconn (appsend i s) k) = tc_rcv_nxt (tconn s k)" "length (uip_conns (appsend i s)) = length (uip_conns s)"
    by (simp_all add: appsend_def tcp_send_nodata_def tcp_send_noopts_def Let_def send_sel rex nxt len)
qed

definition receiving :: "nat \<Rightarrow> 'a uip_st_scheme \<Rightarrow> bool" where
  "receiving i s \<longleftrightarrow> i < length (uip_conns s) \<and> tc_tcpstateflags (tconn s i) \<in> {UIP_ESTABLISHED, UIP_ESTABLISHED OR UIP_STOPPED} \<and>
     uip_buf s 47 AND (TCP_RST OR TCP_FIN OR TCP_URG) = 0"

lemma receiving_flags:
  assumes "receiving i s"
  shows "uip_buf s 47 AND TCP_RST = 0" "uip_buf s 47 AND TCP_FIN = 0" "uip_buf s 47 AND TCP_URG = 0"
proof -
  have "uip_buf s 47 AND TCP_RST = (uip_buf s 47 AND (TCP_RST OR TCP_FIN OR TCP_URG)) AND TCP_RST"
    "uip_buf s 47 AND TCP_FIN = (uip_buf s 47 AND (TCP_RST OR TCP_FIN OR TCP_URG)) AND TCP_FIN"
    "uip_buf s 47 AND TCP_URG = (uip_buf s 47 AND (TCP_RST OR TCP_FIN OR TCP_URG)) AND TCP_URG"
    by (simp_all add: and.assoc)
  then show "uip_buf s 47 AND TCP_RST = 0" "uip_buf s 47 AND TCP_FIN = 0" "uip_buf s 47 AND TCP_URG = 0"
    using assms by (simp_all add: receiving_def)
qed

text \<open>The segment that does not bring the next data, past the test of its sequence number.\<close>

lemma no_data_call:
  assumes rec: "receiving i s" and seq: "tcp_data_len s = 0 \<and> uip_buf s 47 AND TCP_SYN = 0 \<or> rd4 (uip_buf s) 38 = tc_rcv_nxt (tconn s i)"
    and none: "tcp_data_len s = 0 \<or> tc_tcpstateflags (tconn s i) \<noteq> UIP_ESTABLISHED"
  obtains cs f where "tcp_found env i s = (if f AND UIP_ACKDATA \<noteq> 0
      then map_option (appsend i) (appcall env (in_order_state i cs f s)) else Some (drop_lbl (s\<lparr>uip_conn := Some i, uip_flags := f, uip_len := tcp_data_len s, uip_conns := cs\<rparr>)))"
    "f AND UIP_NEWDATA = 0" "f AND UIP_CONNECTED = 0" "length cs = length (uip_conns s)" "tc_rcv_nxt (cs ! i) = tc_rcv_nxt (tconn s i)"
    "conn_state (cs ! i) = UIP_ESTABLISHED"
proof -
  note fl = receiving_flags [OF rec]
  have i: "i < length (uip_conns s)" and st: "tc_tcpstateflags (tconn s i) = UIP_ESTABLISHED \<or> tc_tcpstateflags (tconn s i) = UIP_ESTABLISHED OR UIP_STOPPED"
    using rec by (auto simp: receiving_def)
  have es: "tc_tcpstateflags (tconn s i) AND UIP_TS_MASK = UIP_ESTABLISHED" using st by auto
  define t0 where "t0 = s\<lparr>uip_conn := Some i, uip_flags := 0, uip_len := tcp_data_len s\<rparr>"
  define g where "g = uip_flags (tcp_ack_input i t0)"
  define ds where "ds = uip_conns (tcp_ack_input i t0)"
  define f where "f = (if uip_buf s 47 AND TCP_PSH \<noteq> 0 then g OR UIP_TCP_PUSH else g)"
  have i0: "i < length (uip_conns t0)" using i by (simp add: t0_def)
  have a: "tcp_ack_input i t0 = s\<lparr>uip_conn := Some i, uip_flags := g, uip_len := tcp_data_len s, uip_conns := ds\<rparr>"
    by (simp add: tcp_ack_input_def Let_def t0_def upd_conn_def g_def ds_def)
  have g: "g = 0 \<or> g = UIP_ACKDATA" by (simp add: g_def tcp_ack_input_def Let_def t0_def)
  have ds: "length ds = length (uip_conns s)" "tc_tcpstateflags (ds ! i) = tc_tcpstateflags (tconn s i)" "tc_rcv_nxt (ds ! i) = tc_rcv_nxt (tconn s i)"
    using tcp_ack_input_receiver [OF i0] by (simp_all add: ds_def tcp_ack_input_def Let_def t0_def upd_conn_def)
  define t where "t = s\<lparr>uip_conn := Some i, uip_flags := f, uip_len := tcp_data_len s, uip_conns := ds\<rparr>"
  define cs where "cs = uip_conns (established_accept i t)"
  have f: "f AND UIP_NEWDATA = 0" "f AND UIP_CONNECTED = 0" "f AND (UIP_NEWDATA OR UIP_ACKDATA) \<noteq> 0 \<longleftrightarrow> f AND UIP_ACKDATA \<noteq> 0"
    using g by (auto simp: f_def)
  have acc: "established_accept i t = s\<lparr>uip_conn := Some i, uip_flags := f, uip_len := tcp_data_len s, uip_conns := cs\<rparr>"
    using fl(3) none st ds by (auto simp: t_def cs_def established_accept_def Let_def upd_conn_def)
  have cs: "length cs = length (uip_conns s)" "tc_rcv_nxt (cs ! i) = tc_rcv_nxt (tconn s i)" "conn_state (cs ! i) = UIP_ESTABLISHED"
    using fl(3) none st ds i es by (auto simp: t_def cs_def established_accept_def Let_def upd_conn_def conn_state_def)
  have sf: "uip_buf s 47 AND (TCP_SYN OR TCP_FIN) = 0" if "uip_buf s 47 AND TCP_SYN = 0"
  proof -
    have "uip_buf s 47 AND (TCP_SYN OR TCP_FIN) = (uip_buf s 47 AND TCP_SYN) OR (uip_buf s 47 AND TCP_FIN)"
      by (rule bit.conj_disj_distrib)
    then show ?thesis unfolding that fl(2) by simp
  qed
  have "tcp_found env i s = tcp_state_switch env i (if uip_buf s 47 AND TCP_PSH \<noteq> 0
      then (tcp_ack_input i t0)\<lparr>uip_flags := uip_flags (tcp_ack_input i t0) OR UIP_TCP_PUSH\<rparr> else tcp_ack_input i t0)"
    using fl seq es sf unfolding tcp_found_def Let_def t0_def tcp_data_len_def by (auto simp: xtcp_compare_words_eq)
  also have "\<dots> = tcp_state_switch env i t" unfolding a t_def f_def by (cases s) simp
  also have "\<dots> = tcp_established env i t" using es by (simp add: tcp_state_switch_def Let_def t_def ds)
  finally have "tcp_found env i s = tcp_established env i t" .
  moreover have io: "s\<lparr>uip_conn := Some i, uip_flags := f, uip_len := tcp_data_len s, uip_conns := cs, uip_slen := 0\<rparr> = in_order_state i cs f s"
    by (cases s) (simp add: in_order_state_def)
  moreover have "tcp_established env i t = (if f AND UIP_ACKDATA \<noteq> 0
      then map_option (appsend i) (appcall env (in_order_state i cs f s)) else Some (drop_lbl (established_accept i t)))"
    using fl(2) f(3) unfolding tcp_established_def Let_def acc
    by (simp add: map_conv_bind_option comp_def io t_def)
  ultimately show ?thesis using that [of f cs] f(1,2) cs unfolding acc by simp
qed

lemma out_of_order_ack:
  assumes "uip_buf s 47 AND TCP_RST = 0" and "conn_state (tconn s i) \<noteq> UIP_SYN_SENT"
    and "0 < tcp_data_len s \<or> uip_buf s 47 AND (TCP_SYN OR TCP_FIN) \<noteq> 0" and "rd4 (uip_buf s) 38 \<noteq> tc_rcv_nxt (tconn s i)"
  shows "tcp_found env i s = Some (tcp_send_ack i (s\<lparr>uip_conn := Some i, uip_flags := 0, uip_len := tcp_data_len s\<rparr>))"
  using assms by (simp add: tcp_found_def Let_def tcp_data_len_def conn_state_def)

text \<open>
  What a segment that is not accepted does to the receiving side: nothing, although it may be acknowledged, and
  although the acknowledgement in it may cause events.
\<close>

lemma segment_ignored:
  assumes rec: "receiving i s" and none: "\<not> (0 < tcp_data_len s \<and> rd4 (uip_buf s) 38 = tc_rcv_nxt (tconn s i) \<and> tc_tcpstateflags (tconn s i) = UIP_ESTABLISHED)"
    and run: "tcp_found (server_env e) i s = Some s'"
  shows "deliveries (xlog s') = deliveries (xlog s) \<and> tc_rcv_nxt (tconn s' i) = tc_rcv_nxt (tconn s i)"
proof (cases "(tcp_data_len s = 0 \<and> uip_buf s 47 AND TCP_SYN = 0) \<or> rd4 (uip_buf s) 38 = tc_rcv_nxt (tconn s i)")
  case False
  have "conn_state (tconn s i) \<noteq> UIP_SYN_SENT" using rec by (auto simp: receiving_def conn_state_def)
  moreover have "uip_buf s 47 AND (TCP_SYN OR TCP_FIN) \<noteq> 0" if "uip_buf s 47 AND TCP_SYN \<noteq> 0"
  proof
    assume z: "uip_buf s 47 AND (TCP_SYN OR TCP_FIN) = 0"
    have "uip_buf s 47 AND TCP_SYN = (uip_buf s 47 AND (TCP_SYN OR TCP_FIN)) AND TCP_SYN" by (simp add: and.assoc)
    with that show False unfolding z by simp
  qed
  ultimately have "tcp_found (server_env e) i s = Some (tcp_send_ack i (s\<lparr>uip_conn := Some i, uip_flags := 0, uip_len := tcp_data_len s\<rparr>))"
    using False by (intro out_of_order_ack receiving_flags(1) [OF rec]) (auto simp: word_neq_0_conv)
  with run show ?thesis by (auto simp: send_sel tcp_send_ack_def tcp_send_nodata_def tcp_send_noopts_def send_keeps_log)
next
  case True
  with none have "tcp_data_len s = 0 \<or> tc_tcpstateflags (tconn s i) \<noteq> UIP_ESTABLISHED" by (auto simp: word_neq_0_conv)
  with no_data_call [OF rec True] obtain cs f where found: "tcp_found (server_env e) i s = (if f AND UIP_ACKDATA \<noteq> 0
      then map_option (appsend i) (appcall (server_env e) (in_order_state i cs f s))
      else Some (drop_lbl (s\<lparr>uip_conn := Some i, uip_flags := f, uip_len := tcp_data_len s, uip_conns := cs\<rparr>)))"
    and f: "f AND UIP_NEWDATA = 0" "f AND UIP_CONNECTED = 0" and cs: "length cs = length (uip_conns s)"
      "tc_rcv_nxt (cs ! i) = tc_rcv_nxt (tconn s i)" "conn_state (cs ! i) = UIP_ESTABLISHED"
    by (metis (no_types))
  let ?u = "in_order_state i cs f s"
  show ?thesis
  proof (cases "f AND UIP_ACKDATA = 0")
    case True
    with found run cs show ?thesis by (auto simp: send_sel send_keeps_log)
  next
    case False
    with found run have "map_option (appsend i) (appcall (server_env e) ?u) = Some s'" by simp
    then obtain v where v: "appcall (server_env e) ?u = Some v" "s' = appsend i v" unfolding map_option_eq_Some by blast
    have u: "uip_conn ?u = Some i" "live i ?u" "xlog ?u = xlog s"
      using rec cs by (simp_all add: in_order_state_def live_def receiving_def)
    from v(1) u(1) have call: "xtcpd_appcall_conn (TcpRef i) ?u = Some v" by (simp add: appcall_server)
    have "quiet ?u v" by (rule appcall_quiet [OF call]) (use f in \<open>simp_all add: app_flag_def in_order_state_def\<close>)
    moreover have "conn_kept (tconn ?u i) (tconn v i)" by (rule kept_live [OF stack_appcall_conn [OF call] u(2)])
    ultimately show ?thesis
      using cs u(3) by (simp add: v(2) appsend_keeps_log appsend_rcv_nxt quiet_def conn_kept_def in_order_state_def)
  qed
qed

text \<open>The segment that brings the next data.\<close>

lemma segment_accepted:
  assumes rec: "receiving i s" and "0 < tcp_data_len s" and "rd4 (uip_buf s) 38 = tc_rcv_nxt (tconn s i)"
    and st: "tc_tcpstateflags (tconn s i) = UIP_ESTABLISHED" and run: "tcp_found (server_env e) i s = Some s'"
  shows "be32 (tc_rcv_nxt (tconn s' i)) = be32 (tc_rcv_nxt (tconn s i)) + ucast (tcp_data_len s)"
proof -
  have i: "i < length (uip_conns s)" using rec by (simp add: receiving_def)
  obtain cs f where found: "tcp_found (server_env e) i s = map_option (appsend i) (appcall (server_env e) (in_order_state i cs f s))"
    and cs: "length cs = length (uip_conns s)" "tc_tcpstateflags (cs ! i) = UIP_ESTABLISHED"
    and nxt: "be32 (tc_rcv_nxt (cs ! i)) = be32 (tc_rcv_nxt (tconn s i)) + ucast (tcp_data_len s)"
    using in_order_call [OF i st receiving_flags [OF rec] assms(2,3)] by metis
  let ?u = "in_order_state i cs f s"
  from found run have "map_option (appsend i) (appcall (server_env e) ?u) = Some s'" by simp
  then obtain v where v: "appcall (server_env e) ?u = Some v" "s' = appsend i v" unfolding map_option_eq_Some by blast
  have u: "uip_conn ?u = Some i" "live i ?u" using i cs by (simp_all add: in_order_state_def live_def conn_state_def)
  from v(1) u(1) have call: "xtcpd_appcall_conn (TcpRef i) ?u = Some v" by (simp add: appcall_server)
  have "conn_kept (tconn ?u i) (tconn v i)" by (rule kept_live [OF stack_appcall_conn [OF call] u(2)])
  with nxt show ?thesis by (simp add: v(2) appsend_rcv_nxt conn_kept_def in_order_state_def)
qed

section \<open>Runs\<close>

text \<open>
  A segment of the peer's stream: without options, its bytes are those the peer has for its sequence numbers. It may be
  old, early, overlapping or repeated. The link is the one of the client that has the connection.
\<close>

definition stream_segment :: "(u32 \<Rightarrow> u8) \<Rightarrow> nat \<Rightarrow> nat \<Rightarrow> 'a uip_st_scheme \<Rightarrow> bool" where
  "stream_segment P i l s \<longleftrightarrow> receiving i s \<and> link_of i s = int l \<and> uip_appdata s = 54 \<and> drop_bit 4 (uip_buf s 46) = 5 \<and>
     rds (uip_buf s) 54 (unat (tcp_data_len s)) = map (\<lambda>k. P (be32 (rd4 (uip_buf s) 38) + of_nat k)) [0..<unat (tcp_data_len s)]"

text \<open>
  A run from \<open>s\<close>: segments of the stream arrive at the connection, and in between anything happens that leaves its
  expected sequence number alone. The list is what the processing of the segments has delivered.
\<close>

inductive receives :: "(u32 \<Rightarrow> u8) \<Rightarrow> nat \<Rightarrow> nat \<Rightarrow> 'a server_st_scheme \<Rightarrow> (nat \<times> u8 list) list \<Rightarrow> 'a server_st_scheme \<Rightarrow> bool"
  for P i l s where
  start: "receives P i l s [] s"
| segment: "receives P i l s ds t \<Longrightarrow> stream_segment P i l t \<Longrightarrow> tcp_found (server_env e) i t = Some u \<Longrightarrow>
    deliveries (xlog u) = deliveries (xlog t) @ new \<Longrightarrow> receives P i l s (ds @ new) u"
| other: "receives P i l s ds t \<Longrightarrow> tc_rcv_nxt (tconn u i) = tc_rcv_nxt (tconn t i) \<Longrightarrow> receives P i l s ds u"

text \<open>
  C1. TCP reception is a byte stream: whatever segments of the peer's stream arrive at a connection, old ones, early ones,
  overlapping ones and repeated ones among them, and whatever the clients and the rest of the network do in
  between, the data handed over is, put together, exactly the bytes of the stream from the first expected
  sequence number on, each once and in order, all of it to the link of the connection, and the
  acknowledged sequence number has advanced by exactly their number.
\<close>

theorem received_stream:
  assumes "receives P i l s ds s'"
  shows "\<exists>n. concat (map snd ds) = map (\<lambda>k. P (be32 (tc_rcv_nxt (tconn s i)) + of_nat k)) [0..<n] \<and> fst ` set ds \<subseteq> {l} \<and>
    be32 (tc_rcv_nxt (tconn s' i)) = be32 (tc_rcv_nxt (tconn s i)) + of_nat n"
  using assms
proof induction
  case start
  show ?case by (intro exI [of _ 0]) simp
next
  case (other ds t u)
  then show ?case by simp
next
  case (segment ds t e u new)
  let ?q = "be32 (tc_rcv_nxt (tconn s i))"
  from segment.IH obtain n where n: "concat (map snd ds) = map (\<lambda>k. P (?q + of_nat k)) [0..<n]" "fst ` set ds \<subseteq> {l}"
    "be32 (tc_rcv_nxt (tconn t i)) = ?q + of_nat n" by blast
  have rec: "receiving i t" and link: "link_of i t = int l" and app: "uip_appdata t = 54"
    and bytes: "rds (uip_buf t) 54 (unat (tcp_data_len t)) = map (\<lambda>k. P (be32 (rd4 (uip_buf t) 38) + of_nat k)) [0..<unat (tcp_data_len t)]"
    using segment.hyps(2) by (simp_all add: stream_segment_def)
  show ?case
  proof (cases "0 < tcp_data_len t \<and> rd4 (uip_buf t) 38 = tc_rcv_nxt (tconn t i) \<and> tc_tcpstateflags (tconn t i) = UIP_ESTABLISHED")
    case False
    from segment_ignored [OF rec False segment.hyps(3)] segment.hyps(4) n show ?thesis by auto
  next
    case True
    let ?m = "unat (tcp_data_len t)"
    have i: "i < length (uip_conns t)" using rec by (simp add: receiving_def)
    have new: "new = [(l, map (\<lambda>k. P (?q + of_nat (n + k))) [0..<?m])]"
      using segment_delivered [OF i _ receiving_flags [OF rec] _ _ link segment.hyps(3)] True segment.hyps(4) bytes app n(3)
      by (simp add: add.assoc)
    have "be32 (tc_rcv_nxt (tconn u i)) = ?q + of_nat (n + ?m)"
      using segment_accepted [OF rec _ _ _ segment.hyps(3)] True n(3) by (simp add: unsigned_ucast_eq)
    moreover have "map (\<lambda>k. P (?q + of_nat k)) [0..<n + ?m] = map (\<lambda>k. P (?q + of_nat k)) [0..<n] @ map (\<lambda>k. P (?q + of_nat (n + k))) [0..<?m]"
      by (rule nth_equalityI) (auto simp: nth_append)
    ultimately show ?thesis using n(1,2) by (intro exI [of _ "n + ?m"]) (simp add: new)
  qed
qed

theorem received_stream_witness:
  "\<exists>ds s'. receives (\<lambda>q. if q = 0 then 1 else if q = 1 then 2 else 3) 0 0 sample_segment ds s' \<and>
    concat (map snd ds) = [1, 2, 3] \<and> be32 (tc_rcv_nxt (tconn s' 0)) = 3"
proof -
  let ?P = "\<lambda>q :: u32. if q = 0 then 1 else if q = 1 then 2 else 3 :: u8"
  let ?s = sample_segment
  have s: "stream_segment ?P 0 0 ?s" by code_simp
  obtain s' where s': "tcp_found (server_env ?s) 0 ?s = Some s'"
    using answering_run [OF sample_segment_facts, of ?s] by blast
  have "uip_appdata ?s = 54" "unat (tcp_data_len ?s) = 3" "be32 (tc_rcv_nxt (tconn ?s 0)) = 0" by code_simp+
  with segment_delivered [OF sample_segment_facts(1-7,9) s']
  have "deliveries (xlog s') = deliveries (xlog ?s) @ [(0, [1, 2, 3])]" by (simp add: sample_segment_data)
  then have run: "receives ?P 0 0 ?s ([] @ [(0, [1, 2, 3])]) s'" by (rule receives.segment [OF receives.start s s'])
  from received_stream [OF run] obtain n where n:
    "concat (map snd ([] @ [(0 :: nat, [1, 2, 3 :: u8])])) = map (\<lambda>k. ?P (be32 (tc_rcv_nxt (tconn ?s 0)) + of_nat k)) [0..<n]"
    "be32 (tc_rcv_nxt (tconn s' 0)) = be32 (tc_rcv_nxt (tconn ?s 0)) + of_nat n" by blast
  from arg_cong [OF n(1), of length] have "n = 3" by simp
  with n(2) \<open>be32 (tc_rcv_nxt (tconn ?s 0)) = 0\<close> have "be32 (tc_rcv_nxt (tconn s' 0)) = 3" by simp
  with run show ?thesis by (intro exI [of _ "[] @ [(0, [1, 2, 3])]"] exI [of _ s']) simp
qed

end
