(* ===== verification/Xtcp_Closing.thy ===== *)
theory Xtcp_Closing
  imports Xtcp_Delivery
begin

text \<open>
  The life of a TCP connection, from the wire to its client: the answer to an active open, the reset, the two
  ways to close and the end of TIME\_WAIT. Each theorem follows one segment or tick through the stack, the
  callback and the channel. A slot that is closed or in TIME\_WAIT may be taken by another client while the server
  waits for the client of the old connection; the theorems about such slots say so.
\<close>

section \<open>Events on a link\<close>

text \<open>An event is the last message on the link that the connection has when it is sent.\<close>

lemma event_reported:
  assumes run: "xtcpd_event ev (TcpRef i) s = Some s'" and i: "i < length (uip_conns s)" and link: "link_of i s = int l"
    and kept: "live i s \<or> conn_state (tconn s' i) \<noteq> UIP_SYN_SENT"
  shows "stack_kept s s' \<and> packet_kept s s' \<and> deliveries (xlog s') = deliveries (xlog s) \<and>
    (\<exists>log c. xlog s' = log @ [(l, OutEvent c)] \<and> xc_event c = ev)"
proof -
  have "xd_linknum (xstate (TcpRef i) s) = int l" using link by (simp add: link_xstate)
  with run obtain u where u: "xtcpd_service_clients_until_ready (int l) s = Some u"
    and s': "s' = xtcpd_send_event (nat (link_of i u)) ev (TcpRef i) u"
    by (auto simp: xtcpd_event_def bind_eq_Some_conv link_xstate)
  have "waits_for i s u" by (rule waiting.R_until [OF u])
  moreover have "waits_for i u s'" unfolding s' by (rule waiting.R_send_event)
  ultimately have all: "waits_for i s s'" "links_kept i s u" "stack_kept s u"
    using waits_trans by (auto simp: waits_for_def)
  have len: "length (uip_conns u) = length (uip_conns s)"
    using all(3) app_table_length by (auto simp: stack_kept_def)
  have "conn_state (tconn s' i) = conn_state (tconn u i)" "tconn s' i = (tconn u i)\<lparr>tc_appstate :=
      (tc_appstate (tconn u i))\<lparr>xd_conn := (xd_conn (tc_appstate (tconn u i)))\<lparr>xc_event := ev\<rparr>\<rparr>\<rparr>"
    using i len by (simp_all add: s' xtcpd_send_event_def Let_def emit_def upd_xstate_def conn_state_def)
  with all(2) i link kept have "link_of i u = int l" by (auto simp: links_kept_def)
  then have "\<exists>log c. xlog s' = log @ [(l, OutEvent c)] \<and> xc_event c = ev"
    using i len by (simp add: s' xtcpd_send_event_def Let_def emit_def xstate_def upd_xstate_def upd_conn_def)
  with all(1) show ?thesis by (simp add: waits_for_def links_kept_def)
qed

text \<open>The callback for a connection that is aborted, and for one that is closed.\<close>

lemma aborted_call: "uip_flags s = UIP_ABORT \<Longrightarrow> xtcpd_appcall_conn r s = xtcpd_event XTCP_ABORTED r s"
  by (cases "xtcpd_event XTCP_ABORTED r s") (simp_all add: xtcpd_appcall_conn_def app_connected_def app_input_def app_flag_def)

text \<open>The connection after its client has been told about the close.\<close>

definition told :: "nat \<Rightarrow> 'a uip_st_scheme \<Rightarrow> 'a uip_st_scheme" where
  "told i s = upd_xs (TcpRef i) (\<lambda>x. x\<lparr>xs_closed := True\<rparr>) s"

lemma closed_call:
  assumes "uip_flags s = UIP_CLOSE \<or> uip_flags s = UIP_TCP_PUSH OR UIP_CLOSE" and "\<not> xs_closed (xd_s (xstate (TcpRef i) s))"
  shows "xtcpd_appcall_conn (TcpRef i) s = xtcpd_event XTCP_CLOSED (TcpRef i) (told i s)"
proof -
  have "\<not> app_flag UIP_CONNECTED s" "\<not> app_flag UIP_NEWDATA s" "\<not> app_flag UIP_ABORT s" "\<not> app_flag UIP_TIMEDOUT s"
    "\<not> app_flag UIP_ACKDATA s" "\<not> app_flag UIP_REXMIT s" "\<not> app_flag UIP_POLL s" "app_flag UIP_CLOSE s"
    using assms(1) by (auto simp: app_flag_def)
  then show ?thesis
    using assms(2) by (simp add: xtcpd_appcall_conn_def app_connected_def app_input_def app_acked_def app_rexmit_def app_poll_def
      app_closed_def told_def)
qed

lemma told_sel [simp]:
  "xlog (told i s) = xlog s" "length (uip_conns (told i s)) = length (uip_conns s)" "uip_hostaddr (told i s) = uip_hostaddr s"
  by (simp_all add: told_def upd_xstate_def upd_conn_def)

lemma told_conn: "i < length (uip_conns s) \<Longrightarrow> tconn (told i s) i = (tconn s i)
    \<lparr>tc_appstate := (tc_appstate (tconn s i))\<lparr>xd_s := (xd_s (tc_appstate (tconn s i)))\<lparr>xs_closed := True\<rparr>\<rparr>\<rparr>"
  by (simp add: told_def upd_xstate_def)

text \<open>The callback of a close, as the stack sees it.\<close>

lemma close_reported:
  assumes call: "appcall (server_env t) u = Some v" and cur: "uip_conn u = Some i" and i: "i < length (uip_conns u)"
    and flags: "uip_flags u = UIP_CLOSE \<or> uip_flags u = UIP_TCP_PUSH OR UIP_CLOSE"
    and first: "\<not> xs_closed (xd_s (tc_appstate (tconn u i)))" and link: "link_of i u = int l"
    and kept: "live i u \<or> conn_state (tconn v i) \<noteq> UIP_SYN_SENT"
  shows "conn_kept (tconn u i) (tconn v i) \<and> length (uip_conns v) = length (uip_conns u) \<and>
    deliveries (xlog v) = deliveries (xlog u) \<and> (\<exists>log c. xlog v = log @ [(l, OutEvent c)] \<and> xc_event c = XTCP_CLOSED)"
proof -
  have run: "xtcpd_event XTCP_CLOSED (TcpRef i) (told i u) = Some v"
    using call cur closed_call [OF flags, of i] first by (simp add: appcall_server xstate_def)
  have t: "i < length (uip_conns (told i u))" "link_of i (told i u) = int l" "live i (told i u) = live i u"
    using i link by (simp_all add: link_of_def told_conn live_def conn_state_def)
  note ev = event_reported [OF run t(1,2)]
  have ev: "stack_kept (told i u) v" "deliveries (xlog v) = deliveries (xlog u)"
    "\<exists>log c. xlog v = log @ [(l, OutEvent c)] \<and> xc_event c = XTCP_CLOSED"
    using ev kept t(3) by simp_all
  have "conn_kept (tconn (told i u) i) (tconn v i)"
    using kept kept_live [OF ev(1)] kept_state [OF ev(1) t(1)] t(3) by blast
  moreover have "length (uip_conns v) = length (uip_conns u)"
    using ev(1) app_table_length by (fastforce simp: stack_kept_def)
  ultimately show ?thesis using ev(2,3) i by (simp add: told_conn conn_kept_def conn_state_def)
qed

section \<open>Active open\<close>

lemma init_state_conn:
  assumes "xtcpd_init_state (TcpRef i) pr a lp rp s = Some w" and "i < length (uip_conns s)"
    and "xs_connect_request (xd_s (tc_appstate (tconn s i)))"
  shows "\<exists>x. uip_conns w = (uip_conns s)[i := (tconn s i)\<lparr>tc_appstate := x\<rparr>] \<and> xd_linknum x = link_of i s"
    and "xlog w = xlog s" and "packet_kept s w"
  using assms by (auto simp: xtcpd_init_state_def Let_def bind_eq_Some_conv upd_xstate_def upd_conn_def link_of_def xstate_def packet_kept_def)

lemma synack_flags: "f AND TCP_CTL = (TCP_SYN OR TCP_ACK) \<Longrightarrow> f AND TCP_RST = 0 \<and> f AND TCP_PSH = 0 \<and> f AND TCP_ACK \<noteq> 0"
proof -
  assume f: "f AND TCP_CTL = (TCP_SYN OR TCP_ACK)"
  have "f AND TCP_RST = (f AND TCP_CTL) AND TCP_RST" "f AND TCP_PSH = (f AND TCP_CTL) AND TCP_PSH"
    "f AND TCP_ACK = (f AND TCP_CTL) AND TCP_ACK" by (simp_all add: and.assoc)
  then show ?thesis unfolding f by simp
qed

lemma new_connection_reported:
  assumes call: "xtcpd_appcall_conn (TcpRef i) u = Some v" and cur: "uip_conn u = Some i" and i: "i < length (uip_conns u)"
    and flags: "uip_flags u = UIP_CONNECTED OR UIP_NEWDATA" "uip_len u = 0" and live: "live i u"
    and req: "xs_connect_request (xd_s (tc_appstate (tconn u i)))" and link: "link_of i u = int l"
  shows "conn_kept (tconn u i) (tconn v i) \<and> packet_kept u v \<and> deliveries (xlog v) = deliveries (xlog u) \<and>
    (\<exists>log c. xlog v = log @ [(l, OutEvent c)] \<and> xc_event c = XTCP_NEW_CONNECTION)"
proof -
  from call cur flags(1) obtain w x where w: "xtcpd_init_state (TcpRef i) XTCP_PROTOCOL_TCP (tc_ripaddr (tconn u i)) (tc_lport (tconn u i))
      (tc_rport (tconn u i)) u = Some w" and x: "xtcpd_event XTCP_NEW_CONNECTION (TcpRef i) w = Some x"
    and rest: "Option.bind (app_input (TcpRef i) x) (\<lambda>(s, done). if done then Some s else do {
       s \<leftarrow> app_acked (TcpRef i) s; s \<leftarrow> app_rexmit (TcpRef i) s; s \<leftarrow> app_poll (TcpRef i) s; app_closed (TcpRef i) s }) = Some v"
    by (auto simp: xtcpd_appcall_conn_def app_connected_def app_flag_def bind_eq_Some_conv)
  obtain y where y: "uip_conns w = (uip_conns u)[i := (tconn u i)\<lparr>tc_appstate := y\<rparr>]" "xd_linknum y = int l"
    using init_state_conn(1) [OF w i req] link by auto
  have wi: "i < length (uip_conns w)" "link_of i w = int l" "live i w"
    using i y live by (simp_all add: link_of_def live_def conn_state_def)
  note ev = event_reported [OF x wi(1,2)]
  have ev: "stack_kept w x" "packet_kept w x" "deliveries (xlog x) = deliveries (xlog u)"
    "\<exists>log c. xlog x = log @ [(l, OutEvent c)] \<and> xc_event c = XTCP_NEW_CONNECTION"
    using ev wi(3) init_state_conn(2) [OF w i req] by auto
  have px: "packet_kept u x" using init_state_conn(3) [OF w i req] ev(2) by (rule packet_trans)
  then have "uip_flags x = UIP_CONNECTED OR UIP_NEWDATA" "uip_len x = 0" using flags by (simp_all add: packet_kept_def)
  with rest have "v = x"
    by (simp add: app_input_def app_acked_def app_rexmit_def app_poll_def app_closed_def app_flag_def)
  moreover have "conn_kept (tconn u i) (tconn x i)"
    using kept_live [OF ev(1) wi(3)] i by (simp add: y conn_kept_def conn_state_def)
  ultimately show ?thesis using ev px by simp
qed

lemma send_hostaddr: "uip_hostaddr (tcp_send i s) = uip_hostaddr s"
  by (simp add: tcp_send_def tcp_send_noconn_def ip_send_nolen_def send_lbl_def Let_def)

lemma send_noopts_ack:
  assumes "uip_slen s = 0" and "uip_flags s = UIP_CONNECTED OR UIP_NEWDATA" and "i < length (uip_conns s)"
  shows "segment_of (uip_hostaddr (appsend i s)) (tconn (appsend i s) i) (uip_buf (appsend i s))"
    "uip_buf (appsend i s) 47 = TCP_ACK" "uip_len (appsend i s) = 40" "tconn (appsend i s) i = (tconn s i)\<lparr>tc_nrtx := 0\<rparr>"
proof -
  let ?t = "bput 46 0x50 (bput 47 TCP_ACK ((upd_conn i (\<lambda>c. c\<lparr>tc_nrtx := 0\<rparr>) s)\<lparr>uip_appdata := uip_sappdata s, uip_len := 40\<rparr>))"
  have "appsend i s = tcp_send i ?t"
    using assms by (simp add: appsend_def apprexmit_def Let_def tcp_send_noopts_def upd_conn_def)
  then show "segment_of (uip_hostaddr (appsend i s)) (tconn (appsend i s) i) (uip_buf (appsend i s))"
    "uip_buf (appsend i s) 47 = TCP_ACK" "uip_len (appsend i s) = 40" "tconn (appsend i s) i = (tconn s i)\<lparr>tc_nrtx := 0\<rparr>"
    using tcp_send_segment [where s = ?t and i = i] assms(3) by (simp_all add: send_hostaddr send_sel upd_conn_def)
qed

text \<open>
  C11. The answer to an active open: when a SYNACK that acknowledges our SYN arrives for a connection a client has
  asked for, the connection is established and expects the number after the SYN of the peer, the
  reply acknowledges that SYN, and the last message to the clients is the event of the new connection, on the link
  of the client that asked.
\<close>

theorem active_open_completes:
  assumes i: "i < length (uip_conns s)" and st: "tc_tcpstateflags (tconn s i) = UIP_SYN_SENT" and out: "tc_len (tconn s i) = 1"
    and fl: "uip_buf s 47 AND TCP_CTL = (TCP_SYN OR TCP_ACK)" and ack: "rd4 (uip_buf s) 42 = uip_add32 (tc_snd_nxt (tconn s i)) 1"
    and req: "xs_connect_request (xd_s (tc_appstate (tconn s i)))" and link: "link_of i s = int l"
    and run: "tcp_found (server_env t) i s = Some s'"
  shows "conn_state (tconn s' i) = UIP_ESTABLISHED \<and> tc_len (tconn s' i) = 0 \<and>
    be32 (tc_rcv_nxt (tconn s' i)) = be32 (rd4 (uip_buf s) 38) + 1 \<and> tc_snd_nxt (tconn s' i) = rd4 (uip_buf s) 42 \<and>
    segment_of (uip_hostaddr s') (tconn s' i) (uip_buf s') \<and> uip_buf s' 47 = TCP_ACK \<and> uip_len s' = 40 \<and>
    (\<exists>log c. xlog s' = log @ [(l, OutEvent c)] \<and> xc_event c = XTCP_NEW_CONNECTION)"
proof -
  note bits = synack_flags [OF fl]
  let ?t0 = "s\<lparr>uip_conn := Some i, uip_flags := 0, uip_len := tcp_data_len s\<rparr>"
  obtain a where a: "tcp_ack_input i ?t0 = s\<lparr>uip_conn := Some i, uip_len := tcp_data_len s, uip_conns := (uip_conns s)[i := a], uip_flags := UIP_ACKDATA\<rparr>"
    "tc_tcpstateflags a = UIP_SYN_SENT" "tc_snd_nxt a = rd4 (uip_buf s) 42" "tc_appstate a = tc_appstate (tconn s i)"
    using i st out ack bits by (simp add: tcp_ack_input_def Let_def rtt_estimate_def upd_conn_def)
  have "tcp_found (server_env t) i s = tcp_syn_sent (server_env t) i (tcp_ack_input i ?t0)"
    using i st fl bits a(2)
    by (simp add: tcp_found_def Let_def tcp_data_len_def [symmetric] a(1) tcp_state_switch_def)
  with run have "tcp_syn_sent (server_env t) i (s\<lparr>uip_conn := Some i, uip_len := tcp_data_len s, uip_conns := (uip_conns s)[i := a],
      uip_flags := UIP_ACKDATA\<rparr>) = Some s'" unfolding a(1) by simp
  then obtain c v where c: "parse_mss (uip_buf s) a = Some c" and v: "appcall (server_env t) (s\<lparr>uip_conn := Some i, uip_conns := (uip_conns s)
      [i := c\<lparr>tc_tcpstateflags := UIP_ESTABLISHED, tc_rcv_nxt := uip_add32 (rd4 (uip_buf s) 38) 1, tc_len := 0\<rparr>],
      uip_flags := UIP_CONNECTED OR UIP_NEWDATA, uip_len := 0, uip_slen := 0\<rparr>) = Some v" and s': "s' = appsend i v"
    using i fl by (auto simp: tcp_syn_sent_def Let_def bind_eq_Some_conv upd_conn_def uip_add_rcv_nxt_def)
  let ?d = "c\<lparr>tc_tcpstateflags := UIP_ESTABLISHED, tc_rcv_nxt := uip_add32 (rd4 (uip_buf s) 38) 1, tc_len := 0\<rparr>"
  let ?u = "s\<lparr>uip_conn := Some i, uip_conns := (uip_conns s)[i := ?d], uip_flags := UIP_CONNECTED OR UIP_NEWDATA, uip_len := 0, uip_slen := 0\<rparr>"
  have d: "tc_snd_nxt c = rd4 (uip_buf s) 42" "tc_appstate c = tc_appstate (tconn s i)"
    using parse_mss_keeps [OF c] a(3,4) by auto
  have u: "uip_conn ?u = Some i" "i < length (uip_conns ?u)" "uip_flags ?u = UIP_CONNECTED OR UIP_NEWDATA" "uip_len ?u = 0"
    "live i ?u" "xs_connect_request (xd_s (tc_appstate (tconn ?u i)))" "link_of i ?u = int l"
    using i d(2) req link by (simp_all add: live_def conn_state_def link_of_def)
  from v have "xtcpd_appcall_conn (TcpRef i) ?u = Some v" by (simp add: appcall_server)
  from new_connection_reported [OF this u] i have ev: "conn_kept ?d (tconn v i)" "packet_kept ?u v"
    "\<exists>log c. xlog v = log @ [(l, OutEvent c)] \<and> xc_event c = XTCP_NEW_CONNECTION" by simp_all
  from ev(2) i have "uip_slen v = 0" "uip_flags v = UIP_CONNECTED OR UIP_NEWDATA" "i < length (uip_conns v)"
    by (simp_all add: packet_kept_def)
  note send = send_noopts_ack [OF this, folded s']
  have "xlog s' = xlog v" by (simp add: s' appsend_keeps_log)
  with ev(1,3) send d(1) show ?thesis
    by (simp add: conn_kept_def conn_state_def uip_add32_be32)
qed

section \<open>Reset\<close>

definition reset_state :: "nat \<Rightarrow> 'a uip_st_scheme \<Rightarrow> 'a uip_st_scheme" where
  "reset_state i s = (upd_conn i (\<lambda>c. c\<lparr>tc_tcpstateflags := UIP_CLOSED\<rparr>) (s\<lparr>uip_conn := Some i, uip_flags := 0\<rparr>))\<lparr>uip_flags := UIP_ABORT\<rparr>"

lemma reset_found:
  "uip_buf s 47 AND TCP_RST \<noteq> 0 \<Longrightarrow>
    tcp_found (server_env t) i s = map_option drop_lbl (xtcpd_event XTCP_ABORTED (TcpRef i) (reset_state i s))"
  by (simp add: tcp_found_def Let_def reset_state_def appcall_server upd_conn_def aborted_call map_conv_bind_option comp_def)

text \<open>
  C14. A reset ends a connection at once: when a segment with RST arrives for a connection, whatever its
  sequence number, the connection is closed, no segment is sent in reply, no data is delivered, and the last
  message to the clients is the event that the connection was aborted, on the link of the connection
  (provided that no client opens a new connection in its slot while the server waits to send the event).
\<close>

theorem reset_reported:
  assumes i: "i < length (uip_conns s)" and rst: "uip_buf s 47 AND TCP_RST \<noteq> 0" and link: "link_of i s = int l"
    and run: "tcp_found (server_env t) i s = Some s'" and slot: "conn_state (tconn s' i) \<noteq> UIP_SYN_SENT"
  shows "conn_state (tconn s' i) = UIP_CLOSED \<and> uip_len s' = 0 \<and> deliveries (xlog s') = deliveries (xlog s) \<and>
    (\<exists>log c. xlog s' = log @ [(l, OutEvent c)] \<and> xc_event c = XTCP_ABORTED)"
proof -
  let ?u = "reset_state i s"
  from run [unfolded reset_found [OF rst]] obtain v where v: "xtcpd_event XTCP_ABORTED (TcpRef i) ?u = Some v" and s': "s' = drop_lbl v"
    unfolding map_option_eq_Some by blast
  note v
  moreover have u: "i < length (uip_conns ?u)" "link_of i ?u = int l" "conn_state (tconn ?u i) = UIP_CLOSED" "xlog ?u = xlog s"
    using i link by (simp_all add: reset_state_def link_of_def upd_conn_def conn_state_def)
  moreover have sv: "tconn s' i = tconn v i" "xlog s' = xlog v" "uip_len s' = 0" by (simp_all add: s' drop_lbl_def)
  ultimately have ev: "stack_kept ?u v" "deliveries (xlog v) = deliveries (xlog s)"
    "\<exists>log c. xlog v = log @ [(l, OutEvent c)] \<and> xc_event c = XTCP_ABORTED"
    using event_reported [of XTCP_ABORTED i ?u v l] slot by auto
  have "conn_kept (tconn ?u i) (tconn v i)" using kept_state [OF ev(1) u(1)] slot sv(1) by simp
  then have "conn_state (tconn v i) = UIP_CLOSED" using u(3) by (simp add: conn_kept_def)
  with ev(2,3) sv show ?thesis by simp
qed

section \<open>The peer closes\<close>

lemma tcp_send_finack_segment:
  "segment_of (uip_hostaddr s) (tconn s i) (uip_buf (tcp_send_finack i s))"
  "uip_buf (tcp_send_finack i s) 47 = (TCP_FIN OR TCP_ACK)" "uip_len (tcp_send_finack i s) = 40"
  "uip_conns (tcp_send_finack i s) = uip_conns s" "uip_hostaddr (tcp_send_finack i s) = uip_hostaddr s"
  using tcp_send_segment [where s = "bput 46 0x50 ((bput 47 (TCP_FIN OR TCP_ACK) s)\<lparr>uip_len := 40\<rparr>)" and i = i]
  by (simp_all add: tcp_send_finack_def tcp_send_nodata_def tcp_send_noopts_def send_sel send_hostaddr)

lemma shut_keeps_log: "xlog (tcp_send_finack i s) = xlog s" "xlog (tcp_send_ack i s) = xlog s"
  by (simp_all add: tcp_send_finack_def tcp_send_ack_def tcp_send_nodata_def tcp_send_noopts_def send_keeps_log)

definition fin_state :: "nat \<Rightarrow> 'a uip_st_scheme \<Rightarrow> 'a uip_st_scheme" where
  "fin_state i s = s\<lparr>uip_conn := Some i, uip_len := 0,
     uip_conns := (uip_conns s)[i := (tconn s i)\<lparr>tc_rcv_nxt := uip_add32 (tc_rcv_nxt (tconn s i)) 1\<rparr>],
     uip_flags := (if uip_buf s 47 AND TCP_PSH \<noteq> 0 then UIP_TCP_PUSH else 0) OR UIP_CLOSE\<rparr>"

definition last_ack_state :: "nat \<Rightarrow> 'a uip_st_scheme \<Rightarrow> 'a uip_st_scheme" where
  "last_ack_state i s = upd_conn i (\<lambda>c. c\<lparr>tc_len := 1, tc_tcpstateflags := UIP_LAST_ACK, tc_nrtx := 0\<rparr>) s"

lemma peer_fin_found:
  assumes "i < length (uip_conns s)" and "tc_tcpstateflags (tconn s i) = UIP_ESTABLISHED"
    and "uip_buf s 47 AND TCP_RST = 0" "uip_buf s 47 AND TCP_FIN \<noteq> 0" and "tcp_data_len s = 0"
    and "rd4 (uip_buf s) 38 = tc_rcv_nxt (tconn s i)" and "tc_len (tconn s i) = 0"
  shows "tcp_found env i s = map_option (\<lambda>v. tcp_send_finack i (last_ack_state i v)) (appcall env (fin_state i s))"
proof -
  have d: "uip_len s - ucast (push_bit 2 (drop_bit 4 (uip_buf s 46))) = 20"
    using assms(5) by (simp add: tcp_data_len_def)
  show ?thesis
    using assms
    by (cases "uip_buf s 47 AND TCP_PSH = 0") (simp_all add: tcp_found_def Let_def d tcp_ack_input_def tcp_state_switch_def
        tcp_established_def uip_add_rcv_nxt_def upd_conn_def map_conv_bind_option comp_def fin_state_def last_ack_state_def)
qed

text \<open>
  C13. The peer closes: when a FIN without data arrives in order on an established connection on which nothing is
  outstanding, the connection waits for the last acknowledgement in LAST\_ACK, the reply is a FIN that
  acknowledges the FIN of the peer, and the last message to the clients is the event that the connection is
  closed, on the link of the connection.
\<close>

theorem peer_close_answered:
  assumes i: "i < length (uip_conns s)" and st: "tc_tcpstateflags (tconn s i) = UIP_ESTABLISHED"
    and fl: "uip_buf s 47 AND TCP_RST = 0" "uip_buf s 47 AND TCP_FIN \<noteq> 0" and len: "tcp_data_len s = 0"
    and seq: "rd4 (uip_buf s) 38 = tc_rcv_nxt (tconn s i)" and idle: "tc_len (tconn s i) = 0"
    and first: "\<not> xs_closed (xd_s (tc_appstate (tconn s i)))" and link: "link_of i s = int l"
    and run: "tcp_found (server_env t) i s = Some s'"
  shows "conn_state (tconn s' i) = UIP_LAST_ACK \<and> tc_len (tconn s' i) = 1 \<and>
    be32 (tc_rcv_nxt (tconn s' i)) = be32 (tc_rcv_nxt (tconn s i)) + 1 \<and>
    segment_of (uip_hostaddr s') (tconn s' i) (uip_buf s') \<and> uip_buf s' 47 = (TCP_FIN OR TCP_ACK) \<and> uip_len s' = 40 \<and>
    deliveries (xlog s') = deliveries (xlog s) \<and> (\<exists>log c. xlog s' = log @ [(l, OutEvent c)] \<and> xc_event c = XTCP_CLOSED)"
proof -
  let ?c = "(tconn s i)\<lparr>tc_rcv_nxt := uip_add32 (tc_rcv_nxt (tconn s i)) 1\<rparr>"
  let ?u = "fin_state i s"
  from run [unfolded peer_fin_found [OF i st fl len seq idle]] obtain v
    where v: "appcall (server_env t) ?u = Some v" and s': "s' = tcp_send_finack i (last_ack_state i v)"
    unfolding map_option_eq_Some by blast
  have u: "uip_conn ?u = Some i" "i < length (uip_conns ?u)" "uip_flags ?u = UIP_CLOSE \<or> uip_flags ?u = UIP_TCP_PUSH OR UIP_CLOSE"
    "\<not> xs_closed (xd_s (tc_appstate (tconn ?u i)))" "link_of i ?u = int l" "live i ?u"
    using i first link st by (simp_all add: fin_state_def link_of_def live_def conn_state_def)
  have kept: "conn_kept ?c (tconn v i)" "length (uip_conns v) = length (uip_conns s)" "deliveries (xlog v) = deliveries (xlog s)"
    "\<exists>log c. xlog v = log @ [(l, OutEvent c)] \<and> xc_event c = XTCP_CLOSED"
    using close_reported [OF v u(1-5)] u(6) i by (simp_all add: fin_state_def)
  have "tconn s' i = (tconn v i)\<lparr>tc_len := 1, tc_tcpstateflags := UIP_LAST_ACK, tc_nrtx := 0\<rparr>" "xlog s' = xlog v"
    using i kept(2) by (simp_all add: s' tcp_send_finack_segment shut_keeps_log last_ack_state_def upd_conn_def)
  moreover have "be32 (tc_rcv_nxt (tconn v i)) = be32 (tc_rcv_nxt (tconn s i)) + 1"
    using kept(1) by (simp add: conn_kept_def uip_add32_be32)
  ultimately show ?thesis
    using kept(3,4) tcp_send_finack_segment [where i = i and s = "last_ack_state i v"]
    by (simp add: s' conn_state_def)
qed

section \<open>The host closes\<close>

definition fin_acked_state :: "nat \<Rightarrow> 'a uip_st_scheme \<Rightarrow> 'a uip_st_scheme" where
  "fin_acked_state i s = (upd_conn i (\<lambda>c. c\<lparr>tc_tcpstateflags := UIP_FIN_WAIT_2, tc_len := 0\<rparr>)
     (tcp_ack_input i (s\<lparr>uip_conn := Some i, uip_flags := 0, uip_len := 0\<rparr>)))\<lparr>uip_flags := 0\<rparr>"

definition linger_state :: "nat \<Rightarrow> 'a uip_st_scheme \<Rightarrow> 'a uip_st_scheme" where
  "linger_state i s = s\<lparr>uip_conn := Some i, uip_len := 0, uip_conns := (uip_conns s)[i := (tconn s i)
     \<lparr>tc_tcpstateflags := UIP_TIME_WAIT, tc_timer := 0, tc_rcv_nxt := uip_add32 (tc_rcv_nxt (tconn s i)) 1\<rparr>], uip_flags := UIP_CLOSE\<rparr>"

lemma fin_acked_found:
  assumes i: "i < length (uip_conns s)" and st: "tc_tcpstateflags (tconn s i) = UIP_FIN_WAIT_1" and out: "tc_len (tconn s i) = 1"
    and ack: "uip_buf s 47 AND TCP_RST = 0" "uip_buf s 47 AND (TCP_SYN OR TCP_FIN) = 0" "uip_buf s 47 AND TCP_ACK \<noteq> 0"
      "tcp_data_len s = 0" "rd4 (uip_buf s) 42 = uip_add32 (tc_snd_nxt (tconn s i)) 1"
  shows "tcp_found env i s = Some (fin_acked_state i s)"
    and "\<exists>c. uip_conns (fin_acked_state i s) = (uip_conns s)[i := c] \<and> tc_tcpstateflags c = UIP_FIN_WAIT_2 \<and> tc_len c = 0 \<and>
      tc_rcv_nxt c = tc_rcv_nxt (tconn s i) \<and> tc_appstate c = tc_appstate (tconn s i)"
    and "uip_len (fin_acked_state i s) = 0"
proof -
  obtain a where a: "tcp_ack_input i (s\<lparr>uip_conn := Some i, uip_flags := 0, uip_len := 0\<rparr>) =
      s\<lparr>uip_conn := Some i, uip_len := 0, uip_conns := (uip_conns s)[i := a], uip_flags := UIP_ACKDATA\<rparr>"
    "tc_tcpstateflags a = UIP_FIN_WAIT_1" "tc_rcv_nxt a = tc_rcv_nxt (tconn s i)" "tc_appstate a = tc_appstate (tconn s i)"
    using i st out ack(3,5) by (simp add: tcp_ack_input_def Let_def rtt_estimate_def upd_conn_def)
  have d: "uip_len s - ucast (push_bit 2 (drop_bit 4 (uip_buf s 46))) = 20"
    using ack(4) by (simp add: tcp_data_len_def)
  have nofin: "uip_buf s 47 AND TCP_FIN = 0"
  proof -
    have "uip_buf s 47 AND TCP_FIN = (uip_buf s 47 AND (TCP_SYN OR TCP_FIN)) AND TCP_FIN" by (simp add: and.assoc)
    then show ?thesis unfolding ack(2) by simp
  qed
  show "tcp_found env i s = Some (fin_acked_state i s)"
    using i st ack a(2) nofin
    by (cases "uip_buf s 47 AND TCP_PSH = 0") (simp_all add: tcp_found_def Let_def d a(1) tcp_state_switch_def tcp_fin_wait_1_def
        upd_conn_def drop_lbl_def fin_acked_state_def)
  show "\<exists>c. uip_conns (fin_acked_state i s) = (uip_conns s)[i := c] \<and> tc_tcpstateflags c = UIP_FIN_WAIT_2 \<and> tc_len c = 0 \<and>
      tc_rcv_nxt c = tc_rcv_nxt (tconn s i) \<and> tc_appstate c = tc_appstate (tconn s i)" "uip_len (fin_acked_state i s) = 0"
    using i a(2-4) by (auto simp: fin_acked_state_def a(1) upd_conn_def
        intro!: exI [of _ "a\<lparr>tc_tcpstateflags := UIP_FIN_WAIT_2, tc_len := 0\<rparr>"])
qed

lemma fin_acked_log: "xlog (fin_acked_state i s) = xlog s"
  by (simp add: fin_acked_state_def tcp_ack_input_def rtt_estimate_def upd_conn_def Let_def)

lemma lingering_found:
  assumes "i < length (uip_conns s)" and "tc_tcpstateflags (tconn s i) = UIP_FIN_WAIT_2" and "tc_len (tconn s i) = 0"
    and "uip_buf s 47 AND TCP_RST = 0" "uip_buf s 47 AND TCP_FIN \<noteq> 0" "tcp_data_len s = 0"
    and "rd4 (uip_buf s) 38 = tc_rcv_nxt (tconn s i)"
  shows "tcp_found env i s = map_option (tcp_send_ack i) (appcall env (linger_state i s))"
proof -
  have d: "uip_len s - ucast (push_bit 2 (drop_bit 4 (uip_buf s 46))) = 20"
    using assms(6) by (simp add: tcp_data_len_def)
  show ?thesis
    using assms
    by (cases "uip_buf s 47 AND TCP_PSH = 0") (simp_all add: tcp_found_def Let_def d tcp_ack_input_def tcp_state_switch_def
        tcp_fin_wait_2_def uip_add_rcv_nxt_def upd_conn_def map_conv_bind_option comp_def linger_state_def)
qed

text \<open>
  C12. The host closes: a connection that has sent its FIN enters FIN\_WAIT\_2 when the FIN is acknowledged, without
  a reply; when the FIN of the peer then arrives in order, it enters TIME\_WAIT, the reply acknowledges the FIN, and the
  last message to the clients is the event that the connection is closed, on its link (provided that no client
  opens a new connection in its slot while the server waits to send the event).
\<close>

theorem local_close_completes:
  assumes i: "i < length (uip_conns s)" and st: "tc_tcpstateflags (tconn s i) = UIP_FIN_WAIT_1" and out: "tc_len (tconn s i) = 1"
    and ack: "uip_buf s 47 AND TCP_RST = 0" "uip_buf s 47 AND (TCP_SYN OR TCP_FIN) = 0" "uip_buf s 47 AND TCP_ACK \<noteq> 0"
      "tcp_data_len s = 0" "rd4 (uip_buf s) 42 = uip_add32 (tc_snd_nxt (tconn s i)) 1"
    and fin: "b 47 AND TCP_RST = 0" "b 47 AND TCP_FIN \<noteq> 0" "tcp_data_len (s\<lparr>uip_buf := b, uip_len := n\<rparr>) = 0"
      "rd4 b 38 = tc_rcv_nxt (tconn s i)"
    and first: "\<not> xs_closed (xd_s (tc_appstate (tconn s i)))" and link: "link_of i s = int l"
  shows "\<exists>s1. tcp_found (server_env t) i s = Some s1 \<and> conn_state (tconn s1 i) = UIP_FIN_WAIT_2 \<and> uip_len s1 = 0 \<and> xlog s1 = xlog s \<and>
    (\<forall>s2. tcp_found (server_env t') i (s1\<lparr>uip_buf := b, uip_len := n\<rparr>) = Some s2 \<longrightarrow> conn_state (tconn s2 i) \<noteq> UIP_SYN_SENT \<longrightarrow>
      conn_state (tconn s2 i) = UIP_TIME_WAIT \<and> be32 (tc_rcv_nxt (tconn s2 i)) = be32 (tc_rcv_nxt (tconn s i)) + 1 \<and>
      segment_of (uip_hostaddr s2) (tconn s2 i) (uip_buf s2) \<and> uip_buf s2 47 = TCP_ACK \<and> uip_len s2 = 40 \<and>
      (\<exists>log c. xlog s2 = log @ [(l, OutEvent c)] \<and> xc_event c = XTCP_CLOSED))"
proof -
  let ?s1 = "fin_acked_state i s"
  note s1 = fin_acked_found [OF i st out ack]
  obtain c where c: "uip_conns ?s1 = (uip_conns s)[i := c]" "tc_tcpstateflags c = UIP_FIN_WAIT_2" "tc_len c = 0"
    "tc_rcv_nxt c = tc_rcv_nxt (tconn s i)" "tc_appstate c = tc_appstate (tconn s i)" using s1(2) by blast
  let ?t = "?s1\<lparr>uip_buf := b, uip_len := n\<rparr>"
  have t: "tconn ?t i = c" "i < length (uip_conns ?t)" using c(1) i by simp_all
  have len: "tcp_data_len ?t = 0" using fin(3) by (simp add: tcp_data_len_def)
  have found: "tcp_found (server_env t') i ?t = map_option (tcp_send_ack i) (appcall (server_env t') (linger_state i ?t))"
    by (rule lingering_found) (use t c fin len in simp_all)
  have "conn_state (tconn s2 i) = UIP_TIME_WAIT \<and> be32 (tc_rcv_nxt (tconn s2 i)) = be32 (tc_rcv_nxt (tconn s i)) + 1 \<and>
      segment_of (uip_hostaddr s2) (tconn s2 i) (uip_buf s2) \<and> uip_buf s2 47 = TCP_ACK \<and> uip_len s2 = 40 \<and>
      (\<exists>log c. xlog s2 = log @ [(l, OutEvent c)] \<and> xc_event c = XTCP_CLOSED)"
    if run: "tcp_found (server_env t') i ?t = Some s2" and slot: "conn_state (tconn s2 i) \<noteq> UIP_SYN_SENT" for s2
  proof -
    let ?u = "linger_state i ?t"
    let ?d = "c\<lparr>tc_tcpstateflags := UIP_TIME_WAIT, tc_timer := 0, tc_rcv_nxt := uip_add32 (tc_rcv_nxt c) 1\<rparr>"
    from run [unfolded found] obtain v where v: "appcall (server_env t') ?u = Some v" and s2: "s2 = tcp_send_ack i v"
      unfolding map_option_eq_Some by blast
    have conns: "uip_conns s2 = uip_conns v" "xlog s2 = xlog v" "uip_hostaddr s2 = uip_hostaddr v" "uip_len s2 = 40"
      by (simp_all add: s2 shut_keeps_log send_sel)
        (simp_all add: tcp_send_ack_def tcp_send_nodata_def tcp_send_noopts_def send_hostaddr send_sel)
    have d: "tconn ?u i = ?d" using t by (simp add: linger_state_def)
    have u: "uip_conn ?u = Some i" "i < length (uip_conns ?u)" "uip_flags ?u = UIP_CLOSE \<or> uip_flags ?u = UIP_TCP_PUSH OR UIP_CLOSE"
      "\<not> xs_closed (xd_s (tc_appstate (tconn ?u i)))" "link_of i ?u = int l"
      unfolding link_of_def d using c(5) first link t(2) by (simp_all add: linger_state_def link_of_def)
    have "conn_kept ?d (tconn v i)" "\<exists>log c. xlog v = log @ [(l, OutEvent c)] \<and> xc_event c = XTCP_CLOSED"
      using close_reported [OF v u] slot conns(1) unfolding d by simp_all
    with tcp_send_ack_segment [where s = v and i = i] c(4) show ?thesis
      unfolding conns by (simp add: s2 [symmetric] conn_kept_def uip_add32_be32 conn_state_def)
  qed
  moreover have "conn_state (tconn ?s1 i) = UIP_FIN_WAIT_2" using c i by (simp add: conn_state_def)
  ultimately show ?thesis using s1(1,3) fin_acked_log [of i s] by blast
qed

section \<open>The end of TIME\_WAIT\<close>

definition lingering :: "tcp_conn \<Rightarrow> bool" where
  "lingering c \<longleftrightarrow> tc_tcpstateflags c \<in> {UIP_TIME_WAIT, UIP_FIN_WAIT_2} \<and> tc_timer c < UIP_TIME_WAIT_TIMEOUT"

lemma lingering_tick:
  assumes i: "i < length (uip_conns s)" and c: "lingering (tconn s i)"
  shows "\<exists>s'. uip_periodic env i s = Some s' \<and> length (uip_conns s') = length (uip_conns s) \<and>
    tc_timer (tconn s' i) = tc_timer (tconn s i) + 1 \<and>
    (if tc_timer (tconn s i) = 119 then tc_tcpstateflags (tconn s' i) = UIP_CLOSED else lingering (tconn s' i))"
proof -
  have lt: "tc_timer (tconn s i) \<noteq> 119 \<Longrightarrow> tc_timer (tconn s i) + 1 < UIP_TIME_WAIT_TIMEOUT \<and> tc_timer (tconn s i) + 1 \<noteq> UIP_TIME_WAIT_TIMEOUT"
    using c by (auto simp: lingering_def word_less_nat_alt word_unat_eq_iff unat_word_ariths)
  define t where "t = (xtcp_increment_word Inc_iss (s\<lparr>uip_conn := Some i, uip_appdata := 54, uip_sappdata := 54\<rparr>))
    \<lparr>uip_len := 0, uip_slen := 0\<rparr>"
  have t: "uip_conns t = uip_conns s" by (simp add: t_def send_sel)
  have "uip_periodic env i s = Some (drop_lbl (upd_conn i (\<lambda>c. c\<lparr>tc_timer := tc_timer c + 1,
      tc_tcpstateflags := (if tc_timer c + 1 = UIP_TIME_WAIT_TIMEOUT then UIP_CLOSED else tc_tcpstateflags c)\<rparr>) t))"
    using c unfolding periodic_timer tcp_timer_def Let_def t_def [symmetric] by (auto simp: lingering_def t)
  then show ?thesis using i c lt by (auto simp: send_sel upd_conn_def t lingering_def)
qed

text \<open>
  A connection does not linger forever: in TIME\_WAIT, and in FIN\_WAIT\_2 when the peer never sends its FIN, the
  timer counts up to 120, and the tick of the periodic timer that reaches it closes the connection; every tick before
  returns and leaves the connection waiting.
\<close>

theorem lingering_ends:
  assumes "i < length (uip_conns s)" and "lingering (tconn s i)" and "k = 120 - unat (tc_timer (tconn s i))"
  shows "\<exists>t u. periodic_ticks env i (k - 1) s = Some t \<and> lingering (tconn t i) \<and>
    uip_periodic env i t = Some u \<and> tc_tcpstateflags (tconn u i) = UIP_CLOSED"
  using assms
proof (induction "k - 1" arbitrary: k s)
  case 0
  have "unat (tc_timer (tconn s i)) < 120" using 0(3) by (simp add: lingering_def word_less_nat_alt)
  with 0 have "unat (tc_timer (tconn s i)) = unat (119 :: u8)" by simp
  then have "tc_timer (tconn s i) = 119" by (rule word_unat_eq_iff [THEN iffD2])
  with lingering_tick [OF 0(2,3), of env] obtain u where "uip_periodic env i s = Some u" "tc_tcpstateflags (tconn u i) = UIP_CLOSED"
    by auto
  with 0 show ?case by (intro exI [of _ s] exI [of _ u]) simp
next
  case (Suc n)
  have lt: "unat (tc_timer (tconn s i)) < 120" using Suc.prems(2) by (simp add: lingering_def word_less_nat_alt)
  with Suc.hyps(2) Suc.prems(3) have ne: "tc_timer (tconn s i) \<noteq> 119" by auto
  obtain s1 where s1: "uip_periodic env i s = Some s1" "length (uip_conns s1) = length (uip_conns s)"
    "tc_timer (tconn s1 i) = tc_timer (tconn s i) + 1" "lingering (tconn s1 i)"
    using lingering_tick [OF Suc.prems(1,2), of env] ne by auto
  have "unat (tc_timer (tconn s1 i)) = unat (tc_timer (tconn s i)) + 1"
    using lt s1(3) by (simp add: unat_word_ariths)
  with Suc.hyps(2) Suc.prems(3) have k: "n = (k - 1) - 1" "k - 1 = 120 - unat (tc_timer (tconn s1 i))" by auto
  from Suc.hyps(1) [OF k(1) _ s1(4) k(2)] Suc.prems(1) s1(2) obtain t u where
    "periodic_ticks env i (k - 1 - 1) s1 = Some t" "lingering (tconn t i)" "uip_periodic env i t = Some u"
    "tc_tcpstateflags (tconn u i) = UIP_CLOSED" by auto
  then show ?case using s1(1) unfolding k(1) [symmetric] Suc.hyps(2) [symmetric] by (intro exI [of _ t] exI [of _ u]) simp
qed

section \<open>Sample segments\<close>

lemma conn_state_appstate: "conn_state (c\<lparr>tc_appstate := x\<rparr>) = conn_state c"
  by (simp add: conn_state_def)

text \<open>A client that answers its notification and has no event pending gets the event.\<close>

lemma event_returns:
  assumes "polls s = answer_polls now l 0 (xtcp_num s) @ ps" and "pending_event s ! l = None" and "l < length (notified s)"
    and "l < xtcp_num s" and "link_of i s = int l"
  shows "\<exists>s'. xtcpd_event ev (TcpRef i) s = Some s' \<and> (\<forall>k. conn_state (tconn s' k) = conn_state (tconn s k))"
proof -
  obtain u where u: "xtcpd_service_clients_until_ready (int l) s = Some u" "uip_conns u = uip_conns s"
    using until_ready_returns [OF assms(1-4)] by blast
  let ?s' = "xtcpd_send_event (nat (link_of i u)) ev (TcpRef i) u"
  have "xtcpd_event ev (TcpRef i) s = Some ?s'"
    using assms(5) u(1) by (simp add: xtcpd_event_def link_xstate)
  moreover have "conn_state (tconn ?s' k) = conn_state (tconn s k)" for k
  proof -
    have "conn_state (tconn ?s' k) = conn_state (tconn u k)"
      by (simp add: xtcpd_send_event_def Let_def emit_def upd_xstate_def state_upd_conn conn_state_appstate)
    then show ?thesis by (simp add: u(2))
  qed
  ultimately show ?thesis by blast
qed


definition sample_wire :: "tcp_conn \<Rightarrow> mem \<Rightarrow> server_st" where
  "sample_wire c b = (sample_server [c] (answer_polls 3 0 0 2))\<lparr>uip_len := 40, uip_appdata := 54, uip_buf := b\<rparr>"

lemma sample_wire_sel [simp]:
  "uip_conns (sample_wire c b) = [c]" "uip_buf (sample_wire c b) = b" "uip_len (sample_wire c b) = 40"
  "polls (sample_wire c b) = answer_polls 3 0 0 2" "pending_event (sample_wire c b) = [None, None]"
  "notified (sample_wire c b) = [False, False]" "xtcp_num (sample_wire c b) = 2" "xlog (sample_wire c b) = []"
  by (simp_all add: sample_wire_def server_sample_defs)

lemma sample_slot_link: "link_of 0 (sample_wire (sample_slot n p) b) = int 0"
  by (simp add: link_of_def sample_slot_def zero_tcp_conn_def zero_xtcpd_state_def)

theorem reset_reported_witness:
  "\<exists>s'. tcp_found (server_env sample_segment) 0 (sample_wire (sample_slot 7 (htons 80)) ((\<lambda>_. 0)(46 := 0x50, 47 := 4))) = Some s' \<and>
    conn_state (tconn s' 0) = UIP_CLOSED \<and> (\<exists>log c. xlog s' = log @ [(0, OutEvent c)] \<and> xc_event c = XTCP_ABORTED)"
proof -
  let ?s = "sample_wire (sample_slot 7 (htons 80)) ((\<lambda>_. 0)(46 := 0x50, 47 := 4))"
  have rst: "uip_buf ?s 47 AND TCP_RST \<noteq> 0" by simp
  let ?u = "reset_state 0 ?s"
  have u: "polls ?u = answer_polls 3 0 0 (xtcp_num ?u) @ []" "pending_event ?u ! 0 = None" "0 < length (notified ?u)" "0 < xtcp_num ?u"
    "link_of 0 ?u = int 0"
    using sample_slot_link [of 7 "htons 80"] by (simp_all add: reset_state_def upd_conn_def link_of_def)
  obtain v where v: "xtcpd_event XTCP_ABORTED (TcpRef 0) ?u = Some v" "conn_state (tconn v 0) = conn_state (tconn ?u 0)"
    using event_returns [OF u] by blast
  then have run: "tcp_found (server_env sample_segment) 0 ?s = Some (drop_lbl v)" using reset_found [OF rst] by simp
  have "conn_state (tconn (drop_lbl v) 0) \<noteq> UIP_SYN_SENT"
    using v(2) by (simp add: drop_lbl_def reset_state_def upd_conn_def conn_state_def)
  with reset_reported [OF _ rst sample_slot_link run] run show ?thesis by simp
qed

theorem peer_close_answered_witness:
  "\<exists>s'. tcp_found (server_env sample_segment) 0 (sample_wire (sample_slot 7 (htons 80)) ((\<lambda>_. 0)(46 := 0x50, 47 := 0x11))) = Some s' \<and>
    conn_state (tconn s' 0) = UIP_LAST_ACK \<and> (\<exists>log c. xlog s' = log @ [(0, OutEvent c)] \<and> xc_event c = XTCP_CLOSED)"
proof -
  let ?s = "sample_wire (sample_slot 7 (htons 80)) ((\<lambda>_. 0)(46 := 0x50, 47 := 0x11))"
  have s: "0 < length (uip_conns ?s)" "tc_tcpstateflags (tconn ?s 0) = UIP_ESTABLISHED" "uip_buf ?s 47 AND TCP_RST = 0"
    "uip_buf ?s 47 AND TCP_FIN \<noteq> 0" "tcp_data_len ?s = 0" "rd4 (uip_buf ?s) 38 = tc_rcv_nxt (tconn ?s 0)" "tc_len (tconn ?s 0) = 0"
    "\<not> xs_closed (xd_s (tc_appstate (tconn ?s 0)))"
    by (simp_all add: tcp_data_len_def sample_slot_def zero_tcp_conn_def zero_xtcpd_state_def rd4_def)
  let ?u = "told 0 (fin_state 0 ?s)"
  have u: "polls ?u = answer_polls 3 0 0 (xtcp_num ?u) @ []" "pending_event ?u ! 0 = None" "0 < length (notified ?u)" "0 < xtcp_num ?u"
    "link_of 0 ?u = int 0"
    using sample_slot_link [of 7 "htons 80"] by (simp_all add: told_def upd_xstate_def fin_state_def upd_conn_def link_of_def)
  obtain v where v: "xtcpd_event XTCP_CLOSED (TcpRef 0) ?u = Some v" using event_returns [OF u] by blast
  have "uip_flags (fin_state 0 ?s) = UIP_CLOSE" "uip_conn (fin_state 0 ?s) = Some 0"
    "\<not> xs_closed (xd_s (xstate (TcpRef 0) (fin_state 0 ?s)))"
    using s(8) by (simp_all add: fin_state_def xstate_def)
  with v have "appcall (server_env sample_segment) (fin_state 0 ?s) = Some v" by (simp add: appcall_server closed_call)
  then have run: "tcp_found (server_env sample_segment) 0 ?s = Some (tcp_send_finack 0 (last_ack_state 0 v))"
    by (simp only: peer_fin_found [OF s(1-7)] option.map)
  with peer_close_answered [OF s sample_slot_link run] show ?thesis by simp
qed


definition sample_closing :: tcp_conn where
  "sample_closing = (sample_slot 7 (htons 80))\<lparr>tc_tcpstateflags := UIP_FIN_WAIT_1, tc_len := 1\<rparr>"

lemma sample_closing_ack: "rd4 ((\<lambda>_. 0)(45 := 1, 46 := 0x50, 47 := 0x10)) 42 = uip_add32 (tc_snd_nxt sample_closing) 1"
  by code_simp

theorem local_close_completes_witness:
  "\<exists>s1 s2. tcp_found (server_env sample_segment) 0 (sample_wire sample_closing ((\<lambda>_. 0)(45 := 1, 46 := 0x50, 47 := 0x10))) = Some s1 \<and>
    conn_state (tconn s1 0) = UIP_FIN_WAIT_2 \<and>
    tcp_found (server_env sample_segment) 0 (s1\<lparr>uip_buf := (\<lambda>_. 0)(46 := 0x50, 47 := 0x11), uip_len := 40\<rparr>) = Some s2 \<and>
    conn_state (tconn s2 0) = UIP_TIME_WAIT \<and> uip_buf s2 47 = TCP_ACK"
proof -
  let ?b = "(\<lambda>_. 0)(46 := 0x50, 47 := 0x11) :: mem"
  let ?s = "sample_wire sample_closing ((\<lambda>_. 0)(45 := 1, 46 := 0x50, 47 := 0x10))"
  have s: "0 < length (uip_conns ?s)" "tc_tcpstateflags (tconn ?s 0) = UIP_FIN_WAIT_1" "tc_len (tconn ?s 0) = 1"
    "uip_buf ?s 47 AND TCP_RST = 0" "uip_buf ?s 47 AND (TCP_SYN OR TCP_FIN) = 0" "uip_buf ?s 47 AND TCP_ACK \<noteq> 0"
    "tcp_data_len ?s = 0" "rd4 (uip_buf ?s) 42 = uip_add32 (tc_snd_nxt (tconn ?s 0)) 1"
    by (simp_all add: sample_closing_ack) (simp_all add: tcp_data_len_def sample_closing_def)
  have f: "?b 47 AND TCP_RST = 0" "?b 47 AND TCP_FIN \<noteq> 0" "tcp_data_len (?s\<lparr>uip_buf := ?b, uip_len := 40\<rparr>) = 0"
    "rd4 ?b 38 = tc_rcv_nxt (tconn ?s 0)" "\<not> xs_closed (xd_s (tc_appstate (tconn ?s 0)))" "link_of 0 ?s = int 0"
    by (simp_all add: tcp_data_len_def sample_closing_def sample_slot_def zero_tcp_conn_def zero_xtcpd_state_def rd4_def link_of_def)
  let ?s1 = "fin_acked_state 0 ?s"
  note s1 = fin_acked_found [OF s]
  obtain c where c: "uip_conns ?s1 = [c]" "tc_tcpstateflags c = UIP_FIN_WAIT_2" "tc_len c = 0"
    "tc_rcv_nxt c = tc_rcv_nxt sample_closing" "tc_appstate c = tc_appstate sample_closing" using s1(2) by auto
  let ?t = "?s1\<lparr>uip_buf := ?b, uip_len := 40\<rparr>"
  have found: "tcp_found (server_env sample_segment) 0 ?t = map_option (tcp_send_ack 0) (appcall (server_env sample_segment) (linger_state 0 ?t))"
    by (rule lingering_found) (use c f in \<open>simp_all add: tcp_data_len_def\<close>)
  let ?u = "told 0 (linger_state 0 ?t)"
  have st: "polls ?s1 = answer_polls 3 0 0 2" "pending_event ?s1 = [None, None]" "notified ?s1 = [False, False]" "xtcp_num ?s1 = 2"
    by (simp_all add: fin_acked_state_def tcp_ack_input_def rtt_estimate_def upd_conn_def Let_def)
  have u: "polls ?u = answer_polls 3 0 0 (xtcp_num ?u) @ []" "pending_event ?u ! 0 = None" "0 < length (notified ?u)" "0 < xtcp_num ?u"
    "link_of 0 ?u = int 0"
    using f(6) c by (simp_all add: told_def upd_xstate_def linger_state_def upd_conn_def link_of_def st)
  obtain v where v: "xtcpd_event XTCP_CLOSED (TcpRef 0) ?u = Some v" "conn_state (tconn v 0) = conn_state (tconn ?u 0)"
    using event_returns [OF u] by blast
  have "appcall (server_env sample_segment) (linger_state 0 ?t) = Some v"
    using v(1) f(5) c by (simp add: appcall_server closed_call linger_state_def xstate_def)
  then have run: "tcp_found (server_env sample_segment) 0 ?t = Some (tcp_send_ack 0 v)" by (simp only: found option.map)
  have "conn_state (tconn ?u 0) = UIP_TIME_WAIT"
    using c by (simp add: told_def upd_xstate_def state_upd_conn conn_state_appstate linger_state_def) (simp add: conn_state_def)
  then have "conn_state (tconn (tcp_send_ack 0 v) 0) \<noteq> UIP_SYN_SENT"
    using v(2) by (simp add: send_sel)
  with local_close_completes [OF s f(1-6), where t = sample_segment and t' = sample_segment] s1(1) run show ?thesis by auto
qed

theorem lingering_ends_witness:
  "\<exists>t u. periodic_ticks idle_env 0 119 (sample_data\<lparr>uip_conns := [zero_tcp_conn\<lparr>tc_tcpstateflags := UIP_TIME_WAIT\<rparr>]\<rparr>) = Some t \<and>
    uip_periodic idle_env 0 t = Some u \<and> tc_tcpstateflags (tconn u 0) = UIP_CLOSED"
  using lingering_ends [of 0 "sample_data\<lparr>uip_conns := [zero_tcp_conn\<lparr>tc_tcpstateflags := UIP_TIME_WAIT\<rparr>]\<rparr>" 120 idle_env]
  by (auto simp: lingering_def zero_tcp_conn_def)


definition sample_opening :: server_st where
  "sample_opening = sample_wire ((sample_slot 7 (htons 80))\<lparr>tc_tcpstateflags := UIP_SYN_SENT, tc_len := 1,
     tc_appstate := zero_xtcpd_state\<lparr>xd_s := (xd_s zero_xtcpd_state)\<lparr>xs_connect_request := True\<rparr>\<rparr>\<rparr>)
     ((\<lambda>_. 0)(45 := 1, 46 := 0x50, 47 := 0x12))"

lemma sample_opening_answered: "tcp_found (server_env sample_opening) 0 sample_opening \<noteq> None"
  by code_simp

lemma sample_opening_facts:
  "0 < length (uip_conns sample_opening)" "tc_tcpstateflags (tconn sample_opening 0) = UIP_SYN_SENT" "tc_len (tconn sample_opening 0) = 1"
  "uip_buf sample_opening 47 AND TCP_CTL = (TCP_SYN OR TCP_ACK)"
  "rd4 (uip_buf sample_opening) 42 = uip_add32 (tc_snd_nxt (tconn sample_opening 0)) 1"
  "xs_connect_request (xd_s (tc_appstate (tconn sample_opening 0)))" "link_of 0 sample_opening = int 0"
  by code_simp+

theorem active_open_completes_witness:
  "\<exists>s'. tcp_found (server_env sample_opening) 0 sample_opening = Some s' \<and> conn_state (tconn s' 0) = UIP_ESTABLISHED \<and>
    uip_buf s' 47 = TCP_ACK \<and> (\<exists>log c. xlog s' = log @ [(0, OutEvent c)] \<and> xc_event c = XTCP_NEW_CONNECTION)"
proof -
  obtain s' where "tcp_found (server_env sample_opening) 0 sample_opening = Some s'" using sample_opening_answered by blast
  with active_open_completes [OF sample_opening_facts this] show ?thesis by simp
qed

end
