(* ===== verification/Xtcp_Asking.thy ===== *)
theory Xtcp_Asking
  imports Xtcp_Delivery
begin

text \<open>
  What the callback does for the sending side of a connection. The stack keeps no data: it asks the client for the next bytes when all
  before are acknowledged, and for the same bytes again when it retransmits. For each way in which the stack calls it, for a segment, a
  retransmission and a poll, the callback either leaves the connection as it is or ends with one exchange with the client, whose answer is
  then in the packet buffer.
\<close>

section \<open>What the clients give\<close>

definition gift :: "nat \<times> xmsg \<Rightarrow> (nat \<times> u8 list) list" where
  "gift im = (case snd im of InData bs \<Rightarrow> [(fst im, bs)] | _ \<Rightarrow> [])"

definition gifts :: "(nat \<times> xmsg) list \<Rightarrow> (nat \<times> u8 list) list" where
  "gifts l = concat (map gift l)"

definition silent :: "'a xtcp_st_scheme \<Rightarrow> 'a xtcp_st_scheme \<Rightarrow> bool" where
  "silent s s' \<longleftrightarrow> gifts (xlog s') = gifts (xlog s)"

lemma gifts_append: "gifts (l @ m) = gifts l @ gifts m"
  by (simp add: gifts_def)

lemma silent_emit: "(\<And>bs. m \<noteq> InData bs) \<Longrightarrow> silent s (emit k m s)"
  by (cases m) (auto simp: silent_def emit_def gifts_def gift_def)

lemma silent_same: "xlog s' = xlog s \<Longrightarrow> silent s s'"
  by (simp add: silent_def)

lemma silent_trans: "silent s t \<Longrightarrow> silent t u \<Longrightarrow> silent s u"
  by (simp add: silent_def)

lemma xlog_upd: "xlog (upd_xstate r f s) = xlog s" "xlog (upd_conn i g s) = xlog s" "xlog (upd_udp j h s) = xlog s"
  "xlog (upd_stateflags p r s) = xlog s"
  by (cases r; simp add: upd_xstate_def upd_conn_def upd_udp_def upd_stateflags_def)+

lemma connect_log: "uip_connect a p s = Some (s', r) \<Longrightarrow> xlog s' = xlog s" "uip_udp_new b p s = Some (s', r) \<Longrightarrow> xlog s' = xlog s"
  by (auto simp: uip_connect_def uip_udp_new_def Let_def bind_eq_Some_conv upd_conn_def upd_udp_def split: option.splits)

lemma bind_log: "xtcpd_bind_local conn_id p s = Some s' \<Longrightarrow> xlog s' = xlog s" "xtcpd_bind_remote conn_id a p s = Some s' \<Longrightarrow> xlog s' = xlog s"
  by (auto simp: xtcpd_bind_local_def xtcpd_bind_remote_def Let_def xlog_upd split: option.splits conn_ref.splits prod.splits if_splits)

lemma connect_cmd_log:
  assumes "xtcpd_connect l p a pr s = Some s'"
  shows "xlog s' = xlog s"
proof -
  obtain w x y z where a: "a = (w, x, y, z)" by (cases a)
  show ?thesis
  proof (cases pr)
    case XTCP_PROTOCOL_TCP
    with assms obtain u r where "uip_connect (mk_ipaddr w x y z) (net_port p) s = Some (u, r)" "xlog s' = xlog u"
      by (auto simp: xtcpd_connect_def a Let_def xlog_upd split: option.splits prod.splits)
    with connect_log(1) show ?thesis by metis
  next
    case XTCP_PROTOCOL_UDP
    with assms obtain u r where "uip_udp_new (Some (mk_ipaddr w x y z)) (net_port p) s = Some (u, r)" "xlog s' = xlog u"
      by (auto simp: xtcpd_connect_def a Let_def xlog_upd split: option.splits prod.splits)
    with connect_log(2) show ?thesis by metis
  qed
qed

lemma listen_log: "xlog (xtcpd_listen l p pr s) = xlog s" "xlog (xtcpd_unlisten l p s) = xlog s"
    "xlog (igmp_join_group a s) = xlog s" "xlog (igmp_leave_group a s) = xlog s"
  by (simp_all add: xtcpd_listen_def xtcpd_unlisten_def uip_listen_def uip_unlisten_def uip_udp_listen_def
      igmp_join_group_def igmp_leave_group_def upd_group_def split: option.split)

lemma on_conn_log: "(\<And>r. xlog (f r s) = xlog s) \<Longrightarrow> xlog (on_conn conn_id f s) = xlog s"
  by (simp add: on_conn_def split: option.split)

lemma silent_cmd:
  assumes "handle_xtcp_cmd k cmd conn_id s = Some s'"
  shows "silent s s'"
proof (cases cmd)
  case CMD_GET_MAC_ADDRESS
  with assms silent_emit [of "OutMac (xtcpd_get_mac_address s)" s k] show ?thesis by (simp add: handle_xtcp_cmd_def)
next
  case CMD_GET_IPCONFIG
  with assms silent_emit [of "OutIpconfig (xtcpd_get_ipconfig s)" s k] show ?thesis by (simp add: handle_xtcp_cmd_def)
qed (use assms in \<open>auto simp: handle_xtcp_cmd_def cmd_on_conn_defs xtcpd_set_poll_interval_def xtcpd_join_group_def xtcpd_leave_group_def
    listen_log xlog_upd intro!: silent_same on_conn_log dest: bind_log connect_cmd_log split: option.splits prod.splits\<close>)

interpretation silent: client_rel silent
proof
  fix s s' :: "'a xtcp_st_scheme" and k cmd conn_id
  assume "handle_xtcp_cmd k cmd conn_id s = Some s'"
  then show "silent s s'" by (rule silent_cmd)
next
  fix s :: "'a xtcp_st_scheme" and k m
  assume "\<And>bs. m \<noteq> OutRecv bs" "\<And>bs. m \<noteq> InData bs"
  then show "silent s (emit k m s)" by (intro silent_emit)
next
  fix s t u :: "'a xtcp_st_scheme"
  assume "silent s t" "silent t u"
  then show "silent s u" by (rule silent_trans)
qed (rule silent_same; simp add: xlog_upd)+

section \<open>One exchange\<close>

text \<open>
  What the callback does on behalf of connection \<open>i\<close> apart from asking for data: the packet and what the clients have given
  stay, and so do the connection, as far as the stack is concerned, and its link.
\<close>

definition sender_kept :: "nat \<Rightarrow> 'a xtcp_st_scheme \<Rightarrow> 'a xtcp_st_scheme \<Rightarrow> bool" where
  "sender_kept i s s' \<longleftrightarrow> packet_kept s s' \<and> silent s s' \<and> conn_kept (tconn s i) (tconn s' i) \<and> link_of i s' = link_of i s \<and> live i s'"

lemma conn_kept_trans: "conn_kept c d \<Longrightarrow> conn_kept d e \<Longrightarrow> conn_kept c e"
  by (simp add: conn_kept_def)

lemma sender_trans: "sender_kept i s t \<Longrightarrow> sender_kept i t u \<Longrightarrow> sender_kept i s u"
  unfolding sender_kept_def by (auto intro: packet_trans silent_trans conn_kept_trans)

lemma sender_wait: "waits_for i s u \<Longrightarrow> silent s u \<Longrightarrow> live i s \<Longrightarrow> sender_kept i s u"
  using kept_live live_links live_step by (auto simp: waits_for_def sender_kept_def)

lemma sender_until: "xtcpd_service_clients_until_ready w s = Some u \<Longrightarrow> live i s \<Longrightarrow> sender_kept i s u"
  by (rule sender_wait [OF waiting.R_until silent.R_until])

lemma sender_refl: "live i s \<Longrightarrow> sender_kept i s s"
  by (simp add: sender_kept_def packet_kept_def silent_def conn_kept_def)

lemma sender_event: "xtcpd_event ev (TcpRef i) s = Some u \<Longrightarrow> live i s \<Longrightarrow> sender_kept i s u"
  by (rule sender_wait [OF waiting.R_xtcpd_event silent.R_xtcpd_event])

text \<open>The client is asked, and gives: the last two messages are the event and the answer.\<close>

definition exchanged :: "nat \<Rightarrow> xtcp_event \<Rightarrow> u32 \<Rightarrow> u8 list \<Rightarrow> 'a xtcp_st_scheme \<Rightarrow> 'a xtcp_st_scheme \<Rightarrow> bool" where
  "exchanged l ev m bs s s' \<longleftrightarrow> (\<exists>lg c. xlog s' = lg @ [(l, OutEvent c), (l, InData bs)] \<and> gifts lg = gifts (xlog s) \<and>
     xc_event c = ev \<and> xc_mss c = m)"

lemma send_exchanged:
  assumes run: "xtcpd_send l ev (TcpRef i) d m s = Some (s', n)" and i: "live i s"
  shows "\<exists>bs x. n = int (length bs) \<and> exchanged l ev m bs s s' \<and> uip_buf s' = wrs d bs (uip_buf s) \<and>
    uip_conns s' = (uip_conns s)[i := (tconn s i)\<lparr>tc_appstate := x\<rparr>] \<and> xd_linknum x = link_of i s \<and>
    uip_appdata s' = uip_appdata s \<and> uip_sappdata s' = uip_sappdata s \<and> uip_flags s' = uip_flags s \<and> uip_slen s' = uip_slen s \<and>
    uip_conn s' = uip_conn s \<and> uip_len s' = uip_len s"
proof -
  let ?e = "xtcpd_send_event l ev (TcpRef i) (upd_xc (TcpRef i) (\<lambda>c. c\<lparr>xc_mss := m\<rparr>) s)"
  from run obtain s1 tok where poll: "poll_link ?e = Some (s1, tok)" by (auto simp: xtcpd_send_def bind_eq_Some_conv)
  with run obtain bs where tok: "tok = Some (TokData bs)" by (cases tok) (auto simp: xtcpd_send_def split: client_tok.splits)
  with run poll have s': "s' = (emit l (InData bs) s1)\<lparr>uip_buf := wrs d bs (uip_buf s1)\<rparr>" "n = int (length bs)" by (simp_all add: xtcpd_send_def)
  from poll obtain now ps where s1: "s1 = ?e\<lparr>clock := now, polls := ps\<rparr>" by (auto simp: poll_link_def split: list.splits prod.splits)
  have len: "i < length (uip_conns s)" using i by (simp add: live_def)
  let ?x = "(tc_appstate (tconn s i))\<lparr>xd_conn := (xd_conn (tc_appstate (tconn s i)))\<lparr>xc_mss := m, xc_event := ev\<rparr>\<rparr>"
  have "uip_conns s' = (uip_conns s)[i := (tconn s i)\<lparr>tc_appstate := ?x\<rparr>]"
    using len by (simp add: s' s1 emit_def xtcpd_send_event_def upd_xstate_def upd_conn_def Let_def)
  moreover have "xlog s' = xlog s @ [(l, OutEvent (xd_conn ?x)), (l, InData bs)]"
    using len by (simp add: s' s1 emit_def xtcpd_send_event_def upd_xstate_def upd_conn_def Let_def xstate_def)
  moreover have "uip_buf s' = wrs d bs (uip_buf s)" "uip_appdata s' = uip_appdata s" "uip_sappdata s' = uip_sappdata s"
    "uip_flags s' = uip_flags s" "uip_slen s' = uip_slen s" "uip_conn s' = uip_conn s" "uip_len s' = uip_len s"
    by (simp_all add: s' s1 emit_def xtcpd_send_event_def upd_xstate_def upd_conn_def Let_def)
  ultimately show ?thesis using s'(2)
    by (intro exI [of _ bs] exI [of _ ?x]) (simp add: exchanged_def link_of_def)
qed

text \<open>
  The outcome of a callback in which the client is asked: the connection is as before, and the answer is in the
  packet buffer, with its length for the stack.
\<close>

definition answered :: "nat \<Rightarrow> nat \<Rightarrow> xtcp_event \<Rightarrow> u8 list \<Rightarrow> 'a xtcp_st_scheme \<Rightarrow> 'a xtcp_st_scheme \<Rightarrow> bool" where
  "answered i l ev bs s s' \<longleftrightarrow> exchanged l ev (ucast (tc_mss (tconn s i))) bs s s' \<and> conn_kept (tconn s i) (tconn s' i) \<and>
     length (uip_conns s') = length (uip_conns s) \<and> uip_buf s' = wrs 54 bs (uip_buf s) \<and>
     uip_slen s' = (if bs = [] then 0 else of_nat (length bs))"

text \<open>The states in which the callback is made.\<close>

definition calling :: "nat \<Rightarrow> nat \<Rightarrow> 'a xtcp_st_scheme \<Rightarrow> bool" where
  "calling i l s \<longleftrightarrow> live i s \<and> link_of i s = int l \<and> uip_conn s = Some i \<and> uip_appdata s = 54 \<and> uip_sappdata s = 54 \<and> uip_slen s = 0"

lemma calling_kept: "sender_kept i s t \<Longrightarrow> calling i l s \<Longrightarrow> calling i l t"
  by (auto simp: calling_def sender_kept_def packet_kept_def)

lemma kept_answered:
  assumes "sender_kept i s t" and "answered i l ev bs t u"
  shows "answered i l ev bs s u"
  using assms by (auto simp: sender_kept_def answered_def exchanged_def silent_def packet_kept_def conn_kept_def)

lemma exchange_answered:
  assumes run: "xtcpd_send l ev (TcpRef i) 54 (ucast (tc_mss (tconn s i))) s = Some (s', n)" and c: "calling i l s"
  shows "\<exists>bs. n = int (length bs) \<and> answered i l ev bs s (uip_send 54 n s') \<and> uip_flags s' = uip_flags s \<and> uip_appdata s' = 54"
proof -
  have i: "live i s" using c by (simp add: calling_def)
  then have "i < length (uip_conns s)" by (simp add: live_def)
  with send_exchanged [OF run i] c show ?thesis
    by (fastforce simp: answered_def calling_def uip_send_def Let_def conn_kept_def conn_state_def exchanged_def)
qed

lemma ask_answered:
  assumes run: "ask_data ev (TcpRef i) s = Some s'" and c: "calling i l s"
  shows "\<exists>bs. answered i l ev bs s s' \<and> uip_flags s' = uip_flags s"
proof -
  have link: "xd_linknum (xstate (TcpRef i) s) = int l" using c by (simp add: calling_def link_xstate)
  with run c obtain u v n where u: "xtcpd_service_clients_until_ready (int l) s = Some u"
    and v: "xtcpd_send l ev (TcpRef i) 54 (ucast (tc_mss (tconn s i))) u = Some (v, n)" and s': "s' = uip_send (uip_appdata v) n v"
    by (auto simp: ask_data_def do_xtcpd_send_def bind_eq_Some_conv calling_def send_limit_def)
  have kept: "sender_kept i s u" using sender_until [OF u] c by (simp add: calling_def)
  note cu = calling_kept [OF kept c]
  have "tc_mss (tconn u i) = tc_mss (tconn s i)" using kept by (simp add: sender_kept_def conn_kept_def)
  with v have "xtcpd_send l ev (TcpRef i) 54 (ucast (tc_mss (tconn u i))) u = Some (v, n)" by simp
  from exchange_answered [OF this cu] obtain bs where bs: "answered i l ev bs u (uip_send 54 n v)" "uip_flags v = uip_flags u" "uip_appdata v = 54" by blast
  have "uip_flags s' = uip_flags s"
    using bs(2) kept by (simp add: s' uip_send_def Let_def sender_kept_def packet_kept_def)
  with kept_answered [OF kept bs(1)] bs(3) show ?thesis by (auto simp: s')
qed

section \<open>The callback\<close>

lemma stop_kept: "live i s \<Longrightarrow> sender_kept i s (upd_conn i (\<lambda>c. c\<lparr>tc_tcpstateflags := tc_tcpstateflags c OR UIP_STOPPED\<rparr>) s)"
  by (simp add: sender_kept_def packet_kept_def silent_def upd_conn_def live_def conn_kept_def conn_state_def state_masks link_of_def)

lemma input_kept:
  assumes run: "app_input (TcpRef i) s = Some (s', dn)" and c: "calling i l s" and no: "\<not> app_flag UIP_ABORT s" "\<not> app_flag UIP_TIMEDOUT s"
  shows "sender_kept i s s' \<and> \<not> dn"
proof (cases "app_flag UIP_NEWDATA s \<and> 0 < uip_len s")
  case False
  with run c no show ?thesis by (auto simp: app_input_def calling_def intro: sender_refl)
next
  case True
  have link: "xd_linknum (xstate (TcpRef i) s) = int l" and live: "live i s" using c by (simp_all add: calling_def link_xstate)
  with run True obtain u v where u: "xtcpd_service_clients_until_ready (int l) s = Some u"
    "xtcpd_recv (nat (link_of i u)) (TcpRef i) (uip_appdata u) (unat (uip_len u)) u = Some v" "\<not> dn"
    and s': "s' = (case uip_conn v of Some i' \<Rightarrow> if xs_ack_recv_mode (xd_s (xstate (TcpRef i) v))
        then upd_conn i' (\<lambda>c. c\<lparr>tc_tcpstateflags := tc_tcpstateflags c OR UIP_STOPPED\<rparr>) v else v | None \<Rightarrow> v)"
    by (auto simp: app_input_def bind_eq_Some_conv link_xstate)
  have su: "sender_kept i s u" by (rule sender_until [OF u(1) live])
  obtain w where w: "waits_for i u w" "silent u w"
    and v: "v = emit (nat (link_of i u)) OutCt (emit (nat (link_of i u)) (OutRecv (rds (uip_buf w) (uip_appdata u) (unat (uip_len u)))) w)"
  proof -
    obtain w where w: "waits_for i u w"
      "v = emit (nat (link_of i u)) OutCt (emit (nat (link_of i u)) (OutRecv (rds (uip_buf w) (uip_appdata u) (unat (uip_len u)))) w)"
      using waiting.R_recv [OF u(2)] .
    obtain w' where w': "silent u w'"
      "v = emit (nat (link_of i u)) OutCt (emit (nat (link_of i u)) (OutRecv (rds (uip_buf w') (uip_appdata u) (unat (uip_len u)))) w')"
      using silent.R_recv [OF u(2)] .
    have "xlog v = xlog w @ [(nat (link_of i u), OutRecv (rds (uip_buf w) (uip_appdata u) (unat (uip_len u)))), (nat (link_of i u), OutCt)]"
      unfolding w(2) by (simp add: emit_def)
    moreover have "xlog v = xlog w' @ [(nat (link_of i u), OutRecv (rds (uip_buf w') (uip_appdata u) (unat (uip_len u)))), (nat (link_of i u), OutCt)]"
      unfolding w'(2) by (simp add: emit_def)
    ultimately have "xlog w = xlog w'" by simp
    with w'(1) have "silent u w" by (simp add: silent_def)
    with w that show ?thesis by blast
  qed
  have "live i u" using su by (simp add: sender_kept_def)
  with w have uw: "sender_kept i u w" by (rule sender_wait)
  then have "live i w" by (simp add: sender_kept_def)
  then have "sender_kept i w v"
    by (simp add: v emit_def sender_kept_def packet_kept_def silent_def gifts_append gifts_def gift_def conn_kept_def link_of_def live_def)
  note sv = sender_trans [OF sender_trans [OF su uw] this]
  have cv: "uip_conn v = Some i" "live i v" using calling_kept [OF sv c] by (simp_all add: calling_def)
  have "sender_kept i v s'" unfolding s' using cv sender_refl [OF cv(2)] stop_kept [OF cv(2)] by simp
  with sv u(3) show ?thesis using sender_trans by blast
qed

text \<open>The callback for a segment that acknowledges data, or not.\<close>

lemma data_callback:
  assumes run: "xtcpd_appcall_conn (TcpRef i) u = Some v" and c: "calling i l u"
    and no: "\<not> app_flag UIP_CONNECTED u" "\<not> app_flag UIP_ABORT u" "\<not> app_flag UIP_TIMEDOUT u" "\<not> app_flag UIP_REXMIT u"
      "\<not> app_flag UIP_POLL u" "\<not> app_flag UIP_CLOSE u"
  shows "uip_flags v = uip_flags u \<and>
    (if app_flag UIP_ACKDATA u then \<exists>bs. answered i l XTCP_SENT_DATA bs u v else sender_kept i u v)"
proof -
  from run no(1) obtain w dn where w: "app_input (TcpRef i) u = Some (w, dn)"
    and rest: "if dn then w = v else \<exists>x y z. app_acked (TcpRef i) w = Some x \<and> app_rexmit (TcpRef i) x = Some y \<and>
      app_poll (TcpRef i) y = Some z \<and> app_closed (TcpRef i) z = Some v"
    by (auto simp: xtcpd_appcall_conn_def app_connected_def bind_eq_Some_conv split: if_splits)
  have kept: "sender_kept i u w" "\<not> dn" using input_kept [OF w c no(2,3)] by auto
  then have fl: "uip_flags w = uip_flags u" by (simp add: sender_kept_def packet_kept_def)
  from rest kept(2) obtain x y z where x: "app_acked (TcpRef i) w = Some x" "app_rexmit (TcpRef i) x = Some y"
    "app_poll (TcpRef i) y = Some z" "app_closed (TcpRef i) z = Some v" by auto
  have flx: "uip_flags x = uip_flags w \<Longrightarrow> v = x"
    using x(2-4) no(4-6) fl by (auto simp: app_rexmit_def app_poll_def app_closed_def app_flag_def)
  show ?thesis
  proof (cases "app_flag UIP_ACKDATA u")
    case True
    with x(1) fl have "ask_data XTCP_SENT_DATA (TcpRef i) w = Some x" by (simp add: app_acked_def app_flag_def)
    from ask_answered [OF this calling_kept [OF kept(1) c]] obtain bs where "answered i l XTCP_SENT_DATA bs w x" "uip_flags x = uip_flags w" by blast
    with kept_answered [OF kept(1)] flx fl True show ?thesis by simp blast
  next
    case False
    with x(1) fl have "x = w" by (simp add: app_acked_def app_flag_def)
    with flx False fl kept(1) show ?thesis by auto
  qed
qed

lemma rexmit_callback:
  assumes run: "xtcpd_appcall_conn (TcpRef i) u = Some v" and c: "calling i l u" and fl: "uip_flags u = UIP_REXMIT"
  shows "\<exists>bs. answered i l XTCP_RESEND_DATA bs u v \<and> uip_flags v = UIP_REXMIT"
proof -
  have no: "\<not> app_flag UIP_CONNECTED u" "\<not> app_flag UIP_NEWDATA u" "\<not> app_flag UIP_ABORT u" "\<not> app_flag UIP_TIMEDOUT u"
    "\<not> app_flag UIP_ACKDATA u" "app_flag UIP_REXMIT u" "xd_linknum (xstate (TcpRef i) u) = int l"
    using fl c by (simp_all add: app_flag_def calling_def link_xstate)
  with run obtain w x n y z where w: "xtcpd_service_clients_until_ready (int l) u = Some w"
    and x: "xtcpd_send (nat (link_of i w)) XTCP_RESEND_DATA (TcpRef i) (uip_appdata w) (send_limit w) w = Some (x, n)"
    and y: "y = (if n \<noteq> 0 then uip_send (uip_appdata x) n x else x)" "app_poll (TcpRef i) y = Some z" "app_closed (TcpRef i) z = Some v"
    by (auto simp: xtcpd_appcall_conn_def app_connected_def app_input_def app_acked_def app_rexmit_def bind_eq_Some_conv link_xstate)
  have kept: "sender_kept i u w" using sender_until [OF w] c by (simp add: calling_def)
  note cw = calling_kept [OF kept c]
  from x cw have "xtcpd_send l XTCP_RESEND_DATA (TcpRef i) 54 (ucast (tc_mss (tconn w i))) w = Some (x, n)"
    by (simp add: calling_def send_limit_def)
  from exchange_answered [OF this cw] obtain bs where bs: "n = int (length bs)" "answered i l XTCP_RESEND_DATA bs w (uip_send 54 n x)"
    "uip_flags x = uip_flags w" "uip_appdata x = 54" by blast
  have y': "y = uip_send 54 n x" using bs(1,4) y(1) by (auto simp: uip_send_def)
  then have "uip_flags y = UIP_REXMIT" using bs(3) kept fl by (simp add: uip_send_def Let_def sender_kept_def packet_kept_def)
  with y(2,3) have "v = y" by (simp add: app_poll_def app_closed_def app_flag_def)
  with kept_answered [OF kept bs(2)] y' \<open>uip_flags y = UIP_REXMIT\<close> show ?thesis by auto
qed

section \<open>The callback of a poll\<close>

lemma xs_kept: "live i s \<Longrightarrow> sender_kept i s (upd_xs (TcpRef i) f s)"
  by (simp add: sender_kept_def packet_kept_def silent_def upd_xstate_def upd_conn_def live_def conn_kept_def conn_state_def link_of_def)

text \<open>The outcomes: nothing, an answer, or the request to abort or to close.\<close>

definition polled :: "nat \<Rightarrow> nat \<Rightarrow> 'a xtcp_st_scheme \<Rightarrow> 'a xtcp_st_scheme \<Rightarrow> bool" where
  "polled i l s s' \<longleftrightarrow> sender_kept i s s' \<or> (\<exists>bs. answered i l XTCP_REQUEST_DATA bs s s' \<and> uip_flags s' = uip_flags s)
     \<or> silent s s' \<and> live i s' \<and> uip_flags s' \<in> {UIP_ABORT, UIP_CLOSE}"

lemma answered_xs: "answered i l ev bs s s' \<Longrightarrow> answered i l ev bs s (upd_xs (TcpRef i) f s')"
  by (cases "i < length (uip_conns s')")
    (simp_all add: answered_def exchanged_def upd_xstate_def upd_conn_def conn_kept_def conn_state_def list_update_beyond)

lemma handle_poll_outcome:
  assumes run: "uip_xtcpd_handle_poll (TcpRef i) s = Some s'" and c: "calling i l s" and fl: "uip_flags s = UIP_POLL"
  shows "\<exists>f \<in> {UIP_POLL, UIP_POLL OR UIP_NEWDATA}. polled i l (s\<lparr>uip_flags := f\<rparr>) s'"
proof -
  let ?x0 = "xd_s (xstate (TcpRef i) s)"
  define f where "f = (if xs_ack_request ?x0 then UIP_POLL OR UIP_NEWDATA else UIP_POLL)"
  define u where "u = (if xs_ack_request ?x0
    then upd_xs (TcpRef i) (\<lambda>x. x\<lparr>xs_ack_request := False\<rparr>) (s\<lparr>uip_flags := uip_flags s OR UIP_NEWDATA, uip_slen := 0\<rparr>) else s)"
  let ?s = "s\<lparr>uip_flags := f\<rparr>"
  have live: "live i s" and slen: "uip_slen s = 0" using c by (simp_all add: calling_def)
  have cs: "calling i l ?s" using c by (simp add: calling_def live_def link_of_def)
  have lives: "live i ?s" using live by (simp add: live_def)
  have su: "sender_kept i ?s u"
  proof (cases "xs_ack_request ?x0")
    case True
    have "s\<lparr>uip_flags := uip_flags s OR UIP_NEWDATA, uip_slen := 0\<rparr> = ?s" using True fl slen by (simp add: f_def)
    with True xs_kept [OF lives] show ?thesis by (simp add: u_def)
  next
    case False
    with fl have "?s = s" by (simp add: f_def)
    with False sender_refl [OF live] show ?thesis by (simp add: u_def)
  qed
  have cu: "calling i l u" by (rule calling_kept [OF su cs])
  then have tcp: "\<not> uip_udpconnection u" and lu: "live i u" by (simp_all add: calling_def)
  have fu: "uip_flags u = f" using su by (simp add: sender_kept_def packet_kept_def)
  let ?x = "xd_s (xstate (TcpRef i) u)"
  have ends: "polled i l ?s (upd_xs (TcpRef i) g (u\<lparr>uip_flags := k\<rparr>))" if "k \<in> {UIP_ABORT, UIP_CLOSE}" for g k
  proof -
    have "live i (u\<lparr>uip_flags := k\<rparr>)" using lu by (simp add: live_def)
    from xs_kept [OF this, of g] su that show ?thesis by (auto simp: polled_def sender_kept_def packet_kept_def silent_def)
  qed
  have "polled i l ?s s'"
  proof (cases "xs_abort_request ?x \<or> xs_close_request ?x \<or> xs_connect_request ?x")
    case True
    with run tcp show ?thesis using ends su
      unfolding uip_xtcpd_handle_poll_def u_def [symmetric] Let_def by (auto simp: polled_def split: if_splits)
  next
    case no: False
    show ?thesis
    proof (cases "xs_send_request ?x = 0")
      case False
      with run no obtain v where v: "ask_data XTCP_REQUEST_DATA (TcpRef i) u = Some v"
        "s' = upd_xs (TcpRef i) (\<lambda>x. x\<lparr>xs_send_request := xs_send_request x - 1\<rparr>) v"
        unfolding uip_xtcpd_handle_poll_def u_def [symmetric] Let_def by auto
      from ask_answered [OF v(1) cu] obtain bs where bs: "answered i l XTCP_REQUEST_DATA bs u v" "uip_flags v = uip_flags u" by blast
      from answered_xs [OF kept_answered [OF su bs(1)]] bs(2) fu show ?thesis
        by (auto simp: polled_def v(2) upd_xstate_def upd_conn_def)
    next
      case True
      have "sender_kept i u s'"
      proof (cases "xs_poll_interval ?x \<noteq> 0 \<and> timer_expired (clock u) (xs_tmr ?x)")
        case p: True
        with run no True obtain v where v: "xtcpd_event XTCP_POLL (TcpRef i) u = Some v"
          "s' = upd_xs (TcpRef i) (\<lambda>x. x\<lparr>xs_tmr := timer_set (clock v) (of_int (xs_poll_interval x))\<rparr>) v"
          unfolding uip_xtcpd_handle_poll_def u_def [symmetric] Let_def by (auto simp: bind_eq_Some_conv)
        have uv: "sender_kept i u v" by (rule sender_event [OF v(1) lu])
        then have "live i v" by (simp add: sender_kept_def)
        from sender_trans [OF uv xs_kept [OF this]] show ?thesis unfolding v(2) .
      next
        case False
        with run no True have "s' = u" by (auto simp: uip_xtcpd_handle_poll_def u_def [symmetric] Let_def)
        with sender_refl [OF lu] show ?thesis by simp
      qed
      with sender_trans [OF su] show ?thesis by (simp add: polled_def)
    qed
  qed
  then show ?thesis by (auto simp: f_def split: if_splits)
qed

lemma poll_callback:
  assumes run: "xtcpd_appcall_conn (TcpRef i) u = Some v" and c: "calling i l u" and fl: "uip_flags u = UIP_POLL"
  shows "\<exists>f \<in> {UIP_POLL, UIP_POLL OR UIP_NEWDATA}. polled i l (u\<lparr>uip_flags := f\<rparr>) v"
proof -
  from run fl obtain y where y: "uip_xtcpd_handle_poll (TcpRef i) u = Some y" "app_closed (TcpRef i) y = Some v"
    by (auto simp: xtcpd_appcall_conn_def app_connected_def app_input_def app_acked_def app_rexmit_def app_poll_def app_flag_def bind_eq_Some_conv)
  from handle_poll_outcome [OF y(1) c fl] obtain f where f: "f \<in> {UIP_POLL, UIP_POLL OR UIP_NEWDATA}" "polled i l (u\<lparr>uip_flags := f\<rparr>) y" by blast
  have nc: "uip_flags y = f \<Longrightarrow> v = y" using y(2) f(1) by (auto simp: app_closed_def app_flag_def)
  show ?thesis
  proof (cases "uip_flags y = f")
    case True
    with nc f show ?thesis by blast
  next
    case False
    with f(2) have fin: "silent u y" "live i y" "uip_flags y \<in> {UIP_ABORT, UIP_CLOSE}"
      by (auto simp: polled_def sender_kept_def packet_kept_def silent_def)
    have "sender_kept i y v"
    proof (cases "app_flag UIP_CLOSE y \<and> \<not> xs_closed (xd_s (xstate (TcpRef i) y))")
      case True
      with y(2) have e: "xtcpd_event XTCP_CLOSED (TcpRef i) (upd_xs (TcpRef i) (\<lambda>x. x\<lparr>xs_closed := True\<rparr>) y) = Some v"
        by (simp add: app_closed_def)
      have k: "sender_kept i y (upd_xs (TcpRef i) (\<lambda>x. x\<lparr>xs_closed := True\<rparr>) y)" by (rule xs_kept [OF fin(2)])
      then have "live i (upd_xs (TcpRef i) (\<lambda>x. x\<lparr>xs_closed := True\<rparr>) y)" by (simp add: sender_kept_def)
      from sender_trans [OF k sender_event [OF e this]] show ?thesis .
    next
      case False
      with y(2) have "v = y" by (auto simp: app_closed_def)
      with sender_refl [OF fin(2)] show ?thesis by simp
    qed
    with fin have "polled i l (u\<lparr>uip_flags := f\<rparr>) v" by (auto simp: polled_def sender_kept_def packet_kept_def silent_def)
    with f(1) show ?thesis by blast
  qed
qed

end
