(* ===== verification/Xtcp_Client.thy ===== *)
theory Xtcp_Client
  imports Xtcp
begin

text \<open>
  The client side of the xtcp channel, \<^verbatim>\<open>xtcp_client.xc\<close>: every function of the API as the
  tokens it puts on the channel and the messages it takes from it, with the same datatypes as the
  server's model in \<open>Xtcp\<close>. What the server sends during a call is an argument of the call.
\<close>

record client_st =
  ctoks :: "client_tok list"
  cgot :: "xmsg list"
  cmem :: mem

definition put_tok :: "client_tok \<Rightarrow> 'a client_st_scheme \<Rightarrow> 'a client_st_scheme" where
  "put_tok t s = s\<lparr>ctoks := ctoks s @ [t]\<rparr>"

definition take_msgs :: "xmsg list \<Rightarrow> 'a client_st_scheme \<Rightarrow> 'a client_st_scheme" where
  "take_msgs ms s = s\<lparr>cgot := cgot s @ ms\<rparr>"

section \<open>Commands\<close>

text \<open>
  The two acknowledgements of \<^verbatim>\<open>send_cmd\<close> and the arguments that follow the command are part of
  the token, as on the server's side.
\<close>

definition send_cmd :: "xtcp_cmd \<Rightarrow> int \<Rightarrow> 'a client_st_scheme \<Rightarrow> 'a client_st_scheme" where
  "send_cmd cmd conn_id s = put_tok (TokCmd cmd conn_id) s"

definition xtcp_listen :: "int \<Rightarrow> xtcp_protocol \<Rightarrow> 'a client_st_scheme \<Rightarrow> 'a client_st_scheme" where
  "xtcp_listen port_number p = send_cmd (CMD_LISTEN port_number p) 0"

definition xtcp_unlisten :: "int \<Rightarrow> 'a client_st_scheme \<Rightarrow> 'a client_st_scheme" where
  "xtcp_unlisten port_number = send_cmd (CMD_UNLISTEN port_number) 0"

definition xtcp_connect :: "int \<Rightarrow> word4 \<Rightarrow> xtcp_protocol \<Rightarrow> 'a client_st_scheme \<Rightarrow> 'a client_st_scheme" where
  "xtcp_connect port_number ipaddr p = send_cmd (CMD_CONNECT port_number ipaddr p) 0"

definition xtcp_bind_local :: "xtcp_connection \<Rightarrow> int \<Rightarrow> 'a client_st_scheme \<Rightarrow> 'a client_st_scheme" where
  "xtcp_bind_local conn port_number = send_cmd (CMD_BIND_LOCAL port_number) (xc_id conn)"

definition xtcp_bind_remote :: "xtcp_connection \<Rightarrow> word4 \<Rightarrow> int \<Rightarrow> 'a client_st_scheme \<Rightarrow> 'a client_st_scheme" where
  "xtcp_bind_remote conn addr port_number = send_cmd (CMD_BIND_REMOTE addr port_number) (xc_id conn)"

definition xtcp_init_send :: "xtcp_connection \<Rightarrow> 'a client_st_scheme \<Rightarrow> 'a client_st_scheme" where
  "xtcp_init_send conn = send_cmd CMD_INIT_SEND (xc_id conn)"

definition xtcp_set_connection_appstate :: "xtcp_connection \<Rightarrow> u32 \<Rightarrow> 'a client_st_scheme \<Rightarrow> 'a client_st_scheme" where
  "xtcp_set_connection_appstate conn appstate = send_cmd (CMD_SET_APPSTATE appstate) (xc_id conn)"

definition xtcp_close :: "xtcp_connection \<Rightarrow> 'a client_st_scheme \<Rightarrow> 'a client_st_scheme" where
  "xtcp_close conn = send_cmd CMD_CLOSE (xc_id conn)"

definition xtcp_ack_recv :: "xtcp_connection \<Rightarrow> 'a client_st_scheme \<Rightarrow> 'a client_st_scheme" where
  "xtcp_ack_recv conn = send_cmd CMD_ACK_RECV (xc_id conn)"

definition xtcp_ack_recv_mode :: "xtcp_connection \<Rightarrow> 'a client_st_scheme \<Rightarrow> 'a client_st_scheme" where
  "xtcp_ack_recv_mode conn = send_cmd CMD_ACK_RECV_MODE (xc_id conn)"

definition xtcp_abort :: "xtcp_connection \<Rightarrow> 'a client_st_scheme \<Rightarrow> 'a client_st_scheme" where
  "xtcp_abort conn = send_cmd CMD_ABORT (xc_id conn)"

definition xtcp_pause :: "xtcp_connection \<Rightarrow> 'a client_st_scheme \<Rightarrow> 'a client_st_scheme" where
  "xtcp_pause conn = send_cmd CMD_PAUSE (xc_id conn)"

definition xtcp_unpause :: "xtcp_connection \<Rightarrow> 'a client_st_scheme \<Rightarrow> 'a client_st_scheme" where
  "xtcp_unpause conn = send_cmd CMD_UNPAUSE (xc_id conn)"

definition xtcp_set_poll_interval :: "xtcp_connection \<Rightarrow> int \<Rightarrow> 'a client_st_scheme \<Rightarrow> 'a client_st_scheme" where
  "xtcp_set_poll_interval conn poll_interval = send_cmd (CMD_SET_POLL_INTERVAL poll_interval) (xc_id conn)"

definition xtcp_join_multicast_group :: "word4 \<Rightarrow> 'a client_st_scheme \<Rightarrow> 'a client_st_scheme" where
  "xtcp_join_multicast_group addr = send_cmd (CMD_JOIN_GROUP addr) 0"

definition xtcp_leave_multicast_group :: "word4 \<Rightarrow> 'a client_st_scheme \<Rightarrow> 'a client_st_scheme" where
  "xtcp_leave_multicast_group addr = send_cmd (CMD_LEAVE_GROUP addr) 0"

text \<open>Queries: the reply of the server is the argument.\<close>

definition xtcp_get_mac_address :: "u8 list \<Rightarrow> nat \<Rightarrow> 'a client_st_scheme \<Rightarrow> 'a client_st_scheme" where
  "xtcp_get_mac_address reply mac_addr s =
     take_msgs [OutMac reply] (send_cmd CMD_GET_MAC_ADDRESS 0 s)\<lparr>cmem := wrs mac_addr reply (cmem s)\<rparr>"

definition xtcp_get_ipconfig :: "u8 list \<Rightarrow> nat \<Rightarrow> 'a client_st_scheme \<Rightarrow> 'a client_st_scheme" where
  "xtcp_get_ipconfig reply ipconfig s =
     take_msgs [OutIpconfig reply] (send_cmd CMD_GET_IPCONFIG 0 s)\<lparr>cmem := wrs ipconfig reply (cmem s)\<rparr>"

section \<open>Data\<close>

text \<open>
  \<open>bs\<close> are the bytes the server has for the client. \<^verbatim>\<open>xtcp_recv_count\<close> stores no more than it was
  asked for and returns the number of bytes the server sent.
\<close>

definition xtcp_recvi :: "u8 list \<Rightarrow> nat \<Rightarrow> nat \<Rightarrow> 'a client_st_scheme \<Rightarrow> int \<times> 'a client_st_scheme" where
  "xtcp_recvi bs data index s =
     (int (length bs), take_msgs [OutRecv bs, OutCt] (put_tok (TokReady True) s)\<lparr>cmem := wrs (data + index) bs (cmem s)\<rparr>)"

definition xtcp_recv :: "u8 list \<Rightarrow> nat \<Rightarrow> 'a client_st_scheme \<Rightarrow> int \<times> 'a client_st_scheme" where
  "xtcp_recv bs data s = xtcp_recvi bs data 0 s"

definition xtcp_recv_count :: "u8 list \<Rightarrow> nat \<Rightarrow> int \<Rightarrow> 'a client_st_scheme \<Rightarrow> int \<times> 'a client_st_scheme" where
  "xtcp_recv_count bs data count s =
     (let rxc = (if count < int (length bs) then count else int (length bs))
      in (int (length bs), take_msgs [OutRecv bs, OutCt] (put_tok (TokReady True) s)\<lparr>cmem := wrs data (take (nat rxc) bs) (cmem s)\<rparr>))"

definition xtcp_ignore_recv :: "u8 list \<Rightarrow> 'a client_st_scheme \<Rightarrow> 'a client_st_scheme" where
  "xtcp_ignore_recv bs s = take_msgs [OutRecv bs] (put_tok (TokReady True) s)"

definition xtcp_sendi :: "nat \<Rightarrow> nat \<Rightarrow> int \<Rightarrow> 'a client_st_scheme \<Rightarrow> 'a client_st_scheme" where
  "xtcp_sendi data index len s = put_tok (TokData (rds (cmem s) (data + index) (nat len))) s"

definition xtcp_send :: "nat \<Rightarrow> int \<Rightarrow> 'a client_st_scheme \<Rightarrow> 'a client_st_scheme" where
  "xtcp_send data len = xtcp_sendi data 0 len"

definition xtcp_complete_send :: "'a client_st_scheme \<Rightarrow> 'a client_st_scheme" where
  "xtcp_complete_send = xtcp_send 0 0"

definition xtcp_uint_to_ipaddr :: "u32 \<Rightarrow> word4" where
  "xtcp_uint_to_ipaddr i = (ucast (i AND 0xff), ucast (drop_bit 8 i AND 0xff),
     ucast (drop_bit 16 i AND 0xff), ucast (drop_bit 24 i AND 0xff))"

section \<open>What the calls leave alone\<close>

named_theorems client_simps \<open>effects of the client's calls on its memory and its channel\<close>

lemma put_tok_sel [client_simps]:
    "ctoks (put_tok t s) = ctoks s @ [t]" "cgot (put_tok t s) = cgot s" "cmem (put_tok t s) = cmem s"
    "client_st.more (put_tok t s) = client_st.more s"
  by (simp_all add: put_tok_def)

lemma take_msgs_sel [client_simps]:
    "cgot (take_msgs ms s) = cgot s @ ms" "ctoks (take_msgs ms s) = ctoks s" "cmem (take_msgs ms s) = cmem s"
    "client_st.more (take_msgs ms s) = client_st.more s"
  by (simp_all add: take_msgs_def)

lemmas cmd_defs = send_cmd_def xtcp_listen_def xtcp_unlisten_def xtcp_connect_def xtcp_bind_local_def xtcp_bind_remote_def
  xtcp_init_send_def xtcp_set_connection_appstate_def xtcp_close_def xtcp_ack_recv_def xtcp_ack_recv_mode_def xtcp_abort_def
  xtcp_pause_def xtcp_unpause_def xtcp_set_poll_interval_def xtcp_join_multicast_group_def xtcp_leave_multicast_group_def

lemma xtcp_recv_eq [client_simps]:
  "xtcp_recv bs p s = (int (length bs), take_msgs [OutRecv bs, OutCt] (put_tok (TokReady True) s)\<lparr>cmem := wrs p bs (cmem s)\<rparr>)"
  by (simp add: xtcp_recv_def xtcp_recvi_def)

lemma xtcp_send_eq [client_simps]:
  "xtcp_send p n s = put_tok (TokData (rds (cmem s) p (nat n))) s"
  by (simp add: xtcp_send_def xtcp_sendi_def)

text \<open>
  The server ends every transfer of received data with a control token. \<^verbatim>\<open>xtcp_recvi\<close> and
  \<^verbatim>\<open>xtcp_recv_count\<close> take it, \<^verbatim>\<open>xtcp_ignore_recv\<close> does not.
\<close>

lemma recv_takes_transfer:
  assumes "xtcpd_recv i r data len s = Some s'"
  shows "\<exists>bs log. length bs = len \<and> xlog s' = log @ map (Pair i) [OutRecv bs, OutCt] \<and>
    cgot (snd (xtcp_recv bs p c)) = cgot c @ [OutRecv bs, OutCt] \<and>
    cgot (snd (xtcp_recv_count bs p n c)) = cgot c @ [OutRecv bs, OutCt] \<and>
    cgot (xtcp_ignore_recv bs c) = cgot c @ [OutRecv bs]"
proof -
  have "\<exists>u. s' = emit i OutCt (emit i (OutRecv (rds (uip_buf u) data len)) u)"
    if "map_option (emit i OutCt) (recv_loop i r data len s) = Some s'" for s'
  proof -
    from that obtain t where t: "recv_loop i r data len s = Some t" "s' = emit i OutCt t" by auto
    from t(1) have "\<exists>u. t = emit i (OutRecv (rds (uip_buf u) data len)) u"
    proof (induction rule: recv_loop.raw_induct [rotated, consumes 1])
      case (1 f i r data len s t)
      from 1(2) obtain s1 tok where tok: "poll_link (xtcpd_send_event i XTCP_RECV_DATA r s) = Some (s1, tok)"
        by (auto simp: bind_eq_Some_conv)
      with 1(2) obtain ready where "tok = Some (TokReady ready)"
        by (cases tok) (auto split: client_tok.splits)
      with 1(2) tok show ?case by (cases ready) (auto simp: bind_eq_Some_conv Let_def dest: 1(1))
    qed
    with t(2) show ?thesis by blast
  qed
  with assms obtain u where "s' = emit i OutCt (emit i (OutRecv (rds (uip_buf u) data len)) u)"
    unfolding xtcpd_recv_def by blast
  then show ?thesis
    by (intro exI [of _ "rds (uip_buf u) data len"] exI [of _ "xlog u"])
      (simp add: emit_def client_simps xtcp_recv_count_def xtcp_ignore_recv_def Let_def)
qed

end
