(* ===== verification/Buffered_Client.thy ===== *)
theory Buffered_Client
  imports Xtcp_Client
begin

text \<open>
  The buffered client API, \<^verbatim>\<open>xtcp_buffered_client.c\<close>: a receive buffer from which the application
  takes records of a given length or up to a delimiter, and a transmit buffer that keeps the last chunk
  handed to the server until it is acknowledged. Both are shown to be streams: what is taken out is what
  came in, in order, whatever the interleaving of the operations and the moves of data inside the buffers.
\<close>

section \<open>The buffers\<close>

text \<open>\<^verbatim>\<open>xtcp_bufinfo_t\<close>: its \<^verbatim>\<open>char *\<close> fields are addresses in the memory of the client.\<close>

record buffered_st = client_st +
  rx_new_event :: bool
  rx_buf :: nat
  rx_end :: nat
  rx_wrptr :: nat
  rx_rdptr :: nat
  tx_buf :: nat
  tx_end :: nat
  tx_wrptr :: nat
  tx_rdptr :: nat
  tx_prev_rdptr :: nat
  tx_lowmark :: int

abbreviation (input) "XTCP_CLIENT_BUF_SIZE \<equiv> 1472 :: int"

definition xtcp_buffered_set_rx_buffer :: "nat \<Rightarrow> int \<Rightarrow> 'a buffered_st_scheme \<Rightarrow> 'a buffered_st_scheme" where
  "xtcp_buffered_set_rx_buffer ptr buflen s =
     s\<lparr>rx_new_event := True, rx_buf := ptr, rx_end := nat (int ptr + buflen), rx_wrptr := ptr, rx_rdptr := ptr\<rparr>"

definition xtcp_buffered_set_tx_buffer :: "nat \<Rightarrow> int \<Rightarrow> int \<Rightarrow> 'a buffered_st_scheme \<Rightarrow> 'a buffered_st_scheme" where
  "xtcp_buffered_set_tx_buffer ptr buflen lowmark s =
     s\<lparr>tx_buf := ptr, tx_end := nat (int ptr + buflen), tx_rdptr := ptr, tx_prev_rdptr := ptr, tx_wrptr := ptr,
       tx_lowmark := lowmark\<rparr>"

section \<open>Receiving\<close>

text \<open>
  The first call after an event takes the data of the event, \<open>bs\<close>; the calls that follow it find the
  data in the buffer.
\<close>

definition take_event :: "u8 list \<Rightarrow> 'a buffered_st_scheme \<Rightarrow> 'a buffered_st_scheme" where
  "take_event bs s =
     (if rx_new_event s
      then (case xtcp_recv bs (rx_wrptr s) s of (len, s) \<Rightarrow>
              s\<lparr>rx_wrptr := nat (int (rx_wrptr s) + len), rx_new_event := False\<rparr>)
      else s)"

definition memmove :: "nat \<Rightarrow> nat \<Rightarrow> int \<Rightarrow> mem \<Rightarrow> mem" where
  "memmove dst src n m = wrs dst (rds m src (nat n)) m"

text \<open>
  The end of an event, when the buffer holds no complete record: the remaining bytes move to the front,
  or are handed out as they are when the next event might not fit behind them. The result is the length
  returned, the value of \<^verbatim>\<open>*buf\<close> if it is set, and whether \<^verbatim>\<open>*overflow\<close> is set.
\<close>

definition end_of_event :: "'a buffered_st_scheme \<Rightarrow> int \<times> nat option \<times> bool \<times> 'a buffered_st_scheme" where
  "end_of_event s =
     (let remaining = int (rx_wrptr s) - int (rx_rdptr s);
          s = s\<lparr>cmem := memmove (rx_buf s) (rx_rdptr s) remaining (cmem s)\<rparr>;
          s = s\<lparr>rx_rdptr := rx_buf s, rx_wrptr := nat (int (rx_buf s) + remaining)\<rparr>;
          space_left = int (rx_end s) - int (rx_wrptr s)
      in if space_left < XTCP_CLIENT_BUF_SIZE
         then (remaining, Some (rx_buf s), True, s\<lparr>rx_wrptr := rx_buf s, rx_rdptr := rx_buf s\<rparr>)
         else (0, None, False, s\<lparr>rx_new_event := True\<rparr>))"

definition take_record :: "int \<Rightarrow> 'a buffered_st_scheme \<Rightarrow> int \<times> nat option \<times> bool \<times> 'a buffered_st_scheme" where
  "take_record len s = (len, Some (rx_rdptr s), False, s\<lparr>rx_rdptr := nat (int (rx_rdptr s) + len)\<rparr>)"

text \<open>The search for the delimiter, from \<open>p\<close> on: the length of the record it ends.\<close>

fun find_delim :: "mem \<Rightarrow> u8 \<Rightarrow> nat \<Rightarrow> nat \<Rightarrow> nat \<Rightarrow> int option" where
  "find_delim m delim rdptr p 0 = None"
| "find_delim m delim rdptr p (Suc n) =
     (if m p = delim then Some (int p - int rdptr + 1) else find_delim m delim rdptr (p + 1) n)"

definition xtcp_buffered_recv_upto :: "u8 \<Rightarrow> u8 list \<Rightarrow> 'a buffered_st_scheme \<Rightarrow> int \<times> nat option \<times> bool \<times> 'a buffered_st_scheme" where
  "xtcp_buffered_recv_upto delim bs s =
     (let s = take_event bs s
      in case find_delim (cmem s) delim (rx_rdptr s) (rx_rdptr s) (rx_wrptr s - rx_rdptr s) of
           None \<Rightarrow> end_of_event s | Some len \<Rightarrow> take_record len s)"

definition xtcp_buffered_recv :: "int \<Rightarrow> u8 list \<Rightarrow> 'a buffered_st_scheme \<Rightarrow> int \<times> nat option \<times> bool \<times> 'a buffered_st_scheme" where
  "xtcp_buffered_recv len bs s =
     (let s = take_event bs s
      in if int (rx_wrptr s) - int (rx_rdptr s) < len then end_of_event s else take_record len s)"

section \<open>Sending\<close>

definition shift_tx :: "'a buffered_st_scheme \<Rightarrow> 'a buffered_st_scheme" where
  "shift_tx s =
     (let remaining = int (tx_wrptr s) - int (tx_prev_rdptr s);
          shift = int (tx_prev_rdptr s) - int (tx_buf s)
      in s\<lparr>cmem := memmove (tx_buf s) (tx_prev_rdptr s) remaining (cmem s),
           tx_prev_rdptr := nat (int (tx_prev_rdptr s) - shift),
           tx_rdptr := nat (int (tx_rdptr s) - shift),
           tx_wrptr := nat (int (tx_wrptr s) - shift)\<rparr>)"

definition xtcp_buffered_send :: "xtcp_connection \<Rightarrow> u8 list \<Rightarrow> 'a buffered_st_scheme \<Rightarrow> bool \<times> 'a buffered_st_scheme" where
  "xtcp_buffered_send conn bs s =
     (let len = int (length bs);
          s = (if int (tx_end s) - int (tx_wrptr s) < len then shift_tx s else s);
          space_left = int (tx_end s) - int (tx_wrptr s)
      in if space_left < len then (False, s)
         else
           let s = s\<lparr>cmem := wrs (tx_wrptr s) bs (cmem s)\<rparr>;
               s = (if tx_rdptr s = tx_wrptr s then xtcp_init_send conn s else s);
               s = s\<lparr>tx_wrptr := nat (int (tx_wrptr s) + len)\<rparr>;
               space_left = space_left - len + (int (tx_prev_rdptr s) - int (tx_buf s))
           in (True, if space_left < tx_lowmark s then xtcp_pause conn s else s))"

definition xtcp_buffered_send_buffer_remaining :: "'a buffered_st_scheme \<Rightarrow> int" where
  "xtcp_buffered_send_buffer_remaining s =
     (int (tx_end s) - int (tx_wrptr s)) + (int (tx_prev_rdptr s) - int (tx_buf s))"

text \<open>\<^verbatim>\<open>len > conn->mss\<close> compares as unsigned, because \<^verbatim>\<open>mss\<close> is unsigned.\<close>

definition chunk_len :: "u32 \<Rightarrow> int \<Rightarrow> int" where
  "chunk_len mss len = (if mss < word_of_int len then sint mss else len)"

definition xtcp_buffered_send_handler :: "xtcp_connection \<Rightarrow> 'a buffered_st_scheme \<Rightarrow> 'a buffered_st_scheme" where
  "xtcp_buffered_send_handler conn s =
     (if xc_event conn = XTCP_RESEND_DATA
      then xtcp_send (tx_prev_rdptr s) (int (tx_rdptr s) - int (tx_prev_rdptr s)) s
      else
        let space_left = (int (tx_end s) - int (tx_wrptr s)) + (int (tx_prev_rdptr s) - int (tx_buf s));
            len = chunk_len (xc_mss conn) (int (tx_wrptr s) - int (tx_rdptr s));
            s = xtcp_send (tx_rdptr s) len s;
            s = (if space_left < tx_lowmark s \<and> tx_lowmark s \<le> space_left + len then xtcp_unpause conn s else s)
        in s\<lparr>tx_prev_rdptr := tx_rdptr s, tx_rdptr := nat (int (tx_rdptr s) + len)\<rparr>)"

section \<open>The receive buffer as a queue\<close>

definition rx_queue :: "'a buffered_st_scheme \<Rightarrow> u8 list" where
  "rx_queue s = rds (cmem s) (rx_rdptr s) (rx_wrptr s - rx_rdptr s)"

definition rx_ok :: "'a buffered_st_scheme \<Rightarrow> bool" where
  "rx_ok s \<longleftrightarrow> rx_buf s \<le> rx_rdptr s \<and> rx_rdptr s \<le> rx_wrptr s \<and> rx_wrptr s \<le> rx_end s \<and>
     rx_buf s + 1472 \<le> rx_end s \<and> (rx_new_event s \<longrightarrow> rx_wrptr s + 1472 \<le> rx_end s)"

definition tx_ok :: "'a buffered_st_scheme \<Rightarrow> bool" where
  "tx_ok s \<longleftrightarrow> tx_buf s \<le> tx_prev_rdptr s \<and> tx_prev_rdptr s \<le> tx_rdptr s \<and> tx_rdptr s \<le> tx_wrptr s \<and>
     tx_wrptr s \<le> tx_end s \<and> tx_end s - tx_buf s < 2 ^ 31"

text \<open>The bytes that a call has handed out.\<close>

definition handed :: "int \<Rightarrow> nat option \<Rightarrow> 'a client_st_scheme \<Rightarrow> u8 list" where
  "handed n ptr s = (case ptr of None \<Rightarrow> [] | Some p \<Rightarrow> rds (cmem s) p (nat n))"

text \<open>A step that touches only one of the buffers leaves the other one, and all other memory, alone.\<close>

definition rx_frame :: "'a buffered_st_scheme \<Rightarrow> 'a buffered_st_scheme \<Rightarrow> bool" where
  "rx_frame s s' \<longleftrightarrow> rx_buf s' = rx_buf s \<and> rx_end s' = rx_end s \<and> tx_buf s' = tx_buf s \<and> tx_end s' = tx_end s \<and>
     tx_wrptr s' = tx_wrptr s \<and> tx_rdptr s' = tx_rdptr s \<and> tx_prev_rdptr s' = tx_prev_rdptr s \<and>
     tx_lowmark s' = tx_lowmark s \<and> (\<forall>a. a < rx_buf s \<or> rx_end s \<le> a \<longrightarrow> cmem s' a = cmem s a)"

definition tx_frame :: "'a buffered_st_scheme \<Rightarrow> 'a buffered_st_scheme \<Rightarrow> bool" where
  "tx_frame s s' \<longleftrightarrow> tx_buf s' = tx_buf s \<and> tx_end s' = tx_end s \<and> rx_buf s' = rx_buf s \<and> rx_end s' = rx_end s \<and>
     rx_wrptr s' = rx_wrptr s \<and> rx_rdptr s' = rx_rdptr s \<and> rx_new_event s' = rx_new_event s \<and>
     (\<forall>a. a < tx_buf s \<or> tx_end s \<le> a \<longrightarrow> cmem s' a = cmem s a)"

lemma buffered_sel [client_simps]:
    "rx_new_event (put_tok t s) = rx_new_event s" "rx_buf (put_tok t s) = rx_buf s" "rx_end (put_tok t s) = rx_end s"
    "rx_wrptr (put_tok t s) = rx_wrptr s" "rx_rdptr (put_tok t s) = rx_rdptr s" "tx_buf (put_tok t s) = tx_buf s"
    "tx_end (put_tok t s) = tx_end s" "tx_wrptr (put_tok t s) = tx_wrptr s" "tx_rdptr (put_tok t s) = tx_rdptr s"
    "tx_prev_rdptr (put_tok t s) = tx_prev_rdptr s" "tx_lowmark (put_tok t s) = tx_lowmark s"
    "rx_new_event (take_msgs ms s) = rx_new_event s" "rx_buf (take_msgs ms s) = rx_buf s" "rx_end (take_msgs ms s) = rx_end s"
    "rx_wrptr (take_msgs ms s) = rx_wrptr s" "rx_rdptr (take_msgs ms s) = rx_rdptr s" "tx_buf (take_msgs ms s) = tx_buf s"
    "tx_end (take_msgs ms s) = tx_end s" "tx_wrptr (take_msgs ms s) = tx_wrptr s" "tx_rdptr (take_msgs ms s) = tx_rdptr s"
    "tx_prev_rdptr (take_msgs ms s) = tx_prev_rdptr s" "tx_lowmark (take_msgs ms s) = tx_lowmark s"
  by (simp_all add: put_tok_def take_msgs_def)

lemma rds_wrs_snoc: "r \<le> w \<Longrightarrow> rds (wrs w bs m) r (w - r + length bs) = rds m r (w - r) @ bs"
  by (rule nth_equalityI) (auto simp: wrs_apply nth_append add.commute)

lemma rds_wrs_apart: "p + n \<le> w \<or> w + length bs \<le> p \<Longrightarrow> rds (wrs w bs m) p n = rds m p n"
  by (rule nth_equalityI) (auto simp: wrs_apply)

lemma rds_wrs_self [simp]: "length bs = n \<Longrightarrow> rds (wrs p bs m) p n = bs"
  by (auto simp: byte_simps)

lemma rds_0 [simp]: "rds m p 0 = []"
  by (simp add: rds_def)

lemma rds_take: "k \<le> n \<Longrightarrow> rds m p k = take k (rds m p n)"
  by (rule nth_equalityI) auto

lemma rds_drop: "k \<le> n \<Longrightarrow> rds m (p + k) (n - k) = drop k (rds m p n)"
  by (rule nth_equalityI) (auto simp: add.assoc)

lemma take_event_spec:
  assumes "rx_ok s" and "length bs \<le> 1472"
  shows "rx_ok (take_event bs s) \<and> \<not> rx_new_event (take_event bs s) \<and> rx_frame s (take_event bs s) \<and>
    rx_queue (take_event bs s) = rx_queue s @ (if rx_new_event s then bs else [])"
proof (cases "rx_new_event s")
  case True
  have "rx_queue (take_event bs s) = rx_queue s @ bs"
    using assms True by (simp add: take_event_def rx_queue_def client_simps rx_ok_def
        rds_wrs_snoc [symmetric] nat_int_add del: append_eq_conv_conj)
  with assms True show ?thesis
    by (auto simp: take_event_def client_simps rx_ok_def rx_frame_def wrs_apply)
next
  case False
  with assms show ?thesis by (simp add: take_event_def rx_frame_def)
qed

lemma handed_0 [simp]: "handed 0 ptr s = []"
  by (simp add: handed_def split: option.split)

lemma end_of_event_eq:
  assumes ok: "rx_ok s"
  shows "end_of_event s =
    (let n = length (rx_queue s); s' = s\<lparr>cmem := wrs (rx_buf s) (rx_queue s) (cmem s)\<rparr>
     in if rx_end s - rx_buf s < n + 1472
        then (int n, Some (rx_buf s), True, s'\<lparr>rx_wrptr := rx_buf s, rx_rdptr := rx_buf s\<rparr>)
        else (0, None, False, s'\<lparr>rx_rdptr := rx_buf s, rx_wrptr := rx_buf s + n, rx_new_event := True\<rparr>))"
proof -
  have n: "int (rx_wrptr s) - int (rx_rdptr s) = int (length (rx_queue s))"
    using ok by (auto simp: rx_ok_def rx_queue_def)
  have mv: "memmove (rx_buf s) (rx_rdptr s) (int (length (rx_queue s))) (cmem s) = wrs (rx_buf s) (rx_queue s) (cmem s)"
    by (simp add: memmove_def rx_queue_def)
  have ptr: "nat (int (rx_buf s) + int k) = rx_buf s + k" for k by simp
  have room: "int (rx_end s) - int (rx_buf s + length (rx_queue s)) < 1472 \<longleftrightarrow> rx_end s - rx_buf s < length (rx_queue s) + 1472"
    using ok by (auto simp: rx_ok_def)
  have reorder: "t\<lparr>rx_rdptr := a, rx_wrptr := b, rx_wrptr := c, rx_rdptr := d\<rparr> = t\<lparr>rx_wrptr := c, rx_rdptr := d\<rparr>"
    for t :: "'a buffered_st_scheme" and a b c d by (cases t) simp
  show ?thesis
    unfolding end_of_event_def Let_def n mv by (simp add: ptr room reorder del: of_nat_add)
qed

lemma end_of_event_spec:
  assumes ok: "rx_ok s" "\<not> rx_new_event s" and run: "end_of_event s = (n, ptr, ov, s')"
  shows "rx_ok s' \<and> rx_frame s s' \<and> handed n ptr s' @ rx_queue s' = rx_queue s \<and>
    (if rx_end s - rx_buf s < length (rx_queue s) + 1472
     then ov \<and> handed n ptr s' = rx_queue s else \<not> ov \<and> n = 0 \<and> handed n ptr s' = [] \<and> rx_new_event s')"
proof -
  have len: "rx_buf s + length (rx_queue s) \<le> rx_end s" using ok by (auto simp: rx_ok_def rx_queue_def)
  let ?m = "wrs (rx_buf s) (rx_queue s) (cmem s)"
  have out: "?m a = cmem s a" if "a < rx_buf s \<or> rx_end s \<le> a" for a
    using len that by (auto simp: wrs_apply)
  show ?thesis
  proof (cases "rx_end s - rx_buf s < length (rx_queue s) + 1472")
    case True
    with run have "n = int (length (rx_queue s))" "ptr = Some (rx_buf s)" ov
      "s' = s\<lparr>cmem := ?m, rx_wrptr := rx_buf s, rx_rdptr := rx_buf s\<rparr>"
      by (auto simp: end_of_event_eq [OF ok(1)] Let_def)
    then have s': "rx_queue s' = []" "handed n ptr s' = rx_queue s" "rx_frame s s'" "rx_ok s'" ov
      using ok out by (auto simp: rx_queue_def [of "_ \<lparr>rx_rdptr := _\<rparr>"] rds_0 handed_def rx_ok_def rx_frame_def)
    then show ?thesis using True by simp
  next
    case False
    with run have s': "n = 0" "ptr = None" "\<not> ov"
      "s' = s\<lparr>cmem := ?m, rx_rdptr := rx_buf s, rx_wrptr := rx_buf s + length (rx_queue s), rx_new_event := True\<rparr>"
      by (auto simp: end_of_event_eq [OF ok(1)] Let_def)
    then have "rx_queue s' = rx_queue s" by (simp add: rx_queue_def [of "_\<lparr>rx_new_event := _\<rparr>"])
    with False s' ok out show ?thesis by (auto simp: handed_def rx_ok_def rx_frame_def)
  qed
qed

lemma take_record_spec:
  assumes ok: "rx_ok s" "\<not> rx_new_event s" and k: "k \<le> length (rx_queue s)" and run: "take_record (int k) s = (n, ptr, ov, s')"
  shows "rx_ok s' \<and> rx_frame s s' \<and> handed n ptr s' = take k (rx_queue s) \<and> rx_queue s' = drop k (rx_queue s) \<and> \<not> ov"
proof -
  have k': "k \<le> rx_wrptr s - rx_rdptr s" using k by (simp add: rx_queue_def)
  from run have s': "n = int k" "ptr = Some (rx_rdptr s)" "\<not> ov" "s' = s\<lparr>rx_rdptr := rx_rdptr s + k\<rparr>"
    by (auto simp: take_record_def nat_int_add)
  then show ?thesis using ok k' rds_take [OF k', of "cmem s" "rx_rdptr s"] rds_drop [OF k', of "cmem s" "rx_rdptr s"]
    by (auto simp: handed_def rx_ok_def rx_frame_def rx_queue_def)
qed

text \<open>
  Both ways to ask for a record take it from the front of the same queue. They differ only in where they
  cut it: \<open>cut c q\<close> is the length of the first complete record in \<open>q\<close>.
\<close>

locale record_reader =
  fixes get :: "'c \<Rightarrow> u8 list \<Rightarrow> 'a buffered_st_scheme \<Rightarrow> int \<times> nat option \<times> bool \<times> 'a buffered_st_scheme"
    and cut :: "'c \<Rightarrow> u8 list \<Rightarrow> nat option"
  assumes get_cut: "rx_ok (take_event bs s) \<Longrightarrow>
      get c bs s = (case cut c (rx_queue (take_event bs s)) of
        None \<Rightarrow> end_of_event (take_event bs s) | Some n \<Rightarrow> take_record (int n) (take_event bs s))"
    and cut_le: "cut c q = Some n \<Longrightarrow> n \<le> length q"
begin

lemma get_spec:
  assumes ok: "rx_ok s" "length bs \<le> 1472" and run: "get c bs s = (n, ptr, ov, s')"
    and q: "q = rx_queue s @ (if rx_new_event s then bs else [])"
  shows "rx_ok s' \<and> rx_frame s s' \<and> handed n ptr s' @ rx_queue s' = q \<and>
    (case cut c q of
       Some k \<Rightarrow> handed n ptr s' = take k q \<and> \<not> ov
     | None \<Rightarrow> if rx_end s - rx_buf s < length q + 1472 then ov \<and> handed n ptr s' = q
              else \<not> ov \<and> n = 0 \<and> handed n ptr s' = [] \<and> rx_new_event s')"
proof -
  let ?t = "take_event bs s"
  note t = take_event_spec [OF ok, folded q]
  then have ends: "rx_end ?t = rx_end s" "rx_buf ?t = rx_buf s" by (simp_all add: rx_frame_def)
  have frame: "rx_frame s s'" if "rx_frame ?t s'" using t that by (auto simp: rx_frame_def)
  show ?thesis
  proof (cases "cut c q")
    case None
    with run t get_cut [of bs s c] have "end_of_event ?t = (n, ptr, ov, s')" by simp
    from end_of_event_spec [OF _ _ this] t None ends frame show ?thesis by (simp split: if_splits)
  next
    case (Some k)
    with run t get_cut [of bs s c] have "take_record (int k) ?t = (n, ptr, ov, s')" by simp
    from take_record_spec [OF _ _ _ this] t Some cut_le [OF Some] frame show ?thesis by simp
  qed
qed

end

text \<open>A record of \<open>n\<close> bytes, and a record that ends with the first occurrence of a delimiter.\<close>

definition cut_len :: "nat \<Rightarrow> u8 list \<Rightarrow> nat option" where
  "cut_len n q = (if length q < n then None else Some n)"

definition cut_delim :: "u8 \<Rightarrow> u8 list \<Rightarrow> nat option" where
  "cut_delim d q = map_option Suc (first_idx (\<lambda>b. b = d) q)"

lemma find_delim_first:
  "find_delim m d r p n = map_option (\<lambda>k. int (p + k) - int r + 1) (first_idx (\<lambda>b. b = d) (rds m p n))"
  by (induction n arbitrary: p) (auto simp: rds_Suc option.map_comp o_def add.assoc)

interpretation by_len: record_reader "\<lambda>n. xtcp_buffered_recv (int n)" cut_len
proof unfold_locales
  fix c and bs and s :: "'b buffered_st_scheme"
  assume "rx_ok (take_event bs s)"
  then have "int (rx_wrptr (take_event bs s)) - int (rx_rdptr (take_event bs s)) = int (length (rx_queue (take_event bs s)))"
    by (auto simp: rx_ok_def rx_queue_def)
  then show "xtcp_buffered_recv (int c) bs s = (case cut_len c (rx_queue (take_event bs s)) of
        None \<Rightarrow> end_of_event (take_event bs s) | Some n \<Rightarrow> take_record (int n) (take_event bs s))"
    by (simp add: xtcp_buffered_recv_def Let_def cut_len_def)
qed (auto simp: cut_len_def split: if_splits)

interpretation by_delim: record_reader xtcp_buffered_recv_upto cut_delim
proof unfold_locales
  fix c and bs and s :: "'b buffered_st_scheme"
  let ?t = "take_event bs s"
  have "find_delim (cmem ?t) c (rx_rdptr ?t) (rx_rdptr ?t) (rx_wrptr ?t - rx_rdptr ?t) = map_option int (cut_delim c (rx_queue ?t))"
    by (simp add: find_delim_first cut_delim_def rx_queue_def option.map_comp o_def add.commute)
  then show "xtcp_buffered_recv_upto c bs s = (case cut_delim c (rx_queue ?t) of
        None \<Rightarrow> end_of_event ?t | Some n \<Rightarrow> take_record (int n) ?t)"
    unfolding xtcp_buffered_recv_upto_def Let_def by (cases "cut_delim c (rx_queue ?t)") simp_all
qed (auto simp: cut_delim_def first_idx_Some)

section \<open>The transmit buffer as a queue\<close>

text \<open>What the server has been given and not acknowledged, and what it has not been given yet.\<close>

definition tx_flight :: "'a buffered_st_scheme \<Rightarrow> u8 list" where
  "tx_flight s = rds (cmem s) (tx_prev_rdptr s) (tx_rdptr s - tx_prev_rdptr s)"

definition tx_unsent :: "'a buffered_st_scheme \<Rightarrow> u8 list" where
  "tx_unsent s = rds (cmem s) (tx_rdptr s) (tx_wrptr s - tx_rdptr s)"

lemma nat_int_diff [simp]: "nat (int a - int b) = a - b"
  by simp

lemma shift_tx_eq:
  assumes "tx_ok s"
  shows "shift_tx s = s\<lparr>cmem := wrs (tx_buf s) (tx_flight s @ tx_unsent s) (cmem s),
    tx_prev_rdptr := tx_buf s, tx_rdptr := tx_buf s + length (tx_flight s),
    tx_wrptr := tx_buf s + length (tx_flight s) + length (tx_unsent s)\<rparr>"
proof -
  let ?p = "tx_prev_rdptr s" and ?r = "tx_rdptr s" and ?w = "tx_wrptr s"
  have le: "?p \<le> ?r" "?r \<le> ?w" "tx_buf s \<le> ?p" using assms by (auto simp: tx_ok_def)
  have "?w - ?p = (?r - ?p) + (?w - ?r)" "?p + (?r - ?p) = ?r" using le by simp_all
  then have mem: "rds (cmem s) ?p (?w - ?p) = tx_flight s @ tx_unsent s"
    unfolding tx_flight_def tx_unsent_def by (metis rds_split)
  have "nat (int q - (int ?p - int (tx_buf s))) = tx_buf s + (q - ?p)" if "?p \<le> q" for q
    using that le by simp
  with le mem show ?thesis
    unfolding shift_tx_def Let_def memmove_def nat_int_diff mem
    by (simp add: tx_flight_def tx_unsent_def)
qed

lemma shift_tx_spec:
  assumes ok: "tx_ok s"
  shows "tx_ok (shift_tx s)" "tx_frame s (shift_tx s)" "tx_flight (shift_tx s) = tx_flight s"
    "tx_unsent (shift_tx s) = tx_unsent s" "tx_prev_rdptr (shift_tx s) = tx_buf s"
    "tx_wrptr (shift_tx s) + (tx_prev_rdptr s - tx_buf s) = tx_wrptr s" "ctoks (shift_tx s) = ctoks s"
    "tx_lowmark (shift_tx s) = tx_lowmark s"
proof -
  let ?m = "wrs (tx_buf s) (tx_flight s @ tx_unsent s) (cmem s)"
  have len: "length (tx_flight s) = tx_rdptr s - tx_prev_rdptr s" "length (tx_unsent s) = tx_wrptr s - tx_rdptr s"
    by (simp_all add: tx_flight_def tx_unsent_def)
  show "tx_ok (shift_tx s)" "tx_prev_rdptr (shift_tx s) = tx_buf s" "ctoks (shift_tx s) = ctoks s"
      "tx_wrptr (shift_tx s) + (tx_prev_rdptr s - tx_buf s) = tx_wrptr s" "tx_lowmark (shift_tx s) = tx_lowmark s"
    using ok len by (auto simp: shift_tx_eq [OF ok] tx_ok_def)
  show "tx_frame s (shift_tx s)"
    using ok len by (auto simp: shift_tx_eq [OF ok] tx_ok_def tx_frame_def wrs_apply)
  have "rds ?m (tx_buf s) (length (tx_flight s) + length (tx_unsent s)) = tx_flight s @ tx_unsent s"
    by (rule rds_wrs_self) simp
  then have "rds ?m (tx_buf s) (length (tx_flight s)) = tx_flight s"
      "rds ?m (tx_buf s + length (tx_flight s)) (length (tx_unsent s)) = tx_unsent s"
    by (simp_all add: rds_split)
  then show "tx_flight (shift_tx s) = tx_flight s" "tx_unsent (shift_tx s) = tx_unsent s"
    unfolding shift_tx_eq [OF ok] by (simp_all add: tx_flight_def [of "_\<lparr>tx_wrptr := _\<rparr>"] tx_unsent_def [of "_\<lparr>tx_wrptr := _\<rparr>"])
qed

text \<open>\<^verbatim>\<open>memcpy\<close> behind the last byte, and the tokens that go with it.\<close>

definition append_tx :: "xtcp_connection \<Rightarrow> u8 list \<Rightarrow> 'a buffered_st_scheme \<Rightarrow> 'a buffered_st_scheme" where
  "append_tx conn bs s =
     (let s' = (if tx_unsent s = [] then xtcp_init_send conn s else s)\<lparr>cmem := wrs (tx_wrptr s) bs (cmem s), tx_wrptr := tx_wrptr s + length bs\<rparr>
      in if xtcp_buffered_send_buffer_remaining s' < tx_lowmark s then xtcp_pause conn s' else s')"

lemma append_tx_spec:
  assumes ok: "tx_ok s" and fits: "tx_wrptr s + length bs \<le> tx_end s"
  shows "tx_ok (append_tx conn bs s)" "tx_frame s (append_tx conn bs s)" "tx_flight (append_tx conn bs s) = tx_flight s"
    "tx_unsent (append_tx conn bs s) = tx_unsent s @ bs"
proof -
  let ?m = "wrs (tx_wrptr s) bs (cmem s)"
  have le: "tx_prev_rdptr s \<le> tx_rdptr s" "tx_rdptr s \<le> tx_wrptr s" using ok by (auto simp: tx_ok_def)
  have "rds ?m (tx_prev_rdptr s) (tx_rdptr s - tx_prev_rdptr s) = tx_flight s"
      "rds ?m (tx_rdptr s) (tx_wrptr s + length bs - tx_rdptr s) = tx_unsent s @ bs"
    using le rds_wrs_snoc [OF le(2)] by (simp_all add: rds_wrs_apart tx_flight_def tx_unsent_def)
  then show "tx_flight (append_tx conn bs s) = tx_flight s" "tx_unsent (append_tx conn bs s) = tx_unsent s @ bs"
    by (simp_all add: append_tx_def Let_def cmd_defs client_simps tx_flight_def [of "put_tok _ _"] tx_unsent_def [of "put_tok _ _"]
      tx_flight_def [of "_\<lparr>tx_wrptr := _\<rparr>"] tx_unsent_def [of "_\<lparr>tx_wrptr := _\<rparr>"])
  show "tx_ok (append_tx conn bs s)" "tx_frame s (append_tx conn bs s)"
    using ok fits by (auto simp: append_tx_def Let_def cmd_defs client_simps tx_ok_def tx_frame_def wrs_apply)
qed

lemma send_eq:
  assumes ok: "tx_ok s"
  shows "xtcp_buffered_send conn bs s =
    (let t = (if tx_end s - tx_wrptr s < length bs then shift_tx s else s)
     in if tx_end t - tx_wrptr t < length bs then (False, t) else (True, append_tx conn bs t))"
proof -
  have room: "int (tx_end t) - int (tx_wrptr t) < int (length bs) \<longleftrightarrow> tx_end t - tx_wrptr t < length bs"
    if "tx_ok t" for t :: "'a buffered_st_scheme" using that by (auto simp: tx_ok_def)
  have empty: "tx_unsent t = [] \<longleftrightarrow> tx_rdptr t = tx_wrptr t" if "tx_ok t" for t :: "'a buffered_st_scheme"
    using that by (auto simp: tx_ok_def tx_unsent_def rds_def)
  define t where "t = (if tx_end s - tx_wrptr s < length bs then shift_tx s else s)"
  have t: "tx_ok t" using ok shift_tx_spec(1) [OF ok] by (simp add: t_def)
  have reorder: "u\<lparr>cmem := m, ctoks := c, tx_wrptr := w\<rparr> = u\<lparr>ctoks := c, cmem := m, tx_wrptr := w\<rparr>"
    for u :: "'a buffered_st_scheme" and m c w by (cases u) simp
  show ?thesis
    unfolding xtcp_buffered_send_def Let_def room [OF ok] t_def [symmetric] room [OF t]
    by (auto simp: append_tx_def Let_def empty [OF t] cmd_defs put_tok_def xtcp_buffered_send_buffer_remaining_def
        nat_int_add reorder algebra_simps)
qed

lemma send_spec:
  assumes ok: "tx_ok s" and run: "xtcp_buffered_send conn bs s = (acc, s')"
  shows "tx_ok s' \<and> tx_frame s s' \<and> tx_flight s' = tx_flight s \<and>
    tx_unsent s' = tx_unsent s @ (if acc then bs else []) \<and>
    (acc \<longleftrightarrow> int (length bs) \<le> xtcp_buffered_send_buffer_remaining s)"
proof -
  define t where "t = (if tx_end s - tx_wrptr s < length bs then shift_tx s else s)"
  note shift = shift_tx_spec [OF ok]
  have t: "tx_ok t" "tx_frame s t" "tx_flight t = tx_flight s" "tx_unsent t = tx_unsent s"
    using ok shift by (simp_all add: t_def tx_frame_def)
  have ends: "tx_end t = tx_end s" using t(2) by (simp add: tx_frame_def)
  have room: "tx_end t - tx_wrptr t < length bs \<longleftrightarrow> \<not> int (length bs) \<le> xtcp_buffered_send_buffer_remaining s"
    using ok shift(5,6) ends by (auto simp: t_def tx_ok_def xtcp_buffered_send_buffer_remaining_def)
  have frame: "tx_frame s u" if "tx_frame t u" for u using t(2) that by (auto simp: tx_frame_def)
  from run have "(acc, s') = (if tx_end t - tx_wrptr t < length bs then (False, t) else (True, append_tx conn bs t))"
    unfolding send_eq [OF ok] Let_def t_def by simp
  moreover have "tx_wrptr t + length bs \<le> tx_end t" if "\<not> tx_end t - tx_wrptr t < length bs"
    using t(1) that by (auto simp: tx_ok_def)
  ultimately show ?thesis
    using t frame room append_tx_spec [OF t(1), of bs conn] by (auto split: if_splits)
qed

lemma chunk_len_eq:
  assumes "n < 2 ^ 31"
  shows "chunk_len mss (int n) = int (min (unat mss) n)"
proof -
  have n: "uint (word_of_int (int n) :: u32) = int n" using assms by (simp only: uint_word_of_int_eq) (simp add: take_bit_int_eq_self)
  then have less: "mss < word_of_int (int n) \<longleftrightarrow> unat mss < n"
    unfolding word_less_alt n by (simp only: uint_nat of_nat_less_iff)
  show ?thesis
  proof (cases "unat mss < n")
    case True
    have "unat mss < 2 ^ 31" by (rule order.strict_trans [OF True assms])
    then have "int (unat mss) < int (2 ^ 31)" by (simp only: of_nat_less_iff)
    then have "uint mss < 2 ^ 31" by (simp only: uint_nat of_nat_power of_nat_numeral)
    moreover have "- (2 ^ 31) \<le> uint mss" by (rule order.trans [OF _ uint_ge_0]) simp
    ultimately have "sint mss = uint mss" unfolding sint_uint by (intro signed_take_bit_int_eq_self) simp_all
    then have "sint mss = int (unat mss)" by (simp only: uint_nat)
    with True less show ?thesis by (simp only: chunk_len_def if_True min_def less_imp_le)
  next
    case False
    with less show ?thesis by (simp add: chunk_len_def)
  qed
qed

lemma handler_spec:
  assumes ok: "tx_ok s"
    and s'_def: "s' = xtcp_buffered_send_handler conn s" and k_def: "k = min (unat (xc_mss conn)) (length (tx_unsent s))"
  shows "tx_ok s' \<and> tx_frame s s' \<and>
    (if xc_event conn = XTCP_RESEND_DATA
     then tx_flight s' = tx_flight s \<and> tx_unsent s' = tx_unsent s \<and> ctoks s' = ctoks s @ [TokData (tx_flight s)]
     else tx_flight s' = take k (tx_unsent s) \<and> tx_unsent s' = drop k (tx_unsent s) \<and>
       (\<exists>rest. ctoks s' = ctoks s @ TokData (take k (tx_unsent s)) # rest \<and> set rest \<subseteq> {TokCmd CMD_UNPAUSE (xc_id conn)}))"
proof (cases "xc_event conn = XTCP_RESEND_DATA")
  case True
  with ok show ?thesis
    by (simp add: s'_def xtcp_buffered_send_handler_def client_simps tx_ok_def tx_frame_def tx_unsent_def tx_flight_def)
next
  case False
  have n: "int (tx_wrptr s) - int (tx_rdptr s) = int (length (tx_unsent s))" "length (tx_unsent s) = tx_wrptr s - tx_rdptr s"
      "length (tx_unsent s) < 2 ^ 31"
    using ok by (auto simp: tx_ok_def tx_unsent_def)
  have len: "chunk_len (xc_mss conn) (int (tx_wrptr s) - int (tx_rdptr s)) = int k"
    unfolding n(1) chunk_len_eq [OF n(3)] k_def ..
  let ?t = "put_tok (TokData (rds (cmem s) (tx_rdptr s) k)) s"
  let ?space = "int (tx_end s) - int (tx_wrptr s) + (int (tx_prev_rdptr s) - int (tx_buf s))"
  define rest where "rest = (if ?space < tx_lowmark s \<and> tx_lowmark s \<le> ?space + int k then [TokCmd CMD_UNPAUSE (xc_id conn)] else [])"
  from False have s': "s' = s\<lparr>ctoks := ctoks s @ TokData (rds (cmem s) (tx_rdptr s) k) # rest,
      tx_prev_rdptr := tx_rdptr s, tx_rdptr := tx_rdptr s + k\<rparr>" "set rest \<subseteq> {TokCmd CMD_UNPAUSE (xc_id conn)}"
    unfolding s'_def xtcp_buffered_send_handler_def Let_def len rest_def
    by (auto simp: client_simps cmd_defs put_tok_def nat_int_add)
  have k: "k \<le> tx_wrptr s - tx_rdptr s" by (simp add: k_def n(2))
  have "rds (cmem s) (tx_rdptr s) k = take k (tx_unsent s)"
      "rds (cmem s) (tx_rdptr s + k) (tx_wrptr s - (tx_rdptr s + k)) = drop k (tx_unsent s)"
    using rds_take [OF k] rds_drop [OF k, of "cmem s" "tx_rdptr s"] by (simp_all add: tx_unsent_def)
  with s' False ok k show ?thesis
    by (auto simp: tx_ok_def tx_frame_def tx_flight_def [of "_\<lparr>tx_rdptr := _\<rparr>"] tx_unsent_def [of "_\<lparr>tx_rdptr := _\<rparr>"])
qed

section \<open>Runs\<close>

text \<open>
  A run of the application: calls of the receive functions, each with the data of the current event, of
  \<^verbatim>\<open>xtcp_buffered_send\<close>, and of the handler for the events of the server, with the segment size.
  The observations are what came in and what was handed out, what was accepted, and what was given to the
  server.
\<close>

datatype buf_op = OpRecv nat "u8 list" | OpRecvUpto u8 "u8 list" | OpSend "u8 list" | OpHandle xtcp_event u32

datatype buf_obs = Took "u8 list" "u8 list" bool | Queued "u8 list" bool | Gave xtcp_event "u8 list"

fun tok_data :: "client_tok list \<Rightarrow> u8 list" where
  "tok_data [] = []"
| "tok_data (TokData bs # ts) = bs @ tok_data ts"
| "tok_data (_ # ts) = tok_data ts"

fun buf_step :: "xtcp_connection \<Rightarrow> buf_op \<Rightarrow> 'a buffered_st_scheme \<Rightarrow> buf_obs \<times> 'a buffered_st_scheme" where
  "buf_step conn (OpRecv n bs) s = (case xtcp_buffered_recv (int n) bs s of (k, ptr, ov, s') \<Rightarrow>
     (Took (if rx_new_event s then bs else []) (handed k ptr s') ov, s'))"
| "buf_step conn (OpRecvUpto d bs) s = (case xtcp_buffered_recv_upto d bs s of (k, ptr, ov, s') \<Rightarrow>
     (Took (if rx_new_event s then bs else []) (handed k ptr s') ov, s'))"
| "buf_step conn (OpSend bs) s = (case xtcp_buffered_send conn bs s of (acc, s') \<Rightarrow> (Queued bs acc, s'))"
| "buf_step conn (OpHandle ev mss) s =
     (let s' = xtcp_buffered_send_handler (conn\<lparr>xc_event := ev, xc_mss := mss\<rparr>) s
      in (Gave ev (tok_data (drop (length (ctoks s)) (ctoks s'))), s'))"

fun buf_run :: "xtcp_connection \<Rightarrow> buf_op list \<Rightarrow> 'a buffered_st_scheme \<Rightarrow> buf_obs list \<times> 'a buffered_st_scheme" where
  "buf_run conn [] s = ([], s)"
| "buf_run conn (op # ops) s =
     (case buf_step conn op s of (x, s) \<Rightarrow> case buf_run conn ops s of (xs, s) \<Rightarrow> (x # xs, s))"

fun arrived :: "buf_obs list \<Rightarrow> u8 list" where
  "arrived [] = []" | "arrived (Took i _ _ # xs) = i @ arrived xs" | "arrived (_ # xs) = arrived xs"

fun taken :: "buf_obs list \<Rightarrow> u8 list" where
  "taken [] = []" | "taken (Took _ out _ # xs) = out @ taken xs" | "taken (_ # xs) = taken xs"

fun accepted :: "buf_obs list \<Rightarrow> u8 list" where
  "accepted [] = []" | "accepted (Queued bs acc # xs) = (if acc then bs else []) @ accepted xs" | "accepted (_ # xs) = accepted xs"

fun given :: "buf_obs list \<Rightarrow> u8 list" where
  "given [] = []"
| "given (Gave ev bs # xs) = (if ev = XTCP_RESEND_DATA then [] else bs) @ given xs"
| "given (_ # xs) = given xs"

text \<open>Every retransmission repeats the last chunk given before it.\<close>

fun resends_repeat :: "u8 list \<Rightarrow> buf_obs list \<Rightarrow> bool" where
  "resends_repeat c [] = True"
| "resends_repeat c (Gave ev bs # xs) = ((ev = XTCP_RESEND_DATA \<longrightarrow> bs = c) \<and> resends_repeat bs xs)"
| "resends_repeat c (_ # xs) = resends_repeat c xs"

fun op_ok :: "buf_op \<Rightarrow> bool" where
  "op_ok (OpRecv _ bs) = (length bs \<le> 1472)"
| "op_ok (OpRecvUpto _ bs) = (length bs \<le> 1472)"
| "op_ok _ = True"

fun answers :: "buf_op \<Rightarrow> buf_obs \<Rightarrow> bool" where
  "answers (OpRecv n _) (Took _ out ov) = (ov \<or> out = [] \<or> length out = n)"
| "answers (OpRecvUpto d _) (Took _ out ov) = (ov \<or> out = [] \<or> last out = d \<and> d \<notin> set (butlast out))"
| "answers (OpSend bs) (Queued cs _) = (cs = bs)"
| "answers (OpHandle ev mss) (Gave e bs) = (e = ev \<and> (ev = XTCP_RESEND_DATA \<or> length bs \<le> unat mss))"
| "answers _ _ = False"

definition bufs_ok :: "'a buffered_st_scheme \<Rightarrow> bool" where
  "bufs_ok s \<longleftrightarrow> rx_ok s \<and> tx_ok s \<and> (rx_end s \<le> tx_buf s \<or> tx_end s \<le> rx_buf s)"

definition outside_bufs :: "'a buffered_st_scheme \<Rightarrow> nat \<Rightarrow> bool" where
  "outside_bufs s a \<longleftrightarrow> (a < rx_buf s \<or> rx_end s \<le> a) \<and> (a < tx_buf s \<or> tx_end s \<le> a)"

text \<open>What one step guarantees; the run follows by induction.\<close>

definition step_spec :: "'a buffered_st_scheme \<Rightarrow> buf_op \<Rightarrow> buf_obs \<Rightarrow> 'a buffered_st_scheme \<Rightarrow> bool" where
  "step_spec s op x s' \<longleftrightarrow> bufs_ok s' \<and> answers op x \<and>
     taken [x] @ rx_queue s' = rx_queue s @ arrived [x] \<and>
     given [x] @ tx_unsent s' = tx_unsent s @ accepted [x] \<and>
     resends_repeat (tx_flight s) [x] \<and>
     (case x of Gave _ bs \<Rightarrow> tx_flight s' = bs | _ \<Rightarrow> tx_flight s' = tx_flight s) \<and>
     outside_bufs s' = outside_bufs s \<and> (\<forall>a. outside_bufs s a \<longrightarrow> cmem s' a = cmem s a)"

lemma rx_frame_keeps_tx:
  assumes "bufs_ok s" and "rx_frame s s'" and "rx_ok s'"
  shows "bufs_ok s' \<and> tx_unsent s' = tx_unsent s \<and> tx_flight s' = tx_flight s \<and>
    outside_bufs s' = outside_bufs s \<and> (\<forall>a. outside_bufs s a \<longrightarrow> cmem s' a = cmem s a)"
proof -
  have cong: "rds (cmem s') p n = rds (cmem s) p n" if "tx_buf s \<le> p" "p + n \<le> tx_end s" for p n
    using assms that by (intro rds_cong) (auto simp: bufs_ok_def rx_frame_def rx_ok_def tx_ok_def)
  have "tx_unsent s' = tx_unsent s" "tx_flight s' = tx_flight s"
    using assms cong by (auto simp: tx_unsent_def tx_flight_def rx_frame_def bufs_ok_def tx_ok_def)
  with assms show ?thesis
    by (auto simp: bufs_ok_def rx_frame_def tx_ok_def outside_bufs_def fun_eq_iff)
qed

lemma tx_frame_keeps_rx:
  assumes "bufs_ok s" and "tx_frame s s'" and "tx_ok s'"
  shows "bufs_ok s' \<and> rx_queue s' = rx_queue s \<and>
    outside_bufs s' = outside_bufs s \<and> (\<forall>a. outside_bufs s a \<longrightarrow> cmem s' a = cmem s a)"
proof -
  have "rds (cmem s') (rx_rdptr s) (rx_wrptr s - rx_rdptr s) = rds (cmem s) (rx_rdptr s) (rx_wrptr s - rx_rdptr s)"
    using assms by (intro rds_cong) (auto simp: bufs_ok_def tx_frame_def rx_ok_def tx_ok_def)
  then have "rx_queue s' = rx_queue s" using assms by (simp add: rx_queue_def tx_frame_def)
  with assms show ?thesis
    by (auto simp: bufs_ok_def tx_frame_def rx_ok_def outside_bufs_def fun_eq_iff)
qed

context record_reader
begin

lemma get_step:
  assumes ok: "bufs_ok s" "length bs \<le> 1472" and run: "get c bs s = (n, ptr, ov, s')"
    and ans: "\<And>q k. cut c q = Some k \<Longrightarrow> answers op (Took (if rx_new_event s then bs else []) (take k q) False)"
    and none: "\<And>i out. answers op (Took i out True)" "\<And>i ov. answers op (Took i [] ov)"
  shows "step_spec s op (Took (if rx_new_event s then bs else []) (handed n ptr s') ov) s'"
proof -
  have rx: "rx_ok s" using ok(1) by (simp add: bufs_ok_def)
  define q where q: "q = rx_queue s @ (if rx_new_event s then bs else [])"
  note spec = get_spec [OF rx ok(2) run q]
  then have keeps: "rx_ok s'" "rx_frame s s'" by simp_all
  have "answers op (Took (if rx_new_event s then bs else []) (handed n ptr s') ov)"
    using spec ans [of q] none by (cases "cut c q") (simp_all split: if_splits)
  with spec [unfolded q] rx_frame_keeps_tx [OF ok(1) keeps(2,1)] show ?thesis by (simp add: step_spec_def)
qed

end

lemma cut_delim_record:
  assumes "cut_delim d q = Some k"
  shows "last (take k q) = d \<and> d \<notin> set (butlast (take k q))"
proof -
  from assms obtain j where j: "k = Suc j" "j < length q" "q ! j = d" "\<forall>i<j. q ! i \<noteq> d"
    by (auto simp: cut_delim_def first_idx_Some)
  then have "take k q = take j q @ [d]" by (simp add: take_Suc_conv_app_nth)
  with j show ?thesis by (auto simp: in_set_conv_nth)
qed

lemma buf_step_spec:
  assumes ok: "bufs_ok s" "op_ok op" and run: "buf_step conn op s = (x, s')"
  shows "step_spec s op x s'"
proof (cases op)
  case (OpRecv n bs)
  with run obtain k ptr ov where r: "xtcp_buffered_recv (int n) bs s = (k, ptr, ov, s')"
    "x = Took (if rx_new_event s then bs else []) (handed k ptr s') ov" by (auto split: prod.splits)
  show ?thesis unfolding r(2) OpRecv
    by (rule by_len.get_step [OF ok(1) _ r(1)]) (use ok(2) OpRecv in \<open>auto simp: cut_len_def split: if_splits\<close>)
next
  case (OpRecvUpto d bs)
  with run obtain k ptr ov where r: "xtcp_buffered_recv_upto d bs s = (k, ptr, ov, s')"
    "x = Took (if rx_new_event s then bs else []) (handed k ptr s') ov" by (auto split: prod.splits)
  show ?thesis unfolding r(2) OpRecvUpto
    by (rule by_delim.get_step [OF ok(1) _ r(1)]) (use ok(2) OpRecvUpto in \<open>auto dest: cut_delim_record\<close>)
next
  case (OpSend bs)
  with run obtain acc where r: "xtcp_buffered_send conn bs s = (acc, s')" "x = Queued bs acc" by (auto split: prod.splits)
  have tx: "tx_ok s" using ok(1) by (simp add: bufs_ok_def)
  note spec = send_spec [OF tx r(1)]
  with tx_frame_keeps_rx [OF ok(1), of s'] show ?thesis
    unfolding r(2) OpSend by (cases acc) (simp_all add: step_spec_def)
next
  case (OpHandle ev mss)
  let ?conn = "conn\<lparr>xc_event := ev, xc_mss := mss\<rparr>"
  from run OpHandle have r: "s' = xtcp_buffered_send_handler ?conn s"
    "x = Gave ev (tok_data (drop (length (ctoks s)) (ctoks s')))" by (auto simp: Let_def)
  have tx: "tx_ok s" using ok(1) by (simp add: bufs_ok_def)
  have unpause: "tok_data rest = []" if "set rest \<subseteq> {TokCmd CMD_UNPAUSE (xc_id ?conn)}" for rest
    using that by (induction rest) auto
  note spec = handler_spec [OF tx r(1) refl]
  with tx_frame_keeps_rx [OF ok(1), of s'] unpause show ?thesis
    unfolding r(2) OpHandle by (cases "ev = XTCP_RESEND_DATA") (auto simp: step_spec_def)
qed

lemma obs_Cons:
  "taken (x # xs) = taken [x] @ taken xs" "arrived (x # xs) = arrived [x] @ arrived xs"
  "given (x # xs) = given [x] @ given xs" "accepted (x # xs) = accepted [x] @ accepted xs"
  "resends_repeat c (x # xs) = (resends_repeat c [x] \<and> resends_repeat (case x of Gave _ bs \<Rightarrow> bs | _ \<Rightarrow> c) xs)"
  by (cases x; simp)+

lemma stream_trans: "a @ q' = q @ b \<Longrightarrow> a2 @ q'' = q' @ b2 \<Longrightarrow> (a @ a2) @ q'' = q @ (b @ b2)"
  by (metis append.assoc)

lemma buf_run_spec:
  assumes "bufs_ok s" and "list_all op_ok ops" and "buf_run conn ops s = (xs, s')"
  shows "bufs_ok s' \<and> list_all2 answers ops xs \<and>
    taken xs @ rx_queue s' = rx_queue s @ arrived xs \<and>
    given xs @ tx_unsent s' = tx_unsent s @ accepted xs \<and>
    resends_repeat (tx_flight s) xs \<and> (\<forall>a. outside_bufs s a \<longrightarrow> cmem s' a = cmem s a)"
  using assms
proof (induction ops arbitrary: s xs)
  case (Cons op ops)
  obtain x t ys where step: "buf_step conn op s = (x, t)" and rest: "buf_run conn ops t = (ys, s')" and xs: "xs = x # ys"
    using Cons.prems(3) by (auto split: prod.splits)
  have spec: "step_spec s op x t" using Cons.prems step by (intro buf_step_spec [where conn = conn]) auto
  then have ih: "bufs_ok s' \<and> list_all2 answers ops ys \<and> taken ys @ rx_queue s' = rx_queue t @ arrived ys \<and>
      given ys @ tx_unsent s' = tx_unsent t @ accepted ys \<and> resends_repeat (tx_flight t) ys \<and>
      (\<forall>a. outside_bufs t a \<longrightarrow> cmem s' a = cmem t a)"
    using Cons.prems(2) rest by (intro Cons.IH) (auto simp: step_spec_def)
  have flight: "(case x of Gave _ bs \<Rightarrow> bs | _ \<Rightarrow> tx_flight s) = tx_flight t"
    using spec unfolding step_spec_def by (cases x) simp_all
  note x = spec [unfolded step_spec_def]
  have "taken xs @ rx_queue s' = rx_queue s @ arrived xs" "given xs @ tx_unsent s' = tx_unsent s @ accepted xs"
    unfolding xs obs_Cons(1-4) [of x ys] using x ih by (blast intro: stream_trans)+
  moreover have "resends_repeat (tx_flight s) xs"
    unfolding xs obs_Cons(5) [where x = x and xs = ys] flight using x ih by blast
  moreover have "list_all2 answers (op # ops) xs" unfolding xs using x ih by simp
  moreover have "\<forall>a. outside_bufs s a \<longrightarrow> cmem s' a = cmem s a" using x ih by metis
  ultimately show ?case using ih by blast
qed simp

lemma fresh_bufs:
  fixes s :: "'a buffered_st_scheme" and mark :: int
  assumes "1472 \<le> rlen" and "0 \<le> tlen" "tlen < 2 ^ 31" and "int rp + rlen \<le> int tp \<or> int tp + tlen \<le> int rp"
  defines "t \<equiv> xtcp_buffered_set_tx_buffer tp tlen mark (xtcp_buffered_set_rx_buffer rp rlen s)"
  shows "bufs_ok t" "rx_queue t = []" "tx_unsent t = []" "tx_flight t = []" "cmem t = cmem s"
    "outside_bufs t a \<longleftrightarrow> (int a < int rp \<or> int rp + rlen \<le> int a) \<and> (int a < int tp \<or> int tp + tlen \<le> int a)"
  using assms(1-4)
  by (auto simp: t_def xtcp_buffered_set_tx_buffer_def xtcp_buffered_set_rx_buffer_def bufs_ok_def rx_ok_def tx_ok_def
      rx_queue_def tx_unsent_def tx_flight_def outside_bufs_def)

text \<open>
  A run that receives two events with records up to the delimiter 0 and of two bytes, fills the transmit
  buffer until a send is refused, and transmits in chunks of two bytes, one of them twice.
\<close>

definition sample_conn :: xtcp_connection where
  "sample_conn = \<lparr>xc_id = 1, xc_protocol = XTCP_PROTOCOL_TCP, xc_connection_type = 0, xc_event = XTCP_POLL,
     xc_appstate = 0, xc_remote_addr = (0, 0, 0, 0), xc_remote_port = 0, xc_local_port = 0, xc_mss = 0\<rparr>"

definition sample_ops :: "buf_op list" where
  "sample_ops = [OpRecvUpto 0 [1, 2], OpSend [7, 8, 9], OpRecvUpto 0 [0, 3, 4, 5], OpHandle XTCP_REQUEST_DATA 2,
     OpSend [10, 11, 12, 13], OpHandle XTCP_RESEND_DATA 2, OpRecv 2 [], OpSend [10, 11], OpHandle XTCP_SENT_DATA 2]"

definition blank_bufs :: buffered_st where
  "blank_bufs =
     \<lparr>ctoks = [], cgot = [], cmem = (\<lambda>_. 0), rx_new_event = False, rx_buf = 0, rx_end = 0, rx_wrptr = 0, rx_rdptr = 0,
      tx_buf = 0, tx_end = 0, tx_wrptr = 0, tx_rdptr = 0, tx_prev_rdptr = 0, tx_lowmark = 0\<rparr>"

definition sample_bufs :: buffered_st where
  "sample_bufs = xtcp_buffered_set_tx_buffer 1500 6 2 (xtcp_buffered_set_rx_buffer 0 1500 blank_bufs)"

lemmas run_eval = sample_conn_def sample_bufs_def blank_bufs_def xtcp_buffered_recv_upto_def xtcp_buffered_recv_def find_delim_first
  take_event_def end_of_event_def take_record_def memmove_def handed_def rds_def client_simps cmd_defs put_tok_def
  take_msgs_def xtcp_buffered_set_tx_buffer_def xtcp_buffered_set_rx_buffer_def xtcp_buffered_send_def
  xtcp_buffered_send_handler_def shift_tx_def chunk_len_def Let_def upt_conv_Cons

lemma sample_run:
  "fst (buf_run sample_conn sample_ops sample_bufs) =
    [Took [1, 2] [] False, Queued [7, 8, 9] True, Took [0, 3, 4, 5] [1, 2, 0] False, Gave XTCP_REQUEST_DATA [7, 8],
     Queued [10, 11, 12, 13] False, Gave XTCP_RESEND_DATA [7, 8], Took [] [3, 4] False, Queued [10, 11] True,
     Gave XTCP_SENT_DATA [9, 10]]"
  by (simp add: sample_ops_def run_eval)

text \<open>C17. The receive buffer is a stream. In every run of the buffered API from freshly set buffers, with
  receives of any length, receives up to any delimiter, sends and events in any order, the bytes handed out
  followed by the bytes still in the buffer are the bytes that came in; a record that is handed out without
  overflow has the length asked for, or ends with the delimiter and contains it nowhere else; and no byte
  outside the two buffers is written. The buffer must hold one event, and the buffers must be disjoint.\<close>

theorem buffered_receive_stream:
  fixes s :: "'a buffered_st_scheme"
  assumes "1472 \<le> rlen" and "0 \<le> tlen" "tlen < 2 ^ 31"
    and "int rp + rlen \<le> int tp \<or> int tp + tlen \<le> int rp"
    and "list_all op_ok ops"
    and "buf_run conn ops (xtcp_buffered_set_tx_buffer tp tlen mark (xtcp_buffered_set_rx_buffer rp rlen s)) = (xs, s')"
  shows "taken xs @ rx_queue s' = arrived xs \<and> list_all2 answers ops xs \<and>
    (\<forall>a. int a < int rp \<or> int rp + rlen \<le> int a \<longrightarrow> int a < int tp \<or> int tp + tlen \<le> int a \<longrightarrow> cmem s' a = cmem s a)"
proof -
  let ?s = "xtcp_buffered_set_tx_buffer tp tlen mark (xtcp_buffered_set_rx_buffer rp rlen s)"
  note fresh = fresh_bufs [OF assms(1-4), of mark s]
  note run = buf_run_spec [OF fresh(1) assms(5,6)]
  have "cmem s' a = cmem s a" if "int a < int rp \<or> int rp + rlen \<le> int a" "int a < int tp \<or> int tp + tlen \<le> int a" for a
  proof -
    have "outside_bufs ?s a" unfolding fresh(6) using that by blast
    then show ?thesis using run fresh(5) by metis
  qed
  moreover have "taken xs @ rx_queue s' = arrived xs" "list_all2 answers ops xs" using run fresh(2) by simp_all
  ultimately show ?thesis by blast
qed

lemma buffered_receive_stream_witness:
  "taken (fst (buf_run sample_conn sample_ops sample_bufs)) @ rx_queue (snd (buf_run sample_conn sample_ops sample_bufs))
     = arrived (fst (buf_run sample_conn sample_ops sample_bufs)) \<and>
   taken (fst (buf_run sample_conn sample_ops sample_bufs)) = [1, 2, 0, 3, 4]"
proof
  show "taken (fst (buf_run sample_conn sample_ops sample_bufs)) @ rx_queue (snd (buf_run sample_conn sample_ops sample_bufs))
     = arrived (fst (buf_run sample_conn sample_ops sample_bufs))"
    by (rule buffered_receive_stream [where ops = sample_ops and conn = sample_conn and rlen = 1500 and tlen = 6 and rp = 0 and tp = 1500
        and mark = 2, THEN conjunct1])
      (simp_all add: sample_ops_def sample_bufs_def)
  show "taken (fst (buf_run sample_conn sample_ops sample_bufs)) = [1, 2, 0, 3, 4]"
    by (simp add: sample_run)
qed

text \<open>C18. The transmit buffer is a stream. In every such run the chunks given to the server for requests and
  acknowledgements, followed by the bytes still waiting, are the bytes that \<^verbatim>\<open>xtcp_buffered_send\<close>
  accepted, in order and without loss or repetition; every chunk respects the segment size, and every
  retransmission repeats exactly the chunk given last, even when the buffer was shifted in between.\<close>

theorem buffered_transmit_stream:
  fixes s :: "'a buffered_st_scheme"
  assumes "1472 \<le> rlen" and "0 \<le> tlen" "tlen < 2 ^ 31"
    and "int rp + rlen \<le> int tp \<or> int tp + tlen \<le> int rp"
    and "list_all op_ok ops"
    and "buf_run conn ops (xtcp_buffered_set_tx_buffer tp tlen mark (xtcp_buffered_set_rx_buffer rp rlen s)) = (xs, s')"
  shows "given xs @ tx_unsent s' = accepted xs \<and> resends_repeat [] xs \<and> list_all2 answers ops xs"
proof -
  note fresh = fresh_bufs [OF assms(1-4), of mark s]
  from buf_run_spec [OF fresh(1) assms(5,6)] fresh show ?thesis by simp
qed

lemma buffered_transmit_stream_witness:
  "given (fst (buf_run sample_conn sample_ops sample_bufs)) @ tx_unsent (snd (buf_run sample_conn sample_ops sample_bufs))
     = accepted (fst (buf_run sample_conn sample_ops sample_bufs)) \<and>
   given (fst (buf_run sample_conn sample_ops sample_bufs)) = [7, 8, 9, 10]"
proof
  show "given (fst (buf_run sample_conn sample_ops sample_bufs)) @ tx_unsent (snd (buf_run sample_conn sample_ops sample_bufs))
     = accepted (fst (buf_run sample_conn sample_ops sample_bufs))"
    by (rule buffered_transmit_stream [where ops = sample_ops and conn = sample_conn and rlen = 1500 and tlen = 6 and rp = 0 and tp = 1500
        and mark = 2, THEN conjunct1])
      (simp_all add: sample_ops_def sample_bufs_def)
  show "given (fst (buf_run sample_conn sample_ops sample_bufs)) = [7, 8, 9, 10]"
    by (simp add: sample_run)
qed

end
