(* ===== verification/Blocking_Client.thy ===== *)
theory Blocking_Client
  imports Buffered_Client
begin

text \<open>
  The blocking API, \<^verbatim>\<open>xtcp_blocking_client.xc\<close>: waiting for the interface or a connection, writing a buffer and
  reading at least so many bytes. Each call takes events until it is done; the events the server sends are
  an argument, and the result is \<open>None\<close> when the call is still waiting after the last of them. What is left of
  the events is part of the result.
\<close>

section \<open>The calls\<close>

text \<open>\<^verbatim>\<open>xtcp_event\<close> stores the connection of the event in the variable the caller gives.\<close>

definition do_xtcp_event :: "xtcp_connection \<Rightarrow> 'a client_st_scheme \<Rightarrow> 'a client_st_scheme" where
  "do_xtcp_event conn s = take_msgs [OutEvent conn] s"

fun xtcp_wait_for_ifup :: "xtcp_connection list \<Rightarrow> 'a client_st_scheme \<Rightarrow> ('a client_st_scheme \<times> xtcp_connection list) option" where
  "xtcp_wait_for_ifup [] s = None"
| "xtcp_wait_for_ifup (conn # evs) s =
     (let s = do_xtcp_event conn s in if xc_event conn \<noteq> XTCP_IFUP then xtcp_wait_for_ifup evs s else Some (s, evs))"

fun xtcp_wait_for_connection ::
  "xtcp_connection list \<Rightarrow> 'a client_st_scheme \<Rightarrow> (xtcp_connection \<times> 'a client_st_scheme \<times> xtcp_connection list) option" where
  "xtcp_wait_for_connection [] s = None"
| "xtcp_wait_for_connection (conn # evs) s =
     (let s = do_xtcp_event conn s
      in if xc_event conn \<noteq> XTCP_NEW_CONNECTION then xtcp_wait_for_connection evs s else Some (conn, s, evs))"

text \<open>\<^verbatim>\<open>slave { tcp_svr <: 0; }\<close>: the client is not ready, and the server offers the packet again later.\<close>

definition delay_recv :: "'a client_st_scheme \<Rightarrow> 'a client_st_scheme" where
  "delay_recv s = put_tok (TokReady False) s"

fun write_loop :: "xtcp_connection list \<Rightarrow> nat \<Rightarrow> int \<Rightarrow> int \<Rightarrow> int \<Rightarrow> int \<Rightarrow> 'a client_st_scheme \<Rightarrow>
    (bool \<times> xtcp_connection \<times> 'a client_st_scheme \<times> xtcp_connection list) option" where
  "write_loop [] bp len cid index prev s = None"
| "write_loop (conn # evs) bp len cid index prev s =
     (let s = do_xtcp_event conn s in
      case xc_event conn of
        XTCP_NEW_CONNECTION \<Rightarrow> write_loop evs bp len cid index prev (xtcp_close conn s)
      | XTCP_REQUEST_DATA \<Rightarrow> (let sendlen = chunk_len (xc_mss conn) (len - index); s = xtcp_sendi bp (nat index) sendlen s
          in if sendlen = 0 then Some (True, conn, s, evs) else write_loop evs bp len cid (index + sendlen) index s)
      | XTCP_SENT_DATA \<Rightarrow> (let sendlen = chunk_len (xc_mss conn) (len - index); s = xtcp_sendi bp (nat index) sendlen s
          in if sendlen = 0 then Some (True, conn, s, evs) else write_loop evs bp len cid (index + sendlen) index s)
      | XTCP_RESEND_DATA \<Rightarrow> write_loop evs bp len cid index prev (xtcp_sendi bp (nat prev) (index - prev) s)
      | XTCP_RECV_DATA \<Rightarrow> Some (prev = len, conn, delay_recv s, evs)
      | XTCP_TIMED_OUT \<Rightarrow> if xc_id conn = cid then Some (False, conn, s, evs) else write_loop evs bp len cid index prev s
      | XTCP_ABORTED \<Rightarrow> if xc_id conn = cid then Some (False, conn, s, evs) else write_loop evs bp len cid index prev s
      | XTCP_CLOSED \<Rightarrow> if xc_id conn = cid then Some (False, conn, s, evs) else write_loop evs bp len cid index prev s
      | XTCP_IFDOWN \<Rightarrow> Some (False, conn, s, evs)
      | _ \<Rightarrow> write_loop evs bp len cid index prev s)"

definition xtcp_write :: "xtcp_connection list \<Rightarrow> xtcp_connection \<Rightarrow> nat \<Rightarrow> int \<Rightarrow> 'a client_st_scheme \<Rightarrow>
    (bool \<times> xtcp_connection \<times> 'a client_st_scheme \<times> xtcp_connection list) option" where
  "xtcp_write evs conn bp len s = write_loop evs bp len (xc_id conn) 0 0 (xtcp_init_send conn s)"

text \<open>For \<^verbatim>\<open>xtcp_read\<close> an event comes with the bytes the server then has for the client.\<close>

fun read_loop :: "(xtcp_connection \<times> u8 list) list \<Rightarrow> xtcp_connection \<Rightarrow> nat \<Rightarrow> int \<Rightarrow> int \<Rightarrow> int \<Rightarrow> 'a client_st_scheme \<Rightarrow>
    (int \<times> xtcp_connection \<times> 'a client_st_scheme \<times> (xtcp_connection \<times> u8 list) list) option" where
  "read_loop [] c bp minlen cid rlen s = (if rlen < minlen then None else Some (rlen, c, s, []))"
| "read_loop ((conn, bs) # evs) c bp minlen cid rlen s =
     (if \<not> rlen < minlen then Some (rlen, c, s, (conn, bs) # evs) else
      let s = do_xtcp_event conn s in
      case xc_event conn of
        XTCP_NEW_CONNECTION \<Rightarrow> read_loop evs conn bp minlen cid rlen (xtcp_close conn s)
      | XTCP_RECV_DATA \<Rightarrow> (let (n, s) = xtcp_recvi bs bp (nat rlen) s in read_loop evs conn bp minlen cid (rlen + n) s)
      | XTCP_REQUEST_DATA \<Rightarrow> read_loop evs conn bp minlen cid rlen (xtcp_send 0 0 s)
      | XTCP_SENT_DATA \<Rightarrow> read_loop evs conn bp minlen cid rlen (xtcp_send 0 0 s)
      | XTCP_RESEND_DATA \<Rightarrow> read_loop evs conn bp minlen cid rlen (xtcp_send 0 0 s)
      | XTCP_TIMED_OUT \<Rightarrow> if xc_id conn = cid then Some (-1, conn, s, evs) else read_loop evs conn bp minlen cid rlen s
      | XTCP_ABORTED \<Rightarrow> if xc_id conn = cid then Some (-1, conn, s, evs) else read_loop evs conn bp minlen cid rlen s
      | XTCP_CLOSED \<Rightarrow> if xc_id conn = cid then Some (-1, conn, s, evs) else read_loop evs conn bp minlen cid rlen s
      | XTCP_IFDOWN \<Rightarrow> Some (-1, conn, s, evs)
      | _ \<Rightarrow> read_loop evs conn bp minlen cid rlen s)"

definition xtcp_read :: "(xtcp_connection \<times> u8 list) list \<Rightarrow> xtcp_connection \<Rightarrow> nat \<Rightarrow> int \<Rightarrow> 'a client_st_scheme \<Rightarrow>
    (int \<times> xtcp_connection \<times> 'a client_st_scheme \<times> (xtcp_connection \<times> u8 list) list) option" where
  "xtcp_read evs conn bp minlen s = read_loop evs conn bp minlen (xc_id conn) 0 s"

section \<open>Writing\<close>

text \<open>
  The events that ask for data, and the data tokens that answer them. An answer to a request, or to the
  acknowledgement of the chunk before, is new data; an answer to a retransmission repeats the chunk before.
\<close>

definition asks :: "xtcp_connection \<Rightarrow> bool" where
  "asks c \<longleftrightarrow> xc_event c \<in> {XTCP_REQUEST_DATA, XTCP_SENT_DATA, XTCP_RESEND_DATA}"

fun data_toks :: "client_tok list \<Rightarrow> u8 list list" where
  "data_toks [] = []"
| "data_toks (TokData bs # ts) = bs # data_toks ts"
| "data_toks (t # ts) = data_toks ts"

definition answers :: "xtcp_connection list \<Rightarrow> client_tok list \<Rightarrow> (xtcp_connection \<times> u8 list) list" where
  "answers evs toks = zip (filter asks evs) (data_toks toks)"

fun new_data :: "(xtcp_connection \<times> u8 list) list \<Rightarrow> u8 list" where
  "new_data [] = []"
| "new_data ((c, bs) # as) = (if xc_event c = XTCP_RESEND_DATA then new_data as else bs @ new_data as)"

fun good_chunks :: "u8 list \<Rightarrow> (xtcp_connection \<times> u8 list) list \<Rightarrow> bool" where
  "good_chunks p [] \<longleftrightarrow> True"
| "good_chunks p ((c, bs) # as) \<longleftrightarrow> (if xc_event c = XTCP_RESEND_DATA then bs = p \<and> good_chunks p as
     else length bs \<le> unat (xc_mss c) \<and> good_chunks bs as)"

text \<open>The chunk that is to be repeated if the next event asks for a retransmission.\<close>

definition last_chunk :: "u8 list \<Rightarrow> (xtcp_connection \<times> u8 list) list \<Rightarrow> u8 list" where
  "last_chunk p as = (if as = [] then p else snd (last as))"

lemma last_chunk_simps [simp]: "last_chunk p [] = p" "last_chunk p (a # as) = last_chunk (snd a) as"
  by (simp_all add: last_chunk_def)

lemma new_data_append: "new_data (as @ bs) = new_data as @ new_data bs"
  by (induction as rule: new_data.induct) simp_all

lemma last_chunk_append: "last_chunk p (as @ bs) = last_chunk (last_chunk p as) bs"
  by (simp add: last_chunk_def)

lemma good_chunks_append: "good_chunks p (as @ bs) \<longleftrightarrow> good_chunks p as \<and> good_chunks (last_chunk p as) bs"
  by (induction p as rule: good_chunks.induct) auto

definition sent_all :: "xtcp_connection \<Rightarrow> bool" where
  "sent_all c \<longleftrightarrow> xc_event c \<in> {XTCP_REQUEST_DATA, XTCP_SENT_DATA}"

lemma data_toks_append: "data_toks (ts @ us) = data_toks ts @ data_toks us"
  by (induction ts rule: data_toks.induct) simp_all

text \<open>What a run of the loop has done, from an index and the index before it.\<close>

definition wrote :: "xtcp_connection list \<Rightarrow> nat \<Rightarrow> nat \<Rightarrow> nat \<Rightarrow> nat \<Rightarrow> 'a client_st_scheme \<Rightarrow>
    bool \<times> xtcp_connection \<times> 'a client_st_scheme \<times> xtcp_connection list \<Rightarrow> bool" where
  "wrote evs bp len index prev s r \<longleftrightarrow> (case r of (ok, c, s', rest) \<Rightarrow>
     \<exists>used toks n. evs = used @ rest \<and> c \<in> set used \<and> cmem s' = cmem s \<and> ctoks s' = ctoks s @ toks \<and>
       length (filter asks used) = length (data_toks toks) \<and>
       index + n \<le> len \<and> new_data (answers used toks) = rds (cmem s) (bp + index) n \<and>
       good_chunks (rds (cmem s) (bp + prev) (index - prev)) (answers used toks) \<and>
       (ok \<longleftrightarrow> sent_all c) \<and> (sent_all c \<longrightarrow> xc_mss c \<noteq> 0 \<longrightarrow> index + n = len) \<and>
       (sent_all c \<longrightarrow> last_chunk (rds (cmem s) (bp + prev) (index - prev)) (answers used toks) = []))"

lemma wrote_skip:
  assumes "wrote evs bp len index prev t r" and "cmem t = cmem s" and "\<exists>ts. ctoks t = ctoks s @ ts \<and> data_toks ts = []"
    and "\<not> asks c"
  shows "wrote (c # evs) bp len index prev s r"
proof -
  obtain ok c' s' rest where r: "r = (ok, c', s', rest)" by (cases r)
  from assms(1) obtain used toks n where *: "evs = used @ rest" "c' \<in> set used" "cmem s' = cmem t" "ctoks s' = ctoks t @ toks"
    "length (filter asks used) = length (data_toks toks)"
    "index + n \<le> len" "new_data (answers used toks) = rds (cmem t) (bp + index) n"
    "good_chunks (rds (cmem t) (bp + prev) (index - prev)) (answers used toks)"
    "ok \<longleftrightarrow> sent_all c'" "sent_all c' \<longrightarrow> xc_mss c' \<noteq> 0 \<longrightarrow> index + n = len"
    "sent_all c' \<longrightarrow> last_chunk (rds (cmem t) (bp + prev) (index - prev)) (answers used toks) = []" unfolding wrote_def r by auto
  from assms(3) obtain ts where ts: "ctoks t = ctoks s @ ts" "data_toks ts = []" by blast
  show ?thesis unfolding wrote_def r prod.case
    by (rule exI [of _ "c # used"], rule exI [of _ "ts @ toks"], rule exI [of _ n])
      (use * ts assms(2,4) in \<open>simp add: answers_def data_toks_append\<close>)
qed

lemma wrote_ends:
  assumes "cmem t = cmem s" and "\<exists>ts. ctoks t = ctoks s @ ts \<and> data_toks ts = []" and "\<not> asks c" and "index \<le> len" and "\<not> sent_all c"
  shows "wrote (c # evs) bp len index prev s (False, c, t, evs)"
proof -
  from assms(2) obtain ts where ts: "ctoks t = ctoks s @ ts" "data_toks ts = []" by blast
  show ?thesis unfolding wrote_def prod.case
    by (rule exI [of _ "[c]"], rule exI [of _ ts], rule exI [of _ 0]) (use ts assms in \<open>simp add: answers_def rds_def\<close>)
qed

lemma wrote_done:
  assumes "cmem t = cmem s" and "ctoks t = ctoks s @ [TokData []]" and "sent_all c" and "index \<le> len" and "min (unat (xc_mss c)) (len - index) = 0"
  shows "wrote (c # evs) bp len index prev s (True, c, t, evs)"
proof -
  have "xc_mss c \<noteq> 0 \<Longrightarrow> index = len" using assms(4,5) by (auto simp: min_def unat_eq_0 split: if_splits)
  then show ?thesis unfolding wrote_def prod.case
    by (intro exI [of _ "[c]"] exI [of _ "[TokData []]"] exI [of _ 0])
      (use assms in \<open>auto simp: answers_def asks_def sent_all_def rds_def\<close>)
qed

lemma wrote_chunk:
  assumes "wrote evs bp len (index + k) index t r" and "cmem t = cmem s" and "ctoks t = ctoks s @ [TokData (rds (cmem s) (bp + index) k)]"
    and "sent_all c" and "k \<le> unat (xc_mss c)"
  shows "wrote (c # evs) bp len index prev s r"
proof -
  obtain ok c' s' rest where r: "r = (ok, c', s', rest)" by (cases r)
  from assms(1) obtain used toks n where *: "evs = used @ rest" "c' \<in> set used" "cmem s' = cmem t" "ctoks s' = ctoks t @ toks"
    "length (filter asks used) = length (data_toks toks)"
    "index + k + n \<le> len" "new_data (answers used toks) = rds (cmem t) (bp + (index + k)) n"
    "good_chunks (rds (cmem t) (bp + index) k) (answers used toks)"
    "ok \<longleftrightarrow> sent_all c'" "sent_all c' \<longrightarrow> xc_mss c' \<noteq> 0 \<longrightarrow> index + k + n = len"
    "sent_all c' \<longrightarrow> last_chunk (rds (cmem t) (bp + index) k) (answers used toks) = []" unfolding wrote_def r by auto
  let ?p = "rds (cmem s) (bp + index) k"
  have c: "asks c" "xc_event c \<noteq> XTCP_RESEND_DATA" using assms(4) by (auto simp: asks_def sent_all_def)
  then have ans: "answers (c # used) (TokData ?p # toks) = (c, ?p) # answers used toks" by (simp add: answers_def)
  have "new_data ((c, ?p) # answers used toks) = rds (cmem s) (bp + index) (k + n)"
    using *(7) c(2) assms(2) by (simp add: rds_split add.assoc)
  moreover have "good_chunks q ((c, ?p) # answers used toks)" "sent_all c' \<Longrightarrow> last_chunk q ((c, ?p) # answers used toks) = []" for q
    using *(8,11) c(2) assms(2,5) by simp_all
  ultimately show ?thesis unfolding wrote_def r prod.case
    by (intro exI [of _ "c # used"] exI [of _ "TokData ?p # toks"] exI [of _ "k + n"])
      (use * assms(2,3,5) c(1) in \<open>simp add: ans add.assoc\<close>)
qed

lemma wrote_again:
  assumes "wrote evs bp len index prev t r" and "cmem t = cmem s"
    and "ctoks t = ctoks s @ [TokData (rds (cmem s) (bp + prev) (index - prev))]" and "xc_event c = XTCP_RESEND_DATA"
  shows "wrote (c # evs) bp len index prev s r"
proof -
  obtain ok c' s' rest where r: "r = (ok, c', s', rest)" by (cases r)
  from assms(1) obtain used toks n where *: "evs = used @ rest" "c' \<in> set used" "cmem s' = cmem t" "ctoks s' = ctoks t @ toks"
    "length (filter asks used) = length (data_toks toks)"
    "index + n \<le> len" "new_data (answers used toks) = rds (cmem t) (bp + index) n"
    "good_chunks (rds (cmem t) (bp + prev) (index - prev)) (answers used toks)"
    "ok \<longleftrightarrow> sent_all c'" "sent_all c' \<longrightarrow> xc_mss c' \<noteq> 0 \<longrightarrow> index + n = len"
    "sent_all c' \<longrightarrow> last_chunk (rds (cmem t) (bp + prev) (index - prev)) (answers used toks) = []" unfolding wrote_def r by auto
  show ?thesis unfolding wrote_def r prod.case
    by (rule exI [of _ "c # used"], rule exI [of _ "TokData (rds (cmem s) (bp + prev) (index - prev)) # toks"], rule exI [of _ n])
      (use * assms(2-4) in \<open>auto simp: answers_def asks_def sent_all_def\<close>)
qed

lemma put_sends:
  "cmem (do_xtcp_event c s) = cmem s" "ctoks (do_xtcp_event c s) = ctoks s"
  "cmem (xtcp_sendi bp i n s) = cmem s" "ctoks (xtcp_sendi bp i n s) = ctoks s @ [TokData (rds (cmem s) (bp + i) (nat n))]"
  "cmem (xtcp_close c s) = cmem s" "ctoks (xtcp_close c s) = ctoks s @ [TokCmd CMD_CLOSE (xc_id c)]"
  "cmem (delay_recv s) = cmem s" "ctoks (delay_recv s) = ctoks s @ [TokReady False]"
  by (simp_all add: do_xtcp_event_def xtcp_sendi_def xtcp_close_def send_cmd_def delay_recv_def client_simps)

lemma write_loop_wrote:
  assumes "write_loop evs bp (int len) cid (int index) (int prev) s = Some r" and "prev \<le> index" "index \<le> len" "prev < len" "len < 2 ^ 31"
  shows "wrote evs bp len index prev s r"
  using assms(1-4)
proof (induction evs arbitrary: index prev s)
  case Nil
  then show ?case by simp
next
  case (Cons c evs)
  let ?t = "do_xtcp_event c s"
  let ?k = "min (unat (xc_mss c)) (len - index)"
  have len: "chunk_len (xc_mss c) (int len - int index) = int ?k"
    using chunk_len_eq [of "len - index" "xc_mss c"] Cons.prems(3) assms(5) by (simp add: of_nat_diff)
  have skip: "wrote (c # evs) bp len index prev s r"
    if "\<not> asks c" "write_loop evs bp (int len) cid (int index) (int prev) t = Some r" "cmem t = cmem s"
      "\<exists>ts. ctoks t = ctoks s @ ts \<and> data_toks ts = []" for t
    using Cons.IH [OF that(2) Cons.prems(2-4)] that by (intro wrote_skip)
  have data: "wrote (c # evs) bp len index prev s r" if "sent_all c"
    "(if int ?k = 0 then Some (True, c, xtcp_sendi bp index (int ?k) ?t, evs)
      else write_loop evs bp (int len) cid (int index + int ?k) (int index) (xtcp_sendi bp index (int ?k) ?t)) = Some r"
  proof (cases "?k = 0")
    case True
    with that Cons.prems(3) show ?thesis
      by (auto simp: put_sends rds_def intro!: wrote_done)
  next
    case False
    with that(2) have run: "write_loop evs bp (int len) cid (int (index + ?k)) (int index) (xtcp_sendi bp index (int ?k) ?t) = Some r" by simp
    have "wrote evs bp len (index + ?k) index (xtcp_sendi bp index (int ?k) ?t) r"
      by (rule Cons.IH [OF run]) (use False Cons.prems(3) in \<open>auto simp: min_def split: if_splits\<close>)
    then show ?thesis by (rule wrote_chunk) (use that(1) in \<open>simp_all add: put_sends\<close>)
  qed
  have none: "\<exists>ts. ctoks s @ us = ctoks s @ ts \<and> data_toks ts = []" if "data_toks us = []" for us using that by blast
  note ends = wrote_ends [where c = c and s = s and index = index and len = len and bp = bp and prev = prev and evs = evs, OF _ _ _ Cons.prems(3)]
  show ?case
  proof (cases "xc_event c")
    case XTCP_REQUEST_DATA
    with Cons.prems(1) len show ?thesis by (intro data) (simp_all add: sent_all_def Let_def)
  next
    case XTCP_SENT_DATA
    with Cons.prems(1) len show ?thesis by (intro data) (simp_all add: sent_all_def Let_def)
  next
    case XTCP_RESEND_DATA
    let ?u = "xtcp_sendi bp prev (int index - int prev) ?t"
    from Cons.prems(1) XTCP_RESEND_DATA have "write_loop evs bp (int len) cid (int index) (int prev) ?u = Some r" by (simp add: Let_def)
    from Cons.IH [OF this Cons.prems(2-4)] show ?thesis
      by (rule wrote_again) (use Cons.prems(2) XTCP_RESEND_DATA in \<open>simp_all add: put_sends nat_diff_distrib\<close>)
  qed (use Cons.prems in \<open>auto simp: Let_def asks_def sent_all_def put_sends intro!: skip ends split: if_splits\<close>)
qed

text \<open>
  The blocking write is a stream: the chunks of new data given to the server, in the order in which it asked for
  them, are the first bytes of the buffer, no chunk is longer than the server allowed, a retransmission
  repeats the chunk before it, and the buffer is not changed; the call succeeds exactly when it ends with a
  request or an acknowledgement, and then all bytes of the buffer have been given to the server (if it allowed any).
\<close>

theorem blocking_write_stream:
  assumes "xtcp_write evs conn bp (int len) s = Some (ok, c, s', rest)" and "0 < len" and "len < 2 ^ 31"
  shows "\<exists>used toks n. evs = used @ rest \<and> ctoks s' = ctoks s @ TokCmd CMD_INIT_SEND (xc_id conn) # toks \<and> cmem s' = cmem s \<and>
    length (filter asks used) = length (data_toks toks) \<and> n \<le> len \<and> new_data (answers used toks) = rds (cmem s) bp n \<and>
    good_chunks [] (answers used toks) \<and> (ok \<longleftrightarrow> sent_all c) \<and> (ok \<and> xc_mss c \<noteq> 0 \<longrightarrow> n = len)"
proof -
  have init: "cmem (xtcp_init_send conn s) = cmem s" "ctoks (xtcp_init_send conn s) = ctoks s @ [TokCmd CMD_INIT_SEND (xc_id conn)]"
    by (simp_all add: xtcp_init_send_def send_cmd_def client_simps)
  have "write_loop evs bp (int len) (xc_id conn) (int 0) (int 0) (xtcp_init_send conn s) = Some (ok, c, s', rest)"
    using assms(1) by (simp add: xtcp_write_def)
  from write_loop_wrote [OF this _ _ assms(2,3)] show ?thesis
    unfolding wrote_def prod.case init by (auto simp: rds_def)
qed

text \<open>
  A response that arrives with the acknowledgement of the last chunk makes the write fail, although all of the
  buffer has been sent: the server reports received data before it reports the acknowledgement, and the position that
  is compared with the length is that of the last chunk.
\<close>

lemma blocking_write_response_fails:
  assumes "0 < len" and "len < 2 ^ 31" and "len \<le> unat (xc_mss c)" and "xc_event c = XTCP_REQUEST_DATA" and "xc_event c' = XTCP_RECV_DATA"
  shows "\<exists>s'. xtcp_write [c, c'] conn bp (int len) s = Some (False, c', s', []) \<and> data_toks (ctoks s') = data_toks (ctoks s) @ [rds (cmem s) bp len]"
  using assms chunk_len_eq [OF assms(2), of "xc_mss c"]
  by (auto simp: xtcp_write_def put_sends min_absorb2 data_toks_append xtcp_init_send_def send_cmd_def client_simps Let_def)

section \<open>Reading\<close>

definition received :: "(xtcp_connection \<times> u8 list) list \<Rightarrow> u8 list" where
  "received evs = concat (map snd (filter (\<lambda>(c, bs). xc_event c = XTCP_RECV_DATA) evs))"

definition ends_read :: "int \<Rightarrow> xtcp_connection \<Rightarrow> bool" where
  "ends_read cid c \<longleftrightarrow> xc_event c = XTCP_IFDOWN \<or> xc_event c \<in> {XTCP_TIMED_OUT, XTCP_ABORTED, XTCP_CLOSED} \<and> xc_id c = cid"

lemma received_simps [simp]:
  "received [] = []" "received ((c, bs) # evs) = (if xc_event c = XTCP_RECV_DATA then bs @ received evs else received evs)"
  by (simp_all add: received_def)

lemma recvi_fst: "fst (xtcp_recvi bs bp i s) = int (length bs)"
  by (simp add: xtcp_recvi_def)

lemma recvi_sel:
  "cmem (snd (xtcp_recvi bs bp i s)) = wrs (bp + i) bs (cmem s)"
  "cmem (xtcp_send 0 0 s) = cmem s"
  by (simp_all add: xtcp_recvi_def client_simps)

text \<open>One event of a read: it ends the call, or the call goes on with what the event has brought.\<close>

definition read_next :: "xtcp_connection \<Rightarrow> u8 list \<Rightarrow> nat \<Rightarrow> int \<Rightarrow> 'a client_st_scheme \<Rightarrow> 'a client_st_scheme" where
  "read_next c bs bp rlen s = (let s = do_xtcp_event c s in
     if xc_event c = XTCP_RECV_DATA then snd (xtcp_recvi bs bp (nat rlen) s)
     else if xc_event c = XTCP_NEW_CONNECTION then xtcp_close c s else if asks c then xtcp_send 0 0 s else s)"

lemma read_next_mem: "cmem (read_next c bs bp rlen s) =
    (if xc_event c = XTCP_RECV_DATA then wrs (bp + nat rlen) bs (cmem s) else cmem s)"
  by (simp add: read_next_def recvi_sel put_sends Let_def)

lemma read_loop_Cons:
  assumes "rlen < minlen"
  shows "read_loop ((c, bs) # evs) c0 bp minlen cid rlen s = (if ends_read cid c then Some (-1, c, do_xtcp_event c s, evs)
    else read_loop evs c bp minlen cid (rlen + int (length (received [(c, bs)]))) (read_next c bs bp rlen s))"
  using assms recvi_fst [of bs bp "nat rlen" "do_xtcp_event c s"]
  by (cases "xc_event c") (simp_all add: ends_read_def Let_def read_next_def asks_def split_beta)

lemma read_loop_read:
  assumes "read_loop evs c0 bp minlen cid (int (length got)) s = Some (r, c, s', rest)" and "rds (cmem s) bp (length got) = got"
  shows "\<exists>used. evs = used @ rest \<and> (if r = -1 then used \<noteq> [] \<and> ends_read cid (fst (last used)) else
    minlen \<le> r \<and> r = int (length (got @ received used)) \<and> rds (cmem s') bp (nat r) = got @ received used \<and>
    (used \<noteq> [] \<longrightarrow> int (length (got @ received (butlast used))) < minlen)) \<and> list_all (\<lambda>e. \<not> ends_read cid (fst e)) (butlast used)"
  using assms
proof (induction evs arbitrary: c0 got s)
  case Nil
  then show ?case by (auto split: if_splits)
next
  case (Cons e evs)
  obtain c1 bs where e: "e = (c1, bs)" by (cases e)
  show ?case
  proof (cases "int (length got) < minlen")
    case False
    with Cons.prems e show ?thesis by (auto intro!: exI [of _ "[]"])
  next
    case True
    show ?thesis
    proof (cases "ends_read cid c1")
      case True
      with Cons.prems(1) \<open>int (length got) < minlen\<close> e show ?thesis
        by (auto simp: read_loop_Cons simp del: read_loop.simps intro!: exI [of _ "[(c1, bs)]"])
    next
      case False
      let ?got = "got @ received [(c1, bs)]" and ?t = "read_next c1 bs bp (int (length got)) s"
      have run: "read_loop evs c1 bp minlen cid (int (length ?got)) ?t = Some (r, c, s', rest)"
        using Cons.prems(1) False by (simp add: read_loop_Cons [OF \<open>int (length got) < minlen\<close>] e add.assoc del: read_loop.simps)
      have mem: "rds (cmem ?t) bp (length ?got) = ?got"
        using rds_wrs_snoc [of bp "bp + length got" bs "cmem s"] Cons.prems(2) by (simp add: read_next_mem)
      from Cons.IH [OF run mem] obtain used where u: "evs = used @ rest" "if r = -1 then used \<noteq> [] \<and> ends_read cid (fst (last used)) else
        minlen \<le> r \<and> r = int (length (?got @ received used)) \<and> rds (cmem s') bp (nat r) = ?got @ received used \<and>
        (used \<noteq> [] \<longrightarrow> int (length (?got @ received (butlast used))) < minlen)" "list_all (\<lambda>e. \<not> ends_read cid (fst e)) (butlast used)"
        by blast
      have rec: "received (e # es) = received [(c1, bs)] @ received es" for es by (simp add: e)
      have goes: "\<not> ends_read cid (fst e)" using False by (simp add: e)
      show ?thesis
        by (rule exI [of _ "e # used"]) (use u goes True in \<open>auto simp: rec simp del: received_simps(2) split: if_splits\<close>)
    qed
  qed
qed

text \<open>
  C19. The blocking read: the bytes of all packets that came during the call lie in the buffer, in order and
  without gaps, and their number is returned; it is at least what was asked for, and the last packet is the one that made it so
  (the buffer needs room for one packet more than was asked for). The call returns -1 exactly at the first event that ends the connection
  or takes the interface down.
\<close>

theorem blocking_read_stream:
  assumes "xtcp_read evs conn bp minlen s = Some (r, c, s', rest)"
  shows "\<exists>used. evs = used @ rest \<and> list_all (\<lambda>e. \<not> ends_read (xc_id conn) (fst e)) (butlast used) \<and>
    (if r = -1 then used \<noteq> [] \<and> ends_read (xc_id conn) (fst (last used))
     else minlen \<le> r \<and> r = int (length (received used)) \<and> rds (cmem s') bp (nat r) = received used \<and>
       (used \<noteq> [] \<longrightarrow> int (length (received (butlast used))) < minlen))"
proof -
  have "read_loop evs conn bp minlen (xc_id conn) (int (length [])) s = Some (r, c, s', rest)"
    using assms by (simp add: xtcp_read_def)
  from read_loop_read [OF this] obtain used where "evs = used @ rest" "if r = -1 then used \<noteq> [] \<and> ends_read (xc_id conn) (fst (last used))
      else minlen \<le> r \<and> r = int (length ([] @ received used)) \<and> rds (cmem s') bp (nat r) = [] @ received used \<and>
       (used \<noteq> [] \<longrightarrow> int (length ([] @ received (butlast used))) < minlen)"
    "list_all (\<lambda>e. \<not> ends_read (xc_id conn) (fst e)) (butlast used)"
    by (auto simp: rds_def)
  then show ?thesis by (intro exI [of _ used]) (simp split: if_splits)
qed

text \<open>A read returns as soon as enough bytes have come, or the connection is gone.\<close>

lemma blocking_read_returns:
  assumes "minlen \<le> rlen + int (length (received evs)) \<or> list_ex (\<lambda>e. ends_read cid (fst e)) evs"
  shows "read_loop evs c0 bp minlen cid rlen s \<noteq> None"
  using assms
proof (induction evs arbitrary: c0 rlen s)
  case (Cons e evs)
  obtain c bs where e: "e = (c, bs)" by (cases e)
  show ?case
  proof (cases "rlen < minlen")
    case True
    then show ?thesis
      using Cons.prems Cons.IH [of "rlen + int (length (received [(c, bs)]))"]
      by (auto simp: read_loop_Cons [OF True] e simp del: read_loop.simps split: if_splits)
  qed (simp add: e)
qed simp

section \<open>Example calls\<close>

definition ev_of :: "xtcp_event \<Rightarrow> xtcp_connection" where
  "ev_of ev = sample_conn\<lparr>xc_event := ev, xc_mss := 2\<rparr>"

definition sample_client :: client_st where
  "sample_client = \<lparr>ctoks = [], cgot = [], cmem = wrs 0 [1, 2, 3] (\<lambda>_. 0)\<rparr>"

lemma sample_write:
  "\<exists>s'. xtcp_write [ev_of XTCP_REQUEST_DATA, ev_of XTCP_RESEND_DATA, ev_of XTCP_SENT_DATA, ev_of XTCP_SENT_DATA] sample_conn 0 (int 3) sample_client =
    Some (True, ev_of XTCP_SENT_DATA, s', [])"
  using chunk_len_eq [of 3 2] chunk_len_eq [of 1 2] chunk_len_eq [of 0 2]
  by (simp add: xtcp_write_def ev_of_def Let_def)

theorem blocking_write_stream_witness:
  "\<exists>s' toks. xtcp_write [ev_of XTCP_REQUEST_DATA, ev_of XTCP_RESEND_DATA, ev_of XTCP_SENT_DATA, ev_of XTCP_SENT_DATA] sample_conn 0 (int 3) sample_client =
    Some (True, ev_of XTCP_SENT_DATA, s', []) \<and> ctoks s' = TokCmd CMD_INIT_SEND 1 # toks \<and>
    new_data (answers [ev_of XTCP_REQUEST_DATA, ev_of XTCP_RESEND_DATA, ev_of XTCP_SENT_DATA, ev_of XTCP_SENT_DATA] toks) = [1, 2, 3]"
proof -
  obtain s' where run: "xtcp_write [ev_of XTCP_REQUEST_DATA, ev_of XTCP_RESEND_DATA, ev_of XTCP_SENT_DATA, ev_of XTCP_SENT_DATA] sample_conn 0 (int 3) sample_client =
    Some (True, ev_of XTCP_SENT_DATA, s', [])" using sample_write by blast
  have "rds (cmem sample_client) 0 3 = [1, 2, 3]" "ctoks sample_client = []" "xc_mss (ev_of XTCP_SENT_DATA) \<noteq> 0" "xc_id sample_conn = 1"
    by code_simp+
  with blocking_write_stream [OF run] obtain toks where "ctoks s' = TokCmd CMD_INIT_SEND 1 # toks"
    "new_data (answers [ev_of XTCP_REQUEST_DATA, ev_of XTCP_RESEND_DATA, ev_of XTCP_SENT_DATA, ev_of XTCP_SENT_DATA] toks) = [1, 2, 3]"
    by auto
  with run show ?thesis by blast
qed

lemma sample_read:
  "\<exists>s'. xtcp_read [(ev_of XTCP_POLL, []), (ev_of XTCP_RECV_DATA, [7, 8]), (ev_of XTCP_RECV_DATA, [9])] sample_conn 100 3 sample_client =
    Some (3, ev_of XTCP_RECV_DATA, s', [])"
  by (simp add: xtcp_read_def ev_of_def xtcp_recvi_def Let_def)

theorem blocking_read_stream_witness:
  "\<exists>s'. xtcp_read [(ev_of XTCP_POLL, []), (ev_of XTCP_RECV_DATA, [7, 8]), (ev_of XTCP_RECV_DATA, [9])] sample_conn 100 3 sample_client =
    Some (3, ev_of XTCP_RECV_DATA, s', []) \<and> rds (cmem s') 100 3 = [7, 8, 9]"
proof -
  obtain s' where run: "xtcp_read [(ev_of XTCP_POLL, []), (ev_of XTCP_RECV_DATA, [7, 8]), (ev_of XTCP_RECV_DATA, [9])] sample_conn 100 3 sample_client =
    Some (3, ev_of XTCP_RECV_DATA, s', [])"
    using sample_read by blast
  have "received [(ev_of XTCP_POLL, []), (ev_of XTCP_RECV_DATA, [7, 8]), (ev_of XTCP_RECV_DATA, [9])] = [7, 8, 9]" by (simp add: ev_of_def)
  with blocking_read_stream [OF run] have "rds (cmem s') 100 3 = [7, 8, 9]" by simp
  with run show ?thesis by blast
qed

end
