(* ===== verification/Xtcp_Transmit.thy ===== *)
theory Xtcp_Transmit
  imports Xtcp_Asking Xtcp_Stream Blocking_Client
begin

text \<open>
  The sending side of a connection as a stream: if the client answers as the API asks it to, what leaves on the wire is the byte stream of
  its answers, every byte at its sequence number. The last sections put this together with the blocking client.
\<close>

section \<open>Which callback a segment leads to\<close>

text \<open>
  On an established connection a segment without RST, FIN and urgent data is dropped, acknowledged again, or leads to the callback; when the flags
  say that data was acknowledged, it was all that was outstanding.
\<close>

definition seg_flags :: "u32 \<Rightarrow> bool" where
  "seg_flags f \<longleftrightarrow> (\<forall>n \<in> {2, 3, 4, 5, 6, 7}. \<not> bit f n)"

definition acks_sent :: "bool \<Rightarrow> tcp_conn \<Rightarrow> tcp_conn \<Rightarrow> bool" where
  "acks_sent a c d \<longleftrightarrow> (if a then tc_snd_nxt d = uip_add32 (tc_snd_nxt c) (tc_len c) \<and> tc_len d = 0
     else tc_snd_nxt d = tc_snd_nxt c \<and> tc_len d = tc_len c)"

lemma ack_input_conn:
  assumes "i < length (uip_conns s)" and "uip_flags s = 0"
  shows "acks_sent (bit (uip_flags (tcp_ack_input i s)) 0) (tconn s i) (tconn (tcp_ack_input i s) i)"
    and "tc_appstate (tconn (tcp_ack_input i s) i) = tc_appstate (tconn s i)"
    and "tc_initialmss (tconn (tcp_ack_input i s) i) = tc_initialmss (tconn s i)"
    and "uip_flags (tcp_ack_input i s) \<in> {0, UIP_ACKDATA}"
proof -
  have r: "tc_snd_nxt (rtt_estimate c) = tc_snd_nxt c" "tc_appstate (rtt_estimate c) = tc_appstate c"
    "tc_initialmss (rtt_estimate c) = tc_initialmss c" for c by (simp_all add: rtt_estimate_def Let_def)
  show "acks_sent (bit (uip_flags (tcp_ack_input i s)) 0) (tconn s i) (tconn (tcp_ack_input i s) i)"
    "tc_appstate (tconn (tcp_ack_input i s) i) = tc_appstate (tconn s i)"
    "tc_initialmss (tconn (tcp_ack_input i s) i) = tc_initialmss (tconn s i)"
    "uip_flags (tcp_ack_input i s) \<in> {0, UIP_ACKDATA}"
    using assms by (simp_all add: tcp_ack_input_def Let_def acks_sent_def upd_conn_def r)
qed

lemma established_accept_eq:
  assumes "uip_buf t 47 AND TCP_URG = 0" and "uip_conn t = Some i" and "i < length (uip_conns t)"
  shows "\<exists>b cs. established_accept i t = t\<lparr>uip_flags := (if b then uip_flags t OR UIP_NEWDATA else uip_flags t), uip_conns := cs\<rparr> \<and>
    length cs = length (uip_conns t) \<and> (\<forall>a c. acks_sent a c (cs ! i) = acks_sent a c (tconn t i)) \<and>
    tc_appstate (cs ! i) = tc_appstate (tconn t i) \<and> tc_tcpstateflags (cs ! i) = tc_tcpstateflags (tconn t i) \<and>
    tc_initialmss (cs ! i) = tc_initialmss (tconn t i) \<and> tc_mss (cs ! i) \<le> tc_initialmss (tconn t i)"
  using assms
  by (intro exI [of _ "0 < uip_len t \<and> tc_tcpstateflags (tconn t i) AND UIP_STOPPED = 0"] exI [of _ "uip_conns (established_accept i t)"])
    (cases t, auto simp: established_accept_def Let_def upd_conn_def uip_add_rcv_nxt_def acks_sent_def)

lemma seg_flags_or: "seg_flags f \<Longrightarrow> seg_flags (f OR UIP_NEWDATA)" "seg_flags f \<Longrightarrow> seg_flags (f OR UIP_TCP_PUSH)" "seg_flags 0" "seg_flags UIP_ACKDATA"
  by (auto simp: seg_flags_def bit_simps)

lemma keep_ack_bit: "bit (f OR UIP_NEWDATA) 0 = bit f 0" "bit (f OR UIP_TCP_PUSH) 0 = bit f 0" for f :: u32
  by (auto simp: bit_simps)

lemma receiving_state: "receiving i s \<Longrightarrow> conn_state (tconn s i) = UIP_ESTABLISHED"
  by (auto simp: receiving_def conn_state_def)

lemma receiving_call:
  assumes rec: "receiving i s"
  obtains (again) "tcp_found env i s = Some (tcp_send_ack i (s\<lparr>uip_conn := Some i, uip_flags := 0, uip_len := tcp_data_len s\<rparr>))"
  | (call) cs f where "tcp_found env i s = (if f AND (UIP_NEWDATA OR UIP_ACKDATA) \<noteq> 0
        then map_option (appsend i) (appcall env (in_order_state i cs f s))
        else Some (drop_lbl (s\<lparr>uip_conn := Some i, uip_flags := f, uip_len := tcp_data_len s, uip_conns := cs\<rparr>)))"
      "seg_flags f" "acks_sent (bit f 0) (tconn s i) (cs ! i)" "length cs = length (uip_conns s)"
      "conn_state (cs ! i) = UIP_ESTABLISHED" "tc_appstate (cs ! i) = tc_appstate (tconn s i)"
      "tc_initialmss (cs ! i) = tc_initialmss (tconn s i)" "tc_mss (cs ! i) \<le> tc_initialmss (tconn s i)"
proof -
  note fl = receiving_flags [OF rec] and est = receiving_state [OF rec]
  have i: "i < length (uip_conns s)" using rec by (simp add: receiving_def)
  define t0 where "t0 = s\<lparr>uip_conn := Some i, uip_flags := 0, uip_len := tcp_data_len s\<rparr>"
  define g where "g = uip_flags (tcp_ack_input i t0)"
  define ds where "ds = uip_conns (tcp_ack_input i t0)"
  define h where "h = (if uip_buf s 47 AND TCP_PSH \<noteq> 0 then g OR UIP_TCP_PUSH else g)"
  have t0: "i < length (uip_conns t0)" "uip_flags t0 = 0" "tconn t0 i = tconn s i" using i by (simp_all add: t0_def)
  have a: "tcp_ack_input i t0 = s\<lparr>uip_conn := Some i, uip_flags := g, uip_len := tcp_data_len s, uip_conns := ds\<rparr>"
    by (simp add: tcp_ack_input_def Let_def t0_def upd_conn_def g_def ds_def)
  have "seg_flags g" using ack_input_conn(4) [OF t0(1,2)] by (auto simp: g_def seg_flags_or(3,4))
  then have h: "seg_flags h" "bit h 0 = bit g 0" unfolding h_def by (simp_all add: keep_ack_bit seg_flags_or(2))
  have ds: "length ds = length (uip_conns s)" by (simp add: ds_def tcp_ack_input_keeps t0_def)
  define t where "t = s\<lparr>uip_conn := Some i, uip_flags := h, uip_len := tcp_data_len s, uip_conns := ds\<rparr>"
  have td: "tconn t i = tconn (tcp_ack_input i t0) i" by (simp add: t_def ds_def)
  have conn: "acks_sent (bit h 0) (tconn s i) (tconn t i)" "tc_appstate (tconn t i) = tc_appstate (tconn s i)"
    "tc_initialmss (tconn t i) = tc_initialmss (tconn s i)" "tc_tcpstateflags (tconn t i) = tc_tcpstateflags (tconn s i)"
    using ack_input_conn [OF t0(1,2)] tcp_ack_input_receiver(1) [OF t0(1)] unfolding td by (simp_all add: t0(3) h(2) g_def)
  have "tcp_found env i s = (if (0 < tcp_data_len s \<or> uip_buf s 47 AND (TCP_SYN OR TCP_FIN) \<noteq> 0) \<and> rd4 (uip_buf s) 38 \<noteq> tc_rcv_nxt (tconn s i)
      then Some (tcp_send_ack i t0) else tcp_state_switch env i (if uip_buf s 47 AND TCP_PSH \<noteq> 0
        then (tcp_ack_input i t0)\<lparr>uip_flags := uip_flags (tcp_ack_input i t0) OR UIP_TCP_PUSH\<rparr> else tcp_ack_input i t0))"
    using fl est unfolding tcp_found_def Let_def t0_def tcp_data_len_def conn_state_def by simp
  also have "(if uip_buf s 47 AND TCP_PSH \<noteq> 0
        then (tcp_ack_input i t0)\<lparr>uip_flags := uip_flags (tcp_ack_input i t0) OR UIP_TCP_PUSH\<rparr> else tcp_ack_input i t0) = t"
    unfolding a t_def h_def by (cases s) simp
  also have "tcp_state_switch env i t = tcp_established env i t"
    using est conn(4) by (simp add: tcp_state_switch_def Let_def conn_state_def)
  finally have found: "tcp_found env i s = (if (0 < tcp_data_len s \<or> uip_buf s 47 AND (TCP_SYN OR TCP_FIN) \<noteq> 0) \<and> rd4 (uip_buf s) 38 \<noteq> tc_rcv_nxt (tconn s i)
      then Some (tcp_send_ack i t0) else tcp_established env i t)" .
  obtain b cs where acc: "established_accept i t = t\<lparr>uip_flags := (if b then uip_flags t OR UIP_NEWDATA else uip_flags t), uip_conns := cs\<rparr>"
    and cs: "length cs = length (uip_conns t)" "\<forall>a c. acks_sent a c (cs ! i) = acks_sent a c (tconn t i)"
      "tc_appstate (cs ! i) = tc_appstate (tconn t i)" "tc_tcpstateflags (cs ! i) = tc_tcpstateflags (tconn t i)"
      "tc_initialmss (cs ! i) = tc_initialmss (tconn t i)" "tc_mss (cs ! i) \<le> tc_initialmss (tconn t i)"
    using established_accept_eq [of t i] fl(3) i ds by (auto simp: t_def)
  define f where "f = (if b then h OR UIP_NEWDATA else h)"
  have acc': "established_accept i t = s\<lparr>uip_conn := Some i, uip_flags := f, uip_len := tcp_data_len s, uip_conns := cs\<rparr>"
    unfolding acc by (simp add: t_def f_def)
  have io: "s\<lparr>uip_conn := Some i, uip_flags := f, uip_len := tcp_data_len s, uip_conns := cs, uip_slen := 0\<rparr> = in_order_state i cs f s"
    by (cases s) (simp add: in_order_state_def)
  have "tcp_established env i t = (if f AND (UIP_NEWDATA OR UIP_ACKDATA) \<noteq> 0
        then map_option (appsend i) (appcall env (in_order_state i cs f s))
        else Some (drop_lbl (s\<lparr>uip_conn := Some i, uip_flags := f, uip_len := tcp_data_len s, uip_conns := cs\<rparr>)))"
    using fl(2) unfolding tcp_established_def Let_def acc' by (simp add: map_conv_bind_option comp_def io t_def)
  note est = this
  have "seg_flags f" "bit f 0 = bit h 0" using h(1) by (simp_all add: f_def keep_ack_bit seg_flags_or(1))
  moreover have "conn_state (cs ! i) = UIP_ESTABLISHED" using receiving_state [OF rec] conn(4) cs(4) by (simp add: conn_state_def)
  moreover have "acks_sent (bit f 0) (tconn s i) (cs ! i)" using conn(1) cs(2) by (simp add: calculation(2))
  moreover have "length cs = length (uip_conns s)" "tc_appstate (cs ! i) = tc_appstate (tconn s i)"
    "tc_initialmss (cs ! i) = tc_initialmss (tconn s i)" "tc_mss (cs ! i) \<le> tc_initialmss (tconn s i)"
    using cs conn ds by (simp_all add: t_def)
  moreover have "tcp_found env i s = Some (tcp_send_ack i t0) \<or> tcp_found env i s = tcp_established env i t"
    unfolding found by (simp only: split: if_split) blast
  ultimately show ?thesis using again call unfolding est t0_def by metis
qed

section \<open>What leaves\<close>

text \<open>The data segment in the packet buffer after a step: its sequence number and its bytes.\<close>

definition data_segment_of :: "'a uip_st_scheme \<Rightarrow> (u32 \<times> u8 list) list" where
  "data_segment_of s = (if 40 < uip_len s then [(be32 (rd4 (uip_buf s) 38), rds (uip_buf s) 54 (unat (uip_len s - 40)))] else [])"

text \<open>The outstanding bytes of a connection: the stack has only their number.\<close>

definition outstanding :: "nat \<Rightarrow> u32 \<Rightarrow> u8 list \<Rightarrow> 'a uip_st_scheme \<Rightarrow> bool" where
  "outstanding i q out s \<longleftrightarrow> be32 (tc_snd_nxt (tconn s i)) = q \<and> tc_len (tconn s i) = of_nat (length out) \<and> length out \<le> 1472"

lemma conn_upd:
  "i < length (uip_conns s) \<Longrightarrow> tconn (upd_conn i f s) i = f (tconn s i)" "uip_conns (s\<lparr>uip_slen := n\<rparr>) = uip_conns s"
  "uip_len (upd_conn i f s) = uip_len s" "uip_slen (upd_conn i f s) = uip_slen s" "uip_flags (upd_conn i f s) = uip_flags s"
  by (simp_all add: upd_conn_def)

lemma appsend_nothing:
  assumes "i < length (uip_conns s)" and "uip_slen s = 0" and "uip_flags s AND UIP_ABORT = 0" "uip_flags s AND UIP_CLOSE = 0"
  shows "outstanding i q out (appsend i s) = outstanding i q out s" and "data_segment_of (appsend i s) = []"
  using assms by (simp_all add: appsend_def apprexmit_def Let_def conn_upd outstanding_def data_segment_of_def send_sel)

lemma appsend_ends:
  assumes "i < length (uip_conns s)" and "uip_flags s \<in> {UIP_ABORT, UIP_CLOSE}"
  shows "conn_state (tconn (appsend i s) i) \<noteq> UIP_ESTABLISHED" and "data_segment_of (appsend i s) = []"
  using assms by (auto simp: appsend_def Let_def conn_upd data_segment_of_def send_sel conn_state_def upd_conn_def)

lemma len_small: "length bs \<le> 1472 \<Longrightarrow> unat (of_nat (length bs) :: u16) = length bs"
  by (simp add: unat_of_nat take_bit_nat_eq_self)

lemma out_segment:
  assumes "uip_len s = of_nat (length bs) + 40" and "bs \<noteq> []" and "length bs \<le> 1472" and "segment_of h c (uip_buf s)"
    and "rds (uip_buf s) 54 (length bs) = bs"
  shows "data_segment_of s = [(be32 (tc_snd_nxt c), bs)]"
proof -
  have u: "unat (uip_len s) = length bs + 40"
    using assms(1,3) by (simp add: unat_word_ariths len_small)
  then have "40 < uip_len s" using assms(2) by (simp add: word_less_nat_alt)
  moreover have "uip_len s - 40 = of_nat (length bs)" using assms(1) by simp
  ultimately show ?thesis using assms(3-5) by (simp add: data_segment_of_def segment_of_def len_small)
qed

lemma appsend_answer:
  assumes i: "i < length (uip_conns s)" and slen: "uip_slen s = of_nat (length bs)" "bs \<noteq> []"
    and mss: "length bs \<le> unat (tc_mss (tconn s i))" "tc_mss (tconn s i) \<le> 1472"
    and flags: "uip_flags s AND UIP_ABORT = 0" "uip_flags s AND UIP_CLOSE = 0"
    and free: "uip_flags s AND UIP_ACKDATA \<noteq> 0 \<or> tc_len (tconn s i) = 0" and bytes: "rds (uip_buf s) 54 (length bs) = bs"
  shows "outstanding i (be32 (tc_snd_nxt (tconn s i))) bs (appsend i s)"
    and "data_segment_of (appsend i s) = [(be32 (tc_snd_nxt (tconn s i)), bs)]"
proof -
  have "unat (tc_mss (tconn s i)) \<le> 1472" using mss(2) by (simp add: word_le_nat_alt)
  with mss(1) have len: "length bs \<le> 1472" by simp
  have "uip_slen s \<le> tc_mss (tconn s i)" using mss(1) by (simp add: word_le_nat_alt slen(1) len_small [OF len])
  with free have n: "tc_len (sending_conn s i) = of_nat (length bs)"
    by (simp add: sending_conn_def slen(1) [symmetric] min_absorb1)
  have nxt: "tc_snd_nxt (sending_conn s i) = tc_snd_nxt (tconn s i)" by (simp add: sending_conn_def)
  have "0 < uip_slen s" using slen len by (simp add: word_less_nat_alt len_small)
  moreover have "0 < tc_mss (tconn s i)" using mss(1) slen(2) by (cases bs) (auto simp: word_less_nat_alt)
  ultimately have seg: "uip_conns (appsend i s) = (uip_conns s)[i := sending_conn s i]"
    "uip_len (appsend i s) = tc_len (sending_conn s i) + 40"
    "segment_of (uip_hostaddr s) (sending_conn s i) (uip_buf (appsend i s))"
    "rds (uip_buf (appsend i s)) 54 (length bs) = rds (uip_buf s) 54 (length bs)"
    using appsend_segment [OF i _ _ flags] by blast+
  show "outstanding i (be32 (tc_snd_nxt (tconn s i))) bs (appsend i s)"
    using i seg(1) n nxt len by (simp add: outstanding_def)
  from out_segment [OF _ slen(2) len seg(3)] seg(2,4) bytes n nxt
  show "data_segment_of (appsend i s) = [(be32 (tc_snd_nxt (tconn s i)), bs)]" by simp
qed

lemma apprexmit_answer:
  assumes slen: "uip_slen s = of_nat (length bs)" "bs \<noteq> []" "length bs \<le> 1472" and n: "tc_len (tconn s i) = of_nat (length bs)"
    and bytes: "rds (uip_buf s) 54 (length bs) = bs"
  shows "data_segment_of (apprexmit i s) = [(be32 (tc_snd_nxt (tconn s i)), bs)]"
proof -
  let ?u = "bput 47 (TCP_ACK OR TCP_PSH) (s\<lparr>uip_appdata := uip_sappdata s, uip_len := tc_len (tconn s i) + 40\<rparr>)"
  have "0 < uip_slen s" using slen by (simp add: word_less_nat_alt len_small)
  with n slen have eq: "apprexmit i s = tcp_send_noopts i ?u" by (simp add: apprexmit_def Let_def)
  have "rds (uip_buf ?u) 54 (length bs) = rds (uip_buf s) 54 (length bs)" by (intro rds_cong) simp
  then have b: "rds (uip_buf (tcp_send_noopts i ?u)) 54 (length bs) = bs"
    using bytes by (simp only: tcp_send_noopts_segment(4))
  have c: "tconn ?u i = tconn s i" by simp
  have "uip_len (tcp_send_noopts i ?u) = of_nat (length bs) + 40" using n by (simp add: send_sel)
  from out_segment [OF this slen(2,3) tcp_send_noopts_segment(1) b] show ?thesis unfolding eq c .
qed

section \<open>Steps of a connection\<close>

text \<open>
  What a step has asked the clients, with the answer: nothing, or one exchange, which is the last thing in the log.
\<close>

definition asked :: "nat \<Rightarrow> 'a xtcp_st_scheme \<Rightarrow> 'a xtcp_st_scheme \<Rightarrow> (xtcp_connection \<times> u8 list) list \<Rightarrow> bool" where
  "asked l s s' as \<longleftrightarrow> as = [] \<and> gifts (xlog s') = gifts (xlog s) \<or>
     (\<exists>lg c bs. as = [(c, bs)] \<and> xlog s' = lg @ [(l, OutEvent c), (l, InData bs)] \<and> gifts lg = gifts (xlog s))"

text \<open>
  The contract of a step: of the bytes that were outstanding, from sequence number \<open>q\<close> on, and the new ones, the last answer is
  outstanding now and what is before it has been acknowledged; an answer leaves at once, at its sequence number, and nothing else does.
\<close>

definition step_sends :: "nat \<Rightarrow> u32 \<Rightarrow> u8 list \<Rightarrow> (xtcp_connection \<times> u8 list) list \<Rightarrow> 'a uip_st_scheme \<Rightarrow> bool" where
  "step_sends i q out as u \<longleftrightarrow> (\<exists>ack. ack @ last_chunk out as = out @ new_data as \<and> length ack \<le> length out \<and>
     (conn_state (tconn u i) = UIP_ESTABLISHED \<longrightarrow> outstanding i (q + of_nat (length ack)) (last_chunk out as) u) \<and>
     data_segment_of u = (if as = [] \<or> last_chunk out as = [] then [] else [(q + of_nat (length ack), last_chunk out as)]))"

lemma asked_silent: "asked l s s' as \<Longrightarrow> silent s s' \<Longrightarrow> as = []"
  by (auto simp: asked_def silent_def gifts_append) (simp add: gifts_def gift_def)

lemma asked_answer:
  assumes "asked l s s' as" and "xlog s' = lg @ [(l, OutEvent c), (l, InData bs)]" and "gifts lg = gifts (xlog s)"
  shows "as = [(c, bs)]"
proof -
  have "gifts (xlog s') = gifts (xlog s) @ [(l, bs)]" using assms(2,3) by (simp add: gifts_append) (simp add: gifts_def gift_def)
  with assms(1,2) show ?thesis by (auto simp: asked_def)
qed

lemma sends_quiet:
  assumes "conn_state (tconn u i) = UIP_ESTABLISHED \<Longrightarrow> outstanding i q out u" and "data_segment_of u = []"
  shows "step_sends i q out [] u"
  using assms by (auto simp: step_sends_def intro: exI [of _ "[]"])

lemma sends_new:
  assumes "outstanding i (q + of_nat (length out)) bs u" and "data_segment_of u = (if bs = [] then [] else [(q + of_nat (length out), bs)])"
    and "xc_event c \<noteq> XTCP_RESEND_DATA"
  shows "step_sends i q out [(c, bs)] u"
  using assms by (auto simp: step_sends_def intro: exI [of _ out])

lemma sends_again:
  assumes "outstanding i q out u" and "out \<noteq> []" and "data_segment_of u = [(q, out)]" and "xc_event c = XTCP_RESEND_DATA"
  shows "step_sends i q out [(c, out)] u"
  using assms by (auto simp: step_sends_def intro: exI [of _ "[]"])

lemma outstanding_kept: "conn_kept (tconn s i) (tconn t i) \<Longrightarrow> outstanding i q out t = outstanding i q out s"
  by (simp add: outstanding_def conn_kept_def)

lemma seg_flags_off:
  assumes "seg_flags f"
  shows "f AND UIP_REXMIT = 0" "f AND UIP_POLL = 0" "f AND UIP_CLOSE = 0" "f AND UIP_ABORT = 0" "f AND UIP_CONNECTED = 0" "f AND UIP_TIMEDOUT = 0"
proof -
  have *: "f AND 2 ^ n = 0 \<longleftrightarrow> \<not> bit f n" if "n < 32" for n
    using that by (auto simp: and_exp_eq_0_iff_not_bit)
  show "f AND UIP_REXMIT = 0" "f AND UIP_POLL = 0" "f AND UIP_CLOSE = 0" "f AND UIP_ABORT = 0" "f AND UIP_CONNECTED = 0" "f AND UIP_TIMEDOUT = 0"
    using assms *[of 2] *[of 3] *[of 4] *[of 5] *[of 6] *[of 7] by (simp_all add: seg_flags_def)
qed

text \<open>New data, for a connection with nothing outstanding at sequence number \<open>q\<close>, in a callback from \<open>w\<close> to \<open>v\<close>.\<close>

lemma answer_leaves:
  assumes ans: "answered i l ev bs w v" and i: "i < length (uip_conns w)" and free: "outstanding i q [] w"
    and mss: "length bs \<le> unat (tc_mss (tconn w i))" "tc_mss (tconn w i) \<le> 1472"
    and flags: "uip_flags v AND UIP_ABORT = 0" "uip_flags v AND UIP_CLOSE = 0"
  shows "outstanding i q bs (appsend i v)" and "data_segment_of (appsend i v) = (if bs = [] then [] else [(q, bs)])"
proof -
  have v: "i < length (uip_conns v)" "conn_kept (tconn w i) (tconn v i)" "uip_buf v = wrs 54 bs (uip_buf w)"
    "uip_slen v = (if bs = [] then 0 else of_nat (length bs))" using ans i by (simp_all add: answered_def)
  have q: "tc_len (tconn v i) = 0" "be32 (tc_snd_nxt (tconn v i)) = q" "tc_mss (tconn v i) = tc_mss (tconn w i)"
    using free v(2) by (simp_all add: outstanding_def conn_kept_def)
  have "outstanding i q bs (appsend i v) \<and> data_segment_of (appsend i v) = (if bs = [] then [] else [(q, bs)])"
  proof (cases "bs = []")
    case True
    with v(4) have z: "uip_slen v = 0" by simp
    have "outstanding i q [] v" using q by (simp add: outstanding_def)
    with appsend_nothing [OF v(1) z flags] True show ?thesis by simp
  next
    case False
    have "rds (uip_buf v) 54 (length bs) = bs" by (simp add: v(3) rds_wrs)
    with appsend_answer [OF v(1) _ False _ _ flags] v(4) False q mss show ?thesis by simp
  qed
  then show "outstanding i q bs (appsend i v)" "data_segment_of (appsend i v) = (if bs = [] then [] else [(q, bs)])" by blast+
qed

lemma kept_leaves:
  assumes "sender_kept i w v" and "uip_slen w = 0" and "uip_flags w AND UIP_ABORT = 0" "uip_flags w AND UIP_CLOSE = 0"
  shows "outstanding i q out (appsend i v) = outstanding i q out w" and "data_segment_of (appsend i v) = []"
proof -
  have "i < length (uip_conns v)" "uip_slen v = 0" "uip_flags v AND UIP_ABORT = 0" "uip_flags v AND UIP_CLOSE = 0"
    "conn_kept (tconn w i) (tconn v i)"
    using assms by (simp_all add: sender_kept_def live_def packet_kept_def)
  with appsend_nothing outstanding_kept
  show "outstanding i q out (appsend i v) = outstanding i q out w" "data_segment_of (appsend i v) = []" by metis+
qed

text \<open>The segments.\<close>

definition sender_ready :: "nat \<Rightarrow> nat \<Rightarrow> 'a uip_st_scheme \<Rightarrow> bool" where
  "sender_ready i l s \<longleftrightarrow> i < length (uip_conns s) \<and> conn_state (tconn s i) = UIP_ESTABLISHED \<and> link_of i s = int l \<and>
     tc_mss (tconn s i) \<le> 1472 \<and> tc_initialmss (tconn s i) \<le> 1472"

lemma unat_mss: "unat (ucast (m :: u16) :: u32) = unat m"
proof -
  have "unat m < 2 ^ 32" by (rule less_trans [OF unat_u16_bound]) simp
  then show ?thesis by (simp add: unsigned_ucast_eq take_bit_nat_eq_self)
qed

lemma acks_outstanding:
  assumes "acks_sent a c (tconn w i)" and "outstanding i q out t" and "c = tconn t i"
  shows "if a then outstanding i (q + of_nat (length out)) [] w else outstanding i q out w"
proof -
  have "ucast (of_nat (length out) :: u16) = (of_nat (length out) :: u32)" if "length out \<le> 1472"
    unfolding word_unat_eq_iff unat_mss len_small [OF that] using that by (simp add: unat_of_nat take_bit_nat_eq_self)
  with assms show ?thesis by (auto simp: acks_sent_def outstanding_def uip_add32_be32)
qed

lemma segment_sends:
  assumes ready: "sender_ready i l t" and rec: "receiving i t" and app: "uip_appdata t = 54" "uip_sappdata t = 54"
    and run: "tcp_found (server_env e) i t = Some u" and out: "outstanding i q out t" and as: "asked l t u as" "good_chunks out as"
  shows "step_sends i q out as u"
  using rec
proof (cases rule: receiving_call [where env = "server_env e", case_names again call])
  case again
  with run have u: "u = tcp_send_ack i (t\<lparr>uip_conn := Some i, uip_flags := 0, uip_len := tcp_data_len t\<rparr>)" by simp
  then have "xlog u = xlog t" by (simp add: tcp_send_ack_def tcp_send_nodata_def tcp_send_noopts_def send_keeps_log)
  then have "as = []" using asked_silent [OF as(1)] by (simp add: silent_def)
  moreover have "outstanding i q out u" "data_segment_of u = []" using out by (simp_all add: u outstanding_def send_sel data_segment_of_def)
  ultimately show ?thesis using sends_quiet by blast
next
  case (call cs f)
  let ?w = "in_order_state i cs f t"
  have w: "tconn ?w i = cs ! i" "uip_flags ?w = f" "xlog ?w = xlog t" "uip_slen ?w = 0" "i < length (uip_conns ?w)"
    using ready call(4) by (simp_all add: in_order_state_def sender_ready_def)
  have calls: "calling i l ?w"
    using ready app call(4-6) by (simp add: calling_def live_def link_of_def in_order_state_def sender_ready_def)
  note off = seg_flags_off [OF call(2)]
  from call(3) have "acks_sent (bit f 0) (tconn t i) (tconn ?w i)" by (simp add: w)
  note acked = acks_outstanding [OF this out refl]
  have a: "f AND UIP_ACKDATA \<noteq> 0 \<longleftrightarrow> bit f 0" by (rule flag_bits(3))
  show ?thesis
  proof (cases "f AND (UIP_NEWDATA OR UIP_ACKDATA) = 0")
    case True
    with call(1) run have u: "u = drop_lbl (t\<lparr>uip_conn := Some i, uip_flags := f, uip_len := tcp_data_len t, uip_conns := cs\<rparr>)" by simp
    have "f AND UIP_ACKDATA = (f AND (UIP_NEWDATA OR UIP_ACKDATA)) AND UIP_ACKDATA" by (simp add: and.assoc)
    with True a have "\<not> bit f 0" by simp
    with acked have "outstanding i q out u" by (simp add: u outstanding_def w send_sel)
    moreover have "as = []" using asked_silent [OF as(1)] by (simp add: silent_def u send_keeps_log)
    moreover have "data_segment_of u = []" by (simp add: u data_segment_of_def send_sel)
    ultimately show ?thesis using sends_quiet by blast
  next
    case False
    with call(1) run have "map_option (appsend i) (appcall (server_env e) ?w) = Some u" by simp
    then obtain v where v: "appcall (server_env e) ?w = Some v" "u = appsend i v" unfolding map_option_eq_Some by blast
    have "uip_conn ?w = Some i" using calls by (simp add: calling_def)
    with v(1) have run': "xtcpd_appcall_conn (TcpRef i) ?w = Some v" by (simp add: appcall_server)
    have cb: "uip_flags v = uip_flags ?w \<and>
      (if app_flag UIP_ACKDATA ?w then \<exists>bs. answered i l XTCP_SENT_DATA bs ?w v else sender_kept i ?w v)"
      by (rule data_callback [OF run' calls]) (simp_all add: app_flag_def w off)
    then have flv: "uip_flags v AND UIP_ABORT = 0" "uip_flags v AND UIP_CLOSE = 0" by (simp_all add: w off)
    show ?thesis
    proof (cases "bit f 0")
      case True
      with cb a obtain bs where ans: "answered i l XTCP_SENT_DATA bs ?w v" by (auto simp: app_flag_def w)
      then obtain lg c where lg: "xlog v = lg @ [(l, OutEvent c), (l, InData bs)]" "gifts lg = gifts (xlog t)"
        "xc_event c = XTCP_SENT_DATA" "xc_mss c = ucast (tc_mss (tconn ?w i))"
        by (auto simp: answered_def exchanged_def w)
      have as': "as = [(c, bs)]" by (rule asked_answer [OF as(1) _ lg(2)]) (simp add: v(2) appsend_keeps_log lg(1))
      with as(2) lg(3,4) have "length bs \<le> unat (tc_mss (tconn ?w i))" by (simp add: unat_mss)
      moreover have "tc_mss (tconn ?w i) \<le> 1472" using call(8) ready unfolding w(1) sender_ready_def by (blast intro: order_trans)
      ultimately have "outstanding i (q + of_nat (length out)) bs u" "data_segment_of u = (if bs = [] then [] else [(q + of_nat (length out), bs)])"
        using answer_leaves [OF ans w(5) _ _ _ flv] acked True unfolding v(2) by auto
      then show ?thesis unfolding as' by (rule sends_new) (simp add: lg(3))
    next
      case False
      with cb a have kept: "sender_kept i ?w v" by (simp add: app_flag_def w)
      then have "as = []" using asked_silent [OF as(1)] by (simp add: silent_def sender_kept_def v(2) appsend_keeps_log w)
      moreover have "outstanding i q out u" "data_segment_of u = []"
        using kept_leaves [OF kept w(4)] acked False by (simp_all add: w off v(2))
      ultimately show ?thesis using sends_quiet by blast
    qed
  qed
qed

text \<open>The polls and the timer.\<close>

lemma poll_sends:
  assumes c: "calling i l w" and fl: "uip_flags w = UIP_POLL" and free: "outstanding i q [] w" and mss: "tc_mss (tconn w i) \<le> 1472"
    and run: "xtcpd_appcall_conn (TcpRef i) w = Some v" and as: "asked l w (appsend i v) as" "good_chunks [] as"
  shows "step_sends i q [] as (appsend i v)"
proof -
  obtain f where f: "f \<in> {UIP_POLL, UIP_POLL OR UIP_NEWDATA}" and p: "polled i l (w\<lparr>uip_flags := f\<rparr>) v"
    using poll_callback [OF run c fl] by blast
  let ?w = "w\<lparr>uip_flags := f\<rparr>"
  have off: "f AND UIP_ABORT = 0" "f AND UIP_CLOSE = 0" using f by auto
  have i: "i < length (uip_conns ?w)" using c by (simp add: calling_def live_def)
  have freew: "outstanding i q [] ?w" using free by (simp add: outstanding_def)
  have log: "xlog (appsend i v) = xlog v" by (rule appsend_keeps_log)
  from p consider (kept) "sender_kept i ?w v"
    | (answer) bs where "answered i l XTCP_REQUEST_DATA bs ?w v" "uip_flags v = f"
    | (shut) "silent w v" "live i v" "uip_flags v \<in> {UIP_ABORT, UIP_CLOSE}"
    by (auto simp: polled_def silent_def)
  then show ?thesis
  proof cases
    case kept
    have "as = []" using asked_silent [OF as(1)] kept by (simp add: sender_kept_def silent_def log)
    moreover have "outstanding i q [] (appsend i v)" "data_segment_of (appsend i v) = []"
      using kept_leaves [OF kept] c off freew by (simp_all add: calling_def)
    ultimately show ?thesis using sends_quiet by blast
  next
    case (answer bs)
    then obtain lg c where lg: "xlog v = lg @ [(l, OutEvent c), (l, InData bs)]" "gifts lg = gifts (xlog w)"
      "xc_event c = XTCP_REQUEST_DATA" "xc_mss c = ucast (tc_mss (tconn w i))"
      by (auto simp: answered_def exchanged_def)
    have as': "as = [(c, bs)]" by (rule asked_answer [OF as(1) _ lg(2)]) (simp add: log lg(1))
    with as(2) lg(3,4) have "length bs \<le> unat (tc_mss (tconn ?w i))" by (simp add: unat_mss)
    with answer_leaves [OF answer(1) i freew] mss off answer(2)
    have "outstanding i (q + of_nat (length [])) bs (appsend i v)" "data_segment_of (appsend i v) = (if bs = [] then [] else [(q + of_nat (length []), bs)])" by simp_all
    then show ?thesis unfolding as' by (rule sends_new) (simp add: lg(3))
  next
    case shut
    have "as = []" using asked_silent [OF as(1)] shut(1) by (simp add: silent_def log)
    moreover have "i < length (uip_conns v)" using shut(2) by (simp add: live_def)
    ultimately show ?thesis using appsend_ends [OF _ shut(3)] sends_quiet by blast
  qed
qed

lemma outstanding_nil: "outstanding i q out s \<Longrightarrow> tc_len (tconn s i) = 0 \<longleftrightarrow> out = []"
  using len_small [of out] by (auto simp: outstanding_def)

lemma poll_request_sends:
  assumes ready: "sender_ready i l t" and run: "uip_poll_conn (server_env e) i t = Some u" and out: "outstanding i q out t"
    and as: "asked l t u as" "good_chunks out as"
  shows "step_sends i q out as u"
proof -
  let ?t = "t\<lparr>uip_conn := Some i, uip_appdata := 54, uip_sappdata := 54\<rparr>"
  let ?w = "?t\<lparr>uip_flags := UIP_POLL, uip_len := 0, uip_slen := 0\<rparr>"
  have ap: "appcall (server_env e) ?w = xtcpd_appcall_conn (TcpRef i) ?w" by (rule appcall_server) simp
  have "uip_poll_conn (server_env e) i t = tcp_poll_request (server_env e) i ?t" by (simp add: uip_poll_conn_def uip_process_def)
  also have "\<dots> = (if out = [] then map_option (appsend i) (appcall (server_env e) ?w) else Some (drop_lbl ?t))"
    using ready outstanding_nil [OF out] by (simp add: tcp_poll_request_def map_conv_bind_option comp_def sender_ready_def conn_state_def)
  finally have run': "(if out = [] then map_option (appsend i) (xtcpd_appcall_conn (TcpRef i) ?w) else Some (drop_lbl ?t)) = Some u"
    using run unfolding ap by simp
  show ?thesis
  proof (cases "out = []")
    case True
    with run' obtain v where v: "xtcpd_appcall_conn (TcpRef i) ?w = Some v" "u = appsend i v" unfolding map_option_eq_Some by auto
    have "calling i l ?w" using ready by (simp add: calling_def live_def link_of_def sender_ready_def)
    moreover have "outstanding i q [] ?w" using out True by (simp add: outstanding_def)
    moreover have "tc_mss (tconn ?w i) \<le> 1472" using ready by (simp add: sender_ready_def)
    moreover have "asked l ?w (appsend i v) as" using as(1) v(2) by (simp add: asked_def)
    ultimately show ?thesis using poll_sends [OF _ _ _ _ v(1)] as(2) v(2) True by simp
  next
    case False
    with run' have u: "u = drop_lbl ?t" by simp
    have "as = []" using asked_silent [OF as(1)] by (simp add: silent_def u send_keeps_log)
    moreover have "outstanding i q out u" "data_segment_of u = []" using out by (simp_all add: u outstanding_def data_segment_of_def send_sel)
    ultimately show ?thesis using sends_quiet by blast
  qed
qed

lemma resend_leaves:
  assumes ans: "answered i l XTCP_RESEND_DATA bs w v" and i: "i < length (uip_conns w)" and out: "outstanding i q bs w" "bs \<noteq> []"
  shows "outstanding i q bs (apprexmit i v)" and "data_segment_of (apprexmit i v) = [(q, bs)]"
proof -
  have v: "conn_kept (tconn w i) (tconn v i)" "uip_buf v = wrs 54 bs (uip_buf w)" "uip_slen v = of_nat (length bs)"
    using ans out(2) by (simp_all add: answered_def)
  then have o: "outstanding i q bs v" using outstanding_kept out(1) by blast
  then show "outstanding i q bs (apprexmit i v)" by (simp add: outstanding_def send_sel)
  have "rds (uip_buf v) 54 (length bs) = bs" by (simp add: v(2) rds_wrs)
  with apprexmit_answer [OF v(3) out(2)] o show "data_segment_of (apprexmit i v) = [(q, bs)]" by (simp add: outstanding_def)
qed

lemma rexmit_run:
  assumes "conn_state (tconn w i) = UIP_ESTABLISHED" and "uip_conn w = Some i"
  shows "tcp_rexmit (server_env e) i w = map_option (apprexmit i) (xtcpd_appcall_conn (TcpRef i) (w\<lparr>uip_flags := UIP_REXMIT\<rparr>))"
  using assms appcall_server [of "w\<lparr>uip_flags := UIP_REXMIT\<rparr>" i e]
  by (simp add: tcp_rexmit_def Let_def conn_state_def map_conv_bind_option comp_def)

lemma timedout_callback:
  assumes "xtcpd_appcall_conn (TcpRef i) w = Some v" and "uip_flags w = UIP_TIMEDOUT"
  shows "silent w v"
  using assms silent.R_xtcpd_event
  by (auto simp: xtcpd_appcall_conn_def app_connected_def app_input_def app_flag_def bind_eq_Some_conv)

lemma closed_stays:
  assumes "xtcpd_appcall_conn (TcpRef i) w = Some v" and "conn_state (tconn w i) = UIP_CLOSED" and "i < length (uip_conns w)"
  shows "conn_state (tconn v i) \<noteq> UIP_ESTABLISHED"
proof -
  have "app_step (tconn w i) (tconn v i)" using stack_appcall_conn [OF assms(1)] assms(3) app_table_nth by (auto simp: stack_kept_def)
  from app_step_state [OF this] assms(2) show ?thesis by auto
qed

lemma timer_sends:
  assumes ready: "sender_ready i l t" and run: "uip_periodic (server_env e) i t = Some u" and out: "outstanding i q out t"
    and as: "asked l t u as" "good_chunks out as"
  shows "step_sends i q out as u"
proof -
  let ?s = "(xtcp_increment_word Inc_iss (t\<lparr>uip_conn := Some i, uip_appdata := 54, uip_sappdata := 54\<rparr>))\<lparr>uip_len := 0, uip_slen := 0\<rparr>"
  define s where "s = ?s"
  have s: "uip_conns s = uip_conns t" "uip_conn s = Some i" "uip_appdata s = 54" "uip_sappdata s = 54" "uip_slen s = 0" "uip_len s = 0" "xlog s = xlog t"
    by (simp_all add: s_def xtcp_increment_word_def Let_def)
  have i: "i < length (uip_conns t)" and est: "conn_state (tconn t i) = UIP_ESTABLISHED" using ready by (simp_all add: sender_ready_def)
  have st: "tc_tcpstateflags (tconn t i) \<notin> {UIP_TIME_WAIT, UIP_FIN_WAIT_2, UIP_CLOSED, UIP_SYN_SENT, UIP_SYN_RCVD}"
    using est by (auto simp: conn_state_def)
  note timer = run [unfolded periodic_timer tcp_timer_def Let_def, folded s_def]
  show ?thesis
  proof (cases "out = []")
    case True
    let ?w = "s\<lparr>uip_flags := UIP_POLL\<rparr>"
    have "appcall (server_env e) ?w = xtcpd_appcall_conn (TcpRef i) ?w" by (rule appcall_server) (simp add: s)
    with timer st est True outstanding_nil [OF out] have "map_option (appsend i) (xtcpd_appcall_conn (TcpRef i) ?w) = Some u"
      by (simp add: s conn_state_def map_conv_bind_option comp_def)
    then obtain v where v: "xtcpd_appcall_conn (TcpRef i) ?w = Some v" "u = appsend i v" unfolding map_option_eq_Some by auto
    have "calling i l ?w" using ready by (simp add: calling_def live_def link_of_def sender_ready_def s)
    moreover have "outstanding i q [] ?w" using out True by (simp add: outstanding_def s)
    moreover have "tc_mss (tconn ?w i) \<le> 1472" using ready by (simp add: sender_ready_def s)
    moreover have "asked l ?w (appsend i v) as" using as(1) v(2) by (simp add: asked_def s)
    ultimately show ?thesis using poll_sends [OF _ _ _ _ v(1)] as(2) v(2) True by simp
  next
    case False
    let ?d = "upd_conn i (\<lambda>c. c\<lparr>tc_timer := tc_timer c - 1\<rparr>) s"
    have outd: "outstanding i q out ?d" using out i by (simp add: outstanding_def upd_conn_def s)
    show ?thesis
    proof (cases "tc_timer (tconn t i) = 0")
      case notyet: False
      with timer st False outstanding_nil [OF out] have u: "u = drop_lbl ?d" by (simp add: s)
      have "as = []" using asked_silent [OF as(1)] by (simp add: silent_def u send_keeps_log upd_conn_def s)
      moreover have "outstanding i q out u" "data_segment_of u = []" using outd by (simp_all add: u outstanding_def data_segment_of_def send_sel)
      ultimately show ?thesis using sends_quiet by blast
    next
      case expired: True
      show ?thesis
      proof (cases "tc_nrtx (tconn t i) = UIP_MAXRTX")
        case True
        let ?w = "(upd_conn i (\<lambda>c. c\<lparr>tc_tcpstateflags := UIP_CLOSED\<rparr>) ?d)\<lparr>uip_flags := UIP_TIMEDOUT\<rparr>"
        have "appcall (server_env e) ?w = xtcpd_appcall_conn (TcpRef i) ?w" by (rule appcall_server) (simp add: s upd_conn_def)
        with timer st False outstanding_nil [OF out] expired True obtain v where v: "xtcpd_appcall_conn (TcpRef i) ?w = Some v"
          "u = tcp_send_nodata i (bput 47 (TCP_RST OR TCP_ACK) v)"
          by (auto simp: s bind_eq_Some_conv)
        have w: "conn_state (tconn ?w i) = UIP_CLOSED" "i < length (uip_conns ?w)" "xlog ?w = xlog t"
          using i by (simp_all add: upd_conn_def s conn_state_def)
        have "xlog u = xlog v" by (simp add: v(2) tcp_send_nodata_def tcp_send_noopts_def send_keeps_log)
        with timedout_callback [OF v(1)] w(3) have "silent t u" by (simp add: silent_def)
        then have "as = []" by (rule asked_silent [OF as(1)])
        moreover have "conn_state (tconn u i) \<noteq> UIP_ESTABLISHED" using closed_stays [OF v(1) w(1,2)] by (simp add: v(2) send_sel)
        moreover have "data_segment_of u = []" by (simp add: v(2) data_segment_of_def send_sel)
        ultimately show ?thesis using sends_quiet by blast
      next
        case nrtx: False
        let ?r = "upd_conn i (\<lambda>c. c\<lparr>tc_timer := push_bit (if 4 < tc_nrtx c then 4 else unat (tc_nrtx c)) UIP_RTO, tc_nrtx := tc_nrtx c + 1\<rparr>) ?d"
        let ?w = "?r\<lparr>uip_flags := UIP_REXMIT\<rparr>"
        have r: "conn_state (tconn ?r i) = UIP_ESTABLISHED" "uip_conn ?r = Some i" using est i by (simp_all add: upd_conn_def s conn_state_def)
        from timer st False outstanding_nil [OF out] expired nrtx have "tcp_rexmit (server_env e) i ?r = Some u" by (simp add: s)
        then obtain v where v: "xtcpd_appcall_conn (TcpRef i) ?w = Some v" "u = apprexmit i v"
          unfolding rexmit_run [OF r] map_option_eq_Some by blast
        have c: "calling i l ?w" using ready i est by (simp add: calling_def live_def link_of_def sender_ready_def s upd_conn_def conn_state_def)
        have o: "outstanding i q out ?w" "i < length (uip_conns ?w)" using out i by (simp_all add: outstanding_def s upd_conn_def)
        obtain bs where ans: "answered i l XTCP_RESEND_DATA bs ?w v" using rexmit_callback [OF v(1) c] by auto
        then obtain lg x where lg: "xlog v = lg @ [(l, OutEvent x), (l, InData bs)]" "gifts lg = gifts (xlog t)" "xc_event x = XTCP_RESEND_DATA"
          by (auto simp: answered_def exchanged_def s upd_conn_def)
        have "xlog u = xlog v" by (simp add: v(2) apprexmit_def tcp_send_noopts_def Let_def send_keeps_log)
        then have as': "as = [(x, bs)]" by (intro asked_answer [OF as(1) _ lg(2)]) (simp add: lg(1))
        with as(2) lg(3) have bs: "bs = out" by simp
        note again = resend_leaves [OF ans [unfolded bs] o(2) o(1) False]
        from sends_again [OF again(1) False again(2) lg(3)] show ?thesis unfolding as' bs v(2) .
      qed
    qed
  qed
qed

section \<open>Runs\<close>

text \<open>
  A run from \<open>s\<close>: segments for the connection, ticks of its timer and polls are processed, and in between anything happens that leaves its
  state, its send sequence number and the number of outstanding bytes alone. The lists are the
  questions to its client with the answers, and the data segments that left.
\<close>

inductive sends :: "nat \<Rightarrow> nat \<Rightarrow> 'a server_st_scheme \<Rightarrow> (xtcp_connection \<times> u8 list) list \<Rightarrow> (u32 \<times> u8 list) list \<Rightarrow> 'a server_st_scheme \<Rightarrow> bool"
  for i l s where
  start: "sends i l s [] [] s"
| segment: "sends i l s as gs t \<Longrightarrow> sender_ready i l t \<Longrightarrow> receiving i t \<Longrightarrow> uip_appdata t = 54 \<Longrightarrow> uip_sappdata t = 54 \<Longrightarrow>
    tcp_found (server_env e) i t = Some u \<Longrightarrow> asked l t u new \<Longrightarrow> sends i l s (as @ new) (gs @ data_segment_of u) u"
| timer: "sends i l s as gs t \<Longrightarrow> sender_ready i l t \<Longrightarrow> uip_periodic (server_env e) i t = Some u \<Longrightarrow> asked l t u new \<Longrightarrow>
    sends i l s (as @ new) (gs @ data_segment_of u) u"
| poll: "sends i l s as gs t \<Longrightarrow> sender_ready i l t \<Longrightarrow> uip_poll_conn (server_env e) i t = Some u \<Longrightarrow> asked l t u new \<Longrightarrow>
    sends i l s (as @ new) (gs @ data_segment_of u) u"
| other: "sends i l s as gs t \<Longrightarrow> conn_state (tconn u i) = conn_state (tconn t i) \<Longrightarrow> tc_snd_nxt (tconn u i) = tc_snd_nxt (tconn t i) \<Longrightarrow>
    tc_len (tconn u i) = tc_len (tconn t i) \<Longrightarrow> sends i l s as gs u"

text \<open>A piece of a stream that begins at sequence number \<open>q\<close>.\<close>

definition piece_of :: "u32 \<Rightarrow> u8 list \<Rightarrow> u32 \<times> u8 list \<Rightarrow> bool" where
  "piece_of q str g \<longleftrightarrow> (\<exists>n. fst g = q + of_nat n \<and> n + length (snd g) \<le> length str \<and> snd g = take (length (snd g)) (drop n str))"

lemma piece_append: "piece_of q str g \<Longrightarrow> piece_of q (str @ ms) g"
  unfolding piece_of_def by auto

text \<open>Every byte of the stream is in one of the segments.\<close>

definition all_in :: "u32 \<Rightarrow> u8 list \<Rightarrow> (u32 \<times> u8 list) list \<Rightarrow> bool" where
  "all_in q str gs \<longleftrightarrow> (\<forall>k < length str. \<exists>n d. (q + of_nat n, d) \<in> set gs \<and> n \<le> k \<and> k < n + length d)"

lemma all_in_more: "all_in q str gs \<Longrightarrow> all_in q str (gs @ hs)"
  unfolding all_in_def by (fastforce)

lemma all_in_append:
  assumes "all_in q str gs" and "(q + of_nat n, d) \<in> set gs" and "n \<le> length str" and "length str + length ms \<le> n + length d"
  shows "all_in q (str @ ms) gs"
  unfolding all_in_def
proof (intro allI impI)
  fix k assume k: "k < length (str @ ms)"
  show "\<exists>n d. (q + of_nat n, d) \<in> set gs \<and> n \<le> k \<and> k < n + length d"
  proof (cases "k < length str")
    case True
    with assms(1) show ?thesis by (simp add: all_in_def)
  next
    case False
    with assms(2-4) k show ?thesis by (intro exI [of _ n] exI [of _ d]) simp
  qed
qed

definition stream_sent :: "nat \<Rightarrow> u32 \<Rightarrow> (xtcp_connection \<times> u8 list) list \<Rightarrow> (u32 \<times> u8 list) list \<Rightarrow> 'a uip_st_scheme \<Rightarrow> bool" where
  "stream_sent i q as gs u \<longleftrightarrow> (\<forall>g \<in> set gs. piece_of q (new_data as) g) \<and> all_in q (new_data as) gs \<and>
     (\<exists>acked. new_data as = acked @ last_chunk [] as \<and>
       (conn_state (tconn u i) = UIP_ESTABLISHED \<longrightarrow> outstanding i (q + of_nat (length acked)) (last_chunk [] as) u))"

lemma stream_step:
  assumes IH: "good_chunks [] as \<Longrightarrow> stream_sent i q as gs t" and good: "good_chunks [] (as @ new)" and ready: "sender_ready i l t"
    and step: "\<And>p out. outstanding i p out t \<Longrightarrow> good_chunks out new \<Longrightarrow> step_sends i p out new u"
  shows "stream_sent i q (as @ new) (gs @ data_segment_of u) u"
proof -
  have good': "good_chunks [] as" "good_chunks (last_chunk [] as) new" using good by (simp_all add: good_chunks_append)
  let ?out = "last_chunk [] as" and ?new = "last_chunk (last_chunk [] as) new"
  from IH [OF good'(1)] ready obtain acked where a: "\<forall>g \<in> set gs. piece_of q (new_data as) g" "all_in q (new_data as) gs"
    "new_data as = acked @ ?out" "outstanding i (q + of_nat (length acked)) ?out t" by (auto simp: stream_sent_def sender_ready_def)
  from step [OF a(4) good'(2)] obtain ack where k: "ack @ ?new = ?out @ new_data new" "length ack \<le> length ?out"
    "conn_state (tconn u i) = UIP_ESTABLISHED \<Longrightarrow> outstanding i (q + of_nat (length acked) + of_nat (length ack)) ?new u"
    "data_segment_of u = (if new = [] \<or> ?new = [] then [] else [(q + of_nat (length acked) + of_nat (length ack), ?new)])"
    by (auto simp: step_sends_def)
  have whole: "new_data (as @ new) = (acked @ ack) @ ?new"
    using a(3) k(1) by (simp add: new_data_append)
  have pos: "q + of_nat (length acked) + of_nat (length ack) = q + of_nat (length (acked @ ack))" by (simp add: add.assoc)
  have "piece_of q (new_data (as @ new)) g" if "g \<in> set (data_segment_of u)" for g
    unfolding piece_of_def whole by (rule exI [of _ "length (acked @ ack)"]) (use that k(4) pos in \<open>auto split: if_splits\<close>)
  moreover have "piece_of q (new_data (as @ new)) g" if "g \<in> set gs" for g
    using that a(1) piece_append by (simp add: new_data_append)
  moreover have "all_in q (new_data (as @ new)) (gs @ data_segment_of u)"
  proof (cases "new_data new = []")
    case True
    with all_in_more [OF a(2)] show ?thesis by (simp add: new_data_append)
  next
    case False
    then have "new \<noteq> []" by auto
    moreover have "?new \<noteq> []" using k(1,2) False by (auto dest: arg_cong [of _ _ length])
    ultimately have "(q + of_nat (length (acked @ ack)), ?new) \<in> set (gs @ data_segment_of u)" using k(4) pos by simp
    from all_in_append [OF all_in_more [OF a(2)] this] show ?thesis
      using a(3) k(2) arg_cong [OF k(1), of length] by (simp add: new_data_append)
  qed
  ultimately show ?thesis unfolding stream_sent_def
    using whole k(3) pos by (intro conjI ballI exI [of _ "acked @ ack"]) (auto simp: last_chunk_append)
qed

lemma sends_stream:
  assumes "sends i l s as gs s'" and "good_chunks [] as" and "tc_len (tconn s i) = 0"
  shows "stream_sent i (be32 (tc_snd_nxt (tconn s i))) as gs s'"
  using assms(1,2)
proof induction
  case start
  show ?case using assms(3) by (simp add: stream_sent_def outstanding_def all_in_def)
next
  case (segment as gs t e u new)
  have "step_sends i p out new u" if "outstanding i p out t" "good_chunks out new" for p out
    by (rule segment_sends [OF segment.hyps(2-6) that(1) segment.hyps(7) that(2)])
  from stream_step [OF segment.IH segment.prems segment.hyps(2) this] show ?case by this
next
  case (timer as gs t e u new)
  have "step_sends i p out new u" if "outstanding i p out t" "good_chunks out new" for p out
    by (rule timer_sends [OF timer.hyps(2,3) that(1) timer.hyps(4) that(2)])
  from stream_step [OF timer.IH timer.prems timer.hyps(2) this] show ?case by this
next
  case (poll as gs t e u new)
  have "step_sends i p out new u" if "outstanding i p out t" "good_chunks out new" for p out
    by (rule poll_request_sends [OF poll.hyps(2,3) that(1) poll.hyps(4) that(2)])
  from stream_step [OF poll.IH poll.prems poll.hyps(2) this] show ?case by this
next
  case (other as gs t u)
  then show ?case by (auto simp: stream_sent_def outstanding_def)
qed

lemma ucast_small: "length bs \<le> 1472 \<Longrightarrow> ucast (of_nat (length bs) :: u16) = (of_nat (length bs) :: u32)"
  unfolding word_unat_eq_iff unat_mss len_small by (simp add: unat_of_nat take_bit_nat_eq_self)

text \<open>
  C2. TCP transmission is a byte stream: if the client answers every request and every acknowledgement with at most as many bytes as
  it is allowed, and every retransmission with the answer before, then every data segment that leaves carries, at its sequence
  number, the bytes that the new answers, put together, have at that place, and every byte of the answers leaves in one of them,
  whatever segments arrive, however often the timer expires and however often the
  connection is polled in between; and as long as the connection is established, its send sequence number and the number of
  outstanding bytes account for every byte the client has given.
\<close>

theorem sent_stream:
  assumes "sends i l s as gs s'" and "good_chunks [] as" and "tc_len (tconn s i) = 0"
  shows "(\<forall>g \<in> set gs. piece_of (be32 (tc_snd_nxt (tconn s i))) (new_data as) g) \<and>
    all_in (be32 (tc_snd_nxt (tconn s i))) (new_data as) gs \<and>
    (conn_state (tconn s' i) = UIP_ESTABLISHED \<longrightarrow>
      be32 (tc_snd_nxt (tconn s' i)) + ucast (tc_len (tconn s' i)) = be32 (tc_snd_nxt (tconn s i)) + of_nat (length (new_data as)))"
  using sends_stream [OF assms] by (auto simp: stream_sent_def outstanding_def ucast_small add.assoc)

section \<open>From the buffer of a client to the wire\<close>

lemma write_answers:
  assumes "xtcp_write evs conn bp (int len) cs = Some (True, c, cs', rest)" and "0 < len" and "len < 2 ^ 31" and "xc_mss c \<noteq> 0"
    and "evs = used @ rest" and "ctoks cs' = ctoks cs @ TokCmd CMD_INIT_SEND (xc_id conn) # toks"
  shows "new_data (answers used toks) = rds (cmem cs) bp len" and "good_chunks [] (answers used toks)" and "last_chunk [] (answers used toks) = []"
proof -
  have init: "cmem (xtcp_init_send conn cs) = cmem cs" "ctoks (xtcp_init_send conn cs) = ctoks cs @ [TokCmd CMD_INIT_SEND (xc_id conn)]"
    by (simp_all add: xtcp_init_send_def send_cmd_def client_simps)
  have "write_loop evs bp (int len) (xc_id conn) (int 0) (int 0) (xtcp_init_send conn cs) = Some (True, c, cs', rest)"
    using assms(1) by (simp add: xtcp_write_def)
  from write_loop_wrote [OF this _ _ assms(2,3)] obtain used' toks' n where w: "evs = used' @ rest"
    "ctoks cs' = ctoks cs @ TokCmd CMD_INIT_SEND (xc_id conn) # toks'" "new_data (answers used' toks') = rds (cmem cs) bp n"
    "good_chunks [] (answers used' toks')" "sent_all c" "sent_all c \<longrightarrow> xc_mss c \<noteq> 0 \<longrightarrow> n = len"
    "sent_all c \<longrightarrow> last_chunk [] (answers used' toks') = []"
    unfolding wrote_def prod.case init by (auto simp: rds_def)
  from w(1,2) assms(5,6) have "used' = used" "toks' = toks" by simp_all
  with w assms(4) show "new_data (answers used toks) = rds (cmem cs) bp len" "good_chunks [] (answers used toks)"
    "last_chunk [] (answers used toks) = []" by simp_all
qed

text \<open>
  C3. The blocking write end to end: when \<^verbatim>\<open>xtcp_write\<close> reports success, and its answers are those the connection
  has asked for, then exactly the bytes of the buffer have left in data segments, each byte at its place in the stream, and if the
  connection is still established the peer has acknowledged all of them.
\<close>

theorem blocking_write_on_the_wire:
  assumes "xtcp_write evs conn bp (int len) cs = Some (True, c, cs', rest)" and "0 < len" and "len < 2 ^ 31" and "xc_mss c \<noteq> 0"
    and "evs = used @ rest" and "ctoks cs' = ctoks cs @ TokCmd CMD_INIT_SEND (xc_id conn) # toks"
    and "sends i l s (answers used toks) gs s'" and "tc_len (tconn s i) = 0"
  shows "(\<forall>g \<in> set gs. piece_of (be32 (tc_snd_nxt (tconn s i))) (rds (cmem cs) bp len) g) \<and>
    all_in (be32 (tc_snd_nxt (tconn s i))) (rds (cmem cs) bp len) gs \<and>
    (conn_state (tconn s' i) = UIP_ESTABLISHED \<longrightarrow>
      be32 (tc_snd_nxt (tconn s' i)) = be32 (tc_snd_nxt (tconn s i)) + of_nat len \<and> tc_len (tconn s' i) = 0)"
proof -
  note w = write_answers [OF assms(1-6)]
  have "stream_sent i (be32 (tc_snd_nxt (tconn s i))) (answers used toks) gs s'" by (rule sends_stream [OF assms(7) w(2) assms(8)])
  then show ?thesis by (auto simp: stream_sent_def w(1,3) outstanding_def rds_def dest: arg_cong [of _ _ length])
qed

section \<open>An example run\<close>

text \<open>
  A connection whose client has asked to send and is allowed two bytes at a time: it is polled, and the two answers are acknowledged.
\<close>

definition sample_ask :: "xtcp_event \<Rightarrow> xtcp_connection" where
  "sample_ask ev = (xd_conn zero_xtcpd_state)\<lparr>xc_id := 7, xc_event := ev, xc_mss := 2\<rparr>"

definition sample_sender :: "u8 \<Rightarrow> u16 \<Rightarrow> int \<Rightarrow> u8 list \<Rightarrow> server_st" where
  "sample_sender q n r bs = (sample_server [(sample_slot 7 (htons 80))\<lparr>tc_snd_nxt := (0, 0, 0, q), tc_len := n, tc_mss := 2, tc_initialmss := 2,
     tc_appstate := (tc_appstate (sample_slot 7 (htons 80)))\<lparr>xd_s := (xd_s zero_xtcpd_state)\<lparr>xs_send_request := r\<rparr>\<rparr>\<rparr>]
     (answer_polls 3 0 0 2 @ [(4, Some (TokData bs))]))
     \<lparr>uip_buf := (\<lambda>_. 0)(45 := q + ucast n, 46 := 0x50, 47 := 0x10), uip_len := 40, uip_appdata := 54, uip_sappdata := 54\<rparr>"

text \<open>What a step that asks for data leaves, evaluated: the log, the segment, and the connection.\<close>

definition sample_outcome :: "server_st option \<Rightarrow> xtcp_event \<Rightarrow> u8 list \<Rightarrow> (u32 \<times> u8 list) list \<Rightarrow> u8 \<Rightarrow> u16 \<Rightarrow> bool" where
  "sample_outcome r ev bs gs q n \<longleftrightarrow> (case r of None \<Rightarrow> False | Some u \<Rightarrow>
     drop 2 (xlog u) = [(0, OutEvent (sample_ask ev)), (0, InData bs)] \<and> gifts (take 2 (xlog u)) = [] \<and> data_segment_of u = gs \<and>
     conn_state (tconn u 0) = UIP_ESTABLISHED \<and> tc_snd_nxt (tconn u 0) = (0, 0, 0, q) \<and> tc_len (tconn u 0) = n)"

lemma askedI:
  assumes "drop n (xlog u) = [(l, OutEvent c), (l, InData bs)]" and "gifts (take n (xlog u)) = []" and "xlog s = []"
  shows "asked l s u [(c, bs)]"
proof -
  have "gifts (xlog s) = []" by (simp add: assms(3) gifts_def)
  then show ?thesis unfolding asked_def using assms(1,2) by (metis append_take_drop_id)
qed

lemma sample_outcomeD:
  assumes "sample_outcome r ev bs gs q n"
  obtains u where "r = Some u" "drop 2 (xlog u) = [(0, OutEvent (sample_ask ev)), (0, InData bs)]" "gifts (take 2 (xlog u)) = []" "data_segment_of u = gs"
    "conn_state (tconn u 0) = UIP_ESTABLISHED" "tc_snd_nxt (tconn u 0) = (0, 0, 0, q)" "tc_len (tconn u 0) = n"
  using assms by (auto simp: sample_outcome_def split: option.splits)

lemma sample_outcomes:
  "sample_outcome (uip_poll_conn (server_env (sample_sender 0 0 1 [1, 2])) 0 (sample_sender 0 0 1 [1, 2])) XTCP_REQUEST_DATA [1, 2] [(0, [1, 2])] 0 2"
  "sample_outcome (tcp_found (server_env (sample_sender 0 2 0 [3])) 0 (sample_sender 0 2 0 [3])) XTCP_SENT_DATA [3] [(2, [3])] 2 1"
  "sample_outcome (tcp_found (server_env (sample_sender 2 1 0 [])) 0 (sample_sender 2 1 0 [])) XTCP_SENT_DATA [] [] 3 0"
  by code_simp+

lemma sample_ready:
  "sender_ready 0 0 (sample_sender 0 0 1 [1, 2])" "sender_ready 0 0 (sample_sender 0 2 0 [3])" "sender_ready 0 0 (sample_sender 2 1 0 [])"
  "receiving 0 (sample_sender 0 2 0 [3])" "receiving 0 (sample_sender 2 1 0 [])"
  by code_simp+

lemma sample_sender_sel:
  "tc_snd_nxt (tconn (sample_sender q n r bs) 0) = (0, 0, 0, q)" "tc_len (tconn (sample_sender q n r bs) 0) = n"
  "conn_state (tconn (sample_sender q n r bs) 0) = UIP_ESTABLISHED" "xlog (sample_sender q n r bs) = []"
  "uip_appdata (sample_sender q n r bs) = 54" "uip_sappdata (sample_sender q n r bs) = 54"
  by (simp_all add: sample_sender_def server_sample_defs conn_state_def)

definition sample_answers :: "(xtcp_connection \<times> u8 list) list" where
  "sample_answers = [(sample_ask XTCP_REQUEST_DATA, [1, 2]), (sample_ask XTCP_SENT_DATA, [3]), (sample_ask XTCP_SENT_DATA, [])]"

lemma sample_sends:
  obtains s where "sends 0 0 (sample_sender 0 0 1 [1, 2]) sample_answers [(0, [1, 2]), (2, [3])] s" "conn_state (tconn s 0) = UIP_ESTABLISHED"
    "tc_snd_nxt (tconn s 0) = (0, 0, 0, 3)" "tc_len (tconn s 0) = 0"
proof -
  let ?s = "sample_sender 0 0 1 [1, 2]" and ?t = "sample_sender 0 2 0 [3]" and ?v = "sample_sender 2 1 0 []"
  obtain s1 where s1: "uip_poll_conn (server_env ?s) 0 ?s = Some s1" "drop 2 (xlog s1) = [(0, OutEvent (sample_ask XTCP_REQUEST_DATA)), (0, InData [1, 2])]"
    "gifts (take 2 (xlog s1)) = []" "data_segment_of s1 = [(0, [1, 2])]" "conn_state (tconn s1 0) = UIP_ESTABLISHED"
    "tc_snd_nxt (tconn s1 0) = (0, 0, 0, 0)" "tc_len (tconn s1 0) = 2"
    using sample_outcomeD [OF sample_outcomes(1)] by blast
  obtain s2 where s2: "tcp_found (server_env ?t) 0 ?t = Some s2" "drop 2 (xlog s2) = [(0, OutEvent (sample_ask XTCP_SENT_DATA)), (0, InData [3])]"
    "gifts (take 2 (xlog s2)) = []" "data_segment_of s2 = [(2, [3])]" "conn_state (tconn s2 0) = UIP_ESTABLISHED"
    "tc_snd_nxt (tconn s2 0) = (0, 0, 0, 2)" "tc_len (tconn s2 0) = 1"
    using sample_outcomeD [OF sample_outcomes(2)] by blast
  obtain s3 where s3: "tcp_found (server_env ?v) 0 ?v = Some s3" "drop 2 (xlog s3) = [(0, OutEvent (sample_ask XTCP_SENT_DATA)), (0, InData [])]"
    "gifts (take 2 (xlog s3)) = []" "data_segment_of s3 = []" "conn_state (tconn s3 0) = UIP_ESTABLISHED"
    "tc_snd_nxt (tconn s3 0) = (0, 0, 0, 3)" "tc_len (tconn s3 0) = 0"
    using sample_outcomeD [OF sample_outcomes(3)] by blast
  have asked: "asked 0 ?s s1 [(sample_ask XTCP_REQUEST_DATA, [1, 2])]" "asked 0 ?t s2 [(sample_ask XTCP_SENT_DATA, [3])]"
    "asked 0 ?v s3 [(sample_ask XTCP_SENT_DATA, [])]"
    by (rule askedI [OF s1(2,3) sample_sender_sel(4)], rule askedI [OF s2(2,3) sample_sender_sel(4)], rule askedI [OF s3(2,3) sample_sender_sel(4)])
  note r1 = sends.poll [OF sends.start sample_ready(1) s1(1) asked(1)]
  have "sends 0 0 ?s ([] @ [(sample_ask XTCP_REQUEST_DATA, [1, 2])]) ([] @ data_segment_of s1) ?t"
    by (rule sends.other [OF r1]) (simp_all add: s1 sample_sender_sel)
  note r2 = sends.segment [OF this sample_ready(2,4) sample_sender_sel(5,6) s2(1) asked(2)]
  have "sends 0 0 ?s (([] @ [(sample_ask XTCP_REQUEST_DATA, [1, 2])]) @ [(sample_ask XTCP_SENT_DATA, [3])])
      (([] @ data_segment_of s1) @ data_segment_of s2) ?v"
    by (rule sends.other [OF r2]) (simp_all add: s2 sample_sender_sel)
  from sends.segment [OF this sample_ready(3,5) sample_sender_sel(5,6) s3(1) asked(3)]
  have "sends 0 0 ?s sample_answers [(0, [1, 2]), (2, [3])] s3" by (simp add: s1 s2 s3 sample_answers_def)
  with s3 that show ?thesis by blast
qed

theorem sent_stream_witness:
  "\<exists>s. sends 0 0 (sample_sender 0 0 1 [1, 2]) sample_answers [(0, [1, 2]), (2, [3])] s \<and> new_data sample_answers = [1, 2, 3] \<and>
    all_in 0 [1, 2, 3] [(0, [1, 2]), (2, [3])]"
proof -
  obtain s where s: "sends 0 0 (sample_sender 0 0 1 [1, 2]) sample_answers [(0, [1, 2]), (2, [3])] s" using sample_sends by blast
  have new: "new_data sample_answers = [1, 2, 3]" "good_chunks [] sample_answers" by code_simp+
  have "be32 (0, 0, 0, 0) = 0" by code_simp
  with sent_stream [OF s new(2)] s new(1) show ?thesis by (auto simp: sample_sender_sel)
qed

lemma sample_written:
  "case xtcp_write [sample_ask XTCP_REQUEST_DATA, sample_ask XTCP_SENT_DATA, sample_ask XTCP_SENT_DATA] sample_conn 0 (int 3) sample_client of
     Some (ok, c, s, rest) \<Rightarrow> ok \<and> c = sample_ask XTCP_SENT_DATA \<and> rest = [] \<and>
       ctoks s = [TokCmd CMD_INIT_SEND (xc_id sample_conn), TokData [1, 2], TokData [3], TokData []] | None \<Rightarrow> False"
  by code_simp


theorem blocking_write_on_the_wire_witness:
  "\<exists>cs s. xtcp_write [sample_ask XTCP_REQUEST_DATA, sample_ask XTCP_SENT_DATA, sample_ask XTCP_SENT_DATA] sample_conn 0 (int 3) sample_client =
      Some (True, sample_ask XTCP_SENT_DATA, cs, []) \<and>
    sends 0 0 (sample_sender 0 0 1 [1, 2]) sample_answers [(0, [1, 2]), (2, [3])] s \<and> be32 (tc_snd_nxt (tconn s 0)) = 3"
proof -
  let ?evs = "[sample_ask XTCP_REQUEST_DATA, sample_ask XTCP_SENT_DATA, sample_ask XTCP_SENT_DATA]"
  obtain s where s: "sends 0 0 (sample_sender 0 0 1 [1, 2]) sample_answers [(0, [1, 2]), (2, [3])] s" "conn_state (tconn s 0) = UIP_ESTABLISHED"
    using sample_sends by blast
  obtain cs where cs: "xtcp_write ?evs sample_conn 0 (int 3) sample_client = Some (True, sample_ask XTCP_SENT_DATA, cs, [])"
    "ctoks cs = ctoks sample_client @ TokCmd CMD_INIT_SEND (xc_id sample_conn) # [TokData [1, 2], TokData [3], TokData []]"
    using sample_written by (auto simp: sample_client_def split: option.splits)
  have ans: "answers ?evs [TokData [1, 2], TokData [3], TokData []] = sample_answers"
    by (simp add: answers_def asks_def sample_ask_def sample_answers_def)
  have "xc_mss (sample_ask XTCP_SENT_DATA) \<noteq> 0" "be32 (0, 0, 0, 0) = 0" by code_simp+
  with blocking_write_on_the_wire [OF cs(1) _ _ _ _ cs(2), of ?evs] s ans cs(1)
  show ?thesis by (fastforce simp: sample_sender_sel)
qed

end
