(* ===== verification/Tftp.thy ===== *)
theory Tftp
  imports Xtcp_Client "HOL-Library.Sublist"
begin

text \<open>
  The TFTP server of \<^verbatim>\<open>module_tftp\<close>: the packets of \<^verbatim>\<open>tftp_support.c\<close> and the event handler of
  \<^verbatim>\<open>tftp.xc\<close>, a client of the xtcp server. The byte-order functions of \<^verbatim>\<open>nettypes.h\<close>, which is not part
  of the repository, and the callbacks of the application are parameters. The lemmas show which data blocks
  reach the application.
\<close>

section \<open>Environment and state\<close>

datatype app_call = TransferBegin | DataBlock "u8 list" int | TransferComplete | TransferError

text \<open>
  \<open>hton16\<close> and \<open>ntoh16\<close> convert between a number and the two bytes of an \<^verbatim>\<open>n16_t\<close>; \<open>app_answer\<close> is what a
  callback returns, given all calls so far, itself included.
\<close>

record tftp_env =
  hton16 :: "u16 \<Rightarrow> u8 \<times> u8"
  ntoh16 :: "u8 \<times> u8 \<Rightarrow> u16"
  app_answer :: "app_call list \<Rightarrow> int"

datatype tftp_mode = TFTP_IDLE | TFTP_WAITING_FOR_CONNECTION | TFTP_WAITING_FOR_DATA | TFTP_SENDING_ACK | TFTP_COMPLETE

text \<open>
  The static variables. There are two variables with the name \<^verbatim>\<open>prev_block_num\<close>: \<open>poll_block_num\<close> is the
  one of \<^verbatim>\<open>tftp.xc\<close>, which the timeout uses, \<open>prev_block_num\<close> the one of \<^verbatim>\<open>tftp_support.c\<close>.
\<close>

record tftp_st = client_st +
  tftp_state :: tftp_mode
  local_tid :: u16
  block_num :: u16
  poll_block_num :: u16
  prev_block_num :: u16
  num_tx_bytes :: int
  tftp_conn :: xtcp_connection
  signal_error :: bool
  signal_complete :: bool
  app_calls :: "app_call list"

abbreviation (input) "TFTP_DEFAULT_PORT \<equiv> 69 :: int"
abbreviation (input) "TFTP_BLOCK_SIZE \<equiv> 512 :: int"
abbreviation (input) "TFTP_MAX_FILE_SIZE \<equiv> 128 * 1024 :: int"
abbreviation (input) "TFTP_MIN_PKT_SIZE \<equiv> 4 :: int"
abbreviation (input) "TFTP_RX_BUFFER_SIZE \<equiv> 516 :: int"
abbreviation (input) "TFTP_OPCODE_RRQ \<equiv> 1 :: u16"
abbreviation (input) "TFTP_OPCODE_WRQ \<equiv> 2 :: u16"
abbreviation (input) "TFTP_OPCODE_DATA \<equiv> 3 :: u16"
abbreviation (input) "TFTP_OPCODE_ACK \<equiv> 4 :: u16"
abbreviation (input) "TFTP_OPCODE_ERROR \<equiv> 5 :: u16"
abbreviation (input) "TFTP_ERROR_NOT_DEFINED \<equiv> 0 :: u16"
abbreviation (input) "TFTP_ERROR_ACCESS_VIOLATION \<equiv> 2 :: u16"
abbreviation (input) "TFTP_ERROR_DISK_FULL \<equiv> 3 :: u16"
abbreviation (input) "TFTP_ERROR_ILLEGAL_OPERATION \<equiv> 4 :: u16"

text \<open>The arrays \<^verbatim>\<open>tx_buffer\<close> (29 bytes) and \<^verbatim>\<open>rx_buffer\<close> (516 bytes) in the memory of the client.\<close>

abbreviation (input) "TX_BUF \<equiv> 0 :: nat"
abbreviation (input) "RX_BUF \<equiv> 32 :: nat"

definition ascii :: "string \<Rightarrow> u8 list" where
  "ascii = map of_char"

definition wr_n16 :: "tftp_env \<Rightarrow> nat \<Rightarrow> u16 \<Rightarrow> mem \<Rightarrow> mem" where
  "wr_n16 e p v m = (case hton16 e v of (a, b) \<Rightarrow> wrs p [a, b] m)"

definition rd_n16 :: "tftp_env \<Rightarrow> nat \<Rightarrow> mem \<Rightarrow> u16" where
  "rd_n16 e p m = ntoh16 e (m p, m (p + 1))"

definition call_app :: "app_call \<Rightarrow> 'a tftp_st_scheme \<Rightarrow> 'a tftp_st_scheme" where
  "call_app c s = s\<lparr>app_calls := app_calls s @ [c]\<rparr>"

section \<open>Packets\<close>

definition tftp_make_ack_pkt :: "tftp_env \<Rightarrow> u16 \<Rightarrow> 'a tftp_st_scheme \<Rightarrow> int \<times> 'a tftp_st_scheme" where
  "tftp_make_ack_pkt e block s =
     (TFTP_MIN_PKT_SIZE, s\<lparr>cmem := wr_n16 e (TX_BUF + 2) block (wr_n16 e TX_BUF TFTP_OPCODE_ACK (cmem s))\<rparr>)"

definition tftp_make_error_pkt :: "tftp_env \<Rightarrow> u16 \<Rightarrow> string \<Rightarrow> bool \<Rightarrow> 'a tftp_st_scheme \<Rightarrow> int \<times> 'a tftp_st_scheme" where
  "tftp_make_error_pkt e code msg error s =
     (let s = (if error then s\<lparr>signal_error := True\<rparr> else s)
      in (TFTP_MIN_PKT_SIZE + int (length msg) + 1,
          s\<lparr>cmem := wrs (TX_BUF + 4) (ascii msg @ [0]) (wr_n16 e (TX_BUF + 2) code (wr_n16 e TX_BUF TFTP_OPCODE_ERROR (cmem s)))\<rparr>))"

definition tftp_process_app_error :: "tftp_env \<Rightarrow> 'a tftp_st_scheme \<Rightarrow> int \<times> 'a tftp_st_scheme" where
  "tftp_process_app_error e = tftp_make_error_pkt e TFTP_ERROR_NOT_DEFINED ''Application error'' False"

text \<open>
  \<^verbatim>\<open>strlen (p)\<close> and \<^verbatim>\<open>strncmp (p, lit, strlen (lit)) == 0\<close> on the receive buffer, which ends at \<open>e\<close>: reading
  past it is \<open>None\<close>.
\<close>

definition c_strlen :: "mem \<Rightarrow> nat \<Rightarrow> nat \<Rightarrow> nat option" where
  "c_strlen m e p = first_idx (\<lambda>b. b = 0) (rds m p (e - p))"

fun c_starts :: "mem \<Rightarrow> nat \<Rightarrow> nat \<Rightarrow> u8 list \<Rightarrow> bool option" where
  "c_starts m e p [] = Some True"
| "c_starts m e p (c # cs) =
     (if e \<le> p then None else if m p \<noteq> c then Some False else c_starts m e (p + 1) cs)"

definition process_wrq :: "tftp_env \<Rightarrow> 'a tftp_st_scheme \<Rightarrow> (int \<times> 'a tftp_st_scheme) option" where
  "process_wrq e s =
     (let filename = RX_BUF + 2; rx_end = RX_BUF + 516 in do {
        named \<leftarrow> c_starts (cmem s) rx_end filename (ascii ''upgrade.bin'');
        if \<not> named then Some (tftp_make_error_pkt e TFTP_ERROR_NOT_DEFINED ''Invalid filename'' True s)
        else do {
          n \<leftarrow> c_strlen (cmem s) rx_end filename;
          octet \<leftarrow> c_starts (cmem s) rx_end (filename + n + 1) (ascii ''octet'');
          if \<not> octet then Some (tftp_make_error_pkt e TFTP_ERROR_NOT_DEFINED ''Invalid transfer mode'' True s)
          else Some (tftp_make_ack_pkt e 0 s)
        }
      })"

definition process_data :: "tftp_env \<Rightarrow> int \<Rightarrow> 'a tftp_st_scheme \<Rightarrow> int \<times> 'a tftp_st_scheme" where
  "process_data e num_bytes s =
     (let s = (if num_bytes < TFTP_BLOCK_SIZE + TFTP_MIN_PKT_SIZE then s\<lparr>signal_complete := True\<rparr> else s);
          block = rd_n16 e (RX_BUF + 2) (cmem s);
          s = s\<lparr>block_num := block\<rparr>
      in if uint block = uint (prev_block_num s) + 1
         then let s = s\<lparr>prev_block_num := block\<rparr>
              in if TFTP_MAX_FILE_SIZE \<le> uint block * TFTP_BLOCK_SIZE
                 then tftp_make_error_pkt e TFTP_ERROR_DISK_FULL '''' True s
                 else let n = num_bytes - TFTP_MIN_PKT_SIZE;
                          s = call_app (DataBlock (rds (cmem s) (RX_BUF + 4) (nat n)) n) s
                      in if app_answer e (app_calls s) \<noteq> 0
                         then tftp_make_error_pkt e TFTP_ERROR_ACCESS_VIOLATION '''' True s
                         else tftp_make_ack_pkt e block s
         else tftp_make_ack_pkt e block s)"

definition tftp_process_packet :: "tftp_env \<Rightarrow> int \<Rightarrow> 'a tftp_st_scheme \<Rightarrow> (int \<times> 'a tftp_st_scheme) option" where
  "tftp_process_packet e num_bytes s =
     (let opcode = rd_n16 e RX_BUF (cmem s)
      in if opcode = TFTP_OPCODE_RRQ
         then Some (tftp_make_error_pkt e TFTP_ERROR_NOT_DEFINED ''Read not supported'' True s)
         else if opcode = TFTP_OPCODE_WRQ then process_wrq e s
         else if opcode = TFTP_OPCODE_DATA then Some (process_data e num_bytes s)
         else if opcode = TFTP_OPCODE_ACK then Some (tftp_make_error_pkt e TFTP_ERROR_ILLEGAL_OPERATION '''' True s)
         else if opcode = TFTP_OPCODE_ERROR then Some (-1, s)
         else Some (tftp_make_error_pkt e TFTP_ERROR_ILLEGAL_OPERATION '''' True s))"

section \<open>Events\<close>

definition no_conn :: "xtcp_connection \<Rightarrow> xtcp_connection" where
  "no_conn c = c\<lparr>xc_id := -1\<rparr>"

definition tftp_init :: "'a tftp_st_scheme \<Rightarrow> 'a tftp_st_scheme" where
  "tftp_init s = xtcp_listen TFTP_DEFAULT_PORT XTCP_PROTOCOL_UDP
     (s\<lparr>signal_error := False, signal_complete := False, block_num := 0, poll_block_num := 0,
        num_tx_bytes := 0, tftp_conn := no_conn (tftp_conn s)\<rparr>)"

definition tftp_close :: "xtcp_connection \<Rightarrow> 'a tftp_st_scheme \<Rightarrow> 'a tftp_st_scheme" where
  "tftp_close conn s = (xtcp_close conn s)\<lparr>tftp_conn := no_conn (tftp_conn s), signal_error := False,
     signal_complete := False, block_num := 0, poll_block_num := 0, num_tx_bytes := 0\<rparr>"

definition on_ifdown :: "xtcp_connection \<Rightarrow> 'a tftp_st_scheme \<Rightarrow> 'a tftp_st_scheme" where
  "on_ifdown conn s =
     (if tftp_state s = TFTP_WAITING_FOR_DATA \<or> tftp_state s = TFTP_SENDING_ACK
      then tftp_close conn (call_app TransferError s) else s)"

definition on_new_connection :: "tftp_env \<Rightarrow> xtcp_connection \<Rightarrow> 'a tftp_st_scheme \<Rightarrow> 'a tftp_st_scheme" where
  "on_new_connection e conn s =
     (if tftp_state s = TFTP_WAITING_FOR_CONNECTION \<and> uint (xc_local_port conn) = TFTP_DEFAULT_PORT
      then let s = s\<lparr>tftp_conn := conn\<rparr>;
               s = s\<lparr>local_tid := local_tid s + 1\<rparr>;
               s = xtcp_bind_local (tftp_conn s) (uint (local_tid s)) s;
               s = call_app TransferBegin s;
               (sent, s) = (if app_answer e (app_calls s) \<noteq> 0
                 then let (n, s) = tftp_process_app_error e s; s = s\<lparr>num_tx_bytes := n, signal_error := True\<rparr>
                      in if 0 < num_tx_bytes s
                         then (True, (xtcp_init_send conn s)\<lparr>tftp_state := TFTP_SENDING_ACK\<rparr>) else (False, s)
                 else (False, s))
           in if sent then s
              else let s = s\<lparr>tftp_conn := conn\<rparr>;
                       s = xtcp_set_poll_interval (tftp_conn s) (3 * 1000) s;
                       s = xtcp_bind_local (tftp_conn s) (uint (local_tid s)) s
                   in s\<lparr>tftp_state := TFTP_WAITING_FOR_DATA\<rparr>
      else s)"

definition on_recv_data :: "tftp_env \<Rightarrow> xtcp_connection \<Rightarrow> u8 list \<Rightarrow> 'a tftp_st_scheme \<Rightarrow> 'a tftp_st_scheme option" where
  "on_recv_data e conn bs s =
     (let (response_len, s) = xtcp_recv_count bs RX_BUF TFTP_RX_BUFFER_SIZE s
      in if tftp_state s = TFTP_WAITING_FOR_DATA \<and> xc_id conn = xc_id (tftp_conn s)
         then do {
           (n, s) \<leftarrow> tftp_process_packet e response_len s;
           let s = s\<lparr>num_tx_bytes := n\<rparr>
           in Some (if 0 < num_tx_bytes s
                then (xtcp_init_send conn s)\<lparr>tftp_state := TFTP_SENDING_ACK\<rparr>
                else (tftp_close conn (call_app TransferError s))\<lparr>tftp_state := TFTP_WAITING_FOR_CONNECTION\<rparr>)
         }
         else Some s)"

definition on_sent_data :: "xtcp_connection \<Rightarrow> 'a tftp_st_scheme \<Rightarrow> 'a tftp_st_scheme" where
  "on_sent_data conn s =
     (let s = (xtcp_complete_send s)\<lparr>num_tx_bytes := 0\<rparr>
      in if signal_error s
         then (tftp_close conn (call_app TransferError s))\<lparr>tftp_state := TFTP_WAITING_FOR_CONNECTION\<rparr>
         else if signal_complete s
         then (tftp_close conn (call_app TransferComplete s))\<lparr>tftp_state := TFTP_COMPLETE\<rparr>
         else s\<lparr>tftp_state := TFTP_WAITING_FOR_DATA\<rparr>)"

definition on_poll :: "'a tftp_st_scheme \<Rightarrow> 'a tftp_st_scheme" where
  "on_poll s =
     (if tftp_state s = TFTP_WAITING_FOR_DATA \<and> poll_block_num s = block_num s
      then (tftp_close (tftp_conn s) s)\<lparr>tftp_state := TFTP_WAITING_FOR_CONNECTION\<rparr>
      else s\<lparr>poll_block_num := block_num s\<rparr>)"

text \<open>The handler. \<open>bs\<close> is the data of an \<^verbatim>\<open>XTCP_RECV_DATA\<close> event.\<close>

definition tftp_handle_event :: "tftp_env \<Rightarrow> xtcp_connection \<Rightarrow> u8 list \<Rightarrow> 'a tftp_st_scheme \<Rightarrow> 'a tftp_st_scheme option" where
  "tftp_handle_event e conn bs s =
     (if tftp_state s = TFTP_COMPLETE then Some s
      else if xc_event conn \<noteq> XTCP_IFUP \<and> xc_event conn \<noteq> XTCP_IFDOWN \<and>
        uint (xc_local_port conn) \<noteq> TFTP_DEFAULT_PORT \<and> uint (xc_local_port conn) \<noteq> uint (local_tid s) then Some s
      else case xc_event conn of
        XTCP_IFUP \<Rightarrow> Some (s\<lparr>tftp_state := TFTP_WAITING_FOR_CONNECTION\<rparr>)
      | XTCP_IFDOWN \<Rightarrow> Some (on_ifdown conn s)
      | XTCP_NEW_CONNECTION \<Rightarrow> Some (on_new_connection e conn s)
      | XTCP_RECV_DATA \<Rightarrow> on_recv_data e conn bs s
      | XTCP_REQUEST_DATA \<Rightarrow> Some (if tftp_state s = TFTP_SENDING_ACK \<and> 0 < num_tx_bytes s then xtcp_send TX_BUF (num_tx_bytes s) s else s)
      | XTCP_RESEND_DATA \<Rightarrow> Some (if tftp_state s = TFTP_SENDING_ACK \<and> 0 < num_tx_bytes s then xtcp_send TX_BUF (num_tx_bytes s) s else s)
      | XTCP_SENT_DATA \<Rightarrow> Some (on_sent_data conn s)
      | XTCP_POLL \<Rightarrow> Some (on_poll s)
      | _ \<Rightarrow> Some s)"

fun tftp_run :: "tftp_env \<Rightarrow> (xtcp_connection \<times> u8 list) list \<Rightarrow> 'a tftp_st_scheme \<Rightarrow> 'a tftp_st_scheme option" where
  "tftp_run e [] s = Some s"
| "tftp_run e ((conn, bs) # evs) s = do { s \<leftarrow> tftp_handle_event e conn bs s; tftp_run e evs s }"

section \<open>Which blocks reach the application\<close>

fun blocks_of :: "app_call list \<Rightarrow> (u8 list \<times> int) list" where
  "blocks_of [] = []"
| "blocks_of (DataBlock bs n # cs) = (bs, n) # blocks_of cs"
| "blocks_of (_ # cs) = blocks_of cs"

definition blocks :: "'a tftp_st_scheme \<Rightarrow> (u8 list \<times> int) list" where
  "blocks s = blocks_of (app_calls s)"

text \<open>A DATA packet with the block number \<open>k\<close>, and what the application gets of it.\<close>

definition is_block :: "tftp_env \<Rightarrow> nat \<Rightarrow> u8 list \<Rightarrow> bool" where
  "is_block e k p \<longleftrightarrow> ntoh16 e (p ! 0, p ! 1) = TFTP_OPCODE_DATA \<and> unat (ntoh16 e (p ! 2, p ! 3)) = k"

definition payload :: "u8 list \<Rightarrow> u8 list \<times> int" where
  "payload p = (drop 4 p, int (length p) - 4)"

named_theorems tftp_simps \<open>the progress of the transfer under the operations of the server\<close>

lemma blocks_of_append: "blocks_of (xs @ ys) = blocks_of xs @ blocks_of ys"
  by (induction xs rule: blocks_of.induct) simp_all

lemma blocks_call [tftp_simps]:
  "blocks (call_app TransferBegin s) = blocks s" "blocks (call_app TransferComplete s) = blocks s"
  "blocks (call_app TransferError s) = blocks s" "blocks (call_app (DataBlock bs n) s) = blocks s @ [(bs, n)]"
  "prev_block_num (call_app c s) = prev_block_num s"
  by (simp_all add: blocks_def call_app_def blocks_of_append)

text \<open>The client's calls and the changes of the other variables leave both alone.\<close>

lemma tftp_sel [tftp_simps]:
  "app_calls (put_tok t s) = app_calls s" "app_calls (take_msgs ms s) = app_calls s"
  "prev_block_num (put_tok t s) = prev_block_num s" "prev_block_num (take_msgs ms s) = prev_block_num s"
  "tftp_state (put_tok t s) = tftp_state s" "tftp_state (take_msgs ms s) = tftp_state s"
  "local_tid (put_tok t s) = local_tid s" "local_tid (take_msgs ms s) = local_tid s"
  "block_num (put_tok t s) = block_num s" "block_num (take_msgs ms s) = block_num s"
  "num_tx_bytes (put_tok t s) = num_tx_bytes s" "num_tx_bytes (take_msgs ms s) = num_tx_bytes s"
  "tftp_conn (put_tok t s) = tftp_conn s" "tftp_conn (take_msgs ms s) = tftp_conn s"
  "signal_error (put_tok t s) = signal_error s" "signal_error (take_msgs ms s) = signal_error s"
  "signal_complete (put_tok t s) = signal_complete s" "signal_complete (take_msgs ms s) = signal_complete s"
  "blocks (put_tok t s) = blocks s" "blocks (take_msgs ms s) = blocks s"
  by (simp_all add: put_tok_def take_msgs_def blocks_def)

lemma blocks_upd [tftp_simps]:
  "blocks (s\<lparr>cmem := m\<rparr>) = blocks s" "blocks (s\<lparr>tftp_state := st\<rparr>) = blocks s" "blocks (s\<lparr>local_tid := t\<rparr>) = blocks s"
  "blocks (s\<lparr>block_num := b\<rparr>) = blocks s" "blocks (s\<lparr>poll_block_num := b\<rparr>) = blocks s" "blocks (s\<lparr>prev_block_num := b\<rparr>) = blocks s"
  "blocks (s\<lparr>num_tx_bytes := n\<rparr>) = blocks s" "blocks (s\<lparr>tftp_conn := c\<rparr>) = blocks s"
  "blocks (s\<lparr>signal_error := v\<rparr>) = blocks s" "blocks (s\<lparr>signal_complete := v\<rparr>) = blocks s"
  by (simp_all add: blocks_def)

lemma error_pkt_progress [tftp_simps]:
  "tftp_make_error_pkt e code msg err s = (n, t) \<Longrightarrow> blocks t = blocks s \<and> prev_block_num t = prev_block_num s"
  by (auto simp: tftp_make_error_pkt_def Let_def tftp_simps)

lemma ack_pkt_progress [tftp_simps]:
  "tftp_make_ack_pkt e b s = (n, t) \<Longrightarrow> blocks t = blocks s \<and> prev_block_num t = prev_block_num s"
  by (auto simp: tftp_make_ack_pkt_def tftp_simps)

lemma close_progress [tftp_simps]:
  "blocks (tftp_close conn s) = blocks s" "prev_block_num (tftp_close conn s) = prev_block_num s"
  by (simp_all add: tftp_close_def tftp_simps cmd_defs)

text \<open>Only a packet that is processed as DATA makes progress.\<close>

lemma process_data_progress:
  assumes "process_data e n s = (k, t)"
  shows "(blocks t = blocks s \<and> (prev_block_num t = prev_block_num s \<or>
        unat (prev_block_num t) = unat (prev_block_num s) + 1 \<and> 256 \<le> unat (prev_block_num t))) \<or>
    (blocks t = blocks s @ [(rds (cmem s) (RX_BUF + 4) (nat (n - 4)), n - 4)] \<and> prev_block_num t = rd_n16 e (RX_BUF + 2) (cmem s) \<and>
      unat (prev_block_num t) = unat (prev_block_num s) + 1 \<and> unat (prev_block_num t) < 256)"
proof -
  have uint: "uint b = uint p + 1 \<longleftrightarrow> unat b = unat p + 1" for b p :: u16
    unfolding uint_nat by linarith
  have max: "128 * 1024 \<le> uint b * 512 \<longleftrightarrow> 256 \<le> unat b" for b :: u16
    unfolding uint_nat by linarith
  from assms show ?thesis
    unfolding process_data_def Let_def uint max
    by (auto simp: tftp_simps dest!: error_pkt_progress ack_pkt_progress split: if_splits)
qed

lemma process_wrq_progress:
  "process_wrq e s = Some (k, t) \<Longrightarrow> blocks t = blocks s \<and> prev_block_num t = prev_block_num s"
  by (auto simp: process_wrq_def Let_def bind_eq_Some_conv dest: error_pkt_progress ack_pkt_progress split: if_splits)

text \<open>
  \<open>unat (prev_block_num s)\<close> counts the blocks passed on, except that the block with number 256 is counted
  and rejected because the file is too large.
\<close>

definition counted :: "'a tftp_st_scheme \<Rightarrow> bool" where
  "counted s \<longleftrightarrow> length (blocks s) < 256 \<and>
     (unat (prev_block_num s) = length (blocks s) \<or> unat (prev_block_num s) = 256 \<and> length (blocks s) = 255 \<or>
      256 < unat (prev_block_num s))"

definition advance :: "tftp_env \<Rightarrow> u8 list \<Rightarrow> 'a tftp_st_scheme \<Rightarrow> 'a tftp_st_scheme \<Rightarrow> bool" where
  "advance e bs s t \<longleftrightarrow> counted t \<and> (blocks t = blocks s \<or>
     blocks t = blocks s @ [payload bs] \<and> is_block e (length (blocks s) + 1) bs)"

lemma advance_same: "counted s \<Longrightarrow> blocks t = blocks s \<Longrightarrow> prev_block_num t = prev_block_num s \<Longrightarrow> advance e bs s t"
  by (simp add: advance_def counted_def)

lemma rds_received: "length bs \<le> n \<Longrightarrow> k < length bs \<Longrightarrow> wrs p bs m (p + k) = bs ! k"
  by (simp add: wrs_apply)

lemma process_packet_advance:
  assumes c: "counted s" and len: "4 \<le> length bs" "length bs \<le> 516" and mem: "cmem s = wrs RX_BUF bs m"
    and run: "tftp_process_packet e (int (length bs)) s = Some (k, t)"
  shows "advance e bs s t"
proof -
  have bytes: "rd_n16 e RX_BUF (cmem s) = ntoh16 e (bs ! 0, bs ! 1)" "rd_n16 e (RX_BUF + 2) (cmem s) = ntoh16 e (bs ! 2, bs ! 3)"
    using len by (auto simp: rd_n16_def mem wrs_apply)
  have data: "rds (cmem s) (RX_BUF + 4) (nat (int (length bs) - 4)) = drop 4 bs"
    using len by (intro nth_equalityI) (auto simp: mem wrs_apply)
  let ?op = "rd_n16 e RX_BUF (cmem s)"
  show ?thesis
  proof (cases "?op = TFTP_OPCODE_DATA")
    case True
    with run have "process_data e (int (length bs)) s = (k, t)" by (simp add: tftp_process_packet_def Let_def)
    from process_data_progress [OF this] True c show ?thesis
      unfolding bytes data by (auto simp: advance_def counted_def is_block_def payload_def)
  next
    case False
    with run have "blocks t = blocks s \<and> prev_block_num t = prev_block_num s"
      by (auto simp: tftp_process_packet_def Let_def dest: error_pkt_progress process_wrq_progress split: if_splits)
    with c show ?thesis by (simp add: advance_same)
  qed
qed

lemma new_connection_progress:
  "blocks (on_new_connection e conn s) = blocks s \<and> prev_block_num (on_new_connection e conn s) = prev_block_num s"
  by (auto simp: on_new_connection_def tftp_process_app_error_def Let_def tftp_simps cmd_defs split: prod.splits if_splits
      dest!: error_pkt_progress)

lemma recv_data_advance:
  assumes c: "counted s" and len: "4 \<le> length bs" "length bs \<le> 516" and run: "on_recv_data e conn bs s = Some t"
  shows "advance e bs s t"
proof -
  define u where "u = take_msgs [OutRecv bs, OutCt] (put_tok (TokReady True) s)\<lparr>cmem := wrs RX_BUF bs (cmem s)\<rparr>"
  have recv: "xtcp_recv_count bs RX_BUF TFTP_RX_BUFFER_SIZE s = (int (length bs), u)"
    using len by (simp add: xtcp_recv_count_def u_def)
  have u: "blocks u = blocks s" "prev_block_num u = prev_block_num s" "tftp_state u = tftp_state s" "tftp_conn u = tftp_conn s"
      "cmem u = wrs RX_BUF bs (cmem s)" "counted u"
    using c by (simp_all add: u_def tftp_simps counted_def)
  show ?thesis
  proof (cases "tftp_state u = TFTP_WAITING_FOR_DATA \<and> xc_id conn = xc_id (tftp_conn u)")
    case True
    with run recv obtain n v where v: "tftp_process_packet e (int (length bs)) u = Some (n, v)"
      and t: "blocks t = blocks v \<and> prev_block_num t = prev_block_num v"
      by (auto simp: on_recv_data_def Let_def bind_eq_Some_conv tftp_simps cmd_defs split: if_splits)
    from process_packet_advance [OF u(6) len u(5) v] t u(1) show ?thesis by (simp add: advance_def counted_def)
  next
    case False
    with run recv have "t = u" by (auto simp: on_recv_data_def)
    with c u show ?thesis by (simp add: advance_same)
  qed
qed

lemma handle_event_advance:
  assumes c: "counted s" and len: "xc_event conn = XTCP_RECV_DATA \<Longrightarrow> 4 \<le> length bs \<and> length bs \<le> 516"
    and run: "tftp_handle_event e conn bs s = Some t"
  shows "advance e bs s t"
proof (cases "xc_event conn = XTCP_RECV_DATA")
  case True
  with run c len recv_data_advance [of s bs e conn t] show ?thesis
    by (auto simp: tftp_handle_event_def advance_same split: if_splits)
next
  case False
  with run have "blocks t = blocks s \<and> prev_block_num t = prev_block_num s"
    by (cases "xc_event conn")
      (auto simp: tftp_handle_event_def on_ifdown_def on_sent_data_def on_poll_def Let_def tftp_simps cmd_defs
        xtcp_complete_send_def client_simps new_connection_progress split: if_splits)
  with c show ?thesis by (simp add: advance_same)
qed

lemma tftp_run_blocks:
  assumes "counted s" and "\<forall>(c, bs) \<in> set evs. xc_event c = XTCP_RECV_DATA \<longrightarrow> 4 \<le> length bs \<and> length bs \<le> 516"
    and "tftp_run e evs s = Some t"
  shows "\<exists>ps. subseq ps (map snd evs) \<and> blocks t = blocks s @ map payload ps \<and> counted t \<and>
    (\<forall>k < length ps. is_block e (length (blocks s) + k + 1) (ps ! k))"
  using assms
proof (induction evs arbitrary: s)
  case (Cons ev evs)
  obtain conn bs where ev: "ev = (conn, bs)" by (cases ev)
  from Cons.prems(3) obtain u where u: "tftp_handle_event e conn bs s = Some u" "tftp_run e evs u = Some t"
    by (auto simp: ev bind_eq_Some_conv)
  have adv: "advance e bs s u" using Cons.prems(2) by (intro handle_event_advance [OF Cons.prems(1) _ u(1)]) (auto simp: ev)
  then obtain ps where ps: "subseq ps (map snd evs)" "blocks t = blocks u @ map payload ps" "counted t"
    "\<forall>k < length ps. is_block e (length (blocks u) + k + 1) (ps ! k)"
    using Cons.IH [of u] Cons.prems(2) u(2) by (auto simp: advance_def)
  show ?case
  proof (cases "blocks u = blocks s")
    case True
    with ps show ?thesis by (intro exI [of _ ps]) (auto simp: ev)
  next
    case False
    with adv have u': "blocks u = blocks s @ [payload bs]" "is_block e (length (blocks s) + 1) bs"
      by (auto simp: advance_def)
    with ps show ?thesis
      by (intro exI [of _ "bs # ps"]) (auto simp: ev less_Suc_eq_0_disj)
  qed
qed (auto intro: exI [of _ "[]"])

section \<open>A complete transfer\<close>

text \<open>The number formats agree, as \<^verbatim>\<open>nettypes.h\<close> documents, and every callback succeeds.\<close>

definition good_env :: "tftp_env \<Rightarrow> bool" where
  "good_env e \<longleftrightarrow> (\<forall>v. ntoh16 e (hton16 e v) = v) \<and> (\<forall>h. app_answer e h = 0)"

definition n16 :: "tftp_env \<Rightarrow> u16 \<Rightarrow> u8 list" where
  "n16 e v = (case hton16 e v of (a, b) \<Rightarrow> [a, b])"

definition ack_packet :: "tftp_env \<Rightarrow> u16 \<Rightarrow> u8 list" where
  "ack_packet e k = n16 e TFTP_OPCODE_ACK @ n16 e k"

definition data_packet :: "tftp_env \<Rightarrow> u16 \<Rightarrow> u8 list \<Rightarrow> u8 list" where
  "data_packet e k d = n16 e TFTP_OPCODE_DATA @ n16 e k @ d"

definition write_request :: "tftp_env \<Rightarrow> u8 list" where
  "write_request e = n16 e TFTP_OPCODE_WRQ @ ascii ''upgrade.bin'' @ [0] @ ascii ''octet'' @ [0]"

lemma length_n16 [simp]: "length (n16 e v) = 2"
  by (simp add: n16_def split: prod.split)

lemma wr_n16_wrs: "wr_n16 e p v = wrs p (n16 e v)"
  by (simp add: wr_n16_def n16_def fun_eq_iff split: prod.split)

text \<open>The answer to a packet, and the events that deliver it.\<close>

definition round :: "xtcp_connection \<Rightarrow> u8 list \<Rightarrow> (xtcp_connection \<times> u8 list) list" where
  "round c p = [(c\<lparr>xc_event := XTCP_RECV_DATA\<rparr>, p), (c\<lparr>xc_event := XTCP_REQUEST_DATA\<rparr>, []), (c\<lparr>xc_event := XTCP_SENT_DATA\<rparr>, [])]"

definition round_tokens :: "xtcp_connection \<Rightarrow> u8 list \<Rightarrow> client_tok list" where
  "round_tokens c reply = [TokReady True, TokCmd CMD_INIT_SEND (xc_id c), TokData reply, TokData []]"

text \<open>The server waits for the next packet of the connection \<open>c\<close>.\<close>

definition waiting_for :: "xtcp_connection \<Rightarrow> 'a tftp_st_scheme \<Rightarrow> bool" where
  "waiting_for c s \<longleftrightarrow> tftp_state s = TFTP_WAITING_FOR_DATA \<and> xc_id (tftp_conn s) = xc_id c \<and>
     \<not> signal_error s \<and> \<not> signal_complete s \<and> uint (xc_local_port c) = uint (local_tid s)"

lemma waiting_port: "waiting_for c s \<Longrightarrow> uint (xc_local_port c) = uint (local_tid s)"
  by (simp add: waiting_for_def)

text \<open>The common part of the two rounds: the reply of four bytes is sent, and the exchange is completed.\<close>

lemma round_run:
  fixes s :: "'a tftp_st_scheme"
  assumes w: "waiting_for c s" and len: "length p \<le> 516"
    and u: "u = take_msgs [OutRecv p, OutCt] (put_tok (TokReady True) s)\<lparr>cmem := wrs RX_BUF p (cmem s)\<rparr>"
    and run: "tftp_process_packet e (int (length p)) u = Some (4, v)"
    and v: "\<not> signal_error v" "local_tid v = local_tid s" "tftp_conn v = tftp_conn s" "ctoks v = ctoks u"
  shows "\<exists>t. tftp_run e (round c p) s = Some t \<and>
    prev_block_num t = prev_block_num v \<and>
    app_calls t = app_calls v @ (if signal_complete v then [TransferComplete] else []) \<and>
    ctoks t = ctoks s @ round_tokens c (rds (cmem v) TX_BUF 4) @ (if signal_complete v then [TokCmd CMD_CLOSE (xc_id c)] else []) \<and>
    (if signal_complete v then tftp_state t = TFTP_COMPLETE else waiting_for c t)"
proof -
  note port = waiting_port [OF w]
  have state: "tftp_state s = TFTP_WAITING_FOR_DATA" "xc_id c = xc_id (tftp_conn s)" "\<not> signal_error s"
    using w by (simp_all add: waiting_for_def)
  define a where "a = (xtcp_init_send c (v\<lparr>num_tx_bytes := 4\<rparr>))\<lparr>tftp_state := TFTP_SENDING_ACK\<rparr>"
  have init: "xtcp_init_send (c\<lparr>xc_event := ev\<rparr>) = xtcp_init_send c" "tftp_close (c\<lparr>xc_event := ev\<rparr>) = tftp_close c" for ev
    by (simp_all add: fun_eq_iff cmd_defs tftp_close_def)
  have sent: "on_sent_data (c\<lparr>xc_event := ev\<rparr>) = on_sent_data c" for ev
    by (simp add: fun_eq_iff on_sent_data_def init cong: if_cong)
  have recv: "xtcp_recv_count p RX_BUF TFTP_RX_BUFFER_SIZE s = (int (length p), u)"
    using len by (simp add: xtcp_recv_count_def u)
  have first: "tftp_handle_event e (c\<lparr>xc_event := XTCP_RECV_DATA\<rparr>) p s = Some a"
    using state port run unfolding tftp_handle_event_def on_recv_data_def recv
    by (simp add: Let_def a_def init u tftp_simps)
  have sel: "tftp_state a = TFTP_SENDING_ACK" "local_tid a = local_tid s" "num_tx_bytes a = 4"
      "signal_error a = signal_error v" "signal_complete a = signal_complete v" "tftp_conn a = tftp_conn s" "cmem a = cmem v"
      "app_calls a = app_calls v" "prev_block_num a = prev_block_num v" "ctoks a = ctoks s @ [TokReady True, TokCmd CMD_INIT_SEND (xc_id c)]"
    using v by (simp_all add: a_def cmd_defs tftp_simps client_simps u)
  define b where "b = xtcp_send TX_BUF 4 a"
  have second: "tftp_handle_event e (c\<lparr>xc_event := XTCP_REQUEST_DATA\<rparr>) [] a = Some b"
    using port by (simp add: tftp_handle_event_def sel b_def)
  have third: "tftp_handle_event e (c\<lparr>xc_event := XTCP_SENT_DATA\<rparr>) [] b = Some (on_sent_data c b)"
    using port by (simp add: tftp_handle_event_def b_def client_simps tftp_simps sel sent)
  have "tftp_run e (round c p) s = Some (on_sent_data c b)"
    by (simp add: round_def first second third)
  moreover have "rds m 0 0 = []" for m :: mem by (simp add: rds_def)
  ultimately show ?thesis
    using v(1) w by (auto simp: on_sent_data_def Let_def b_def client_simps tftp_simps sel xtcp_complete_send_def tftp_close_def cmd_defs
        call_app_def round_tokens_def waiting_for_def)
qed

lemma ack_sent: "rds (wr_n16 e 2 k (wr_n16 e 0 TFTP_OPCODE_ACK m)) 0 4 = ack_packet e k"
  by (rule nth_equalityI) (auto simp: wr_n16_wrs wrs_apply ack_packet_def nth_append)

text \<open>The request to write the image is acknowledged with block 0.\<close>

lemma write_request_round:
  fixes s :: "'a tftp_st_scheme"
  assumes e: "good_env e" and w: "waiting_for c s"
  shows "\<exists>t. tftp_run e (round c (write_request e)) s = Some t \<and> waiting_for c t \<and>
    prev_block_num t = prev_block_num s \<and> app_calls t = app_calls s \<and>
    ctoks t = ctoks s @ round_tokens c (ack_packet e 0)"
proof -
  obtain a b where op: "hton16 e TFTP_OPCODE_WRQ = (a, b)" "ntoh16 e (a, b) = TFTP_OPCODE_WRQ"
    using e by (cases "hton16 e TFTP_OPCODE_WRQ") (auto simp: good_env_def dest: spec [of _ TFTP_OPCODE_WRQ])
  let ?p = "write_request e"
  let ?file = "ascii ''upgrade.bin''" and ?mode = "ascii ''octet''"
  have p: "?p = [a, b] @ ?file @ [0] @ ?mode @ [0]" by (simp add: write_request_def n16_def op)
  define u where "u = take_msgs [OutRecv ?p, OutCt] (put_tok (TokReady True) s)\<lparr>cmem := wrs RX_BUF ?p (cmem s)\<rparr>"
  have mem: "cmem u = wrs RX_BUF ?p (cmem s)" by (simp add: u_def)
  have rd: "rd_n16 e RX_BUF (cmem u) = TFTP_OPCODE_WRQ" by (simp add: mem p rd_n16_def op wrs_apply)
  define v where "v = u\<lparr>cmem := wr_n16 e 2 0 (wr_n16 e 0 TFTP_OPCODE_ACK (cmem u))\<rparr>"
  have "c_starts (cmem u) (RX_BUF + 516) (RX_BUF + 2) ?file = Some True"
    by (simp add: mem p ascii_def wrs_apply)
  moreover have "c_strlen (cmem u) (RX_BUF + 516) (RX_BUF + 2) = Some 11"
  proof -
    have cases: "j = 0 \<or> j = 1 \<or> j = 2 \<or> j = 3 \<or> j = 4 \<or> j = 5 \<or> j = 6 \<or> j = 7 \<or> j = 8 \<or> j = 9 \<or> j = 10" if "j < 11" for j :: nat
      using that by presburger
    have "cmem u (34 + j) \<noteq> 0" if "j < 11" for j
      using cases [OF that] by (elim disjE) (simp_all add: mem p ascii_def wrs_apply)
    moreover have "cmem u (34 + 11) = 0" by (simp add: mem p ascii_def wrs_apply)
    ultimately show ?thesis by (simp add: c_strlen_def first_idx_Some)
  qed
  moreover have "c_starts (cmem u) (RX_BUF + 516) (RX_BUF + 2 + 11 + 1) ?mode = Some True"
    by (simp add: mem p ascii_def wrs_apply)
  ultimately have run: "tftp_process_packet e (int (length ?p)) u = Some (4, v)"
    by (simp add: tftp_process_packet_def rd process_wrq_def tftp_make_ack_pkt_def v_def numeral_2_eq_2)
  have v: "\<not> signal_error v" "local_tid v = local_tid s" "tftp_conn v = tftp_conn s" "ctoks v = ctoks u"
      "signal_complete v = False" "prev_block_num v = prev_block_num s" "app_calls v = app_calls s" "rds (cmem v) 0 4 = ack_packet e 0"
    using w by (simp_all add: v_def u_def tftp_simps waiting_for_def ack_sent)
  have "length ?p \<le> 516" by (simp add: p ascii_def)
  from round_run [OF w this u_def run v(1-4)] show ?thesis unfolding v(5-8) by auto
qed

lemma data_packet_read:
  assumes "good_env e" and mem: "m = wrs RX_BUF (data_packet e k d) m'"
  shows "rd_n16 e RX_BUF m = TFTP_OPCODE_DATA" "rd_n16 e (RX_BUF + 2) m = k" "rds m (RX_BUF + 4) (length d) = d"
    "length (data_packet e k d) = 4 + length d"
proof -
  obtain a b where op: "hton16 e TFTP_OPCODE_DATA = (a, b)" "ntoh16 e (a, b) = TFTP_OPCODE_DATA"
    using assms(1) by (cases "hton16 e TFTP_OPCODE_DATA") (auto simp: good_env_def dest: spec [of _ TFTP_OPCODE_DATA])
  obtain x y where blk: "hton16 e k = (x, y)" "ntoh16 e (x, y) = k"
    using assms(1) by (cases "hton16 e k") (auto simp: good_env_def dest: spec [of _ k])
  have p: "data_packet e k d = [a, b, x, y] @ d" by (simp add: data_packet_def n16_def op blk)
  show "rd_n16 e RX_BUF m = TFTP_OPCODE_DATA" "rd_n16 e (RX_BUF + 2) m = k" "rds m (RX_BUF + 4) (length d) = d"
    "length (data_packet e k d) = 4 + length d"
    by (auto simp: mem p rd_n16_def wrs_apply op blk intro!: nth_equalityI)
qed

text \<open>A block with the next number is passed on and acknowledged; a short one ends the transfer.\<close>

lemma data_round:
  fixes s :: "'a tftp_st_scheme"
  assumes e: "good_env e" and w: "waiting_for c s" and k: "unat k = unat (prev_block_num s) + 1" "unat k < 256" and d: "length d \<le> 512"
  shows "\<exists>t. tftp_run e (round c (data_packet e k d)) s = Some t \<and> prev_block_num t = k \<and>
    app_calls t = app_calls s @ [DataBlock d (int (length d))] @ (if length d < 512 then [TransferComplete] else []) \<and>
    ctoks t = ctoks s @ round_tokens c (ack_packet e k) @ (if length d < 512 then [TokCmd CMD_CLOSE (xc_id c)] else []) \<and>
    (if length d < 512 then tftp_state t = TFTP_COMPLETE else waiting_for c t)"
proof -
  let ?p = "data_packet e k d"
  define u where "u = take_msgs [OutRecv ?p, OutCt] (put_tok (TokReady True) s)\<lparr>cmem := wrs RX_BUF ?p (cmem s)\<rparr>"
  have mem: "cmem u = wrs RX_BUF ?p (cmem s)" by (simp add: u_def)
  note rd = data_packet_read [OF e mem]
  define v where "v = (if length d < 512 then u\<lparr>signal_complete := True\<rparr> else u)\<lparr>block_num := k, prev_block_num := k,
    app_calls := app_calls u @ [DataBlock d (int (length d))],
    cmem := wr_n16 e 2 k (wr_n16 e 0 TFTP_OPCODE_ACK (cmem u))\<rparr>"
  have u: "prev_block_num u = prev_block_num s" "signal_complete u = signal_complete s" "signal_error u = signal_error s"
      "app_calls u = app_calls s" "local_tid u = local_tid s" "tftp_conn u = tftp_conn s"
    by (simp_all add: u_def tftp_simps)
  have uint: "uint k = uint (prev_block_num s) + 1" "uint k < 256" using k unfolding uint_nat by linarith+
  have "process_data e (int (length ?p)) u = (4, v)"
    using e rd d uint u
    by (cases "length d < 512") (simp_all add: process_data_def Let_def v_def call_app_def tftp_make_ack_pkt_def good_env_def numeral_2_eq_2)
  then have run: "tftp_process_packet e (int (length ?p)) u = Some (4, v)"
    by (simp add: tftp_process_packet_def rd)
  have v: "\<not> signal_error v" "local_tid v = local_tid s" "tftp_conn v = tftp_conn s" "ctoks v = ctoks u"
      "signal_complete v \<longleftrightarrow> length d < 512" "prev_block_num v = k" "app_calls v = app_calls s @ [DataBlock d (int (length d))]"
      "rds (cmem v) 0 4 = ack_packet e k"
    using w u by (simp_all add: v_def waiting_for_def ack_sent)
  have "length ?p \<le> 516" using d rd(4) by simp
  from round_run [OF w this u_def run v(1-4)] show ?thesis unfolding v(5-8) by auto
qed

text \<open>
  A block with any other number is acknowledged in the same way, and a short one ends the transfer in the
  same way, but nothing is passed on.
\<close>

lemma other_data_round:
  fixes s :: "'a tftp_st_scheme"
  assumes e: "good_env e" and w: "waiting_for c s" and k: "unat k \<noteq> unat (prev_block_num s) + 1" and d: "length d \<le> 512"
  shows "\<exists>t. tftp_run e (round c (data_packet e k d)) s = Some t \<and> prev_block_num t = prev_block_num s \<and>
    app_calls t = app_calls s @ (if length d < 512 then [TransferComplete] else []) \<and>
    ctoks t = ctoks s @ round_tokens c (ack_packet e k) @ (if length d < 512 then [TokCmd CMD_CLOSE (xc_id c)] else []) \<and>
    (if length d < 512 then tftp_state t = TFTP_COMPLETE else waiting_for c t)"
proof -
  let ?p = "data_packet e k d"
  define u where "u = take_msgs [OutRecv ?p, OutCt] (put_tok (TokReady True) s)\<lparr>cmem := wrs RX_BUF ?p (cmem s)\<rparr>"
  have mem: "cmem u = wrs RX_BUF ?p (cmem s)" by (simp add: u_def)
  note rd = data_packet_read [OF e mem]
  define v where "v = (if length d < 512 then u\<lparr>signal_complete := True\<rparr> else u)\<lparr>block_num := k,
    cmem := wr_n16 e 2 k (wr_n16 e 0 TFTP_OPCODE_ACK (cmem u))\<rparr>"
  have u: "prev_block_num u = prev_block_num s" "signal_complete u = signal_complete s" "signal_error u = signal_error s"
      "app_calls u = app_calls s" "local_tid u = local_tid s" "tftp_conn u = tftp_conn s"
    by (simp_all add: u_def tftp_simps)
  have uint: "uint k \<noteq> uint (prev_block_num s) + 1" using k unfolding uint_nat by linarith
  have "process_data e (int (length ?p)) u = (4, v)"
    using e rd d uint u
    by (cases "length d < 512") (simp_all add: process_data_def Let_def v_def tftp_make_ack_pkt_def good_env_def numeral_2_eq_2)
  then have run: "tftp_process_packet e (int (length ?p)) u = Some (4, v)"
    by (simp add: tftp_process_packet_def rd)
  have v: "\<not> signal_error v" "local_tid v = local_tid s" "tftp_conn v = tftp_conn s" "ctoks v = ctoks u"
      "signal_complete v \<longleftrightarrow> length d < 512" "prev_block_num v = prev_block_num s" "app_calls v = app_calls s"
      "rds (cmem v) 0 4 = ack_packet e k"
    using w u by (simp_all add: v_def waiting_for_def ack_sent)
  have "length ?p \<le> 516" using d rd(4) by simp
  from round_run [OF w this u_def run v(1-4)] show ?thesis unfolding v(5-8) by auto
qed

section \<open>Files\<close>

fun file_events :: "tftp_env \<Rightarrow> xtcp_connection \<Rightarrow> nat \<Rightarrow> u8 list list \<Rightarrow> (xtcp_connection \<times> u8 list) list" where
  "file_events e c k [] = []"
| "file_events e c k (d # ds) = round c (data_packet e (of_nat k) d) @ file_events e c (k + 1) ds"

fun file_tokens :: "tftp_env \<Rightarrow> xtcp_connection \<Rightarrow> nat \<Rightarrow> u8 list list \<Rightarrow> client_tok list" where
  "file_tokens e c k [] = [TokCmd CMD_CLOSE (xc_id c)]"
| "file_tokens e c k (d # ds) = round_tokens c (ack_packet e (of_nat k)) @ file_tokens e c (k + 1) ds"

text \<open>A file in blocks: all of 512 bytes but the last one, which is shorter.\<close>

fun file_blocks :: "u8 list list \<Rightarrow> bool" where
  "file_blocks [] = False"
| "file_blocks [d] = (length d < 512)"
| "file_blocks (d # ds) = (length d = 512 \<and> file_blocks ds)"

lemma tftp_run_append: "tftp_run e (xs @ ys) s = Option.bind (tftp_run e xs s) (tftp_run e ys)"
  by (induction xs arbitrary: s) (auto split: bind_splits)

lemma unat_block: "n < 65536 \<Longrightarrow> unat (of_nat n :: u16) = n"
  by (simp add: unat_of_nat)

lemma file_passed:
  fixes s :: "'a tftp_st_scheme"
  assumes "good_env e" and "waiting_for c s" and "file_blocks ds"
    and "unat (prev_block_num s) = k" and "k + length ds < 256"
  shows "\<exists>t. tftp_run e (file_events e c (k + 1) ds) s = Some t \<and> tftp_state t = TFTP_COMPLETE \<and>
    unat (prev_block_num t) = k + length ds \<and>
    app_calls t = app_calls s @ map (\<lambda>d. DataBlock d (int (length d))) ds @ [TransferComplete] \<and>
    ctoks t = ctoks s @ file_tokens e c (k + 1) ds"
  using assms(2-5)
proof (induction ds arbitrary: s k rule: file_blocks.induct)
  case (2 d)
  have b: "unat (of_nat (k + 1) :: u16) = k + 1" using 2(4) by (intro unat_block) simp
  from data_round [OF assms(1) 2(1), of "of_nat (k + 1)" d] 2 b show ?case
    by (auto simp: tftp_run_append)
next
  case (3 d d' ds)
  have b: "unat (of_nat (k + 1) :: u16) = k + 1" using 3(5) by (intro unat_block) simp
  from data_round [OF assms(1) 3(2), of "of_nat (k + 1)" d] 3(3-5) obtain u where
    u: "tftp_run e (round c (data_packet e (of_nat (k + 1)) d)) s = Some u" "prev_block_num u = of_nat (k + 1)"
      "app_calls u = app_calls s @ [DataBlock d 512]"
      "ctoks u = ctoks s @ round_tokens c (ack_packet e (of_nat (k + 1)))" "waiting_for c u"
    unfolding b by auto
  from 3(1) [OF u(5), of "k + 1"] 3(3,5) b u show ?case
    by (auto simp: tftp_run_append)
qed simp

lemma file_dropped:
  fixes s :: "'a tftp_st_scheme"
  assumes "good_env e" and "waiting_for c s" and "file_blocks ds"
    and "k + length ds \<le> unat (prev_block_num s)"
  shows "\<exists>t. tftp_run e (file_events e c (k + 1) ds) s = Some t \<and> tftp_state t = TFTP_COMPLETE \<and>
    prev_block_num t = prev_block_num s \<and> app_calls t = app_calls s @ [TransferComplete] \<and>
    ctoks t = ctoks s @ file_tokens e c (k + 1) ds"
  using assms(2-4)
proof (induction ds arbitrary: s k rule: file_blocks.induct)
  case (2 d)
  have "k + 1 \<le> unat (prev_block_num s)" using 2(3) by simp
  then have b: "unat (of_nat (k + 1) :: u16) = k + 1" using unat_u16_le [of "prev_block_num s"] by (intro unat_block) linarith
  from other_data_round [OF assms(1) 2(1), of "of_nat (k + 1)" d] 2 show ?case
    unfolding b by (auto simp: tftp_run_append)
next
  case (3 d d' ds)
  have "k + 1 \<le> unat (prev_block_num s)" using 3(4) by simp
  then have b: "unat (of_nat (k + 1) :: u16) = k + 1" using unat_u16_le [of "prev_block_num s"] by (intro unat_block) linarith
  from other_data_round [OF assms(1) 3(2), of "of_nat (k + 1)" d] 3(3-4) obtain u where
    u: "tftp_run e (round c (data_packet e (of_nat (k + 1)) d)) s = Some u" "prev_block_num u = prev_block_num s"
      "app_calls u = app_calls s" "ctoks u = ctoks s @ round_tokens c (ack_packet e (of_nat (k + 1)))" "waiting_for c u"
    unfolding b by auto
  from 3(1) [OF u(5), of "k + 1"] 3(3,4) u show ?case
    by (auto simp: tftp_run_append)
qed simp

lemma uint_ucast_u16_u32 [simp]: "uint (ucast (x :: u16) :: u32) = uint x"
  by (rule uint_up_ucast) (simp add: is_up)

text \<open>The client opens a connection to the TFTP port: the server moves to a port of its own and waits.\<close>

lemma new_transfer:
  fixes s :: "'a tftp_st_scheme"
  assumes e: "good_env e" and s: "tftp_state s = TFTP_WAITING_FOR_CONNECTION" "\<not> signal_error s" "\<not> signal_complete s"
    and c: "xc_event c = XTCP_NEW_CONNECTION" "xc_local_port c = 69"
  shows "\<exists>t. tftp_run e [(c, [])] s = Some t \<and> waiting_for (c\<lparr>xc_local_port := ucast (local_tid s + 1)\<rparr>) t \<and>
    prev_block_num t = prev_block_num s \<and> app_calls t = app_calls s @ [TransferBegin] \<and>
    ctoks t = ctoks s @ [TokCmd (CMD_BIND_LOCAL (uint (local_tid s + 1))) (xc_id c), TokCmd (CMD_SET_POLL_INTERVAL 3000) (xc_id c),
      TokCmd (CMD_BIND_LOCAL (uint (local_tid s + 1))) (xc_id c)]"
  using e s c
  by (simp add: tftp_handle_event_def on_new_connection_def Let_def good_env_def tftp_simps client_simps cmd_defs call_app_def waiting_for_def)

text \<open>The events of a transfer of the image, and what the server sends.\<close>

definition transfer_events :: "tftp_env \<Rightarrow> xtcp_connection \<Rightarrow> u16 \<Rightarrow> u8 list list \<Rightarrow> (xtcp_connection \<times> u8 list) list" where
  "transfer_events e c tid ds =
     (let d = c\<lparr>xc_local_port := ucast (tid + 1)\<rparr>
      in (c, []) # round d (write_request e) @ file_events e d 1 ds)"

definition transfer_tokens :: "tftp_env \<Rightarrow> xtcp_connection \<Rightarrow> u16 \<Rightarrow> u8 list list \<Rightarrow> client_tok list" where
  "transfer_tokens e c tid ds =
     [TokCmd (CMD_BIND_LOCAL (uint (tid + 1))) (xc_id c), TokCmd (CMD_SET_POLL_INTERVAL 3000) (xc_id c),
      TokCmd (CMD_BIND_LOCAL (uint (tid + 1))) (xc_id c)] @ round_tokens c (ack_packet e 0) @ file_tokens e c 1 ds"

lemma same_tokens [simp]:
  "round_tokens (c\<lparr>xc_local_port := p\<rparr>) r = round_tokens c r" "file_tokens e (c\<lparr>xc_local_port := p\<rparr>) k ds = file_tokens e c k ds"
  by (simp add: round_tokens_def) (induction ds arbitrary: k, simp_all add: round_tokens_def)

lemma transfer_start:
  fixes s :: "'a tftp_st_scheme"
  assumes "good_env e" and "tftp_state s = TFTP_WAITING_FOR_CONNECTION" "\<not> signal_error s" "\<not> signal_complete s"
    and "xc_event c = XTCP_NEW_CONNECTION" "xc_local_port c = 69"
  defines "d \<equiv> c\<lparr>xc_local_port := ucast (local_tid s + 1)\<rparr>"
  shows "\<exists>t. (\<forall>ds. tftp_run e (transfer_events e c (local_tid s) ds) s = tftp_run e (file_events e d 1 ds) t) \<and>
    waiting_for d t \<and> prev_block_num t = prev_block_num s \<and> app_calls t = app_calls s @ [TransferBegin] \<and>
    (\<forall>ds. ctoks t @ file_tokens e d 1 ds = ctoks s @ transfer_tokens e c (local_tid s) ds)"
proof -
  from new_transfer [OF assms(1-6)] obtain u where u: "tftp_run e [(c, [])] s = Some u" "waiting_for d u"
    "prev_block_num u = prev_block_num s" "app_calls u = app_calls s @ [TransferBegin]"
    "\<And>ds. ctoks u @ round_tokens c (ack_packet e 0) @ file_tokens e c 1 ds = ctoks s @ transfer_tokens e c (local_tid s) ds"
    by (auto simp: d_def transfer_tokens_def)
  from write_request_round [OF assms(1) u(2)] obtain t where t: "tftp_run e (round d (write_request e)) u = Some t" "waiting_for d t"
    "prev_block_num t = prev_block_num u" "app_calls t = app_calls u" "ctoks t = ctoks u @ round_tokens c (ack_packet e 0)"
    by (auto simp: d_def)
  have "transfer_events e c (local_tid s) ds = [(c, [])] @ round d (write_request e) @ file_events e d 1 ds" for ds
    by (simp add: transfer_events_def d_def Let_def)
  then have "tftp_run e (transfer_events e c (local_tid s) ds) s = tftp_run e (file_events e d 1 ds) t" for ds
    by (simp only: tftp_run_append u(1) t(1) Option.bind.bind_lunit)
  with t u show ?thesis by (intro exI [of _ t]) (simp add: d_def)
qed

text \<open>A sample: the usual byte order, callbacks that succeed, and a file of two bytes.\<close>

definition sample_env :: tftp_env where
  "sample_env = \<lparr>hton16 = (\<lambda>v. (hi8 v, lo8 v)), ntoh16 = (\<lambda>(a, b). le16 b a), app_answer = (\<lambda>_. 0)\<rparr>"

definition sample_peer :: xtcp_connection where
  "sample_peer = \<lparr>xc_id = 3, xc_protocol = XTCP_PROTOCOL_UDP, xc_connection_type = 0, xc_event = XTCP_NEW_CONNECTION,
     xc_appstate = 0, xc_remote_addr = (192, 168, 0, 1), xc_remote_port = 50000, xc_local_port = 69, xc_mss = 1472\<rparr>"

definition sample_tftp :: tftp_st where
  "sample_tftp = \<lparr>ctoks = [], cgot = [], cmem = (\<lambda>_. 0), tftp_state = TFTP_IDLE, local_tid = 51337, block_num = 0,
     poll_block_num = 0, prev_block_num = 0, num_tx_bytes = 0, tftp_conn = sample_peer, signal_error = False,
     signal_complete = False, app_calls = []\<rparr>"

definition sample_evs :: "(xtcp_connection \<times> u8 list) list" where
  "sample_evs = (sample_peer\<lparr>xc_event := XTCP_IFUP\<rparr>, []) # transfer_events sample_env sample_peer 51337 [[7, 8]]"

lemma good_sample_env: "good_env sample_env"
  by (simp add: good_env_def sample_env_def)

lemma sample_transfer: "\<exists>t. tftp_run sample_env sample_evs (tftp_init sample_tftp) = Some t \<and> blocks t = [([7, 8], 2)]"
proof -
  define s where "s = (tftp_init sample_tftp)\<lparr>tftp_state := TFTP_WAITING_FOR_CONNECTION\<rparr>"
  have s: "tftp_state s = TFTP_WAITING_FOR_CONNECTION" "\<not> signal_error s" "\<not> signal_complete s" "prev_block_num s = 0"
      "app_calls s = []" "local_tid s = 51337"
    by (simp_all add: s_def tftp_init_def sample_tftp_def tftp_simps cmd_defs)
  have c: "xc_event sample_peer = XTCP_NEW_CONNECTION" "xc_local_port sample_peer = 69" by (simp_all add: sample_peer_def)
  have up: "tftp_run sample_env sample_evs (tftp_init sample_tftp) = tftp_run sample_env (transfer_events sample_env sample_peer 51337 [[7, 8]]) s"
    by (simp add: sample_evs_def tftp_handle_event_def s_def tftp_init_def sample_tftp_def tftp_simps cmd_defs)
  obtain u where u: "tftp_run sample_env (transfer_events sample_env sample_peer 51337 [[7, 8]]) s =
      tftp_run sample_env (file_events sample_env (sample_peer\<lparr>xc_local_port := ucast (local_tid s + 1)\<rparr>) 1 [[7, 8]]) u"
    "waiting_for (sample_peer\<lparr>xc_local_port := ucast (local_tid s + 1)\<rparr>) u" "prev_block_num u = 0" "app_calls u = [TransferBegin]"
    using transfer_start [OF good_sample_env s(1-3) c] unfolding s(4-6) append_Nil by blast
  from file_passed [OF good_sample_env u(2), of "[[7, 8]]" 0] u(1,3,4) show ?thesis
    unfolding up by (auto simp: blocks_def)
qed

text \<open>C7. The application gets the blocks of the file in order and without repetition, or it gets nothing: in
  every run of the server since start-up, over any events and any packets that fit the receive buffer, the
  calls of the data callback are the payloads, with their sizes, of DATA packets received in this order with
  the block numbers 1, 2, 3 and so on without a gap, and there are fewer than 256 of them, whatever the
  callbacks answer and however often packets are repeated.\<close>

theorem tftp_blocks_in_order:
  assumes "prev_block_num s = 0" and "app_calls s = []"
    and "\<forall>(c, bs) \<in> set evs. xc_event c = XTCP_RECV_DATA \<longrightarrow> 4 \<le> length bs \<and> length bs \<le> 516"
    and "tftp_run e evs (tftp_init s) = Some t"
  shows "\<exists>ps. subseq ps (map snd evs) \<and> blocks t = map payload ps \<and> length ps < 256 \<and>
    (\<forall>k < length ps. is_block e (k + 1) (ps ! k))"
proof -
  have init: "counted (tftp_init s)" "blocks (tftp_init s) = []"
    using assms(1,2) by (simp_all add: tftp_init_def tftp_simps cmd_defs counted_def blocks_def)
  from tftp_run_blocks [OF init(1) assms(3,4)] init(2) show ?thesis by (auto simp: counted_def)
qed

lemma tftp_blocks_in_order_witness:
  "\<exists>t ps. tftp_run sample_env sample_evs (tftp_init sample_tftp) = Some t \<and> subseq ps (map snd sample_evs) \<and>
    blocks t = map payload ps \<and> length ps < 256 \<and> (\<forall>k < length ps. is_block sample_env (k + 1) (ps ! k)) \<and> blocks t = [([7, 8], 2)]"
proof -
  obtain t where t: "tftp_run sample_env sample_evs (tftp_init sample_tftp) = Some t" "blocks t = [([7, 8], 2)]"
    using sample_transfer by blast
  have "\<exists>ps. subseq ps (map snd sample_evs) \<and> blocks t = map payload ps \<and> length ps < 256 \<and> (\<forall>k < length ps. is_block sample_env (k + 1) (ps ! k))"
    by (rule tftp_blocks_in_order [OF _ _ _ t(1)])
      (simp_all add: sample_tftp_def sample_evs_def transfer_events_def Let_def round_def write_request_def data_packet_def ascii_def sample_peer_def)
  with t show ?thesis by blast
qed

text \<open>C34. The first transfer of an image succeeds. When a client opens a connection, asks to write the
  image and sends it in blocks, each with its acknowledgement, then every event is handled without an access
  outside the buffers, every block is acknowledged with its number, the application is called exactly with
  the beginning, the blocks in order and the completion, and the connection is closed. The callbacks succeed
  and the file has fewer than 256 blocks.\<close>

theorem tftp_first_transfer:
  fixes s :: "'a tftp_st_scheme"
  assumes "good_env e" and "tftp_state s = TFTP_WAITING_FOR_CONNECTION" "\<not> signal_error s" "\<not> signal_complete s"
    and "xc_event c = XTCP_NEW_CONNECTION" "xc_local_port c = 69"
    and "prev_block_num s = 0" and "file_blocks ds" "length ds < 256"
  shows "\<exists>t. tftp_run e (transfer_events e c (local_tid s) ds) s = Some t \<and> tftp_state t = TFTP_COMPLETE \<and>
    app_calls t = app_calls s @ [TransferBegin] @ map (\<lambda>d. DataBlock d (int (length d))) ds @ [TransferComplete] \<and>
    ctoks t = ctoks s @ transfer_tokens e c (local_tid s) ds"
proof -
  obtain u where u: "\<And>ds. tftp_run e (transfer_events e c (local_tid s) ds) s =
      tftp_run e (file_events e (c\<lparr>xc_local_port := ucast (local_tid s + 1)\<rparr>) 1 ds) u"
    "waiting_for (c\<lparr>xc_local_port := ucast (local_tid s + 1)\<rparr>) u" "prev_block_num u = prev_block_num s"
    "app_calls u = app_calls s @ [TransferBegin]"
    "\<And>ds. ctoks u @ file_tokens e (c\<lparr>xc_local_port := ucast (local_tid s + 1)\<rparr>) 1 ds = ctoks s @ transfer_tokens e c (local_tid s) ds"
    using transfer_start [OF assms(1-6)] by metis
  have "unat (prev_block_num u) = 0" "0 + length ds < 256" using assms(7,9) u(3) by simp_all
  from file_passed [OF assms(1) u(2) assms(8) this] u(4,5) show ?thesis
    unfolding u(1) by (auto simp only: append_assoc add_0)
qed

lemma tftp_first_transfer_witness:
  "\<exists>t. tftp_run sample_env (transfer_events sample_env sample_peer 51337 [[7, 8]]) (sample_tftp\<lparr>tftp_state := TFTP_WAITING_FOR_CONNECTION\<rparr>) = Some t \<and>
     app_calls t = [TransferBegin, DataBlock [7, 8] 2, TransferComplete]"
  using tftp_first_transfer [OF good_sample_env, of "sample_tftp\<lparr>tftp_state := TFTP_WAITING_FOR_CONNECTION\<rparr>" sample_peer "[[7, 8]]"]
  by (auto simp: sample_tftp_def sample_peer_def)

text \<open>A later transfer can be lost without a trace. The number of the last block is kept in a static
  variable of the packet code that neither \<^verbatim>\<open>tftp_close\<close> nor \<^verbatim>\<open>tftp_init\<close> resets. When earlier
  transfers, for example one that timed out, have passed on \<open>n\<close> blocks, the same events with any file of at
  most \<open>n\<close> blocks get exactly the same answers from the server and the transfer is reported complete, but
  not one block reaches the application.\<close>

theorem tftp_later_transfer_lost:
  fixes s :: "'a tftp_st_scheme"
  assumes "good_env e" and "tftp_state s = TFTP_WAITING_FOR_CONNECTION" "\<not> signal_error s" "\<not> signal_complete s"
    and "xc_event c = XTCP_NEW_CONNECTION" "xc_local_port c = 69"
    and "file_blocks ds" "length ds \<le> unat (prev_block_num s)"
  shows "\<exists>t. tftp_run e (transfer_events e c (local_tid s) ds) s = Some t \<and> tftp_state t = TFTP_COMPLETE \<and>
    app_calls t = app_calls s @ [TransferBegin, TransferComplete] \<and>
    ctoks t = ctoks s @ transfer_tokens e c (local_tid s) ds"
proof -
  obtain u where u: "\<And>ds. tftp_run e (transfer_events e c (local_tid s) ds) s =
      tftp_run e (file_events e (c\<lparr>xc_local_port := ucast (local_tid s + 1)\<rparr>) 1 ds) u"
    "waiting_for (c\<lparr>xc_local_port := ucast (local_tid s + 1)\<rparr>) u" "prev_block_num u = prev_block_num s"
    "app_calls u = app_calls s @ [TransferBegin]"
    "\<And>ds. ctoks u @ file_tokens e (c\<lparr>xc_local_port := ucast (local_tid s + 1)\<rparr>) 1 ds = ctoks s @ transfer_tokens e c (local_tid s) ds"
    using transfer_start [OF assms(1-6)] by metis
  have "0 + length ds \<le> unat (prev_block_num u)" using assms(8) u(3) by simp
  from file_dropped [OF assms(1) u(2) assms(7) this] u(4,5) show ?thesis
    unfolding u(1) by (auto simp only: append_assoc add_0 append_Cons append_Nil)
qed

lemma tftp_later_transfer_lost_witness:
  "\<exists>t. tftp_run sample_env (transfer_events sample_env sample_peer 51337 [[7, 8]])
       (sample_tftp\<lparr>tftp_state := TFTP_WAITING_FOR_CONNECTION, prev_block_num := 1\<rparr>) = Some t \<and>
     app_calls t = [TransferBegin, TransferComplete]"
  using tftp_later_transfer_lost [OF good_sample_env, of "sample_tftp\<lparr>tftp_state := TFTP_WAITING_FOR_CONNECTION, prev_block_num := 1\<rparr>" sample_peer "[[7, 8]]"]
  by (auto simp: sample_tftp_def sample_peer_def)

end
