(* ===== verification/Mdns_Names.thy ===== *)
theory Mdns_Names
  imports Xtcp_Client
begin

text \<open>
  The names of the multicast DNS server \<^verbatim>\<open>mdns.c\<close>: numbers in decimal, names as length-prefixed labels,
  the reverse names of addresses, and the functions that skip, compare and parse them in a received message.
  A message lies at address 0 of the memory, a C string is the list of its bytes before the NUL, and the type
  \<^verbatim>\<open>char\<close> is unsigned, as on the processor of the stack. The lemmas show that parsing inverts encoding for
  names without compression, and what compression pointers do.
\<close>

section \<open>Encoding\<close>

text \<open>\<^verbatim>\<open>mdns_itoa\<close>: the digits are written from the last one on, then reversed in place.\<close>

fun itoa_loop :: "nat \<Rightarrow> u8 list" where
  "itoa_loop x = of_nat (x mod 10 + 48) # (if x div 10 = 0 then [] else itoa_loop (x div 10))"

declare itoa_loop.simps [simp del]

definition mdns_itoa :: "nat \<Rightarrow> u8 list" where
  "mdns_itoa x = rev (itoa_loop x)"

abbreviation (input) "DOT \<equiv> 46 :: u8"

text \<open>One round of \<^verbatim>\<open>mdns_encode_name\<close> copies the bytes up to the next dot and skips the dot.\<close>

definition next_label :: "u8 list \<Rightarrow> u8 list \<times> u8 list" where
  "next_label src = (takeWhile (\<lambda>c. c \<noteq> DOT) src, tl (dropWhile (\<lambda>c. c \<noteq> DOT) src))"

lemma next_label_shorter: "next_label src = (l, rest) \<Longrightarrow> rest \<noteq> [] \<Longrightarrow> length rest < length src"
  using length_dropWhile_le [of "\<lambda>c. c \<noteq> DOT" src]
  by (cases "dropWhile (\<lambda>c. c \<noteq> DOT) src") (auto simp: next_label_def)

function mdns_encode_name :: "u8 list \<Rightarrow> u8 list" where
  "mdns_encode_name src = (case next_label src of (l, rest) \<Rightarrow>
     of_nat (length l) # l @ (if rest = [] then [0] else mdns_encode_name rest))"
  by pat_completeness auto

termination
  by (relation "measure length") (auto dest: next_label_shorter [OF sym])

declare mdns_encode_name.simps [simp del]

definition octets :: "word4 \<Rightarrow> u8 list" where
  "octets a = (case a of (w, x, y, z) \<Rightarrow> [w, x, y, z])"

definition mdns_encode_ip :: "word4 \<Rightarrow> u8 list" where
  "mdns_encode_ip addr =
     concat (map (\<lambda>b. let d = mdns_itoa (unat b) in of_nat (length d) # d) (rev (octets addr))) @
     [7] @ map of_char ''in-addr'' @ [4] @ map of_char ''arpa'' @ [0]"

section \<open>Reading a message\<close>

text \<open>A compression pointer, RFC 1035 4.1.4: two bytes, the first of which has the two high bits set.\<close>

definition is_pointer :: "u8 \<Rightarrow> bool" where
  "is_pointer n \<longleftrightarrow> n AND 0xc0 = 0xc0"

definition pointer_target :: "u8 \<Rightarrow> u8 \<Rightarrow> nat" where
  "pointer_target n b = unat (n AND 0x3f) * 256 + unat b"

text \<open>
  \<^verbatim>\<open>mdns_parse_name\<close> skips a name: \<open>Some None\<close> is \<^verbatim>\<open>NULL\<close>, \<open>None\<close> that the loop never ends.
\<close>

partial_function (option) parse_loop :: "mem \<Rightarrow> nat \<Rightarrow> nat option \<Rightarrow> nat \<Rightarrow> nat option option" where
  "parse_loop m limit saved query =
     (let n = m query; q = query + 1
      in if limit < q then Some None
         else
           let (saved, q) =
             (if is_pointer n
              then (Some (case saved of None \<Rightarrow> q + 1 | Some e \<Rightarrow> e), pointer_target n (m q))
              else (saved, q + unat n))
           in if limit < q then Some None
              else if m q \<noteq> 0 then parse_loop m limit saved q
              else Some (Some ((case saved of None \<Rightarrow> q | Some e \<Rightarrow> e) + 1)))"

declare parse_loop.simps [code]

definition mdns_parse_name :: "mem \<Rightarrow> nat \<Rightarrow> nat \<Rightarrow> nat option option" where
  "mdns_parse_name m limit query = (if limit < query then Some None else parse_loop m limit None query)"

text \<open>
  \<^verbatim>\<open>mdns_compare_name\<close> compares a dotted name with a name in the message: 0 when they are equal, and 1 or
  255, which is \<^verbatim>\<open>-1\<close> as \<^verbatim>\<open>u8_t\<close>, when they are not. The loop over a label ends with a result or with the
  rest of the name and the position in the message.
\<close>

fun compare_label :: "u8 list \<Rightarrow> mem \<Rightarrow> nat \<Rightarrow> nat \<Rightarrow> u8 + (u8 list \<times> nat)" where
  "compare_label query m response 0 = Inr (query, response)"
| "compare_label [] m response n = Inr ([], response)"
| "compare_label (c # query) m response (Suc n) =
     (if m response < c then Inl 1 else if c < m response then Inl 255
      else compare_label query m (response + 1) n)"

definition compare_end :: "u8 list \<Rightarrow> mem \<Rightarrow> nat \<Rightarrow> u8" where
  "compare_end query m response = (if query \<noteq> [] then 1 else if m response \<noteq> 0 then 255 else 0)"

lemma compare_label_shorter: "compare_label q m r n = Inr (q', r') \<Longrightarrow> length q' \<le> length q"
  by (induction q m r n rule: compare_label.induct) (auto split: if_splits)

function mdns_compare_name :: "u8 list \<Rightarrow> mem \<Rightarrow> nat \<Rightarrow> u8" where
  "mdns_compare_name query m response =
     (let n = m response; r = response + 1
      in if is_pointer n then compare_end query m (pointer_target n (m r))
         else case compare_label query m r (unat n) of
                Inl v \<Rightarrow> v
              | Inr (q, r) \<Rightarrow>
                  let q = tl q
                  in if m r \<noteq> 0 \<and> q \<noteq> [] then mdns_compare_name q m r else compare_end q m r)"
  by pat_completeness auto

termination
proof (relation "measure (\<lambda>(q, _, _). length q)")
  fix query m response x xa b xb y xc
  assume "compare_label query m xa (unat x) = Inr b" "(xb, y) = b" "xc = tl xb" "m y \<noteq> 0 \<and> xc \<noteq> []"
  then have "length xb \<le> length query" "xb \<noteq> []" "xc = tl xb"
    using compare_label_shorter by (auto dest: sym)
  then show "((xc, m, y), query, m, response) \<in> measure (\<lambda>(q, _, _). length q)" by (cases xb) auto
qed simp

declare mdns_compare_name.simps [simp del]

text \<open>
  \<^verbatim>\<open>mdns_parse_rev_ip\<close> reads the four numbers of a reverse name, the last one first, and expects
  \<^verbatim>\<open>in-addr.arpa\<close> after them. The value of a label is computed from its last digit on; a byte that is not
  a digit clears the result.
\<close>

fun rev_digits :: "mem \<Rightarrow> nat \<Rightarrow> nat \<Rightarrow> int \<Rightarrow> int \<Rightarrow> bool \<Rightarrow> int \<times> bool" where
  "rev_digits m p 0 base acc res = (acc, res)"
| "rev_digits m p (Suc n) base acc res =
     (let c = m (p + n)
      in if c < 0x30 \<or> 0x39 < c then rev_digits m p n (base * 10) acc False
         else rev_digits m p n (base * 10) (acc + (uint c - 0x30) * base) res)"

definition set_octet :: "nat \<Rightarrow> u8 \<Rightarrow> word4 \<Rightarrow> word4" where
  "set_octet i v a = (case a of (w, x, y, z) \<Rightarrow>
     if i = 0 then (v, x, y, z) else if i = 1 then (w, v, y, z) else if i = 2 then (w, x, v, z) else (w, x, y, v))"

text \<open>One label with a number: the field it sets, and whether the name is still a reverse name.\<close>

definition rev_field :: "mem \<Rightarrow> nat \<Rightarrow> u8 \<Rightarrow> nat \<Rightarrow> word4 \<Rightarrow> bool \<times> word4" where
  "rev_field m p n cur addr =
     (if n \<le> 3
      then (case rev_digits m p (unat n) 1 0 True of (acc, res) \<Rightarrow>
        if 255 < acc then (False, addr) else (res, set_octet (3 - cur) (word_of_int acc) addr))
      else (False, addr))"

partial_function (option) rev_loop :: "mem \<Rightarrow> nat \<Rightarrow> nat \<Rightarrow> bool \<Rightarrow> word4 \<Rightarrow> (nat \<times> bool \<times> word4) option" where
  "rev_loop m query cur res addr =
     (let n = m query; q = query + 1
      in if is_pointer n then Some (pointer_target n (m q), res, addr)
         else
           let ((res, addr), cur) =
             (if cur < 4 \<and> res then (rev_field m q n cur addr, cur + 1) else ((res, addr), cur));
               q = q + unat n
           in if m q \<noteq> 0 \<and> cur < 4 then rev_loop m q cur res addr else Some (q, res, addr))"

declare rev_loop.simps [code]

definition mdns_parse_rev_ip :: "mem \<Rightarrow> nat \<Rightarrow> word4 \<Rightarrow> (bool \<times> word4) option" where
  "mdns_parse_rev_ip m query addr = do {
     (q, res, addr) \<leftarrow> rev_loop m query 0 True addr;
     Some (res \<and> mdns_compare_name (map of_char ''in-addr.arpa'') m q = 0, addr)
   }"

section \<open>Parsing inverts encoding\<close>

text \<open>
  A name that the format can express: no label is empty or so long that its length byte would be taken for a
  pointer, there is no NUL byte and no dot at the end.
\<close>

function good_name :: "u8 list \<Rightarrow> bool" where
  "good_name src = (case next_label src of (l, rest) \<Rightarrow>
     l \<noteq> [] \<and> length l < 192 \<and> 0 \<notin> set l \<and> (if rest = [] then src = l else good_name rest))"
  by pat_completeness auto

termination
  by (relation "measure length") (auto dest: next_label_shorter [OF sym])

declare good_name.simps [simp del]

lemma next_label_split:
  assumes "next_label src = (l, rest)"
  shows "src = l \<and> rest = [] \<or> src = l @ DOT # rest"
proof (cases "dropWhile (\<lambda>c. c \<noteq> DOT) src")
  case Nil
  then have "takeWhile (\<lambda>c. c \<noteq> DOT) src = src" by (simp add: dropWhile_eq_Nil_conv takeWhile_eq_all_conv)
  with assms show ?thesis unfolding next_label_def Nil by simp
next
  case (Cons x xs)
  then have "x = DOT" using hd_dropWhile [of "\<lambda>c. c \<noteq> DOT" src] by auto
  with Cons assms show ?thesis using takeWhile_dropWhile_id [of "\<lambda>c. c \<noteq> DOT" src] by (auto simp: next_label_def)
qed

lemma small_not_pointer: "unat n < 192 \<Longrightarrow> \<not> is_pointer n"
  using word_and_le2 [of n "0xc0"] by (auto simp: is_pointer_def word_le_nat_alt)

lemma pointer_nonzero: "is_pointer n \<Longrightarrow> n \<noteq> 0"
  by (auto simp: is_pointer_def)

lemma unat_small [simp]: "k < 256 \<Longrightarrow> unat (of_nat k :: u8) = k"
  by (simp add: unat_of_nat)

lemma of_nat_u8_nonzero: "0 < k \<Longrightarrow> k < 256 \<Longrightarrow> (of_nat k :: u8) \<noteq> 0"
  by (metis unat_small unat_eq_0 less_numeral_extra(3))

lemma rds_append_iff: "rds m p (length (xs @ ys)) = xs @ ys \<longleftrightarrow> rds m p (length xs) = xs \<and> rds m (p + length xs) (length ys) = ys"
  by (simp add: rds_split)

lemma rds_Cons_iff: "rds m p (length (x # xs)) = x # xs \<longleftrightarrow> m p = x \<and> rds m (p + 1) (length xs) = xs"
  by (simp add: rds_Suc)

lemma compare_label_same: "rds m r (length l) = l \<Longrightarrow> compare_label (l @ q) m r (length l) = Inr (q, r + length l)"
  by (induction l arbitrary: r) (auto simp: rds_Suc)

text \<open>The first byte of an encoded name is the length of its first label, which is not 0.\<close>

lemma good_nameD:
  assumes "good_name src" and "next_label src = (l, rest)"
  shows "l \<noteq> []" "length l < 192" "rest = [] \<Longrightarrow> src = l" "rest \<noteq> [] \<Longrightarrow> src = l @ DOT # rest \<and> good_name rest"
  using assms next_label_split [OF assms(2)] by (auto simp: good_name.simps [of src] split: if_splits)

lemma encode_first:
  assumes "good_name src" and "rds m p (length (mdns_encode_name src)) = mdns_encode_name src"
  shows "m p \<noteq> 0" "\<not> is_pointer (m p)"
proof -
  obtain l rest where nl: "next_label src = (l, rest)" by (cases "next_label src")
  note g = good_nameD [OF assms(1) nl]
  from assms(2) have "m p = of_nat (length l)"
    unfolding mdns_encode_name.simps [of src] nl prod.case rds_Cons_iff by blast
  then show "m p \<noteq> 0" "\<not> is_pointer (m p)"
    using g(1,2) of_nat_u8_nonzero [of "length l"] small_not_pointer [of "of_nat (length l)"] by simp_all
qed

lemma encoded_name:
  assumes "good_name src" and "rds m p (length (mdns_encode_name src)) = mdns_encode_name src"
    and "p + length (mdns_encode_name src) \<le> limit"
  shows "mdns_compare_name src m p = 0 \<and> parse_loop m limit saved p =
    Some (Some ((case saved of None \<Rightarrow> p + length (mdns_encode_name src) - 1 | Some e \<Rightarrow> e) + 1))"
  using assms
proof (induction src arbitrary: p rule: mdns_encode_name.induct)
  case (1 src)
  obtain l rest where nl: "next_label src = (l, rest)" by (cases "next_label src")
  note g = good_nameD [OF 1(2) nl]
  let ?tail = "if rest = [] then [0] else mdns_encode_name rest" and ?q = "p + 1 + length l"
  have enc: "mdns_encode_name src = of_nat (length l) # l @ ?tail" by (simp add: mdns_encode_name.simps [of src] nl)
  from 1(3) have bytes: "m p = of_nat (length l)" "rds m (p + 1) (length l) = l" "rds m ?q (length ?tail) = ?tail"
    unfolding enc rds_Cons_iff rds_append_iff by blast+
  have n: "unat (m p) = length l" "\<not> is_pointer (m p)" "p + 1 \<le> limit" "?q \<le> limit"
    using g(2) bytes(1) small_not_pointer [of "m p"] 1(4) enc by simp_all
  show ?case
  proof (cases "rest = []")
    case True
    then have "m ?q = 0" "src = l" using bytes(3) g(3) by (auto simp: rds_Suc)
    then show ?thesis
      using n compare_label_same [OF bytes(2), of "[]"] True enc
      by (simp add: mdns_compare_name.simps [of l m p] parse_loop.simps [of m limit saved p] compare_end_def Let_def split: option.split)
  next
    case False
    then have src: "src = l @ DOT # rest" "good_name rest" using g(4) by auto
    have rest: "rds m ?q (length (mdns_encode_name rest)) = mdns_encode_name rest" using bytes(3) False by simp
    have "m ?q \<noteq> 0" by (rule encode_first [OF src(2) rest])
    moreover have "mdns_compare_name rest m ?q = 0 \<and> parse_loop m limit saved ?q =
        Some (Some ((case saved of None \<Rightarrow> ?q + length (mdns_encode_name rest) - 1 | Some e \<Rightarrow> e) + 1))"
      using 1(4) enc False by (intro 1(1) [OF nl [symmetric] False src(2) rest]) simp
    ultimately show ?thesis
      using n compare_label_same [OF bytes(2), of "DOT # rest"] False enc src(1)
      by (simp add: mdns_compare_name.simps [of "l @ DOT # rest" m p] parse_loop.simps [of m limit saved p] Let_def split: option.split)
  qed
qed

lemma itoa_loop_digits: "x < 256 \<Longrightarrow> 0 < length (itoa_loop x) \<and> length (itoa_loop x) \<le> 3"
  by (simp add: itoa_loop.simps [of x] itoa_loop.simps [of "x div 10"] itoa_loop.simps [of "x div 10 div 10"])

lemma rev_digits_itoa:
  "rds m p (length (itoa_loop x)) = rev (itoa_loop x) \<Longrightarrow>
    rev_digits m p (length (itoa_loop x)) base acc res = (acc + int x * base, res)"
proof (induction x arbitrary: base acc rule: itoa_loop.induct)
  case (1 x)
  let ?rest = "if x div 10 = 0 then [] else itoa_loop (x div 10)"
  have loop: "itoa_loop x = of_nat (x mod 10 + 48) # ?rest" by (rule itoa_loop.simps)
  from 1(2) have bytes: "rds m p (length ?rest) = rev ?rest" "m (p + length ?rest) = of_nat (x mod 10 + 48)"
    unfolding loop by (simp_all add: rds_snoc)
  have "unat (of_nat (x mod 10 + 48) :: u8) = x mod 10 + 48" by (rule unat_small) simp
  then have digit: "uint (of_nat (x mod 10 + 48) :: u8) = int (x mod 10) + 48"
    unfolding uint_nat by (simp only: of_nat_add of_nat_numeral)
  then have range: "\<not> (m (p + length ?rest) < 0x30 \<or> 0x39 < m (p + length ?rest))"
    unfolding bytes(2) word_less_alt digit by auto
  have "int x = 10 * int (x div 10) + int (x mod 10)"
    unfolding of_nat_div of_nat_mod by simp
  then have x: "int x * base = int (x mod 10) * base + int (x div 10) * (base * 10)"
    by (simp only: algebra_simps)
  have "rev_digits m p (length ?rest) (base * 10) (acc + int (x mod 10) * base) res =
      (acc + int (x mod 10) * base + int (x div 10) * (base * 10), res)"
    using bytes(1) 1(1) [of "base * 10" "acc + int (x mod 10) * base"] by (cases "x div 10 = 0") simp_all
  then show ?case
    unfolding loop x using range digit by (simp only: list.size rev_digits.simps Let_def bytes(2) if_False add_diff_cancel_right' add.assoc One_nat_def add_Suc_right add_0_right)
qed

text \<open>One label of a reverse name.\<close>

lemma rev_step:
  fixes b :: u8
  defines "d \<equiv> mdns_itoa (unat b)"
  assumes "rds m p (1 + length d) = of_nat (length d) # d" and "cur < 4"
  shows "rev_loop m p cur True addr =
    (let q = p + (1 + length d); a = set_octet (3 - cur) b addr
     in if m q \<noteq> 0 \<and> cur + 1 < 4 then rev_loop m q (cur + 1) True a else Some (q, True, a))"
proof -
  have len: "0 < length d" "length d \<le> 3" using itoa_loop_digits [of "unat b"] by (simp_all add: d_def mdns_itoa_def)
  from assms(2) have m: "m p = of_nat (length d)" "rds m (p + 1) (length d) = d" by (simp_all add: rds_Suc)
  have n: "unat (m p) = length d" "\<not> is_pointer (m p)" "m p \<le> 3"
    using len m(1) small_not_pointer [of "m p"] by (simp_all add: word_le_nat_alt)
  have "rev_digits m (p + 1) (length d) 1 0 True = (0 + int (unat b) * 1, True)"
    using m(2) unfolding d_def mdns_itoa_def length_rev by (rule rev_digits_itoa)
  moreover have "uint b \<le> 255" using uint_bounded [of b] by simp
  ultimately have field: "rev_field m (p + 1) (m p) cur addr = (True, set_octet (3 - cur) b addr)"
    using n by (simp add: rev_field_def)
  show ?thesis
    using n(1,2) assms(3) field by (simp add: rev_loop.simps [of m p] Let_def)
qed

lemma arpa_encoded: "mdns_encode_name (map of_char ''in-addr.arpa'') = [7] @ map of_char ''in-addr'' @ [4] @ map of_char ''arpa'' @ [0]"
  by (simp add: mdns_encode_name.simps next_label_def)

lemma arpa_good: "good_name (map of_char ''in-addr.arpa'')"
  by (simp add: good_name.simps next_label_def)

lemma rev_name_parsed:
  assumes "rds m p (length (mdns_encode_ip addr)) = mdns_encode_ip addr"
  shows "mdns_parse_rev_ip m p a0 = Some (True, addr)"
proof -
  obtain w x y z where addr: "addr = (w, x, y, z)" by (cases addr)
  define L where "L b = (let d = mdns_itoa (unat b) in (of_nat (length d) :: u8) # d)" for b :: u8
  have len: "length (L b) = 1 + length (mdns_itoa (unat b))" for b by (simp add: L_def Let_def)
  let ?arpa = "mdns_encode_name (map of_char ''in-addr.arpa'')"
  let ?p1 = "p + length (L z)" and ?p2 = "p + length (L z) + length (L y)"
  let ?p3 = "?p2 + length (L x)" and ?p4 = "?p2 + length (L x) + length (L w)"
  have "mdns_encode_ip addr = L z @ L y @ L x @ L w @ ?arpa"
    unfolding arpa_encoded by (simp add: mdns_encode_ip_def octets_def addr L_def Let_def)
  with assms have at: "rds m p (length (L z)) = L z" "rds m ?p1 (length (L y)) = L y" "rds m ?p2 (length (L x)) = L x"
      "rds m ?p3 (length (L w)) = L w" "rds m ?p4 (length ?arpa) = ?arpa"
    by (simp_all only: rds_append_iff)
  have nz: "m q \<noteq> 0" if "rds m q (length (L b)) = L b" for q b
  proof -
    from that have "m q = of_nat (length (mdns_itoa (unat b)))" by (simp add: L_def Let_def rds_Suc)
    moreover have "(of_nat (length (mdns_itoa (unat b))) :: u8) \<noteq> 0"
      using itoa_loop_digits [of "unat b"] by (intro of_nat_u8_nonzero) (simp_all add: mdns_itoa_def)
    ultimately show ?thesis by simp
  qed
  have step: "rev_loop m q cur True a = (let q' = q + length (L b); a = set_octet (3 - cur) b a
       in if m q' \<noteq> 0 \<and> cur + 1 < 4 then rev_loop m q' (cur + 1) True a else Some (q', True, a))"
    if "rds m q (length (L b)) = L b" "cur < 4" for q b cur a
    using rev_step [of m q b cur a] that unfolding len by (simp add: L_def Let_def)
  have "rev_loop m p 0 True a0 = Some (?p4, True, addr)"
    using step [OF at(1), of 0] step [OF at(2), of 1] step [OF at(3), of 2] step [OF at(4), of 3] nz [OF at(2)] nz [OF at(3)] nz [OF at(4)]
    by (cases a0) (simp add: Let_def set_octet_def addr numeral_2_eq_2 [symmetric] numeral_3_eq_3 [symmetric])
  moreover have "mdns_compare_name (map of_char ''in-addr.arpa'') m ?p4 = 0"
    using encoded_name [OF arpa_good at(5) order.refl] by blast
  ultimately show ?thesis by (simp add: mdns_parse_rev_ip_def)
qed

section \<open>Compression pointers\<close>

lemma pointer_loop:
  assumes "is_pointer (m p)" and "pointer_target (m p) (m (p + 1)) = p" and "p + 1 \<le> limit"
  shows "parse_loop m limit saved p = None"
proof -
  have False if "parse_loop m limit saved p = Some r" for saved r
    using that assms
  proof (induction rule: parse_loop.raw_induct [rotated, consumes 1])
    case (1 f m limit saved p r)
    then obtain e where "f m limit (Some e) p = Some r"
      using pointer_nonzero [of "m p"] by (auto simp: Let_def)
    from 1(1) [OF this 1(3-5)] show False .
  qed
  then show ?thesis by (cases "parse_loop m limit saved p") auto
qed

lemma compare_at_pointer: "is_pointer (m p) \<Longrightarrow> q \<noteq> [] \<Longrightarrow> mdns_compare_name q m p = 1"
  by (simp add: mdns_compare_name.simps [of q] compare_end_def Let_def)

text \<open>C35. Names survive the wire. The encoding that \<^verbatim>\<open>mdns_encode_name\<close> writes for any name without empty
  or overlong labels is skipped exactly by \<^verbatim>\<open>mdns_parse_name\<close>, and \<^verbatim>\<open>mdns_compare_name\<close> recognises it as
  the name, wherever it lies in a message.\<close>

theorem mdns_name_roundtrip:
  assumes "good_name src" and "rds m p (length (mdns_encode_name src)) = mdns_encode_name src"
    and "p + length (mdns_encode_name src) \<le> limit"
  shows "mdns_compare_name src m p = 0 \<and> mdns_parse_name m limit p = Some (Some (p + length (mdns_encode_name src)))"
proof -
  have "mdns_encode_name src \<noteq> []" by (cases "next_label src") (simp add: mdns_encode_name.simps [of src])
  then show ?thesis
    using encoded_name [OF assms, of None] assms(3) by (simp add: mdns_parse_name_def)
qed

lemma mdns_name_roundtrip_witness:
  "mdns_compare_name (map of_char ''foo.local'') (wrs 12 (mdns_encode_name (map of_char ''foo.local'')) (\<lambda>_. 0)) 12 = 0 \<and>
   mdns_parse_name (wrs 12 (mdns_encode_name (map of_char ''foo.local'')) (\<lambda>_. 0)) 100 12 = Some (Some 23)"
proof -
  have len: "length (mdns_encode_name (map of_char ''foo.local'')) = 11"
    by (simp add: mdns_encode_name.simps next_label_def)
  have good: "good_name (map of_char ''foo.local'')" by (simp add: good_name.simps next_label_def)
  show ?thesis
    using mdns_name_roundtrip [OF good rds_wrs [of 12 _ "\<lambda>_. 0"], of 100] unfolding len by simp
qed

text \<open>Reverse names survive the wire: the query name of an address that \<^verbatim>\<open>mdns_encode_ip\<close> writes is
  parsed back to the address, whatever was in the address buffer before.\<close>

theorem mdns_reverse_roundtrip:
  assumes "rds m p (length (mdns_encode_ip addr)) = mdns_encode_ip addr"
  shows "mdns_parse_rev_ip m p a0 = Some (True, addr)"
  using assms by (rule rev_name_parsed)

lemma mdns_reverse_roundtrip_witness:
  "mdns_parse_rev_ip (wrs 12 (mdns_encode_ip (192, 168, 0, 7)) (\<lambda>_. 0)) 12 (0, 0, 0, 0) = Some (True, (192, 168, 0, 7))"
  by (rule mdns_reverse_roundtrip) (rule rds_wrs)

text \<open>One malformed packet stops the server: when a name in a message is a compression pointer to
  itself, the loop of \<^verbatim>\<open>mdns_parse_name\<close>, which every question and answer goes through, never ends.\<close>

theorem mdns_pointer_loop_hangs:
  assumes "is_pointer (m p)" and "pointer_target (m p) (m (p + 1)) = p" and "p + 1 \<le> limit"
  shows "mdns_parse_name m limit p = None"
  using pointer_loop [OF assms] assms(3) by (simp add: mdns_parse_name_def)

lemma mdns_pointer_loop_hangs_witness:
  "mdns_parse_name (wrs 12 [0xc0, 12] (\<lambda>_. 0)) 28 12 = None"
  by (rule mdns_pointer_loop_hangs) (simp_all add: is_pointer_def pointer_target_def)

text \<open>Compressed names are not handled. When a name of several labels is written with its first label
  followed by a compression pointer to the rest, as RFC 1035 allows and other responders do, it occupies the
  label and two more bytes. \<^verbatim>\<open>mdns_parse_name\<close> returns the address one byte after its end, so that type,
  class and all that follows are misread, and \<^verbatim>\<open>mdns_compare_name\<close> does not recognise it, so that the
  query is not answered and a conflict is not seen.\<close>

theorem mdns_compressed_misread:
  assumes "good_name (l @ DOT # rest)" and "next_label (l @ DOT # rest) = (l, rest)" and "rest \<noteq> []"
    and "rds m p (1 + length l) = of_nat (length l) # l" and "is_pointer (m (p + (1 + length l)))"
    and "pointer_target (m (p + (1 + length l))) (m (p + (1 + length l) + 1)) = q"
    and "rds m q (length (mdns_encode_name rest)) = mdns_encode_name rest"
    and "p + (1 + length l) + 2 \<le> limit" and "q + length (mdns_encode_name rest) \<le> limit"
  shows "mdns_parse_name m limit p = Some (Some (p + (1 + length l) + 2 + 1)) \<and> mdns_compare_name (l @ DOT # rest) m p = 1"
proof -
  let ?r = "p + (1 + length l)"
  note g = good_nameD [OF assms(1,2)]
  from assms(4) have b: "m p = of_nat (length l)" "rds m (p + 1) (length l) = l" by (simp_all add: rds_Suc)
  then have n: "unat (m p) = length l" "\<not> is_pointer (m p)" using g(2) small_not_pointer [of "m p"] by simp_all
  have nz: "m ?r \<noteq> 0" using assms(5) by (rule pointer_nonzero)
  have rest: "good_name rest" using g(4) assms(3) by blast
  have "parse_loop m limit (Some (?r + 2)) q = Some (Some (?r + 2 + 1))"
    using encoded_name [OF rest assms(7,9), of "Some (?r + 2)"] by simp
  then have "parse_loop m limit None ?r = Some (Some (?r + 2 + 1))"
    using assms(5,6,8,9) encode_first(1) [OF rest assms(7)] by (simp add: parse_loop.simps [of m limit None "Suc (p + length l)"] Let_def)
  then have "parse_loop m limit None p = Some (Some (?r + 2 + 1))"
    using n nz assms(8) by (simp add: parse_loop.simps [of m limit None p] Let_def)
  moreover have "mdns_compare_name (l @ DOT # rest) m p = 1"
    using n nz compare_label_same [OF b(2), of "DOT # rest"] compare_at_pointer [of m ?r rest] assms(3,5)
    by (simp add: mdns_compare_name.simps [of "l @ DOT # rest" m p] Let_def)
  ultimately show ?thesis using assms(8) by (simp add: mdns_parse_name_def)
qed

lemma mdns_compressed_misread_witness:
  defines "m \<equiv> wrs 30 [5, 108, 111, 99, 97, 108, 0] (wrs 12 [3, 102, 111, 111, 0xc0, 30] (\<lambda>_. 0))"
  shows "mdns_parse_name m 60 12 = Some (Some 19) \<and> mdns_compare_name [102, 111, 111, 46, 108, 111, 99, 97, 108] m 12 = 1"
  using mdns_compressed_misread [of "[102, 111, 111]" "[108, 111, 99, 97, 108]" m 12 30 60]
  by (simp add: m_def good_name.simps next_label_def mdns_encode_name.simps is_pointer_def pointer_target_def rds_def upt_conv_Cons)

end
