(* ===== verification/Mdns.thy ===== *)
theory Mdns
  imports Mdns_Names
begin

text \<open>
  The multicast DNS server \<^verbatim>\<open>mdns.c\<close>, a client of the xtcp server: its table of names and services, the
  messages it sends, what it does with received questions, answers and authority records, and the schedule of
  probing and announcing. NetBIOS is compiled out, as in the default configuration (\<^theory_text>\<open>Netbios\<close> adds it). A result \<open>None\<close> stands for
  a loop that never ends, a read through a \<^verbatim>\<open>NULL\<close> pointer, or a write past the end of an array. The lemmas
  follow every entry of the table along its state diagram.
\<close>

section \<open>The table\<close>

datatype mdns_entry_type = MDNS_CANONICAL_NAME_ENTRY | MDNS_NAME_ENTRY | MDNS_SRV_ENTRY

datatype mdns_state =
  UNUSED | DISABLED | PROBE_WAIT | PROBE_PARTIAL_SENT | PROBE_SENT | ANNOUNCE_WAIT | ANNOUNCE_SENT | ACTIVE

text \<open>The arrays of an entry hold C strings, given by the bytes before the NUL.\<close>

record mdns_entry =
  me_state :: mdns_state
  me_pending :: u32
  me_name :: "u8 list"
  me_prefix :: "u8 list"
  me_postfix :: "u8 list"
  me_txt :: "u8 list"
  me_srv_port :: int
  me_ipaddr :: word4
  me_counter :: int
  me_timeout :: u32
  me_num_sent :: int
  me_type :: mdns_entry_type

text \<open>\<open>rev_addr\<close> is the uninitialised local variable of \<^verbatim>\<open>handle_mdns_ptr_query\<close>.\<close>

record mdns_st = client_st +
  mdns_table :: "mdns_entry list"
  mdns_started :: int
  rev_addr :: word4

abbreviation (input) "MDNS_MAX_NAME_LENGTH \<equiv> 100 :: nat"
abbreviation (input) "MDNS_SERVER_PORT \<equiv> 5353 :: int"
abbreviation (input) "PENDING_HOST_RESPONSE \<equiv> 1 :: u32"
abbreviation (input) "PENDING_PTR_RESPONSE \<equiv> 2 :: u32"
abbreviation (input) "PENDING_SRV_RESPONSE \<equiv> 8 :: u32"
abbreviation (input) "PENDING_TXT_RESPONSE \<equiv> 16 :: u32"
abbreviation (input) "MDNS_RRTYPE_A \<equiv> 1 :: u16"
abbreviation (input) "MDNS_RRTYPE_PTR \<equiv> 12 :: u16"
abbreviation (input) "MDNS_RRTYPE_TXT \<equiv> 16 :: u16"
abbreviation (input) "MDNS_RRTYPE_SRV \<equiv> 33 :: u16"
abbreviation (input) "MDNS_RRTYPE_ANY \<equiv> 255 :: u16"
abbreviation (input) "MDNS_RRCLASS_IN \<equiv> 1 :: u16"
abbreviation (input) "MDNS_RRCLASS_FLUSH \<equiv> 0x8000 :: u16"
abbreviation (input) "mdns_ifup \<equiv> 1 :: u32"
abbreviation (input) "mdns_ifdown \<equiv> 2 :: u32"
abbreviation (input) "mdns_entry_lost \<equiv> 4 :: u32"
abbreviation (input) "mdns_entry_active \<equiv> 8 :: u32"
abbreviation (input) "mdns_group \<equiv> (224, 0, 0, 251) :: word4"

definition upd_entry :: "nat \<Rightarrow> (mdns_entry \<Rightarrow> mdns_entry) \<Rightarrow> 'a mdns_st_scheme \<Rightarrow> 'a mdns_st_scheme" where
  "upd_entry i f s = s\<lparr>mdns_table := (mdns_table s)[i := f (mdns_table s ! i)]\<rparr>"

text \<open>\<^verbatim>\<open>for (i = 0; i < MDNS_NUM_TABLE_ENTRIES; i++)\<close> without a break, from \<open>i\<close> on.\<close>

fun for_entries :: "(nat \<Rightarrow> 's \<Rightarrow> 's option) \<Rightarrow> nat \<Rightarrow> nat \<Rightarrow> 's \<Rightarrow> 's option" where
  "for_entries f i 0 s = Some s"
| "for_entries f i (Suc n) s = do { s \<leftarrow> f i s; for_entries f (i + 1) n s }"

text \<open>\<^verbatim>\<open>strcpy\<close> into an array of the entry.\<close>

definition c_string :: "u8 list \<Rightarrow> u8 list option" where
  "c_string xs = (if length xs < MDNS_MAX_NAME_LENGTH then Some xs else None)"

definition update_name :: "mdns_entry \<Rightarrow> mdns_entry option" where
  "update_name e = do {
     name \<leftarrow> c_string (me_prefix e @
       (if me_counter e \<noteq> 0
        then if me_type e = MDNS_SRV_ENTRY
             then [0x20, 0x28] @ mdns_itoa (nat (me_counter e)) @ [0x29]
             else [0x2d] @ mdns_itoa (nat (me_counter e))
        else []) @ [DOT] @ me_postfix e);
     Some (e\<lparr>me_name := name\<rparr>)
   }"

section \<open>Comparing answers\<close>

text \<open>The fields of an answer record: type, class, ttl and length, then the data.\<close>

definition rd_be16 :: "mem \<Rightarrow> nat \<Rightarrow> u16" where
  "rd_be16 m p = le16 (m (p + 1)) (m p)"

abbreviation (input) "ans_type m a \<equiv> rd_be16 m a"
abbreviation (input) "ans_class m a \<equiv> rd_be16 m (a + 2)"
abbreviation (input) "ans_ttl m a \<equiv> be32 (rd4 m (a + 4))"
abbreviation (input) "ans_len m a \<equiv> unat (rd_be16 m (a + 8))"
abbreviation (input) "ans_rdata a \<equiv> a + 10"

fun first_diff :: "u8 list \<Rightarrow> u8 list \<Rightarrow> int" where
  "first_diff (x # xs) (y # ys) = (if y < x then 1 else if x < y then -1 else first_diff xs ys)"
| "first_diff _ _ = 0"

definition mdns_compare_answer :: "mem \<Rightarrow> nat \<Rightarrow> u16 \<Rightarrow> u8 list \<Rightarrow> int" where
  "mdns_compare_answer m ans rrtype txt =
     (let cls = ans_class m ans AND NOT MDNS_RRCLASS_FLUSH; len = ans_len m ans
      in if MDNS_RRCLASS_IN < cls then 1 else if cls < MDNS_RRCLASS_IN then -1
         else if rrtype < ans_type m ans then 1 else if ans_type m ans < rrtype then -1
         else
           let d = first_diff (rds m (ans_rdata ans) len) txt
           in if d \<noteq> 0 then d else if length txt < len then 1 else if len < length txt then -1 else 0)"

definition mdns_compare_host_answer :: "mem \<Rightarrow> nat \<Rightarrow> mdns_entry \<Rightarrow> int" where
  "mdns_compare_host_answer m ans e = mdns_compare_answer m ans MDNS_RRTYPE_A (octets (me_ipaddr e))"

definition mdns_compare_srv_answer :: "mem \<Rightarrow> nat \<Rightarrow> mdns_entry \<Rightarrow> int" where
  "mdns_compare_srv_answer m ans e = mdns_compare_answer m ans MDNS_RRTYPE_SRV (me_name e)"

definition mdns_compare_txt_answer :: "mem \<Rightarrow> nat \<Rightarrow> mdns_entry \<Rightarrow> int" where
  "mdns_compare_txt_answer m ans e = mdns_compare_answer m ans MDNS_RRTYPE_TXT []"

definition mdns_answer_conflict :: "mem \<Rightarrow> nat \<Rightarrow> mdns_entry \<Rightarrow> bool" where
  "mdns_answer_conflict m ans e =
     (if me_type e = MDNS_SRV_ENTRY
      then if ans_type m ans = MDNS_RRTYPE_TXT then mdns_compare_txt_answer m ans e \<noteq> 0
           else if ans_type m ans = MDNS_RRTYPE_SRV then mdns_compare_srv_answer m ans e \<noteq> 0
           else False
      else mdns_compare_host_answer m ans e \<noteq> 0)"

section \<open>Questions\<close>

definition set_pending :: "nat \<Rightarrow> u32 \<Rightarrow> xtcp_connection \<Rightarrow> 'a mdns_st_scheme \<Rightarrow> 'a mdns_st_scheme" where
  "set_pending i flag conn s =
     xtcp_init_send conn (upd_entry i (\<lambda>e. e\<lparr>me_pending := me_pending e OR flag\<rparr>) s)"

text \<open>Whether the question is the reverse name of a host entry; the address is read into \<open>rev_addr\<close>.\<close>

definition rev_name_match :: "nat \<Rightarrow> mdns_entry \<Rightarrow> 'a mdns_st_scheme \<Rightarrow> (bool \<times> 'a mdns_st_scheme) option" where
  "rev_name_match qname e s =
     (if me_state e = ACTIVE \<and> (me_type e = MDNS_NAME_ENTRY \<or> me_type e = MDNS_CANONICAL_NAME_ENTRY)
      then map_option (\<lambda>(res, addr). (res \<and> addr = me_ipaddr e, s\<lparr>rev_addr := addr\<rparr>))
        (mdns_parse_rev_ip (cmem s) qname (rev_addr s))
      else Some (False, s))"

text \<open>The loop of \<^verbatim>\<open>handle_mdns_ptr_query\<close>, which ends at the first entry that is asked for.\<close>

fun handle_mdns_ptr_query :: "xtcp_connection \<Rightarrow> nat \<Rightarrow> nat \<Rightarrow> nat \<Rightarrow> 'a mdns_st_scheme \<Rightarrow> 'a mdns_st_scheme option" where
  "handle_mdns_ptr_query conn qname i 0 s = Some s"
| "handle_mdns_ptr_query conn qname i (Suc n) s =
     (let e = mdns_table s ! i in do {
        (found, s) \<leftarrow> rev_name_match qname e s;
        if found \<or> me_state e = ACTIVE \<and> me_type e = MDNS_SRV_ENTRY \<and> mdns_compare_name (me_postfix e) (cmem s) qname = 0
        then Some (set_pending i PENDING_PTR_RESPONSE conn s)
        else handle_mdns_ptr_query conn qname (i + 1) n s
      })"

text \<open>The loop over the table for the other questions.\<close>

fun other_query :: "xtcp_connection \<Rightarrow> u16 \<Rightarrow> nat \<Rightarrow> nat \<Rightarrow> nat \<Rightarrow> 'a mdns_st_scheme \<Rightarrow> 'a mdns_st_scheme" where
  "other_query conn qtype qname i 0 s = s"
| "other_query conn qtype qname i (Suc n) s =
     (let e = mdns_table s ! i
      in if me_state e = ACTIVE \<and> mdns_compare_name (me_name e) (cmem s) qname = 0
         then if me_type e = MDNS_SRV_ENTRY
              then let s = (if qtype = MDNS_RRTYPE_SRV \<or> qtype = MDNS_RRTYPE_ANY then set_pending i PENDING_SRV_RESPONSE conn s else s)
                   in (if qtype = MDNS_RRTYPE_TXT \<or> qtype = MDNS_RRTYPE_ANY then set_pending i PENDING_TXT_RESPONSE conn s else s)
              else (if qtype = MDNS_RRTYPE_A \<or> qtype = MDNS_RRTYPE_ANY then set_pending i PENDING_HOST_RESPONSE conn s else s)
         else other_query conn qtype qname (i + 1) n s)"

text \<open>The question section, from \<open>dptr\<close> on; it is left early when a name runs past the end \<open>eom\<close>.\<close>

fun mdns_questions :: "xtcp_connection \<Rightarrow> nat \<Rightarrow> nat \<Rightarrow> nat \<Rightarrow> 'a mdns_st_scheme \<Rightarrow> (nat \<times> 'a mdns_st_scheme) option" where
  "mdns_questions conn eom 0 dptr s = Some (dptr, s)"
| "mdns_questions conn eom (Suc n) dptr s = do {
     q \<leftarrow> mdns_parse_name (cmem s) eom dptr;
     case q of None \<Rightarrow> Some (dptr, s)
     | Some qry \<Rightarrow> do {
         s \<leftarrow> (if rd_be16 (cmem s) (qry + 2) = MDNS_RRCLASS_IN
               then if rd_be16 (cmem s) qry = MDNS_RRTYPE_PTR
                    then handle_mdns_ptr_query conn dptr 0 (length (mdns_table s)) s
                    else Some (other_query conn (rd_be16 (cmem s) qry) dptr 0 (length (mdns_table s)) s)
               else Some s);
         mdns_questions conn eom n (qry + 4) s
       }
   }"

section \<open>Answers and conflicts\<close>

text \<open>A conflict sends the entry back to probing, under a new name if it was probing already.\<close>

definition new_name :: "mdns_entry \<Rightarrow> mdns_entry option" where
  "new_name e = update_name (e\<lparr>me_counter := me_counter e + 1\<rparr>)"

definition response_entry :: "xtcp_connection \<Rightarrow> nat \<Rightarrow> nat \<Rightarrow> nat \<Rightarrow> u32 \<times> 'a mdns_st_scheme \<Rightarrow> (u32 \<times> 'a mdns_st_scheme) option" where
  "response_entry conn qname ans i = (\<lambda>(result, s).
     (let e = mdns_table s ! i; m = cmem s
      in if me_state e \<noteq> DISABLED \<and> me_state e \<noteq> UNUSED \<and> mdns_compare_name (me_name e) m qname = 0
         then if mdns_answer_conflict m ans e
              then do {
                let s = (if me_state e \<noteq> PROBE_WAIT \<or> me_state e \<noteq> ANNOUNCE_WAIT then xtcp_init_send conn s else s);
                (result, e) \<leftarrow> (if me_state e = PROBE_WAIT \<or> me_state e = PROBE_SENT
                  then map_option (Pair (result OR mdns_entry_lost)) (new_name e) else Some (result, e));
                Some (result, upd_entry i (\<lambda>_. e\<lparr>me_state := PROBE_WAIT, me_num_sent := 0\<rparr>) s)
              }
              else Some (result, if 127 < ans_ttl m ans then upd_entry i (\<lambda>e. e\<lparr>me_pending := 0\<rparr>) s else s)
         else Some (result, s)))"

definition handle_mdns_response :: "xtcp_connection \<Rightarrow> nat \<Rightarrow> nat \<Rightarrow> 'a mdns_st_scheme \<Rightarrow> (u32 \<times> 'a mdns_st_scheme) option" where
  "handle_mdns_response conn qname ans s =
     for_entries (response_entry conn qname ans) 0 (length (mdns_table s)) (0, s)"

fun mdns_answers :: "xtcp_connection \<Rightarrow> nat \<Rightarrow> nat \<Rightarrow> nat \<Rightarrow> u32 \<Rightarrow> 'a mdns_st_scheme \<Rightarrow> (nat \<times> u32 \<times> 'a mdns_st_scheme) option" where
  "mdns_answers conn eom 0 dptr result s = Some (dptr, result, s)"
| "mdns_answers conn eom (Suc n) dptr result s = do {
     a \<leftarrow> mdns_parse_name (cmem s) eom dptr;
     case a of None \<Rightarrow> Some (dptr, result, s)
     | Some ans \<Rightarrow> do {
         (r, s) \<leftarrow> handle_mdns_response conn dptr ans s;
         mdns_answers conn eom n (ans + 10 + ans_len (cmem s) ans) (result OR r) s
       }
   }"

section \<open>Simultaneous probes\<close>

fun some_lower :: "u8 list \<Rightarrow> u8 list \<Rightarrow> bool" where
  "some_lower (x # xs) (y # ys) = (x < y \<or> some_lower xs ys)"
| "some_lower _ _ = False"

definition answer_is_lower :: "mem \<Rightarrow> nat \<Rightarrow> nat \<Rightarrow> bool" where
  "answer_is_lower m ans1 ans2 =
     (let len1 = ans_len m ans1; len2 = ans_len m ans2
      in if ans_class m ans1 < ans_class m ans2 then True
         else if ans_type m ans1 < ans_type m ans2 then True
         else if some_lower (rds m (ans_rdata ans1) len1) (rds m (ans_rdata ans2) len2) then True
         else len1 < len2)"

text \<open>
  The authority records are read without a check for \<^verbatim>\<open>NULL\<close>, which \<^verbatim>\<open>mdns_parse_name\<close> returns at the end of
  the message.
\<close>

fun find_lowest_matching_answer :: "mdns_entry \<Rightarrow> mem \<Rightarrow> nat option \<Rightarrow> nat \<Rightarrow> nat \<Rightarrow> nat \<Rightarrow> nat option \<Rightarrow> nat option option" where
  "find_lowest_matching_answer e m ignore eom 0 dptr lowest = Some lowest"
| "find_lowest_matching_answer e m ignore eom (Suc n) dptr lowest = do {
     a \<leftarrow> mdns_parse_name m eom dptr;
     case a of None \<Rightarrow> None
     | Some ans \<Rightarrow>
         let lowest = (if mdns_compare_name (me_name e) m dptr = 0 \<and> Some ans \<noteq> ignore
               then (case lowest of None \<Rightarrow> Some ans | Some l \<Rightarrow> if answer_is_lower m ans l then Some ans else lowest)
               else lowest)
         in find_lowest_matching_answer e m ignore eom n (ans_rdata ans + ans_len m ans) lowest
   }"

definition loses_tie_break :: "mdns_entry \<Rightarrow> mem \<Rightarrow> nat \<Rightarrow> nat \<Rightarrow> nat \<Rightarrow> bool option" where
  "loses_tie_break e m auth n eom = do {
     a \<leftarrow> find_lowest_matching_answer e m None eom n auth None;
     case a of None \<Rightarrow> Some False
     | Some ans \<Rightarrow>
         if me_type e = MDNS_SRV_ENTRY
         then let res = mdns_compare_txt_answer m ans e
              in if res < 0 then Some False else if 0 < res then Some True
                 else do {
                   a \<leftarrow> find_lowest_matching_answer e m (Some ans) eom n auth None;
                   case a of None \<Rightarrow> None | Some ans \<Rightarrow> Some (0 < mdns_compare_srv_answer m ans e)
                 }
         else Some (0 < mdns_compare_host_answer m ans e)
   }"

definition auth_entry :: "xtcp_connection \<Rightarrow> nat \<Rightarrow> nat \<Rightarrow> nat \<Rightarrow> nat \<Rightarrow> u32 \<times> 'a mdns_st_scheme \<Rightarrow> (u32 \<times> 'a mdns_st_scheme) option" where
  "auth_entry conn auth n eom i = (\<lambda>(result, s).
     (let e = mdns_table s ! i; m = cmem s
      in if me_state e = PROBE_WAIT \<or> me_state e = PROBE_SENT
         then do {
           lost \<leftarrow> loses_tie_break e m auth n eom;
           if lost then do {
             let s = (if me_state e \<noteq> PROBE_WAIT then xtcp_init_send conn s else s);
             e \<leftarrow> new_name e;
             Some (result OR mdns_entry_lost, upd_entry i (\<lambda>_. e\<lparr>me_state := PROBE_WAIT, me_num_sent := 0\<rparr>) s)
           }
           else Some (result, s)
         }
         else Some (result, s)))"

definition handle_mdns_auth :: "xtcp_connection \<Rightarrow> nat \<Rightarrow> nat \<Rightarrow> nat \<Rightarrow> 'a mdns_st_scheme \<Rightarrow> (u32 \<times> 'a mdns_st_scheme) option" where
  "handle_mdns_auth conn auth n eom s =
     for_entries (auth_entry conn auth n eom) 0 (length (mdns_table s)) (0, s)"

text \<open>\<open>bs\<close> is the message, which the server sends; it is received into the local array at address 0.\<close>

definition mdns_recv :: "xtcp_connection \<Rightarrow> u8 list \<Rightarrow> 'a mdns_st_scheme \<Rightarrow> (u32 \<times> 'a mdns_st_scheme) option" where
  "mdns_recv conn bs s =
     (let (len, s) = xtcp_recv bs 0 s; eom = nat len; m = cmem s in do {
        (dptr, s) \<leftarrow> mdns_questions conn eom (unat (rd_be16 m 4)) 12 s;
        (dptr, r, s) \<leftarrow> mdns_answers conn eom (unat (rd_be16 m 6)) dptr 0 s;
        (r', s) \<leftarrow> handle_mdns_auth conn dptr (unat (rd_be16 m 8)) eom s;
        Some (r OR r', s)
      })"

section \<open>Messages\<close>

definition be16 :: "u16 \<Rightarrow> u8 list" where
  "be16 v = [hi8 v, lo8 v]"

definition be32_bytes :: "u32 \<Rightarrow> u8 list" where
  "be32_bytes v = (case bytes32 v of (a, b, c, d) \<Rightarrow> [d, c, b, a])"

definition answer_record :: "u8 list \<Rightarrow> u16 \<Rightarrow> u16 \<Rightarrow> u8 list \<Rightarrow> u8 list" where
  "answer_record nm typ cls rdata =
     nm @ be16 typ @ be16 cls @ be32_bytes 255 @ be16 (of_nat (length rdata)) @ rdata"

definition mdns_send_host_response :: "mdns_entry \<Rightarrow> u8 list" where
  "mdns_send_host_response e =
     answer_record (mdns_encode_name (me_name e)) MDNS_RRTYPE_A (MDNS_RRCLASS_IN OR MDNS_RRCLASS_FLUSH) (octets (me_ipaddr e))"

text \<open>The target of a service: unused entries have the type 0 of the canonical name as well.\<close>

definition mdns_get_canonical_name :: "mdns_entry list \<Rightarrow> u8 list option" where
  "mdns_get_canonical_name tbl =
     map_option (\<lambda>i. me_name (tbl ! i)) (first_idx (\<lambda>e. me_state e \<noteq> PROBE_WAIT \<and> me_type e = MDNS_CANONICAL_NAME_ENTRY) tbl)"

definition mdns_send_ptr_response :: "mdns_entry \<Rightarrow> u8 list" where
  "mdns_send_ptr_response e =
     answer_record (if me_type e = MDNS_SRV_ENTRY then mdns_encode_name (me_postfix e) else mdns_encode_ip (me_ipaddr e))
       MDNS_RRTYPE_PTR MDNS_RRCLASS_IN (mdns_encode_name (me_name e))"

definition mdns_send_srv_response :: "mdns_entry list \<Rightarrow> mdns_entry \<Rightarrow> u8 list option" where
  "mdns_send_srv_response tbl e = do {
     target \<leftarrow> mdns_get_canonical_name tbl;
     Some (answer_record (mdns_encode_name (me_name e)) MDNS_RRTYPE_SRV MDNS_RRCLASS_IN
       ([0, 0] @ [0, 0] @ be16 (word_of_int (me_srv_port e)) @ mdns_encode_name target))
   }"

definition mdns_send_txt_response :: "mdns_entry \<Rightarrow> u8 list" where
  "mdns_send_txt_response e =
     answer_record (mdns_encode_name (me_name e)) MDNS_RRTYPE_TXT MDNS_RRCLASS_IN (mdns_encode_name (me_txt e))"

definition mdns_send_probe :: "mdns_entry \<Rightarrow> u8 list" where
  "mdns_send_probe e = mdns_encode_name (me_name e) @ be16 255 @ be16 MDNS_RRCLASS_IN"

definition probe_size :: "mdns_entry \<Rightarrow> int" where
  "probe_size e = 4 + int (length (me_name e))"

definition mdns_header :: "u8 \<Rightarrow> int \<Rightarrow> int \<Rightarrow> int \<Rightarrow> u8 list" where
  "mdns_header flags1 questions answers auths =
     be16 0 @ [flags1, 0] @ be16 (word_of_int questions) @ be16 (word_of_int answers) @ be16 (word_of_int auths) @ be16 0"

abbreviation (input) "XTCP_CLIENT_BUF_SIZE \<equiv> 1472 :: int"

text \<open>
  Messages are built in a local array of \<^verbatim>\<open>XTCP_CLIENT_BUF_SIZE\<close> bytes: \<open>body\<close> is what stands behind the
  header, and building more than fits is \<open>None\<close>.
\<close>

definition send_message :: "u8 list \<Rightarrow> u8 list \<Rightarrow> bool \<Rightarrow> 'a mdns_st_scheme \<Rightarrow> (bool \<times> 'a mdns_st_scheme) option" where
  "send_message hdr body some s =
     (if XTCP_CLIENT_BUF_SIZE < int (length hdr + length body) then None
      else Some (some, if some then put_tok (TokData (hdr @ body)) s else s))"

definition probe_entry :: "nat \<Rightarrow> u8 list \<times> int \<times> 'a mdns_st_scheme \<Rightarrow> (u8 list \<times> int \<times> 'a mdns_st_scheme) option" where
  "probe_entry i = (\<lambda>(body, n, s).
     (let e = mdns_table s ! i; space_left = XTCP_CLIENT_BUF_SIZE - (12 + int (length body))
      in Some (if me_state e = PROBE_WAIT \<and> probe_size e < space_left
           then (body @ mdns_send_probe e, n + 1, upd_entry i (\<lambda>e. e\<lparr>me_state := PROBE_PARTIAL_SENT\<rparr>) s)
           else (body, n, s))))"

text \<open>The records that describe an entry, in probes and in announcements.\<close>

definition entry_records :: "mdns_entry list \<Rightarrow> mdns_entry \<Rightarrow> (u8 list \<times> int) option" where
  "entry_records tbl e =
     (if me_type e = MDNS_SRV_ENTRY
      then do {
        srv \<leftarrow> mdns_send_srv_response tbl e;
        Some (mdns_send_ptr_response e @ srv @ mdns_send_txt_response e, 3)
      }
      else Some (mdns_send_host_response e, 1))"

definition auth_record_entry :: "u32 \<Rightarrow> nat \<Rightarrow> u8 list \<times> int \<times> 'a mdns_st_scheme \<Rightarrow> (u8 list \<times> int \<times> 'a mdns_st_scheme) option" where
  "auth_record_entry t i = (\<lambda>(body, n, s).
     (let e = mdns_table s ! i
      in if me_state e = PROBE_PARTIAL_SENT
         then do {
           (recs, k) \<leftarrow> entry_records (mdns_table s) e;
           Some (body @ recs, n + k, upd_entry i (\<lambda>e. e\<lparr>me_num_sent := me_num_sent e + 1, me_state := PROBE_SENT,
             me_timeout := (if me_counter e < 15 then t + 250 * 1000 * 100 else t + 2500 * 1000 * 100)\<rparr>) s)
         }
         else Some (body, n, s)))"

definition mdns_send_probes :: "u32 \<Rightarrow> 'a mdns_st_scheme \<Rightarrow> (bool \<times> 'a mdns_st_scheme) option" where
  "mdns_send_probes t s = do {
     (body, num_probes, s) \<leftarrow> for_entries probe_entry 0 (length (mdns_table s)) ([], 0, s);
     (body, num_auth, s) \<leftarrow> for_entries (auth_record_entry t) 0 (length (mdns_table s)) (body, 0, s);
     send_message (mdns_header 0 num_probes 0 num_auth) body (0 < num_probes) s
   }"

definition mdns_response_size :: "mdns_entry \<Rightarrow> int" where
  "mdns_response_size e = 10 + 2 * int (length (me_name e)) + 4"

text \<open>One kind of pending response.\<close>

definition answer_pending :: "u32 \<Rightarrow> (mdns_entry list \<Rightarrow> mdns_entry \<Rightarrow> u8 list option) \<Rightarrow> nat \<Rightarrow>
    u8 list \<times> int \<times> 'a mdns_st_scheme \<Rightarrow> (u8 list \<times> int \<times> 'a mdns_st_scheme) option" where
  "answer_pending flag resp i = (\<lambda>(body, n, s).
     (let e = mdns_table s ! i
      in if me_pending e AND flag \<noteq> 0
         then do {
           r \<leftarrow> resp (mdns_table s) e;
           Some (body @ r, n + 1, upd_entry i (\<lambda>e. e\<lparr>me_pending := me_pending e XOR flag\<rparr>) s)
         }
         else Some (body, n, s)))"

definition announce_entry :: "u32 \<Rightarrow> nat \<Rightarrow> u8 list \<times> int \<times> 'a mdns_st_scheme \<Rightarrow> (u8 list \<times> int \<times> 'a mdns_st_scheme) option" where
  "announce_entry t i = (\<lambda>(body, n, s).
     (let e = mdns_table s ! i
      in if me_state e = ANNOUNCE_WAIT
         then do {
           (recs, k) \<leftarrow> entry_records (mdns_table s) e;
           Some (body @ recs, n + k, upd_entry i (\<lambda>e. e\<lparr>me_num_sent := me_num_sent e + 1, me_state := ANNOUNCE_SENT,
             me_timeout := t + 1000 * 1000 * 100\<rparr>) s)
         }
         else Some (body, n, s)))"

definition respond_entry :: "u32 \<Rightarrow> nat \<Rightarrow> u8 list \<times> int \<times> 'a mdns_st_scheme \<Rightarrow> (u8 list \<times> int \<times> 'a mdns_st_scheme) option" where
  "respond_entry t i = (\<lambda>(body, n, s).
     (let e = mdns_table s ! i; space_left = XTCP_CLIENT_BUF_SIZE - (12 + int (length body))
      in if me_state e \<noteq> UNUSED \<and> mdns_response_size e < space_left
         then do {
           r \<leftarrow> announce_entry t i (body, n, s);
           r \<leftarrow> answer_pending PENDING_HOST_RESPONSE (\<lambda>_ e. Some (mdns_send_host_response e)) i r;
           r \<leftarrow> answer_pending PENDING_PTR_RESPONSE (\<lambda>_ e. Some (mdns_send_ptr_response e)) i r;
           r \<leftarrow> answer_pending PENDING_SRV_RESPONSE mdns_send_srv_response i r;
           answer_pending PENDING_TXT_RESPONSE (\<lambda>_ e. Some (mdns_send_txt_response e)) i r
         }
         else Some (body, n, s)))"

definition mdns_send_responses :: "u32 \<Rightarrow> 'a mdns_st_scheme \<Rightarrow> (bool \<times> 'a mdns_st_scheme) option" where
  "mdns_send_responses t s = do {
     (body, num_answers, s) \<leftarrow> for_entries (respond_entry t) 0 (length (mdns_table s)) ([], 0, s);
     send_message (mdns_header 0x84 0 num_answers 0) body (0 < num_answers) s
   }"

definition mdns_send :: "u32 \<Rightarrow> 'a mdns_st_scheme \<Rightarrow> 'a mdns_st_scheme option" where
  "mdns_send t s = do {
     (sent, s) \<leftarrow> mdns_send_probes t s;
     if sent then Some s
     else do {
       (sent, s) \<leftarrow> mdns_send_responses t s;
       Some (if sent then s else put_tok (TokData []) s)
     }
   }"

section \<open>Schedule and events\<close>

definition mdns_init :: "'a mdns_st_scheme \<Rightarrow> 'a mdns_st_scheme" where
  "mdns_init s = (let s = xtcp_connect MDNS_SERVER_PORT mdns_group XTCP_PROTOCOL_UDP s
     in s\<lparr>mdns_table := map (\<lambda>e. e\<lparr>me_state := UNUSED\<rparr>) (mdns_table s)\<rparr>)"

definition start_entry :: "xtcp_connection \<Rightarrow> nat \<Rightarrow> 'a mdns_st_scheme \<Rightarrow> 'a mdns_st_scheme option" where
  "start_entry conn i s =
     Some (if me_state (mdns_table s ! i) \<noteq> UNUSED
       then xtcp_init_send conn (upd_entry i (\<lambda>e. e\<lparr>me_state := PROBE_WAIT, me_num_sent := 0\<rparr>) s) else s)"

definition mdns_start_entries :: "xtcp_connection \<Rightarrow> 'a mdns_st_scheme \<Rightarrow> 'a mdns_st_scheme option" where
  "mdns_start_entries conn s =
     map_option (\<lambda>s. s\<lparr>mdns_started := 2\<rparr>) (for_entries (start_entry conn) 0 (length (mdns_table s)) s)"

definition mdns_start :: "word4 \<Rightarrow> 'a mdns_st_scheme \<Rightarrow> 'a mdns_st_scheme" where
  "mdns_start ipaddr s = (let s = xtcp_join_multicast_group mdns_group s
     in s\<lparr>mdns_table := map (\<lambda>e. e\<lparr>me_ipaddr := ipaddr\<rparr>) (mdns_table s), mdns_started := 1\<rparr>)"

definition timeafter :: "u32 \<Rightarrow> u32 \<Rightarrow> bool" where
  "timeafter a b \<longleftrightarrow> sint (b - a) < 0"

definition periodic_entry :: "xtcp_connection \<Rightarrow> u32 \<Rightarrow> nat \<Rightarrow> u32 \<times> 'a mdns_st_scheme \<Rightarrow> (u32 \<times> 'a mdns_st_scheme) option" where
  "periodic_entry conn t i = (\<lambda>(result, s).
     (let e = mdns_table s ! i
      in Some (if me_state e = PROBE_SENT \<and> timeafter t (me_timeout e)
           then if me_num_sent e < 3
                then (result, xtcp_init_send conn (upd_entry i (\<lambda>e. e\<lparr>me_state := PROBE_WAIT\<rparr>) s))
                else (result, xtcp_init_send conn (upd_entry i (\<lambda>e. e\<lparr>me_state := ANNOUNCE_WAIT, me_num_sent := 0\<rparr>) s))
           else if me_state e = ANNOUNCE_SENT \<and> timeafter t (me_timeout e)
           then if me_num_sent e < 3
                then (result, xtcp_init_send conn (upd_entry i (\<lambda>e. e\<lparr>me_state := ANNOUNCE_WAIT\<rparr>) s))
                else (result OR mdns_entry_active, upd_entry i (\<lambda>e. e\<lparr>me_state := ACTIVE\<rparr>) s)
           else (result, s))))"

definition mdns_periodic :: "xtcp_connection \<Rightarrow> u32 \<Rightarrow> 'a mdns_st_scheme \<Rightarrow> (u32 \<times> 'a mdns_st_scheme) option" where
  "mdns_periodic conn t s = do {
     s \<leftarrow> (if mdns_started s = 1 then mdns_start_entries conn s else Some s);
     for_entries (periodic_entry conn t) 0 (length (mdns_table s)) (0, s)
   }"

text \<open>\<open>bs\<close> is the data that comes with the event: a message, or the reply to \<^verbatim>\<open>xtcp_get_ipconfig\<close>.\<close>

definition mdns_handle_event :: "xtcp_connection \<Rightarrow> u8 list \<Rightarrow> u32 \<Rightarrow> 'a mdns_st_scheme \<Rightarrow>
    (u32 \<times> xtcp_connection \<times> 'a mdns_st_scheme) option" where
  "mdns_handle_event conn bs t s =
     (if xc_event conn = XTCP_IFUP
      then let s = take_msgs [OutIpconfig bs] (send_cmd CMD_GET_IPCONFIG 0 s)
           in Some (mdns_ifup, conn, mdns_start (bs ! 0, bs ! 1, bs ! 2, bs ! 3) s)
      else if xc_event conn = XTCP_IFDOWN then Some (mdns_ifdown, conn, s)
      else if xc_event conn = XTCP_ALREADY_HANDLED then Some (0, conn, s)
      else
        let s = (if uint (xc_remote_port conn) = MDNS_SERVER_PORT \<and> xc_event conn = XTCP_NEW_CONNECTION
                 then xtcp_bind_local conn MDNS_SERVER_PORT (xtcp_set_poll_interval conn 125 s) else s)
        in if uint (xc_local_port conn) = MDNS_SERVER_PORT
           then do {
             (result, s) \<leftarrow> (case xc_event conn of
                 XTCP_POLL \<Rightarrow> mdns_periodic conn t s
               | XTCP_RECV_DATA \<Rightarrow> mdns_recv conn bs s
               | XTCP_REQUEST_DATA \<Rightarrow> map_option (Pair 0) (mdns_send t s)
               | XTCP_SENT_DATA \<Rightarrow> map_option (Pair 0) (mdns_send t s)
               | XTCP_RESEND_DATA \<Rightarrow> map_option (Pair 0) (mdns_send t s)
               | _ \<Rightarrow> Some (0, s));
             Some (result, conn\<lparr>xc_event := XTCP_ALREADY_HANDLED\<rparr>, s)
           }
           else Some (0, conn, s))"

section \<open>Registration\<close>

definition mdns_add_entry :: "u8 list \<Rightarrow> u8 list \<Rightarrow> u8 list \<Rightarrow> word4 option \<Rightarrow> int \<Rightarrow> mdns_entry_type \<Rightarrow>
    'a mdns_st_scheme \<Rightarrow> 'a mdns_st_scheme option" where
  "mdns_add_entry prefix postfix txt ipaddr srv_port typ s =
     (case (case first_idx (\<lambda>e. me_state e \<noteq> UNUSED \<and> me_postfix e = postfix \<and> me_prefix e = prefix) (mdns_table s) of
              None \<Rightarrow> first_idx (\<lambda>e. me_state e = UNUSED) (mdns_table s) | Some i \<Rightarrow> Some i) of
        None \<Rightarrow> Some s
      | Some i \<Rightarrow> do {
          let e = mdns_table s ! i;
          pre \<leftarrow> c_string prefix;
          post \<leftarrow> c_string (if typ = MDNS_SRV_ENTRY then postfix @ map of_char ''.local'' else postfix);
          t \<leftarrow> (if typ = MDNS_SRV_ENTRY then c_string txt else Some (me_txt e));
          e \<leftarrow> update_name (e\<lparr>me_type := typ, me_state := DISABLED, me_pending := 0, me_prefix := pre, me_postfix := post,
             me_txt := t, me_counter := 0\<rparr>);
          Some (upd_entry i (\<lambda>_. e\<lparr>me_srv_port := srv_port, me_ipaddr := (case ipaddr of None \<Rightarrow> me_ipaddr e | Some a \<Rightarrow> a)\<rparr>) s)
        })"

definition mdns_register_canonical_name :: "u8 list \<Rightarrow> 'a mdns_st_scheme \<Rightarrow> 'a mdns_st_scheme option" where
  "mdns_register_canonical_name nm = mdns_add_entry nm (map of_char ''local'') [] None 0 MDNS_CANONICAL_NAME_ENTRY"

definition mdns_register_name :: "u8 list \<Rightarrow> 'a mdns_st_scheme \<Rightarrow> 'a mdns_st_scheme option" where
  "mdns_register_name nm = mdns_add_entry nm (map of_char ''local'') [] None 0 MDNS_NAME_ENTRY"

definition mdns_register_service :: "u8 list \<Rightarrow> u8 list \<Rightarrow> int \<Rightarrow> u8 list \<Rightarrow> 'a mdns_st_scheme \<Rightarrow> 'a mdns_st_scheme option" where
  "mdns_register_service nm srv_type srv_port txt = mdns_add_entry nm srv_type txt None srv_port MDNS_SRV_ENTRY"

section \<open>The state diagram\<close>

lemma table_sel [simp]:
  "mdns_table (put_tok t s) = mdns_table s" "mdns_table (take_msgs ms s) = mdns_table s" "mdns_table (send_cmd cmd c s) = mdns_table s"
  "mdns_table (xtcp_init_send conn s) = mdns_table s"
  by (simp_all add: put_tok_def take_msgs_def send_cmd_def xtcp_init_send_def)

lemma length_upd_entry [simp]: "length (mdns_table (upd_entry i f s)) = length (mdns_table s)"
  by (simp add: upd_entry_def)

lemma for_entries_inv:
  assumes "for_entries f i n s = Some s'" and "P s" and "\<And>i s s'. P s \<Longrightarrow> f i s = Some s' \<Longrightarrow> P s'"
  shows "P s'"
  using assms(1,2)
proof (induction n arbitrary: i s)
  case (Suc n)
  then obtain t where "f i s = Some t" "for_entries f (i + 1) n t = Some s'" by (auto simp: bind_eq_Some_conv)
  from Suc.IH [OF this(2) assms(3) [OF Suc.prems(2) this(1)]] show ?case .
qed simp

lemma ptr_query_Suc:
  assumes "handle_mdns_ptr_query conn q i (Suc n) s = Some s'"
  obtains addr where "s' = set_pending i PENDING_PTR_RESPONSE conn (s\<lparr>rev_addr := addr\<rparr>)"
  | addr where "handle_mdns_ptr_query conn q (i + 1) n (s\<lparr>rev_addr := addr\<rparr>) = Some s'"
proof -
  from assms obtain found t where t: "rev_name_match q (mdns_table s ! i) s = Some (found, t)"
    and s': "s' = set_pending i PENDING_PTR_RESPONSE conn t \<or> handle_mdns_ptr_query conn q (i + 1) n t = Some s'"
    by (auto simp: Let_def bind_eq_Some_conv split: if_splits)
  have same: "s = s\<lparr>rev_addr := rev_addr s\<rparr>" by (cases s) simp
  from t have "t = s \<or> (\<exists>addr. t = s\<lparr>rev_addr := addr\<rparr>)"
    by (auto simp: rev_name_match_def split: if_splits)
  with same obtain addr where "t = s\<lparr>rev_addr := addr\<rparr>" by blast
  with s' show ?thesis using that by blast
qed

lemma questions_Suc:
  assumes "mdns_questions conn eom (Suc n) d s = Some (d', s')"
  obtains "d' = d" "s' = s"
  | qry t where "mdns_questions conn eom n (qry + 4) t = Some (d', s')"
    "t = s \<or> handle_mdns_ptr_query conn d 0 (length (mdns_table s)) s = Some t \<or>
     (\<exists>ty. t = other_query conn ty d 0 (length (mdns_table s)) s)"
proof -
  from assms obtain q where q: "mdns_parse_name (cmem s) eom d = Some q" by (auto simp: bind_eq_Some_conv)
  show ?thesis
  proof (cases q)
    case None
    with assms q show ?thesis using that(1) by simp
  next
    case (Some qry)
    with assms q show ?thesis using that(2) by (auto simp: bind_eq_Some_conv split: if_splits)
  qed
qed

lemma update_name_keeps: "update_name e = Some e' \<Longrightarrow> me_state e' = me_state e \<and> me_num_sent e' = me_num_sent e"
  by (auto simp: update_name_def bind_eq_Some_conv)

lemma new_name_keeps: "new_name e = Some e' \<Longrightarrow> me_state e' = me_state e \<and> me_num_sent e' = me_num_sent e"
  by (auto simp: new_name_def dest: update_name_keeps)

text \<open>
  What all operations but the sending of messages do to an entry: they leave it, start to probe with it, register it, or move it
  along the schedule. \<open>T\<close> is a property of entries that such moves keep; \<open>entry_at\<close> says that the entry with the
  index \<open>i\<close> has it, and what the flag \<^verbatim>\<open>mdns_started\<close> is.
\<close>

locale entry_moves =
  fixes T :: "mdns_entry \<Rightarrow> bool"
  assumes keep: "T e \<Longrightarrow> me_state e' = me_state e \<Longrightarrow> me_num_sent e' = me_num_sent e \<Longrightarrow> me_name e' = me_name e \<Longrightarrow> T e'"
    and restart: "me_state e = PROBE_WAIT \<Longrightarrow> me_num_sent e = 0 \<Longrightarrow> T e"
    and registered: "me_state e = DISABLED \<Longrightarrow> T e"
    and again: "T e \<Longrightarrow> me_state e = PROBE_SENT \<Longrightarrow> me_num_sent e < 3 \<Longrightarrow> T (e\<lparr>me_state := PROBE_WAIT\<rparr>)"
    and claim: "T e \<Longrightarrow> me_state e = PROBE_SENT \<Longrightarrow> 3 \<le> me_num_sent e \<Longrightarrow> T (e\<lparr>me_state := ANNOUNCE_WAIT, me_num_sent := 0\<rparr>)"
    and announce_again: "T e \<Longrightarrow> me_state e = ANNOUNCE_SENT \<Longrightarrow> me_num_sent e < 3 \<Longrightarrow> T (e\<lparr>me_state := ANNOUNCE_WAIT\<rparr>)"
    and activate: "T e \<Longrightarrow> me_state e = ANNOUNCE_SENT \<Longrightarrow> 3 \<le> me_num_sent e \<Longrightarrow> T (e\<lparr>me_state := ACTIVE\<rparr>)"

definition entry_at :: "(mdns_entry \<Rightarrow> bool) \<Rightarrow> nat \<Rightarrow> int \<Rightarrow> 'a mdns_st_scheme \<Rightarrow> bool" where
  "entry_at T i m s \<longleftrightarrow> mdns_started s = m \<and> i < length (mdns_table s) \<and> T (mdns_table s ! i)"

lemma entry_at_cong [simp]:
  "entry_at T i m (put_tok t s) = entry_at T i m s" "entry_at T i m (take_msgs ms s) = entry_at T i m s"
  "entry_at T i m (send_cmd cmd c s) = entry_at T i m s" "entry_at T i m (xtcp_init_send conn s) = entry_at T i m s"
  "entry_at T i m (s\<lparr>rev_addr := x\<rparr>) = entry_at T i m s" "entry_at T i m (s\<lparr>cmem := mm\<rparr>) = entry_at T i m s"
  by (simp_all add: entry_at_def put_tok_def take_msgs_def send_cmd_def xtcp_init_send_def)

lemma entry_at_upd:
  assumes "entry_at T i m s" and "T (mdns_table s ! i) \<Longrightarrow> j = i \<Longrightarrow> T (f (mdns_table s ! i))"
  shows "entry_at T i m (upd_entry j f s)"
  using assms by (cases "j = i") (simp_all add: entry_at_def upd_entry_def)

context entry_moves
begin

lemma pending_at: "entry_at T i m s \<Longrightarrow> entry_at T i m (upd_entry j (\<lambda>e. e\<lparr>me_pending := u e\<rparr>) s)"
  by (rule entry_at_upd) (auto elim: keep)

lemma set_pending_at: "entry_at T i m s \<Longrightarrow> entry_at T i m (set_pending j flag conn s)"
  unfolding set_pending_def entry_at_cong by (rule pending_at)

lemma restart_at:
  "entry_at T i m s \<Longrightarrow> entry_at T i m (upd_entry j (\<lambda>e. (f e)\<lparr>me_state := PROBE_WAIT, me_num_sent := 0\<rparr>) s)"
  by (rule entry_at_upd) (simp_all add: restart)

lemma ptr_query_at: "handle_mdns_ptr_query conn q k n s = Some s' \<Longrightarrow> entry_at T i m s \<Longrightarrow> entry_at T i m s'"
proof (induction n arbitrary: k s)
  case (Suc n)
  from Suc.prems(1) show ?case
    by (rule ptr_query_Suc) (use Suc.prems(2) Suc.IH in \<open>simp_all add: set_pending_at\<close>)
qed simp

lemma other_query_at: "entry_at T i m s \<Longrightarrow> entry_at T i m (other_query conn ty q k n s)"
  by (induction conn ty q k n s rule: other_query.induct) (auto simp: Let_def set_pending_at)

lemma questions_at: "mdns_questions conn eom n d s = Some (d', s') \<Longrightarrow> entry_at T i m s \<Longrightarrow> entry_at T i m s'"
proof (induction n arbitrary: d s)
  case (Suc n)
  from Suc.prems(1) show ?case
    by (rule questions_Suc) (use Suc.prems(2) Suc.IH ptr_query_at other_query_at in blast)+
qed simp

lemma response_entry_at:
  "response_entry conn q a j (r, s) = Some (r', s') \<Longrightarrow> entry_at T i m s \<Longrightarrow> entry_at T i m s'"
  by (auto simp: response_entry_def Let_def bind_eq_Some_conv pending_at restart_at split: if_splits)

lemma auth_entry_at:
  "auth_entry conn q n eom j (r, s) = Some (r', s') \<Longrightarrow> entry_at T i m s \<Longrightarrow> entry_at T i m s'"
  by (auto simp: auth_entry_def Let_def bind_eq_Some_conv restart_at split: if_splits)

lemma for_entries_at:
  assumes "for_entries f k n (r, s) = Some (r', s')" and "entry_at T i m s"
    and "\<And>j r s r' s'. f j (r, s) = Some (r', s') \<Longrightarrow> entry_at T i m s \<Longrightarrow> entry_at T i m s'"
  shows "entry_at T i m s'"
proof -
  have "(\<lambda>(r, s). entry_at T i m s) (r', s')"
    by (rule for_entries_inv [OF assms(1)]) (use assms(2,3) in auto)
  then show ?thesis by simp
qed

lemma answers_at: "mdns_answers conn eom n d r s = Some (d', r', s') \<Longrightarrow> entry_at T i m s \<Longrightarrow> entry_at T i m s'"
proof (induction n arbitrary: d r s)
  case (Suc n)
  from Suc.prems(1) obtain a where a: "mdns_parse_name (cmem s) eom d = Some a" by (auto simp: bind_eq_Some_conv)
  show ?case
  proof (cases a)
    case None
    with Suc.prems a show ?thesis by simp
  next
    case (Some ans)
    with Suc.prems(1) a obtain r1 t where t: "handle_mdns_response conn d ans s = Some (r1, t)"
      "mdns_answers conn eom n (ans + 10 + ans_len (cmem t) ans) (r OR r1) t = Some (d', r', s')"
      by (auto simp: bind_eq_Some_conv)
    have "entry_at T i m t"
      by (rule for_entries_at [OF t(1) [unfolded handle_mdns_response_def] Suc.prems(2) response_entry_at])
    from Suc.IH [OF t(2) this] show ?thesis .
  qed
qed simp

lemma recv_at:
  assumes "mdns_recv conn bs s = Some (r, s')" and "entry_at T i m s"
  shows "entry_at T i m s'"
proof -
  obtain len s1 where recv: "xtcp_recv bs 0 s = (len, s1)" by fastforce
  with assms(2) have s1: "entry_at T i m s1" by (auto simp: client_simps)
  from assms(1) recv obtain d s2 d2 r2 s3 r3 where
    q: "mdns_questions conn (nat len) (unat (rd_be16 (cmem s1) 4)) 12 s1 = Some (d, s2)"
    and a: "mdns_answers conn (nat len) (unat (rd_be16 (cmem s1) 6)) d 0 s2 = Some (d2, r2, s3)"
    and h: "handle_mdns_auth conn d2 (unat (rd_be16 (cmem s1) 8)) (nat len) s3 = Some (r3, s')"
    by (auto simp: mdns_recv_def Let_def bind_eq_Some_conv)
  have s3: "entry_at T i m s3" by (rule answers_at [OF a questions_at [OF q s1]])
  show ?thesis
    by (rule for_entries_at [OF h [unfolded handle_mdns_auth_def] s3 auth_entry_at])
qed

lemma periodic_entry_at:
  assumes "periodic_entry conn t j (r, s) = Some (r', s')" and "entry_at T i m s"
  shows "entry_at T i m s'"
proof -
  note step = entry_at_upd [OF assms(2)]
  have "entry_at T i m (upd_entry j (\<lambda>e. e\<lparr>me_state := PROBE_WAIT\<rparr>) s)"
    if "me_state (mdns_table s ! j) = PROBE_SENT" "me_num_sent (mdns_table s ! j) < 3"
    by (rule step) (use that again in auto)
  moreover have "entry_at T i m (upd_entry j (\<lambda>e. e\<lparr>me_state := ANNOUNCE_WAIT, me_num_sent := 0\<rparr>) s)"
    if "me_state (mdns_table s ! j) = PROBE_SENT" "3 \<le> me_num_sent (mdns_table s ! j)"
    by (rule step) (use that claim in auto)
  moreover have "entry_at T i m (upd_entry j (\<lambda>e. e\<lparr>me_state := ANNOUNCE_WAIT\<rparr>) s)"
    if "me_state (mdns_table s ! j) = ANNOUNCE_SENT" "me_num_sent (mdns_table s ! j) < 3"
    by (rule step) (use that announce_again in auto)
  moreover have "entry_at T i m (upd_entry j (\<lambda>e. e\<lparr>me_state := ACTIVE\<rparr>) s)"
    if "me_state (mdns_table s ! j) = ANNOUNCE_SENT" "3 \<le> me_num_sent (mdns_table s ! j)"
    by (rule step) (use that activate in auto)
  ultimately show ?thesis
    using assms by (auto simp: periodic_entry_def Let_def split: if_splits)
qed

lemma periodic_loop_at:
  "for_entries (periodic_entry conn t) 0 n (r, s) = Some (r', s') \<Longrightarrow> entry_at T i m s \<Longrightarrow> entry_at T i m s'"
  by (rule for_entries_at [OF _ _ periodic_entry_at])

lemma add_entry_at:
  assumes "mdns_add_entry pre post txt ip port ty s = Some s'" and "entry_at T i m s"
  shows "entry_at T i m s'"
proof -
  have reg: "entry_at T i m (upd_entry j (\<lambda>_. e) s)" if "me_state e = DISABLED" for j e
    using assms(2) by (rule entry_at_upd) (use that registered in simp)
  from assms show ?thesis
    by (auto simp: mdns_add_entry_def Let_def bind_eq_Some_conv split: option.splits dest!: update_name_keeps intro!: reg)
qed

lemma start_at: "entry_at T i m s \<Longrightarrow> entry_at T i 1 (mdns_start ip s)"
  by (auto simp: mdns_start_def Let_def entry_at_def cmd_defs elim: keep)

end

lemma header_bytes: "mdns_header f q a n = [0, 0, f, 0, hi8 (word_of_int q), lo8 (word_of_int q),
    hi8 (word_of_int a), lo8 (word_of_int a), hi8 (word_of_int n), lo8 (word_of_int n), 0, 0]"
  by (simp add: mdns_header_def be16_def hi8_def lo8_def)

section \<open>Counting messages\<close>

text \<open>
  What is sent, as seen from outside: the tokens with data that a step adds. A probe for an entry is a query (flags 0) that holds the question for
  its name; an announcement is a response (flags 0x84) that holds the address of a host or the pointer to a service. They are counted
  for an entry when it was waiting to send one and has moved on.
\<close>

definition occurs :: "u8 list \<Rightarrow> u8 list \<Rightarrow> bool" where
  "occurs xs ys = list_ex (\<lambda>k. take (length xs) (drop k ys) = xs) [0..<Suc (length ys)]"

lemma occurs_middle [simp]: "occurs xs (bs @ xs @ cs)"
  unfolding occurs_def list_ex_iff by (rule bexI [of _ "length bs"]) simp_all

lemma occurs_append: "occurs xs ys \<Longrightarrow> occurs xs (ys @ zs)"
  unfolding occurs_def list_ex_iff set_upt
proof (elim bexE)
  fix k assume k: "k \<in> {0..<Suc (length ys)}" "take (length xs) (drop k ys) = xs"
  then have "length xs \<le> length ys - k" by (metis length_take length_drop min.cobounded1 min.commute)
  with k show "\<exists>k\<in>{0..<Suc (length (ys @ zs))}. take (length xs) (drop k (ys @ zs)) = xs" by (intro bexI [of _ k]) auto
qed

definition carries :: "u8 \<Rightarrow> u8 list \<Rightarrow> client_tok \<Rightarrow> bool" where
  "carries flags rec t =
     (case t of TokData d \<Rightarrow> 12 \<le> length d \<and> d ! 2 = flags \<and> occurs rec (drop 12 d) | _ \<Rightarrow> False)"

definition new_tokens :: "'a mdns_st_scheme \<Rightarrow> 'a mdns_st_scheme \<Rightarrow> client_tok list" where
  "new_tokens s s' = drop (length (ctoks s)) (ctoks s')"

definition sent_probe :: "nat \<Rightarrow> 'a mdns_st_scheme \<Rightarrow> 'a mdns_st_scheme \<Rightarrow> bool" where
  "sent_probe i s s' =
     (me_state (mdns_table s ! i) = PROBE_WAIT \<and> me_state (mdns_table s' ! i) \<noteq> PROBE_WAIT \<and>
      list_ex (carries 0 (mdns_send_probe (mdns_table s ! i))) (new_tokens s s'))"

definition announcement :: "mdns_entry \<Rightarrow> u8 list" where
  "announcement e = (if me_type e = MDNS_SRV_ENTRY then mdns_send_ptr_response e else mdns_send_host_response e)"

definition sent_announcement :: "nat \<Rightarrow> 'a mdns_st_scheme \<Rightarrow> 'a mdns_st_scheme \<Rightarrow> bool" where
  "sent_announcement i s s' =
     (me_state (mdns_table s ! i) = ANNOUNCE_WAIT \<and> me_state (mdns_table s' ! i) \<noteq> ANNOUNCE_WAIT \<and>
      list_ex (carries 0x84 (announcement (mdns_table s ! i))) (new_tokens s s'))"

text \<open>
  The counts of an entry over a run. They start again from zero when the entry gets another name, when it falls back from
  announcing or from being active, and when the server starts to probe for all its entries because the interface came up.
\<close>

definition announcing :: "mdns_entry \<Rightarrow> bool" where
  "announcing e \<longleftrightarrow> me_state e \<in> {ANNOUNCE_WAIT, ANNOUNCE_SENT, ACTIVE}"

definition starts_over :: "nat \<Rightarrow> 'a mdns_st_scheme \<Rightarrow> 'a mdns_st_scheme \<Rightarrow> bool" where
  "starts_over i s s' =
     (me_name (mdns_table s' ! i) \<noteq> me_name (mdns_table s ! i) \<or> announcing (mdns_table s ! i) \<and> \<not> announcing (mdns_table s' ! i) \<or>
      mdns_started s = 1 \<and> mdns_started s' = 2)"

definition count_messages :: "nat \<Rightarrow> 'a mdns_st_scheme \<Rightarrow> 'a mdns_st_scheme \<Rightarrow> nat \<times> nat \<Rightarrow> nat \<times> nat" where
  "count_messages i s s' = (\<lambda>(p, a). if starts_over i s s' then (0, 0)
     else (p + of_bool (sent_probe i s s'), a + of_bool (sent_announcement i s s')))"

text \<open>What the counts must be in each state, given the value of \<^verbatim>\<open>num_sent\<close>.\<close>

definition counted :: "nat \<Rightarrow> nat \<Rightarrow> mdns_entry \<Rightarrow> bool" where
  "counted p a e =
     (case me_state e of UNUSED \<Rightarrow> True | DISABLED \<Rightarrow> True
      | PROBE_WAIT \<Rightarrow> me_num_sent e \<le> int p
      | PROBE_PARTIAL_SENT \<Rightarrow> me_num_sent e + 1 \<le> int p
      | PROBE_SENT \<Rightarrow> me_num_sent e \<le> int p
      | ANNOUNCE_WAIT \<Rightarrow> 3 \<le> p \<and> me_num_sent e \<le> int a
      | ANNOUNCE_SENT \<Rightarrow> 3 \<le> p \<and> me_num_sent e \<le> int a
      | ACTIVE \<Rightarrow> 3 \<le> p \<and> 3 \<le> a)"

lemma counted_mono: "counted p a e \<Longrightarrow> p \<le> p' \<Longrightarrow> a \<le> a' \<Longrightarrow> counted p' a' e"
  by (auto simp: counted_def split: mdns_state.splits)

text \<open>The same, seen from an entry as it was before the operation.\<close>

definition counted_from :: "mdns_entry \<Rightarrow> nat \<Rightarrow> nat \<Rightarrow> mdns_entry \<Rightarrow> bool" where
  "counted_from e0 p a e =
     (if me_name e \<noteq> me_name e0 \<or> announcing e0 \<and> \<not> announcing e then counted 0 0 e else counted p a e)"

interpretation fresh: entry_moves "counted 0 0"
  by unfold_locales (auto simp: counted_def split: mdns_state.splits)

interpretation counts: entry_moves "counted_from e0 p a" for e0 p a
  by unfold_locales (auto simp: counted_from_def counted_def announcing_def split: mdns_state.splits if_splits)

lemma start_entries_fresh:
  assumes "mdns_start_entries conn s = Some s'" and "i < length (mdns_table s)"
  shows "entry_at (counted 0 0) i 2 s'"
proof -
  have loop: "i < length (mdns_table t') \<and> counted 0 0 (mdns_table t' ! i)"
    if "for_entries (start_entry conn) k n t = Some t'" "i < length (mdns_table t)" "i < k + n" "i < k \<Longrightarrow> counted 0 0 (mdns_table t ! i)" for k n t t'
    using that
  proof (induction n arbitrary: k t)
    case (Suc n)
    then obtain u where u: "start_entry conn k t = Some u" "for_entries (start_entry conn) (k + 1) n u = Some t'"
      by (auto simp: bind_eq_Some_conv)
    have len: "i < length (mdns_table u)" using u(1) Suc.prems(2) by (auto simp: start_entry_def split: if_splits)
    have at: "counted 0 0 (mdns_table u ! i)" if "i < k + 1"
    proof (cases "i = k")
      case True
      with u(1) Suc.prems(2) show ?thesis by (auto simp: start_entry_def counted_def upd_entry_def split: if_splits)
    next
      case False
      with u(1) Suc.prems(2,4) that show ?thesis by (auto simp: start_entry_def upd_entry_def split: if_splits)
    qed
    show ?case by (rule Suc.IH [OF u(2) len _ at]) (use Suc.prems(3) in simp_all)
  qed simp
  from assms(1) obtain t where t: "for_entries (start_entry conn) 0 (length (mdns_table s)) s = Some t" "s' = t\<lparr>mdns_started := 2\<rparr>"
    by (auto simp: mdns_start_entries_def)
  from loop [OF t(1) assms(2)] assms(2) t(2) show ?thesis by (simp add: entry_at_def)
qed

section \<open>Sending\<close>

text \<open>
  What the sending loops do to the entry \<open>i\<close>: it keeps what its records show, and it moves on only when its question or its
  record is in the message.
\<close>

definition same_record :: "mdns_entry \<Rightarrow> mdns_entry \<Rightarrow> bool" where
  "same_record e e' \<longleftrightarrow> me_name e' = me_name e \<and> me_type e' = me_type e \<and> me_postfix e' = me_postfix e \<and> me_ipaddr e' = me_ipaddr e"

definition same_stage :: "mdns_entry \<Rightarrow> mdns_entry \<Rightarrow> bool" where
  "same_stage e e' \<longleftrightarrow> me_state e' = me_state e \<and> me_num_sent e' = me_num_sent e"

definition finished_probe :: "mdns_entry \<Rightarrow> mdns_entry \<Rightarrow> bool" where
  "finished_probe e e' \<longleftrightarrow> me_state e = PROBE_PARTIAL_SENT \<and> me_state e' = PROBE_SENT \<and> me_num_sent e' = me_num_sent e + 1"

definition loop_frame :: "nat \<Rightarrow> 'a mdns_st_scheme \<Rightarrow> 'a mdns_st_scheme \<Rightarrow> bool" where
  "loop_frame i s t \<longleftrightarrow> ctoks t = ctoks s \<and> mdns_started t = mdns_started s \<and> i < length (mdns_table s) \<and>
     length (mdns_table t) = length (mdns_table s) \<and> same_record (mdns_table s ! i) (mdns_table t ! i)"

lemmas stage_defs = same_record_def same_stage_def finished_probe_def loop_frame_def

lemma loop_frame_upd:
  "loop_frame i s t \<Longrightarrow> (\<And>e. same_record e (f e)) \<Longrightarrow> loop_frame i s (upd_entry j f t)"
  by (cases "j = i") (auto simp: stage_defs upd_entry_def)

lemma announcement_same: "same_record e e' \<Longrightarrow> announcement e' = announcement e"
  by (simp add: same_record_def announcement_def mdns_send_ptr_response_def mdns_send_host_response_def)

lemma records_announce: "entry_records tbl e = Some (recs, k) \<Longrightarrow> 0 < k \<and> (\<exists>more. recs = announcement e @ more)"
  by (auto simp: entry_records_def announcement_def bind_eq_Some_conv split: if_splits)

definition probing :: "nat \<Rightarrow> 'a mdns_st_scheme \<Rightarrow> u8 list \<times> int \<times> 'a mdns_st_scheme \<Rightarrow> bool" where
  "probing i s = (\<lambda>(b, k, t). loop_frame i s t \<and> 0 \<le> k \<and>
     (let e = mdns_table s ! i; e' = mdns_table t ! i
      in same_stage e e' \<or> me_state e = PROBE_WAIT \<and> me_state e' = PROBE_PARTIAL_SENT \<and> me_num_sent e' = me_num_sent e \<and>
           occurs (mdns_send_probe e) b \<and> 0 < k))"

lemma probe_entry_probing:
  assumes "probe_entry j x = Some x'" and "probing i s x"
  shows "probing i s x'"
proof -
  obtain b k t where x: "x = (b, k, t)" by (cases x)
  have frame: "loop_frame i s (upd_entry j (\<lambda>e. e\<lparr>me_state := PROBE_PARTIAL_SENT\<rparr>) t)"
    using assms(2) by (intro loop_frame_upd) (auto simp: x probing_def same_record_def)
  show ?thesis
  proof (cases "x' = x")
    case False
    with assms(1) have x': "x' = (b @ mdns_send_probe (mdns_table t ! j), k + 1, upd_entry j (\<lambda>e. e\<lparr>me_state := PROBE_PARTIAL_SENT\<rparr>) t)"
      and st: "me_state (mdns_table t ! j) = PROBE_WAIT"
      by (auto simp: probe_entry_def x Let_def split: if_splits)
    have probe: "mdns_send_probe (mdns_table t ! i) = mdns_send_probe (mdns_table s ! i)"
      using assms(2) by (simp add: x probing_def loop_frame_def same_record_def mdns_send_probe_def)
    show ?thesis
    proof (cases "j = i")
      case True
      with assms(2) st probe frame occurs_middle [of "mdns_send_probe (mdns_table s ! i)" b "[]"] show ?thesis
        by (auto simp: x x' probing_def Let_def upd_entry_def same_stage_def loop_frame_def)
    next
      case False
      with assms(2) frame show ?thesis
        by (auto simp: x x' probing_def Let_def upd_entry_def same_stage_def intro: occurs_append)
    qed
  qed (use assms(2) in simp)
qed

definition authorising :: "nat \<Rightarrow> u8 list \<Rightarrow> 'a mdns_st_scheme \<Rightarrow> u8 list \<times> int \<times> 'a mdns_st_scheme \<Rightarrow> bool" where
  "authorising i b0 s = (\<lambda>(b, k, t). loop_frame i s t \<and> (\<exists>more. b = b0 @ more) \<and>
     (same_stage (mdns_table s ! i) (mdns_table t ! i) \<or> finished_probe (mdns_table s ! i) (mdns_table t ! i)))"

lemma auth_record_authorising:
  assumes "auth_record_entry now j x = Some x'" and "authorising i b0 s x"
  shows "authorising i b0 s x'"
proof -
  obtain b k t where x: "x = (b, k, t)" by (cases x)
  define f where "f = (\<lambda>e :: mdns_entry. e\<lparr>me_num_sent := me_num_sent e + 1, me_state := PROBE_SENT,
    me_timeout := (if me_counter (mdns_table t ! j) < 15 then now + 250 * 1000 * 100 else now + 2500 * 1000 * 100)\<rparr>)"
  have frame: "loop_frame i s (upd_entry j f t)"
    using assms(2) by (intro loop_frame_upd) (auto simp: x authorising_def same_record_def f_def)
  show ?thesis
  proof (cases "x' = x")
    case False
    with assms(1) obtain recs m where x': "x' = (b @ recs, k + m, upd_entry j f t)"
      and st: "me_state (mdns_table t ! j) = PROBE_PARTIAL_SENT"
      by (auto simp: auth_record_entry_def x Let_def bind_eq_Some_conv f_def upd_entry_def split: if_splits)
    show ?thesis
      using assms(2) st frame by (cases "j = i") (auto simp: x x' authorising_def upd_entry_def stage_defs f_def)
  qed (use assms(2) in simp)
qed

definition announced :: "nat \<Rightarrow> 'a mdns_st_scheme \<Rightarrow> u8 list \<times> int \<times> 'a mdns_st_scheme \<Rightarrow> bool" where
  "announced i s = (\<lambda>(b, k, t). loop_frame i s t \<and> 0 \<le> k \<and>
     (let e = mdns_table s ! i; e' = mdns_table t ! i
      in same_stage e e' \<or> me_state e = ANNOUNCE_WAIT \<and> me_state e' = ANNOUNCE_SENT \<and> me_num_sent e' = me_num_sent e + 1 \<and>
           occurs (announcement e) b \<and> 0 < k))"

lemma announce_announced:
  assumes "announce_entry now j x = Some x'" and "announced i s x"
  shows "announced i s x'"
proof -
  obtain b k t where x: "x = (b, k, t)" by (cases x)
  define f where "f = (\<lambda>e :: mdns_entry. e\<lparr>me_num_sent := me_num_sent e + 1, me_state := ANNOUNCE_SENT, me_timeout := now + 1000 * 1000 * 100\<rparr>)"
  have frame: "loop_frame i s (upd_entry j f t)"
    using assms(2) by (intro loop_frame_upd) (auto simp: x announced_def same_record_def f_def)
  show ?thesis
  proof (cases "x' = x")
    case False
    with assms(1) obtain recs m where x': "x' = (b @ recs, k + m, upd_entry j f t)"
      and st: "me_state (mdns_table t ! j) = ANNOUNCE_WAIT" and recs: "entry_records (mdns_table t) (mdns_table t ! j) = Some (recs, m)"
      by (auto simp: announce_entry_def x Let_def bind_eq_Some_conv f_def upd_entry_def split: if_splits)
    obtain more where more: "0 < m" "recs = announcement (mdns_table t ! j) @ more" using records_announce [OF recs] by blast
    show ?thesis
    proof (cases "j = i")
      case True
      have "announcement (mdns_table t ! i) = announcement (mdns_table s ! i)"
        using assms(2) by (intro announcement_same) (simp add: x announced_def loop_frame_def)
      with True assms(2) st frame more show ?thesis
        by (auto simp: x x' announced_def Let_def upd_entry_def same_stage_def loop_frame_def f_def)
    next
      case False
      with assms(2) frame more(1) show ?thesis
        by (auto simp: x x' announced_def Let_def upd_entry_def same_stage_def intro: occurs_append)
    qed
  qed (use assms(2) in simp)
qed

lemma pending_announced:
  assumes "answer_pending flag resp j x = Some x'" and "announced i s x"
  shows "announced i s x'"
proof -
  obtain b k t where x: "x = (b, k, t)" by (cases x)
  define f where "f = (\<lambda>e :: mdns_entry. e\<lparr>me_pending := me_pending e XOR flag\<rparr>)"
  have frame: "loop_frame i s (upd_entry j f t)"
    using assms(2) by (intro loop_frame_upd) (auto simp: x announced_def same_record_def f_def)
  show ?thesis
  proof (cases "x' = x")
    case False
    with assms(1) obtain r where x': "x' = (b @ r, k + 1, upd_entry j f t)"
      by (auto simp: answer_pending_def x Let_def bind_eq_Some_conv f_def split: if_splits)
    have len: "i < length (mdns_table t)" using assms(2) by (auto simp: x announced_def loop_frame_def)
    show ?thesis
      using assms(2) frame len by (cases "j = i") (auto simp: x x' announced_def Let_def upd_entry_def same_stage_def f_def intro: occurs_append)
  qed (use assms(2) in simp)
qed

lemma respond_announced: "respond_entry now j x = Some x' \<Longrightarrow> announced i s x \<Longrightarrow> announced i s x'"
  unfolding respond_entry_def Let_def
  by (cases x) (auto simp: bind_eq_Some_conv split: if_splits dest!: announce_announced [where i = i and s = s]
      pending_announced [where i = i and s = s])

lemma carries_message: "12 \<le> length (mdns_header f q a n) \<and> carries f' rec (TokData (mdns_header f q a n @ b)) = (f = f' \<and> occurs rec b)"
  by (auto simp: carries_def header_bytes)

text \<open>The outcome of a call of \<^verbatim>\<open>mdns_send\<close>, in the two parts of the code.\<close>

lemma send_probes_stage:
  assumes "mdns_send_probes now s = Some (c, s')" and i: "i < length (mdns_table s)"
  shows "mdns_started s' = mdns_started s \<and> length (mdns_table s') = length (mdns_table s) \<and>
    same_record (mdns_table s ! i) (mdns_table s' ! i) \<and> (\<not> c \<longrightarrow> ctoks s' = ctoks s) \<and>
    (same_stage (mdns_table s ! i) (mdns_table s' ! i) \<or> finished_probe (mdns_table s ! i) (mdns_table s' ! i) \<or>
     c \<and> sent_probe i s s' \<and> (me_state (mdns_table s' ! i) = PROBE_PARTIAL_SENT \<and> me_num_sent (mdns_table s' ! i) = me_num_sent (mdns_table s ! i) \<or>
       me_state (mdns_table s' ! i) = PROBE_SENT \<and> me_num_sent (mdns_table s' ! i) = me_num_sent (mdns_table s ! i) + 1))"
proof -
  from assms(1) obtain b1 k1 s1 b2 k2 s2 where
    p: "for_entries probe_entry 0 (length (mdns_table s)) ([], 0, s) = Some (b1, k1, s1)"
    and a: "for_entries (auth_record_entry now) 0 (length (mdns_table s1)) (b1, 0, s1) = Some (b2, k2, s2)"
    and m: "send_message (mdns_header 0 k1 0 k2) b2 (0 < k1) s2 = Some (c, s')"
    by (auto simp: mdns_send_probes_def bind_eq_Some_conv)
  have "probing i s ([], 0, s)" using i by (simp add: probing_def stage_defs)
  with for_entries_inv [OF p, of "probing i s"] probe_entry_probing have P: "probing i s (b1, k1, s1)" by blast
  then have frame1: "loop_frame i s s1" by (simp add: probing_def)
  then have "authorising i b1 s1 (b1, 0, s1)" by (simp add: authorising_def stage_defs)
  with for_entries_inv [OF a, of "authorising i b1 s1"] auth_record_authorising have A: "authorising i b1 s1 (b2, k2, s2)" by blast
  then have frame2: "loop_frame i s1 s2" by (simp add: authorising_def)
  from m have s': "mdns_table s' = mdns_table s2" "mdns_started s' = mdns_started s2" "c = (0 < k1)"
      "ctoks s' = (if 0 < k1 then ctoks s2 @ [TokData (mdns_header 0 k1 0 k2 @ b2)] else ctoks s2)"
    by (auto simp: send_message_def put_tok_def split: if_splits)
  have new: "new_tokens s s' = (if c then [TokData (mdns_header 0 k1 0 k2 @ b2)] else [])"
    using frame1 frame2 by (simp add: new_tokens_def s' loop_frame_def)
  have rest: "mdns_started s' = mdns_started s \<and> length (mdns_table s') = length (mdns_table s) \<and>
      same_record (mdns_table s ! i) (mdns_table s' ! i) \<and> (\<not> c \<longrightarrow> ctoks s' = ctoks s)"
    using frame1 frame2 by (simp add: s' stage_defs)
  obtain more where b2: "b2 = b1 @ more" and st: "same_stage (mdns_table s1 ! i) (mdns_table s' ! i) \<or> finished_probe (mdns_table s1 ! i) (mdns_table s' ! i)"
    using A by (auto simp: authorising_def s')
  have "same_stage (mdns_table s ! i) (mdns_table s1 ! i) \<or> c \<and> me_state (mdns_table s ! i) = PROBE_WAIT \<and>
      me_state (mdns_table s1 ! i) = PROBE_PARTIAL_SENT \<and> me_num_sent (mdns_table s1 ! i) = me_num_sent (mdns_table s ! i) \<and>
      occurs (mdns_send_probe (mdns_table s ! i)) b2"
    using P by (auto simp: probing_def Let_def s'(3) b2 intro: occurs_append)
  then show ?thesis
  proof
    assume "same_stage (mdns_table s ! i) (mdns_table s1 ! i)"
    with st rest show ?thesis by (auto simp: same_stage_def finished_probe_def)
  next
    assume h: "c \<and> me_state (mdns_table s ! i) = PROBE_WAIT \<and> me_state (mdns_table s1 ! i) = PROBE_PARTIAL_SENT \<and>
      me_num_sent (mdns_table s1 ! i) = me_num_sent (mdns_table s ! i) \<and> occurs (mdns_send_probe (mdns_table s ! i)) b2"
    with st have st': "me_state (mdns_table s' ! i) = PROBE_PARTIAL_SENT \<and> me_num_sent (mdns_table s' ! i) = me_num_sent (mdns_table s ! i) \<or>
        me_state (mdns_table s' ! i) = PROBE_SENT \<and> me_num_sent (mdns_table s' ! i) = me_num_sent (mdns_table s ! i) + 1"
      by (auto simp: same_stage_def finished_probe_def)
    moreover have "sent_probe i s s'" using h st' by (auto simp: sent_probe_def new carries_message)
    ultimately show ?thesis using rest h by blast
  qed
qed

lemma send_responses_stage:
  assumes "mdns_send_responses now s = Some (c, s')" and i: "i < length (mdns_table s)"
  shows "mdns_started s' = mdns_started s \<and> length (mdns_table s') = length (mdns_table s) \<and>
    same_record (mdns_table s ! i) (mdns_table s' ! i) \<and>
    (same_stage (mdns_table s ! i) (mdns_table s' ! i) \<or>
     c \<and> sent_announcement i s s' \<and> me_state (mdns_table s' ! i) = ANNOUNCE_SENT \<and> me_num_sent (mdns_table s' ! i) = me_num_sent (mdns_table s ! i) + 1)"
proof -
  from assms(1) obtain b1 k1 s1 where
    p: "for_entries (respond_entry now) 0 (length (mdns_table s)) ([], 0, s) = Some (b1, k1, s1)"
    and m: "send_message (mdns_header 0x84 0 k1 0) b1 (0 < k1) s1 = Some (c, s')"
    by (auto simp: mdns_send_responses_def bind_eq_Some_conv)
  have "announced i s ([], 0, s)" using i by (simp add: announced_def stage_defs)
  with for_entries_inv [OF p, of "announced i s"] respond_announced have P: "announced i s (b1, k1, s1)" by blast
  then have frame: "loop_frame i s s1" by (simp add: announced_def)
  from m have s': "mdns_table s' = mdns_table s1" "mdns_started s' = mdns_started s1" "c = (0 < k1)"
      "ctoks s' = (if 0 < k1 then ctoks s1 @ [TokData (mdns_header 0x84 0 k1 0 @ b1)] else ctoks s1)"
    by (auto simp: send_message_def put_tok_def split: if_splits)
  have new: "new_tokens s s' = (if c then [TokData (mdns_header 0x84 0 k1 0 @ b1)] else [])"
    using frame by (simp add: new_tokens_def s' loop_frame_def)
  show ?thesis
    using P frame by (auto simp: announced_def Let_def s' stage_defs sent_announcement_def new carries_message)
qed

lemma send_counts:
  assumes "mdns_send now s = Some s'" and i: "i < length (mdns_table s)" and "counted p a (mdns_table s ! i)"
  shows "\<not> starts_over i s s' \<and> i < length (mdns_table s') \<and>
    counted (p + of_bool (sent_probe i s s')) (a + of_bool (sent_announcement i s s')) (mdns_table s' ! i)"
proof -
  from assms(1) obtain c s1 where c: "mdns_send_probes now s = Some (c, s1)" by (auto simp: mdns_send_def bind_eq_Some_conv)
  note P = send_probes_stage [OF c i]
  show ?thesis
  proof (cases c)
    case True
    with c assms(1) have "s' = s1" by (simp add: mdns_send_def)
    with True P i assms(3) show ?thesis
      by (auto simp: starts_over_def announcing_def stage_defs counted_def sent_probe_def split: mdns_state.splits)
  next
    case False
    with c assms(1) obtain d s2 where d: "mdns_send_responses now s1 = Some (d, s2)" "s' = (if d then s2 else put_tok (TokData []) s2)"
      by (auto simp: mdns_send_def bind_eq_Some_conv)
    have i1: "i < length (mdns_table s1)" using P i by simp
    note R = send_responses_stage [OF d(1) i1]
    have quiet: "same_stage (mdns_table s ! i) (mdns_table s1 ! i) \<or> finished_probe (mdns_table s ! i) (mdns_table s1 ! i)"
        and rec: "same_record (mdns_table s ! i) (mdns_table s1 ! i)" and toks: "ctoks s1 = ctoks s"
      using P False by auto
    have c1: "counted p a (mdns_table s1 ! i)" and ann: "announcing (mdns_table s1 ! i) = announcing (mdns_table s ! i)"
      using quiet assms(3) by (auto simp: stage_defs counted_def announcing_def split: mdns_state.splits)
    have table: "mdns_table s' = mdns_table s2" "mdns_started s' = mdns_started s2" by (simp_all add: d(2) put_tok_def)
    have over: "\<not> starts_over i s s'" and len: "i < length (mdns_table s')"
      using P R i ann by (auto simp: starts_over_def table same_record_def same_stage_def announcing_def)
    have "counted p a (mdns_table s' ! i) \<or> counted p (a + 1) (mdns_table s' ! i) \<and> sent_announcement i s s'"
    proof (cases "same_stage (mdns_table s1 ! i) (mdns_table s2 ! i)")
      case True
      with c1 have "counted p a (mdns_table s' ! i)" by (simp add: same_stage_def counted_def table split: mdns_state.splits)
      then show ?thesis ..
    next
      case False
      with R have r: "d" "sent_announcement i s1 s2" "me_state (mdns_table s2 ! i) = ANNOUNCE_SENT"
          "me_num_sent (mdns_table s2 ! i) = me_num_sent (mdns_table s1 ! i) + 1"
        by auto
      have "me_state (mdns_table s ! i) = ANNOUNCE_WAIT" using r(2) quiet by (auto simp: sent_announcement_def stage_defs)
      with r have "sent_announcement i s s'"
        using toks announcement_same [OF rec] by (simp add: sent_announcement_def d(2) new_tokens_def)
      moreover have "counted p (a + 1) (mdns_table s' ! i)"
        using c1 r by (auto simp: counted_def table sent_announcement_def)
      ultimately show ?thesis by blast
    qed
    with over len show ?thesis by (auto elim: counted_mono)
  qed
qed

section \<open>Runs\<close>

datatype mdns_op =
    MdnsEvent xtcp_connection "u8 list" u32
  | RegisterCanonical "u8 list" | RegisterName "u8 list" | RegisterService "u8 list" "u8 list" int "u8 list"

fun mdns_step :: "mdns_op \<Rightarrow> 'a mdns_st_scheme \<Rightarrow> 'a mdns_st_scheme option" where
  "mdns_step (MdnsEvent conn bs t) s = map_option (\<lambda>(_, _, s). s) (mdns_handle_event conn bs t s)"
| "mdns_step (RegisterCanonical nm) s = mdns_register_canonical_name nm s"
| "mdns_step (RegisterName nm) s = mdns_register_name nm s"
| "mdns_step (RegisterService nm ty port txt) s = mdns_register_service nm ty port txt s"

fun mdns_run :: "mdns_op list \<Rightarrow> 'a mdns_st_scheme \<Rightarrow> 'a mdns_st_scheme option" where
  "mdns_run [] s = Some s"
| "mdns_run (op # ops) s = do { s \<leftarrow> mdns_step op s; mdns_run ops s }"

text \<open>One step, whatever it is.\<close>

lemma step_countsI:
  assumes "entry_at (counted_from (mdns_table s ! i) p a) i m s'" and "m = mdns_started s \<or> m = 1"
  shows "i < length (mdns_table s') \<and> (case count_messages i s s' (p, a) of (p, a) \<Rightarrow> counted p a (mdns_table s' ! i))"
  using assms by (auto simp: entry_at_def counted_from_def count_messages_def starts_over_def elim: counted_mono split: if_splits)

lemma handle_event_counts:
  assumes run: "mdns_handle_event conn bs t s = Some (r, c, s')" and i: "i < length (mdns_table s)" and counted: "counted p a (mdns_table s ! i)"
  shows "i < length (mdns_table s') \<and> (case count_messages i s s' (p, a) of (p, a) \<Rightarrow> counted p a (mdns_table s' ! i))"
proof -
  let ?T = "counted_from (mdns_table s ! i) p a"
  have s: "entry_at ?T i (mdns_started s) s" using i counted by (simp add: entry_at_def counted_from_def)
  consider (up) "s' = mdns_start (bs ! 0, bs ! 1, bs ! 2, bs ! 3) (take_msgs [OutIpconfig bs] (send_cmd CMD_GET_IPCONFIG 0 s))"
    | (bind) k n where "s' = xtcp_bind_local conn k (xtcp_set_poll_interval conn n s)"
    | (same) "s' = s"
    | (poll) r where "mdns_periodic conn t s = Some (r, s')"
    | (recv) r where "mdns_recv conn bs s = Some (r, s')"
    | (send) "mdns_send t s = Some s'"
    using run that unfolding mdns_handle_event_def
    by (cases "xc_event conn") (auto simp: Let_def bind_eq_Some_conv split: if_splits)
  then show ?thesis
  proof cases
    case up
    show ?thesis by (rule step_countsI [where m = 1]) (use s in \<open>auto simp: up intro: counts.start_at\<close>)
  next
    case bind
    show ?thesis by (rule step_countsI [where m = "mdns_started s"]) (use s in \<open>simp_all add: bind cmd_defs\<close>)
  next
    case same
    show ?thesis by (rule step_countsI [where m = "mdns_started s"]) (use s in \<open>simp_all add: same\<close>)
  next
    case poll
    show ?thesis
    proof (cases "mdns_started s = 1")
      case True
      with poll obtain u where u: "mdns_start_entries conn s = Some u" "for_entries (periodic_entry conn t) 0 (length (mdns_table u)) (0, u) = Some (r, s')"
        by (auto simp: mdns_periodic_def bind_eq_Some_conv)
      from fresh.periodic_loop_at [OF u(2) start_entries_fresh [OF u(1) i]] True show ?thesis
        by (simp add: entry_at_def count_messages_def starts_over_def)
    next
      case False
      with poll have "for_entries (periodic_entry conn t) 0 (length (mdns_table s)) (0, s) = Some (r, s')"
        by (simp add: mdns_periodic_def)
      from counts.periodic_loop_at [OF this s] show ?thesis by (rule step_countsI) simp
    qed
  next
    case recv
    from counts.recv_at [OF recv s] show ?thesis by (rule step_countsI) simp
  next
    case send
    from send_counts [OF send i counted] show ?thesis by (simp add: count_messages_def)
  qed
qed

lemma step_counts:
  assumes "mdns_step op s = Some s'" and "i < length (mdns_table s)" and "counted p a (mdns_table s ! i)"
  shows "i < length (mdns_table s') \<and> (case count_messages i s s' (p, a) of (p, a) \<Rightarrow> counted p a (mdns_table s' ! i))"
proof -
  have s: "entry_at (counted_from (mdns_table s ! i) p a) i (mdns_started s) s" using assms(2,3) by (simp add: entry_at_def counted_from_def)
  have reg: ?thesis if "mdns_add_entry pre post tx ip port ty s = Some s'" for pre post tx ip port ty
    using counts.add_entry_at [OF that s] by (rule step_countsI) simp
  have "(\<exists>conn bs t r c. mdns_handle_event conn bs t s = Some (r, c, s')) \<or>
      (\<exists>pre post tx ip port ty. mdns_add_entry pre post tx ip port ty s = Some s')"
    using assms(1) by (cases op) (auto simp: mdns_register_canonical_name_def mdns_register_name_def mdns_register_service_def)
  then show ?thesis by (elim disjE exE) (erule handle_event_counts [OF _ assms(2,3)], erule reg)
qed

text \<open>The counts of the entry \<open>i\<close> over a run.\<close>

fun message_counts :: "nat \<Rightarrow> nat \<times> nat \<Rightarrow> mdns_op list \<Rightarrow> 'a mdns_st_scheme \<Rightarrow> nat \<times> nat" where
  "message_counts i c [] s = c"
| "message_counts i c (op # ops) s =
     (case mdns_step op s of None \<Rightarrow> c | Some s' \<Rightarrow> message_counts i (count_messages i s s' c) ops s')"

lemma run_counts:
  "mdns_run ops s = Some s' \<Longrightarrow> i < length (mdns_table s) \<Longrightarrow> counted p a (mdns_table s ! i) \<Longrightarrow>
    case message_counts i (p, a) ops s of (p, a) \<Rightarrow> counted p a (mdns_table s' ! i)"
proof (induction ops arbitrary: s p a)
  case (Cons op ops)
  then obtain t where t: "mdns_step op s = Some t" "mdns_run ops t = Some s'" by (auto simp: bind_eq_Some_conv)
  obtain p' a' where c: "count_messages i s t (p, a) = (p', a')" by fastforce
  from step_counts [OF t(1) Cons.prems(2,3)] c have "i < length (mdns_table t)" "counted p' a' (mdns_table t ! i)" by simp_all
  from Cons.IH [OF t(2) this] show ?case by (simp add: t(1) c)
qed simp

text \<open>C20. From a table without entries, whatever events arrive and whatever names are registered, take an entry of the table and count the
  messages that were really sent for it: the queries that hold the question for its name, and the responses that hold its record,
  sent when the entry was waiting to send one; the counts start again from zero when the entry gets another name, when a conflict
  throws it back from announcing or from being active, and when the interface comes up again and the server starts to probe. Then an entry that is
  to be announced or has been has sent at least three probes, and an active entry has also sent at least three announcements.\<close>

theorem mdns_announces_after_probing:
  assumes "list_all (\<lambda>e. me_state e = UNUSED) (mdns_table s)" and "mdns_run ops s = Some s'" and "i < length (mdns_table s)"
  shows "case message_counts i (0, 0) ops s of (probes, announcements) \<Rightarrow>
    (me_state (mdns_table s' ! i) \<in> {ANNOUNCE_WAIT, ANNOUNCE_SENT, ACTIVE} \<longrightarrow> 3 \<le> probes) \<and>
    (me_state (mdns_table s' ! i) = ACTIVE \<longrightarrow> 3 \<le> announcements)"
proof -
  have "counted 0 0 (mdns_table s ! i)" using assms(1,3) by (simp add: counted_def list_all_length)
  from run_counts [OF assms(2,3) this] show ?thesis by (auto simp: counted_def)
qed

section \<open>A question and its answer\<close>

lemma for_entries_append: "for_entries f i (m + n) s = do { s \<leftarrow> for_entries f i m s; for_entries f (i + m) n s }"
proof (induction m arbitrary: i s)
  case (Suc m)
  then show ?case by (cases "f i s") simp_all
qed simp

lemma for_entries_skip: "(\<And>j. i \<le> j \<Longrightarrow> j < i + n \<Longrightarrow> f j s = Some s) \<Longrightarrow> for_entries f i n s = Some s"
  by (induction n arbitrary: i) simp_all

text \<open>A loop over the table of which only the round at \<open>i\<close> does anything.\<close>

lemma for_entries_one:
  assumes "i < n" and "\<And>j. j < i \<Longrightarrow> f j s = Some s" and "f i s = Some t" and "\<And>j. i < j \<Longrightarrow> j < n \<Longrightarrow> f j t = Some t"
  shows "for_entries f 0 n s = Some t"
proof -
  have "n = i + Suc (n - Suc i)" using assms(1) by simp
  then have "for_entries f 0 n s = do { s \<leftarrow> for_entries f 0 i s; for_entries f i (Suc (n - Suc i)) s }"
    by (metis for_entries_append add_0)
  also have "\<dots> = for_entries f (i + 1) (n - Suc i) t"
    using assms(2,3) by (simp add: for_entries_skip)
  also have "\<dots> = Some t" using assms(1,4) by (intro for_entries_skip) simp
  finally show ?thesis .
qed

lemma other_query_first:
  assumes "i < k + n" and "k \<le> i" and "me_state (mdns_table s ! i) = ACTIVE" and "me_type (mdns_table s ! i) \<noteq> MDNS_SRV_ENTRY"
    and "mdns_compare_name (me_name (mdns_table s ! i)) (cmem s) q = 0"
    and "\<And>j. k \<le> j \<Longrightarrow> j < i \<Longrightarrow> me_state (mdns_table s ! j) = ACTIVE \<Longrightarrow> mdns_compare_name (me_name (mdns_table s ! j)) (cmem s) q \<noteq> 0"
  shows "other_query conn MDNS_RRTYPE_A q k n s = set_pending i PENDING_HOST_RESPONSE conn s"
  using assms
proof (induction n arbitrary: k)
  case (Suc n)
  show ?case
  proof (cases "k = i")
    case True
    with Suc.prems(3-5) show ?thesis by (simp add: Let_def)
  next
    case False
    with Suc.prems have "other_query conn MDNS_RRTYPE_A q (k + 1) n s = set_pending i PENDING_HOST_RESPONSE conn s"
      by (intro Suc.IH) simp_all
    moreover have "\<not> (me_state (mdns_table s ! k) = ACTIVE \<and> mdns_compare_name (me_name (mdns_table s ! k)) (cmem s) q = 0)"
      using Suc.prems(2,6) False by auto
    ultimately show ?thesis by (auto simp: Let_def)
  qed
qed simp

lemma length_encode_name: "length (mdns_encode_name src) \<le> length src + 2"
proof (induction src rule: mdns_encode_name.induct)
  case (1 src)
  obtain l rest where nl: "next_label src = (l, rest)" by (cases "next_label src")
  show ?case
    using next_label_split [OF nl] 1 [OF nl [symmetric]]
    by (auto simp: mdns_encode_name.simps [of src] nl)
qed

text \<open>Without authority records no entry loses a tie-break.\<close>

lemma no_auth: "handle_mdns_auth conn d 0 eom s = Some (0, s)"
  unfolding handle_mdns_auth_def
  by (rule for_entries_skip) (simp add: auth_entry_def loses_tie_break_def Let_def)

text \<open>A message with one question, as \<^verbatim>\<open>mdns_recv\<close> reads it.\<close>

abbreviation (input) "host_question nm \<equiv> mdns_header 0 1 0 0 @ mdns_encode_name nm @ be16 MDNS_RRTYPE_A @ be16 MDNS_RRCLASS_IN"

lemma rd_be16_bytes: "rds m p 2 = be16 v \<Longrightarrow> rd_be16 m p = v"
  by (simp add: rd_be16_def be16_def rds_Suc numeral_2_eq_2)

text \<open>Where the parts of the message stand in memory.\<close>

lemma question_layout:
  assumes "m = wrs 0 (host_question nm) m0"
  defines "q \<equiv> 12 + length (mdns_encode_name nm)"
  shows "rd_be16 m 4 = 1" "rd_be16 m 6 = 0" "rd_be16 m 8 = 0"
    "rds m 12 (length (mdns_encode_name nm)) = mdns_encode_name nm"
    "rd_be16 m q = MDNS_RRTYPE_A" "rd_be16 m (q + 2) = MDNS_RRCLASS_IN" "length (host_question nm) = q + 4"
proof -
  have len: "length (mdns_header 0 1 0 0) = 12" by (simp add: header_bytes)
  have "rds m 0 (length (host_question nm)) = host_question nm" unfolding assms(1) by (rule rds_wrs)
  then have parts: "rds m 0 12 = mdns_header 0 1 0 0"
    "rds m 12 (length (mdns_encode_name nm)) = mdns_encode_name nm"
    "rds m q (length (be16 MDNS_RRTYPE_A)) = be16 MDNS_RRTYPE_A"
    "rds m (q + length (be16 MDNS_RRTYPE_A)) (length (be16 MDNS_RRCLASS_IN)) = be16 MDNS_RRCLASS_IN"
    unfolding rds_append_iff len q_def by (simp_all only: add_0)
  have two: "length (be16 v) = 2" for v by (simp add: be16_def)
  show "rds m 12 (length (mdns_encode_name nm)) = mdns_encode_name nm" by (rule parts(2))
  show "rd_be16 m q = MDNS_RRTYPE_A" "rd_be16 m (q + 2) = MDNS_RRCLASS_IN"
    by (rule rd_be16_bytes [OF parts(3) [unfolded two]], rule rd_be16_bytes [OF parts(4) [unfolded two]])
  show "length (host_question nm) = q + 4" using len by (simp add: q_def two)
  from parts(1) have "m 4 = 0 \<and> m 5 = 1 \<and> m 6 = 0 \<and> m 7 = 0 \<and> m 8 = 0 \<and> m 9 = 0"
    by (simp add: header_bytes rds_Suc eval_nat_numeral hi8_def lo8_def)
  then show "rd_be16 m 4 = 1" "rd_be16 m 6 = 0" "rd_be16 m 8 = 0"
    by (simp_all add: rd_be16_def le16_def)
qed

lemma recv_host_question:
  fixes s :: "'a mdns_st_scheme"
  assumes i: "i < length (mdns_table s)" "me_state (mdns_table s ! i) = ACTIVE" "me_type (mdns_table s ! i) \<noteq> MDNS_SRV_ENTRY"
    and nm: "good_name (me_name (mdns_table s ! i))" and msg: "msg = host_question (me_name (mdns_table s ! i))"
    and first: "\<forall>j<i. me_state (mdns_table s ! j) = ACTIVE \<longrightarrow>
      mdns_compare_name (me_name (mdns_table s ! j)) (wrs 0 msg (cmem s)) 12 \<noteq> 0"
  shows "mdns_recv conn msg s = Some (0, set_pending i PENDING_HOST_RESPONSE conn (snd (xtcp_recv msg 0 s)))"
proof -
  let ?nm = "me_name (mdns_table s ! i)" and ?m = "wrs 0 msg (cmem s)"
  let ?q = "12 + length (mdns_encode_name ?nm)" and ?t = "snd (xtcp_recv msg 0 s)"
  note lay = question_layout [of ?m ?nm "cmem s", unfolded msg [symmetric], OF refl]
  have t: "cmem ?t = ?m" "mdns_table ?t = mdns_table s" by (simp_all add: client_simps)
  have "mdns_compare_name ?nm ?m 12 = 0 \<and> mdns_parse_name ?m (length msg) 12 = Some (Some ?q)"
  proof -
    have "mdns_encode_name ?nm \<noteq> []" by (cases "next_label ?nm") (simp add: mdns_encode_name.simps [of ?nm])
    then show ?thesis using encoded_name [OF nm lay(4), of "length msg" None] lay(7) by (simp add: mdns_parse_name_def)
  qed
  note nm = conjunct1 [OF this] conjunct2 [OF this]
  have other: "other_query conn MDNS_RRTYPE_A 12 0 (length (mdns_table s)) ?t = set_pending i PENDING_HOST_RESPONSE conn ?t"
    by (rule other_query_first) (use i nm(1) first t in auto)
  have "(MDNS_RRTYPE_A = MDNS_RRTYPE_PTR) = False" by simp
  then have questions: "mdns_questions conn (length msg) (Suc 0) 12 ?t = Some (?q + 4, set_pending i PENDING_HOST_RESPONSE conn ?t)"
    unfolding mdns_questions.simps t nm(2) bind.bind_lunit option.case lay(5,6) other
    by (simp only: if_True if_False bind.bind_lunit simp_thms)
  have recv: "xtcp_recv msg 0 s = (int (length msg), ?t)" by (simp add: client_simps)
  show ?thesis
    unfolding mdns_recv_def
    by (subst recv) (simp add: questions lay(1-3) t no_auth del: mdns_questions.simps(2))
qed

text \<open>An entry that has nothing to send.\<close>

definition silent :: "mdns_entry \<Rightarrow> bool" where
  "silent e \<longleftrightarrow> me_pending e = 0 \<and> me_state e \<in> {UNUSED, DISABLED, PROBE_SENT, ANNOUNCE_SENT, ACTIVE}"

lemma respond_silent: "silent (mdns_table s ! j) \<Longrightarrow> respond_entry t j (b, k, s) = Some (b, k, s)"
  by (auto simp: respond_entry_def Let_def silent_def announce_entry_def answer_pending_def)

lemma no_probes:
  assumes "\<And>j. j < length (mdns_table s) \<Longrightarrow> me_state (mdns_table s ! j) \<notin> {PROBE_WAIT, PROBE_PARTIAL_SENT}"
  shows "mdns_send_probes t s = Some (False, s)"
proof -
  have "for_entries probe_entry 0 (length (mdns_table s)) ([], 0, s) = Some ([], 0, s)"
    by (rule for_entries_skip) (use assms in \<open>simp add: probe_entry_def Let_def\<close>)
  moreover have "for_entries (auth_record_entry t) 0 (length (mdns_table s)) ([], 0, s) = Some ([], 0, s)"
    by (rule for_entries_skip) (use assms in \<open>simp add: auth_record_entry_def Let_def\<close>)
  ultimately show ?thesis by (simp add: mdns_send_probes_def send_message_def header_bytes)
qed

lemma send_host_response:
  fixes s :: "'a mdns_st_scheme"
  assumes i: "i < length (mdns_table s)" "mdns_table s ! i = e\<lparr>me_pending := PENDING_HOST_RESPONSE\<rparr>"
    "me_state e = ACTIVE" "length (me_name e) < 100"
    and others: "\<And>j. j < length (mdns_table s) \<Longrightarrow> j \<noteq> i \<Longrightarrow> silent (mdns_table s ! j)"
  shows "mdns_send t s = Some (put_tok (TokData (mdns_header 0x84 0 1 0 @ mdns_send_host_response e))
    (upd_entry i (\<lambda>e. e\<lparr>me_pending := 0\<rparr>) s))"
proof -
  let ?s' = "upd_entry i (\<lambda>e. e\<lparr>me_pending := 0\<rparr>) s" and ?r = "mdns_send_host_response e"
  have host: "mdns_send_host_response (e\<lparr>me_pending := x\<rparr>) = ?r" for x by (simp add: mdns_send_host_response_def)
  have upd: "upd_entry i (\<lambda>e. e\<lparr>me_pending := me_pending e XOR PENDING_HOST_RESPONSE\<rparr>) s = ?s'"
    using i(1,2) by (simp add: upd_entry_def)
  have e': "mdns_table ?s' ! i = e\<lparr>me_pending := 0\<rparr>" using i(1,2) by (simp add: upd_entry_def)
  have "mdns_response_size (e\<lparr>me_pending := PENDING_HOST_RESPONSE\<rparr>) < XTCP_CLIENT_BUF_SIZE - (12 + int (length []))"
    using i(4) by (simp add: mdns_response_size_def)
  then have "respond_entry t i ([], 0, s) = Some (?r, 1, ?s')"
    using i(2,3) e' by (simp add: respond_entry_def Let_def announce_entry_def answer_pending_def host upd)
  moreover have "respond_entry t j (b, k, ?s') = Some (b, k, ?s')" if "i < j" "j < length (mdns_table s)" for j b k
    by (rule respond_silent) (use that others [of j] in \<open>simp add: upd_entry_def\<close>)
  moreover have "respond_entry t j ([], 0, s) = Some ([], 0, s)" if "j < i" for j
    by (rule respond_silent) (use that i(1) others [of j] in simp)
  ultimately have "for_entries (respond_entry t) 0 (length (mdns_table s)) ([], 0, s) = Some (?r, 1, ?s')"
    using i(1) by (intro for_entries_one [of i]) simp_all
  moreover have "length (mdns_header 0x84 0 1 0) + length ?r \<le> 1472"
    using length_encode_name [of "me_name e"] i(4)
    by (cases "me_ipaddr e") (simp add: header_bytes mdns_send_host_response_def answer_record_def be16_def be32_bytes_def
        octets_def split: prod.split)
  ultimately have "mdns_send_responses t s = Some (True, put_tok (TokData (mdns_header 0x84 0 1 0 @ ?r)) ?s')"
    by (simp add: mdns_send_responses_def send_message_def)
  moreover have "mdns_send_probes t s = Some (False, s)"
    by (rule no_probes) (use i(2,3) others in \<open>force simp: silent_def\<close>)
  ultimately show ?thesis by (simp add: mdns_send_def)
qed

text \<open>C21. A host question is answered: when a query for the name of an active host entry arrives on the mDNS port,
  the server asks to send, and at the next request for data it sends one response message with the address record
  of that entry; the table is as before. The other entries have nothing to send, and no active entry before it
  answers to the same name.\<close>

theorem mdns_question_answered:
  fixes s :: "'a mdns_st_scheme"
  assumes "i < length (mdns_table s)" and "me_state (mdns_table s ! i) = ACTIVE"
    and "me_type (mdns_table s ! i) \<noteq> MDNS_SRV_ENTRY" and "good_name (me_name (mdns_table s ! i))"
    and "length (me_name (mdns_table s ! i)) < MDNS_MAX_NAME_LENGTH"
    and "\<forall>j<length (mdns_table s). silent (mdns_table s ! j)"
    and "msg = mdns_header 0 1 0 0 @ mdns_encode_name (me_name (mdns_table s ! i)) @ be16 MDNS_RRTYPE_A @ be16 MDNS_RRCLASS_IN"
    and "\<forall>j<i. me_state (mdns_table s ! j) = ACTIVE \<longrightarrow> mdns_compare_name (me_name (mdns_table s ! j)) (wrs 0 msg (cmem s)) 12 \<noteq> 0"
    and "uint (xc_local_port conn) = MDNS_SERVER_PORT"
  shows "\<exists>s1 s2. mdns_handle_event (conn\<lparr>xc_event := XTCP_RECV_DATA\<rparr>) msg t s = Some (0, conn\<lparr>xc_event := XTCP_ALREADY_HANDLED\<rparr>, s1) \<and>
    mdns_handle_event (conn\<lparr>xc_event := XTCP_REQUEST_DATA\<rparr>) bs t' s1 = Some (0, conn\<lparr>xc_event := XTCP_ALREADY_HANDLED\<rparr>, s2) \<and>
    ctoks s2 = ctoks s @ [TokReady True, TokCmd CMD_INIT_SEND (xc_id conn),
      TokData (mdns_header 0x84 0 1 0 @ mdns_send_host_response (mdns_table s ! i))] \<and>
    mdns_table s2 = mdns_table s"
proof -
  let ?e = "mdns_table s ! i" and ?t = "snd (xtcp_recv msg 0 s)"
  let ?s1 = "set_pending i PENDING_HOST_RESPONSE (conn\<lparr>xc_event := XTCP_RECV_DATA\<rparr>) ?t"
  have tab: "mdns_table ?t = mdns_table s" by (simp add: client_simps)
  have e: "me_pending ?e = 0" using assms(1,6) by (simp add: silent_def)
  have s1: "mdns_table ?s1 = (mdns_table s)[i := ?e\<lparr>me_pending := PENDING_HOST_RESPONSE\<rparr>]"
    using e tab by (simp add: set_pending_def upd_entry_def)
  have restore: "?e\<lparr>me_pending := 0\<rparr> = ?e" using e by (cases ?e) simp
  have "mdns_recv (conn\<lparr>xc_event := XTCP_RECV_DATA\<rparr>) msg s = Some (0, ?s1)"
    by (rule recv_host_question) (use assms in simp_all)
  then have recv: "mdns_handle_event (conn\<lparr>xc_event := XTCP_RECV_DATA\<rparr>) msg t s = Some (0, conn\<lparr>xc_event := XTCP_ALREADY_HANDLED\<rparr>, ?s1)"
    using assms(9) by (simp add: mdns_handle_event_def)
  have sent: "mdns_send t' ?s1 = Some (put_tok (TokData (mdns_header 0x84 0 1 0 @ mdns_send_host_response ?e))
      (upd_entry i (\<lambda>e. e\<lparr>me_pending := 0\<rparr>) ?s1))"
    by (rule send_host_response) (use assms s1 in simp_all)
  then have "mdns_handle_event (conn\<lparr>xc_event := XTCP_REQUEST_DATA\<rparr>) bs t' ?s1 =
      Some (0, conn\<lparr>xc_event := XTCP_ALREADY_HANDLED\<rparr>, put_tok (TokData (mdns_header 0x84 0 1 0 @ mdns_send_host_response ?e))
      (upd_entry i (\<lambda>e. e\<lparr>me_pending := 0\<rparr>) ?s1))"
    using assms(9) by (simp add: mdns_handle_event_def)
  moreover have "mdns_table (upd_entry i (\<lambda>e. e\<lparr>me_pending := 0\<rparr>) ?s1) = mdns_table s"
    using assms(1) s1 restore by (simp add: upd_entry_def list_update_overwrite)
  moreover have "ctoks (upd_entry i (\<lambda>e. e\<lparr>me_pending := 0\<rparr>) ?s1) = ctoks s @ [TokReady True, TokCmd CMD_INIT_SEND (xc_id conn)]"
    by (simp add: upd_entry_def set_pending_def client_simps xtcp_init_send_def send_cmd_def put_tok_def take_msgs_def)
  ultimately show ?thesis using recv by (auto simp: put_tok_def)
qed

section \<open>A sample run\<close>

definition sample_mdns_conn :: "xtcp_event \<Rightarrow> xtcp_connection" where
  "sample_mdns_conn ev = \<lparr>xc_id = 1, xc_protocol = XTCP_PROTOCOL_UDP, xc_connection_type = 0, xc_event = ev,
     xc_appstate = 0, xc_remote_addr = mdns_group, xc_remote_port = 5353, xc_local_port = 5353, xc_mss = 1472\<rparr>"

definition sample_mdns :: mdns_st where
  "sample_mdns = \<lparr>ctoks = [], cgot = [], cmem = (\<lambda>_. 0), mdns_table = [\<lparr>me_state = UNUSED, me_pending = 0, me_name = [],
     me_prefix = [], me_postfix = [], me_txt = [], me_srv_port = 0, me_ipaddr = (0, 0, 0, 0), me_counter = 0,
     me_timeout = 0, me_num_sent = 0, me_type = MDNS_CANONICAL_NAME_ENTRY\<rparr>], mdns_started = 0, rev_addr = (0, 0, 0, 0)\<rparr>"

text \<open>The name \<open>x\<close> is registered and the interface comes up; polls and requests to send follow at times \<open>ts\<close>.\<close>

definition sample_mdns_ops :: "u32 list \<Rightarrow> mdns_op list" where
  "sample_mdns_ops ts = [RegisterName [0x78], MdnsEvent (sample_mdns_conn XTCP_IFUP) [192, 168, 0, 2] 0, MdnsEvent (sample_mdns_conn XTCP_POLL) [] 0] @
     concat (map (\<lambda>t. [MdnsEvent (sample_mdns_conn XTCP_REQUEST_DATA) [] t, MdnsEvent (sample_mdns_conn XTCP_POLL) [] (t + 200000000)]) ts)"

lemmas mdns_run_defs = mdns_register_name_def mdns_add_entry_def c_string_def update_name_def upd_entry_def Let_def
   mdns_handle_event_def mdns_periodic_def periodic_entry_def mdns_start_entries_def start_entry_def mdns_start_def cmd_defs
   timeafter_def mdns_send_def mdns_send_probes_def mdns_send_responses_def send_message_def header_bytes probe_entry_def auth_record_entry_def
   respond_entry_def announce_entry_def answer_pending_def entry_records_def mdns_response_size_def probe_size_def
   mdns_send_probe_def mdns_send_host_response_def answer_record_def be16_def be32_bytes_def octets_def next_label_def

lemma sample_becomes_active:
  "\<exists>t. mdns_run (sample_mdns_ops [0, 1000000000, 2000000000, 3000000000, 4000000000, 100]) sample_mdns = Some t \<and>
    me_state (mdns_table t ! 0) = ACTIVE \<and> length (mdns_table t) = 1"
  using length_encode_name [of "[0x78, 46, 108, 111, 99, 97, 108]"]
  by (simp add: sample_mdns_ops_def sample_mdns_def sample_mdns_conn_def mdns_run_defs put_tok_def take_msgs_def send_cmd_def
      xtcp_init_send_def split: prod.split)

lemma mdns_announces_after_probing_witness:
  "\<exists>t probes announcements. mdns_run (sample_mdns_ops [0, 1000000000, 2000000000, 3000000000, 4000000000, 100]) sample_mdns = Some t \<and>
    message_counts 0 (0, 0) (sample_mdns_ops [0, 1000000000, 2000000000, 3000000000, 4000000000, 100]) sample_mdns = (probes, announcements) \<and>
    me_state (mdns_table t ! 0) = ACTIVE \<and> 3 \<le> probes \<and> 3 \<le> announcements"
proof -
  obtain t where t: "mdns_run (sample_mdns_ops [0, 1000000000, 2000000000, 3000000000, 4000000000, 100]) sample_mdns = Some t"
    "me_state (mdns_table t ! 0) = ACTIVE" "length (mdns_table t) = 1"
    using sample_becomes_active by blast
  have "list_all (\<lambda>e. me_state e = UNUSED) (mdns_table sample_mdns)" "0 < length (mdns_table sample_mdns)" by (simp_all add: sample_mdns_def)
  from mdns_announces_after_probing [OF this(1) t(1) this(2)] t show ?thesis by auto
qed

definition sample_host :: mdns_entry where
  "sample_host = \<lparr>me_state = ACTIVE, me_pending = 0, me_name = map of_char ''foo.local'', me_prefix = map of_char ''foo'',
     me_postfix = map of_char ''local'', me_txt = [], me_srv_port = 0, me_ipaddr = (192, 168, 0, 2), me_counter = 0,
     me_timeout = 0, me_num_sent = 3, me_type = MDNS_NAME_ENTRY\<rparr>"

lemma mdns_question_answered_witness:
  "\<exists>s1 s2. mdns_handle_event ((sample_mdns_conn XTCP_POLL)\<lparr>xc_event := XTCP_RECV_DATA\<rparr>) (host_question (map of_char ''foo.local'')) 0
      (sample_mdns\<lparr>mdns_table := [sample_host]\<rparr>) = Some (0, (sample_mdns_conn XTCP_POLL)\<lparr>xc_event := XTCP_ALREADY_HANDLED\<rparr>, s1) \<and>
    mdns_handle_event ((sample_mdns_conn XTCP_POLL)\<lparr>xc_event := XTCP_REQUEST_DATA\<rparr>) [] 1 s1 =
      Some (0, (sample_mdns_conn XTCP_POLL)\<lparr>xc_event := XTCP_ALREADY_HANDLED\<rparr>, s2) \<and>
    ctoks s2 = [TokReady True, TokCmd CMD_INIT_SEND 1, TokData (mdns_header 0x84 0 1 0 @ mdns_send_host_response sample_host)]"
proof -
  have good: "good_name (map of_char ''foo.local'')" by (simp add: good_name.simps next_label_def)
  have host: "me_state sample_host = ACTIVE" "me_type sample_host = MDNS_NAME_ENTRY" "me_name sample_host = map of_char ''foo.local''"
    "silent sample_host"
    by (simp_all add: sample_host_def silent_def)
  have conn: "uint (xc_local_port (sample_mdns_conn XTCP_POLL)) = MDNS_SERVER_PORT" "xc_id (sample_mdns_conn XTCP_POLL) = 1"
    by (simp_all add: sample_mdns_conn_def)
  show ?thesis
    using mdns_question_answered [of 0 "sample_mdns\<lparr>mdns_table := [sample_host]\<rparr>" "host_question (map of_char ''foo.local'')"
        "sample_mdns_conn XTCP_POLL" 0 "[]" 1] good host conn
    by (auto simp: sample_mdns_def)
qed

text \<open>
  An authority record that stands past the end of the message: \<^verbatim>\<open>find_lowest_matching_answer\<close> reads through
  the \<^verbatim>\<open>NULL\<close> pointer it gets for it.
\<close>

lemma auth_record_past_end: "eom < d \<Longrightarrow> find_lowest_matching_answer e m ignore eom (Suc n) d lowest = None"
  by (simp add: mdns_parse_name_def)

end
