(* ===== verification/Netbios.thy ===== *)
theory Netbios
  imports Mdns
begin

text \<open>
  The NetBIOS name service in \<^verbatim>\<open>mdns.c\<close>, which is compiled with \<^verbatim>\<open>MDNS_NETBIOS\<close>: the first-level encoding of names, the
  queries that arrive on port 137, and the responses, with the event handler of that configuration around them. As for the
  rest of the file, \<open>None\<close> stands for a loop that never ends or a comparison that runs past the end of an array.
\<close>

section \<open>Names\<close>

abbreviation (input) "NETBIOS_NAME_LEN \<equiv> 16 :: nat"
abbreviation (input) "ENCODED_NETBIOS_NAME_LEN \<equiv> 33 :: nat"
abbreviation (input) "NETBIOS_PORT \<equiv> 137 :: int"
abbreviation (input) "PENDING_NETBIOS_RESPONSE \<equiv> 4 :: u32"
abbreviation (input) "mdns_name_error \<equiv> 16 :: u32"

definition is_upper :: "u8 \<Rightarrow> bool" where
  "is_upper c \<longleftrightarrow> 65 \<le> c \<and> c \<le> 90"

text \<open>\<open>p\<close> is \<^verbatim>\<open>pname\<close>, the array \<open>dec\<close> is \<^verbatim>\<open>name_dec\<close>; the result is that of the C function and the array.\<close>

partial_function (option) decode_netbios_name :: "mem \<Rightarrow> nat \<Rightarrow> u8 list \<Rightarrow> nat \<Rightarrow> (int \<times> u8 list) option" where
  "decode_netbios_name m p dec index =
     (if m p = 0 \<or> m p = DOT then Some (0, dec)
      else if \<not> is_upper (m p) then Some (-1, dec)
      else if m (p + 1) = 0 \<or> m (p + 1) = DOT then Some (-1, dec)
      else if \<not> is_upper (m (p + 1)) then Some (-1, dec)
      else let cnbname = push_bit 4 (m p - 65) OR (m (p + 1) - 65)
        in if index < NETBIOS_NAME_LEN
           then decode_netbios_name m (p + 2) (dec[index := (if cnbname \<noteq> 0x20 then cnbname else 0)]) (index + 1)
           else decode_netbios_name m (p + 2) dec index)"

text \<open>The bytes written to \<^verbatim>\<open>name_enc\<close>, for the name before the NUL; \<open>None\<close> is the result \<open>-1\<close>.\<close>

fun encode_chars :: "u8 list \<Rightarrow> nat \<Rightarrow> u8 list \<Rightarrow> u8 list option" where
  "encode_chars [] len enc = Some enc"
| "encode_chars (c # cs) len enc =
     (if c = DOT then Some enc
      else if (c < 65 \<or> 90 < c) \<and> (c < 48 \<or> 57 < c) then None
      else if len \<le> length enc then None
      else encode_chars cs len (enc @ [65 + (drop_bit 4 c AND 15), 65 + (c AND 15)]))"

definition encode_netbios_name :: "u8 list \<Rightarrow> nat \<Rightarrow> u8 list option" where
  "encode_netbios_name nm len = do {
     enc \<leftarrow> encode_chars nm len [];
     Some (enc @ concat (replicate ((len - 1 - length enc + 1) div 2) [67, 65]) @ [0])
   }"

text \<open>\<^verbatim>\<open>convert_to_lower_case\<close> on a whole array, and \<^verbatim>\<open>strcmp\<close> of an array with a string, as equality.\<close>

fun convert_to_lower_case :: "u8 list \<Rightarrow> u8 list" where
  "convert_to_lower_case [] = []"
| "convert_to_lower_case (c # cs) =
     (if c = 0 then c # cs else (if is_upper c then c + 0x20 else c) # convert_to_lower_case cs)"

fun strcmp_eq :: "u8 list \<Rightarrow> u8 list \<Rightarrow> bool option" where
  "strcmp_eq [] nm = None"
| "strcmp_eq (c # cs) [] = Some (c = 0)"
| "strcmp_eq (c # cs) (d # ds) = (if c \<noteq> d then Some False else strcmp_eq cs ds)"

section \<open>Queries\<close>

text \<open>The fields \<^verbatim>\<open>MDNS_NETBIOS\<close> adds to an entry stand in a second table.\<close>

record nb_fields =
  nb_trans_id :: u16
  nb_nametype :: u8
  nb_type :: u16
  nb_class :: u16
  nb_enc_name :: "u8 list"

record netbios_st = mdns_st +
  nb_table :: "nb_fields list"

fun netbios_lookup :: "u8 list \<Rightarrow> nat \<Rightarrow> mdns_entry list \<Rightarrow> nat option option" where
  "netbios_lookup dec i [] = Some None"
| "netbios_lookup dec i (e # es) =
     (if me_state e = ACTIVE
      then do { eq \<leftarrow> strcmp_eq dec (me_name e); if eq then Some (Some i) else netbios_lookup dec (i + 1) es }
      else netbios_lookup dec (i + 1) es)"

text \<open>\<open>bs\<close> is the message; \<open>junk\<close> is what the uninitialised array \<^verbatim>\<open>decoded_name\<close> holds.\<close>

definition netbios_recv :: "xtcp_connection \<Rightarrow> u8 list \<Rightarrow> u8 list \<Rightarrow> 'a netbios_st_scheme \<Rightarrow> (u32 \<times> 'a netbios_st_scheme) option" where
  "netbios_recv conn bs junk s =
     (let (len, s) = xtcp_recv bs 0 s; m = cmem s; flags = rd_be16 m 2
      in if flags AND 0x7800 = 0 \<and> flags AND 0x8000 = 0 \<and> rd_be16 m 4 = 1
         then do {
           (err, dec) \<leftarrow> decode_netbios_name m 13 junk 0;
           if err \<noteq> 0 then Some (mdns_name_error, s)
           else do {
             r \<leftarrow> netbios_lookup (convert_to_lower_case dec) 0 (mdns_table s);
             Some (0, case r of None \<Rightarrow> s
               | Some i \<Rightarrow> xtcp_init_send conn ((upd_entry i (\<lambda>e. e\<lparr>me_pending := me_pending e OR PENDING_NETBIOS_RESPONSE\<rparr>) s)
                   \<lparr>nb_table := (nb_table s)[i := \<lparr>nb_trans_id = rd16 m 0, nb_nametype = m 12, nb_type = rd16 m 46,
                      nb_class = rd16 m 48, nb_enc_name = rds m 13 ENCODED_NETBIOS_NAME_LEN\<rparr>]\<rparr>))
           }
         }
         else Some (0, s))"

section \<open>Responses\<close>

text \<open>Fields that are copied without a change of the byte order.\<close>

definition raw16 :: "u16 \<Rightarrow> u8 list" where
  "raw16 v = [lo8 v, hi8 v]"

definition mdns_send_netbios_response :: "nb_fields \<Rightarrow> mdns_entry \<Rightarrow> u8 list" where
  "mdns_send_netbios_response f e =
     raw16 (nb_trans_id f) @ be16 (0x8000 OR 0 OR 0x0400 OR 0x0100) @ be16 0 @ be16 1 @ be16 0 @ be16 0 @
     [nb_nametype f] @ nb_enc_name f @ raw16 (nb_type f) @ raw16 (nb_class f) @ be32_bytes 300000 @ be16 6 @ be16 0 @ octets (me_ipaddr e)"

fun mdns_send_netbios_responses :: "nat \<Rightarrow> nat \<Rightarrow> 'a netbios_st_scheme \<Rightarrow> bool \<times> 'a netbios_st_scheme" where
  "mdns_send_netbios_responses i 0 s = (False, s)"
| "mdns_send_netbios_responses i (Suc n) s =
     (let e = mdns_table s ! i
      in if me_pending e AND PENDING_NETBIOS_RESPONSE \<noteq> 0
         then (True, upd_entry i (\<lambda>e. e\<lparr>me_pending := me_pending e XOR PENDING_NETBIOS_RESPONSE\<rparr>)
           (put_tok (TokData (mdns_send_netbios_response (nb_table s ! i) e)) s))
         else mdns_send_netbios_responses (i + 1) n s)"

definition netbios_send :: "u32 \<Rightarrow> 'a netbios_st_scheme \<Rightarrow> 'a netbios_st_scheme option" where
  "netbios_send t s = do {
     (sent, s) \<leftarrow> mdns_send_probes t s;
     if sent then Some s
     else do {
       (sent, s) \<leftarrow> mdns_send_responses t s;
       if sent then Some s
       else (case mdns_send_netbios_responses 0 (length (mdns_table s)) s of
         (sent, s) \<Rightarrow> Some (if sent then s else put_tok (TokData []) s))
     }
   }"

definition netbios_handle_event :: "xtcp_connection \<Rightarrow> u8 list \<Rightarrow> u8 list \<Rightarrow> u32 \<Rightarrow> 'a netbios_st_scheme \<Rightarrow>
    (u32 \<times> xtcp_connection \<times> 'a netbios_st_scheme) option" where
  "netbios_handle_event conn bs junk t s =
     (if xc_event conn = XTCP_IFUP
      then let s = take_msgs [OutIpconfig bs] (send_cmd CMD_GET_IPCONFIG 0 s)
           in Some (mdns_ifup, conn, mdns_start (bs ! 0, bs ! 1, bs ! 2, bs ! 3) s)
      else if xc_event conn = XTCP_IFDOWN then Some (mdns_ifdown, conn, s)
      else if xc_event conn = XTCP_ALREADY_HANDLED then Some (0, conn, s)
      else
        let s = (if uint (xc_remote_port conn) = MDNS_SERVER_PORT \<and> xc_event conn = XTCP_NEW_CONNECTION
                 then xtcp_connect NETBIOS_PORT (255, 255, 255, 255) XTCP_PROTOCOL_UDP
                   (xtcp_bind_local conn MDNS_SERVER_PORT (xtcp_set_poll_interval conn 125 s)) else s);
            s = (if uint (xc_remote_port conn) = NETBIOS_PORT \<and> xc_event conn = XTCP_NEW_CONNECTION
                 then xtcp_bind_local conn NETBIOS_PORT (xtcp_set_poll_interval conn 125 s) else s)
        in if uint (xc_local_port conn) = MDNS_SERVER_PORT \<or> uint (xc_local_port conn) = NETBIOS_PORT
           then do {
             (result, s) \<leftarrow> (case xc_event conn of
                 XTCP_POLL \<Rightarrow> mdns_periodic conn t s
               | XTCP_RECV_DATA \<Rightarrow> if uint (xc_local_port conn) = MDNS_SERVER_PORT then mdns_recv conn bs s
                   else netbios_recv conn bs junk s
               | XTCP_REQUEST_DATA \<Rightarrow> map_option (Pair 0) (netbios_send t s)
               | XTCP_SENT_DATA \<Rightarrow> map_option (Pair 0) (netbios_send t s)
               | XTCP_RESEND_DATA \<Rightarrow> map_option (Pair 0) (netbios_send t s)
               | _ \<Rightarrow> Some (0, s));
             Some (result, conn\<lparr>xc_event := XTCP_ALREADY_HANDLED\<rparr>, s)
           }
           else Some (0, conn, s))"

section \<open>The encoding\<close>

text \<open>Two letters for each character, and the fill.\<close>

definition pairs :: "u8 list \<Rightarrow> u8 list" where
  "pairs xs = concat (map (\<lambda>c. [65 + (drop_bit 4 c AND 15), 65 + (c AND 15)]) xs)"

lemma pairs_simps [simp]: "pairs [] = []" "pairs (c # xs) = [65 + (drop_bit 4 c AND 15), 65 + (c AND 15)] @ pairs xs"
  by (simp_all add: pairs_def)

lemma pairs_append: "pairs (xs @ ys) = pairs xs @ pairs ys"
  by (simp add: pairs_def)

lemma length_pairs [simp]: "length (pairs xs) = 2 * length xs"
  by (induction xs) simp_all

lemma nibble: "x AND 15 = take_bit 4 (x :: u8)"
  by (simp add: take_bit_eq_mask mask_eq_exp_minus_1)

lemma nibble_less: "unat (x AND 15 :: u8) < 16"
  unfolding nibble unsigned_take_bit_eq by (simp add: take_bit_eq_mod)

lemma nibble_letter: "is_upper (65 + (x AND 15))" "65 + (x AND 15) \<noteq> 0" "65 + (x AND 15) \<noteq> DOT"
proof -
  have u: "unat (65 + (x AND 15) :: u8) = 65 + unat (x AND 15)" using nibble_less [of x] by (simp add: unat_word_ariths)
  show "is_upper (65 + (x AND 15))" unfolding is_upper_def word_le_nat_alt u using nibble_less [of x] by simp
  show "65 + (x AND 15) \<noteq> 0" "65 + (x AND 15) \<noteq> DOT" unfolding word_unat_eq_iff u by simp_all
qed

lemma pair_char: "push_bit 4 (drop_bit 4 c AND 15) OR (c AND 15) = (c :: u8)"
  unfolding nibble by (rule bit_word_eqI) (auto simp: bit_simps)

definition padded :: "u8 list \<Rightarrow> u8 list" where
  "padded xs = map (\<lambda>c. if c \<noteq> 0x20 then c else 0) xs"

lemma decode_step:
  assumes "m p = x" "m (p + 1) = y" and "is_upper x" "x \<noteq> 0" "x \<noteq> DOT" and "is_upper y" "y \<noteq> 0" "y \<noteq> DOT"
    and "push_bit 4 (x - 65) OR (y - 65) = c" and "index < NETBIOS_NAME_LEN"
  shows "decode_netbios_name m p dec index = decode_netbios_name m (p + 2) (dec[index := (if c \<noteq> 0x20 then c else 0)]) (index + 1)"
  unfolding decode_netbios_name.simps [of m p] assms(1,2) Let_def assms(9) using assms by simp

lemma decode_pairs:
  assumes "rds m p (2 * length xs + 1) = pairs xs @ [0]" and "length pre + length xs \<le> NETBIOS_NAME_LEN" and "length xs \<le> length junk"
  shows "decode_netbios_name m p (pre @ junk) (length pre) = Some (0, pre @ padded xs @ drop (length xs) junk)"
  using assms
proof (induction xs arbitrary: p pre junk)
  case Nil
  then have "m p = 0" by (simp add: rds_def)
  then show ?case by (simp add: decode_netbios_name.simps padded_def)
next
  case (Cons c xs)
  obtain j junk' where junk: "junk = j # junk'" using Cons.prems(3) by (cases junk) auto
  have "rds m p (2 + (2 * length xs + 1)) = [m p, m (p + 1)] @ rds m (p + 2) (2 * length xs + 1)"
    by (simp only: rds_split) (simp add: rds_def upt_rec)
  with Cons.prems(1) have r: "m p = 65 + (drop_bit 4 c AND 15)" "m (p + 1) = 65 + (c AND 15)" "rds m (p + 2) (2 * length xs + 1) = pairs xs @ [0]"
    by simp_all
  have step: "(pre @ junk)[length pre := d] = (pre @ [d]) @ junk'" for d by (simp add: junk)
  have "push_bit 4 (65 + (drop_bit 4 c AND 15) - 65) OR (65 + (c AND 15) - 65) = c"
    unfolding add_diff_cancel_left' by (rule pair_char)
  from decode_step [OF r(1,2) nibble_letter nibble_letter this, of "length pre" "pre @ junk"] Cons.prems(2)
  have "decode_netbios_name m p (pre @ junk) (length pre) =
      decode_netbios_name m (p + 2) ((pre @ [if c \<noteq> 0x20 then c else 0]) @ junk') (length (pre @ [if c \<noteq> 0x20 then c else 0]))"
    unfolding step by simp
  also have "\<dots> = Some (0, (pre @ [if c \<noteq> 0x20 then c else 0]) @ padded xs @ drop (length xs) junk')"
    by (rule Cons.IH [OF r(3)]) (use Cons.prems junk in simp_all)
  finally show ?case by (simp add: junk padded_def)
qed

definition legal_char :: "u8 \<Rightarrow> bool" where
  "legal_char c \<longleftrightarrow> is_upper c \<or> 48 \<le> c \<and> c \<le> 57"

lemma encode_chars_pairs:
  assumes "list_all legal_char cs" and "cs \<noteq> [] \<Longrightarrow> length enc + 2 * (length cs - 1) < len"
  shows "encode_chars cs len enc = Some (enc @ pairs cs)"
  using assms
proof (induction cs arbitrary: enc)
  case (Cons c cs)
  have "c \<noteq> DOT" "\<not> ((c < 65 \<or> 90 < c) \<and> (c < 48 \<or> 57 < c))" using Cons.prems(1) by (auto simp: legal_char_def is_upper_def)
  moreover have "encode_chars cs len (enc @ [65 + (drop_bit 4 c AND 15), 65 + (c AND 15)]) =
      Some ((enc @ [65 + (drop_bit 4 c AND 15), 65 + (c AND 15)]) @ pairs cs)"
    by (rule Cons.IH) (use Cons.prems in \<open>cases cs; auto\<close>)+
  ultimately show ?case using Cons.prems(2) by simp
qed simp

lemma fill_pairs: "concat (replicate k [67, 65]) = pairs (replicate k 0x20)"
  by (induction k) simp_all

lemma padded_fill:
  assumes "0x20 \<notin> set q"
  shows "padded (q @ replicate k 0x20) = q @ replicate k 0"
proof -
  have "map (\<lambda>c. if c \<noteq> 0x20 then c else 0) q = q" using assms by (intro map_idI) auto
  then show ?thesis by (simp add: padded_def)
qed

text \<open>What a query holds for a name of at most 16 characters.\<close>

definition filled_name :: "u8 list \<Rightarrow> u8 list" where
  "filled_name q = pairs (q @ replicate (NETBIOS_NAME_LEN - length q) 0x20) @ [0]"

lemma length_filled [simp]: "length q \<le> NETBIOS_NAME_LEN \<Longrightarrow> length (filled_name q) = ENCODED_NETBIOS_NAME_LEN"
  by (simp add: filled_name_def)

lemma decode_filled:
  assumes "0x20 \<notin> set q" and "length q \<le> NETBIOS_NAME_LEN" and "length junk = NETBIOS_NAME_LEN + 1"
    and "rds m p ENCODED_NETBIOS_NAME_LEN = filled_name q"
  shows "decode_netbios_name m p junk 0 = Some (0, q @ replicate (NETBIOS_NAME_LEN - length q) 0 @ drop NETBIOS_NAME_LEN junk)"
proof -
  define x where "x = q @ replicate (NETBIOS_NAME_LEN - length q) 0x20"
  have len: "length x = 16" using assms(2) by (simp add: x_def)
  have "rds m p (2 * length x + 1) = pairs x @ [0]" using assms(4) unfolding filled_name_def x_def [symmetric] len by simp
  from decode_pairs [OF this, of "[]" junk] have "decode_netbios_name m p junk 0 = Some (0, padded x @ drop 16 junk)"
    using len assms(3) by simp
  then show ?thesis by (simp add: x_def padded_fill [OF assms(1)])
qed

text \<open>Decoding inverts the encoding; a character too many is written past the end of an array of the size of the protocol.\<close>

lemma netbios_name_roundtrip:
  assumes "list_all legal_char nm" and "length nm \<le> NETBIOS_NAME_LEN" and "length junk = NETBIOS_NAME_LEN + 1"
  shows "\<exists>enc. encode_netbios_name nm ENCODED_NETBIOS_NAME_LEN = Some enc \<and> length enc = ENCODED_NETBIOS_NAME_LEN \<and>
    (\<forall>m p. rds m p ENCODED_NETBIOS_NAME_LEN = enc \<longrightarrow>
      decode_netbios_name m p junk 0 = Some (0, nm @ replicate (NETBIOS_NAME_LEN - length nm) 0 @ drop NETBIOS_NAME_LEN junk))"
proof -
  have "encode_chars nm 33 [] = Some ([] @ pairs nm)" by (rule encode_chars_pairs) (use assms in auto)
  moreover have "(33 - 1 - 2 * length nm + 1) div 2 = NETBIOS_NAME_LEN - length nm" using assms(2) by simp
  ultimately have enc: "encode_netbios_name nm 33 = Some (filled_name nm)"
    by (simp add: encode_netbios_name_def fill_pairs pairs_append filled_name_def)
  have "0x20 \<notin> set nm" using assms(1) by (auto simp: list_all_iff legal_char_def is_upper_def)
  with enc show ?thesis using assms by (intro exI [of _ "filled_name nm"]) (simp add: decode_filled)
qed

lemma encode_overflows: "map_option length (encode_netbios_name (replicate 17 65) ENCODED_NETBIOS_NAME_LEN) = Some (ENCODED_NETBIOS_NAME_LEN + 2)"
  by code_simp

text \<open>A letter past \<^verbatim>\<open>P\<close> is no nibble, but is taken: two encodings of one name.\<close>

lemma decode_not_injective:
  "decode_netbios_name ((\<lambda>_. 0)(0 := 67, 1 := 81)) 0 [7] 0 = decode_netbios_name ((\<lambda>_. 0)(0 := 68, 1 := 65)) 0 [7] 0"
  by (simp add: decode_netbios_name.simps is_upper_def)

section \<open>Looking up a name\<close>

definition lower_char :: "u8 \<Rightarrow> u8" where
  "lower_char c = (if is_upper c then c + 0x20 else c)"

lemma lower_string: "0 \<notin> set xs \<Longrightarrow> convert_to_lower_case (xs @ 0 # ys) = map lower_char xs @ 0 # ys"
  by (induction xs) (auto simp: lower_char_def)

lemma strcmp_string: "0 \<notin> set xs \<Longrightarrow> 0 \<notin> set nm \<Longrightarrow> strcmp_eq (xs @ 0 # ys) nm = Some (xs = nm)"
proof (induction xs arbitrary: nm)
  case Nil
  then show ?case by (cases nm) auto
next
  case (Cons x xs)
  then show ?case by (cases nm) auto
qed

lemma lookup_first:
  assumes "0 \<notin> set xs" and "\<forall>e \<in> set es. 0 \<notin> set (me_name e)"
  shows "netbios_lookup (xs @ 0 # ys) k es = Some (map_option (\<lambda>i. k + i) (first_idx (\<lambda>e. me_state e = ACTIVE \<and> me_name e = xs) es))"
  using assms(2)
proof (induction es arbitrary: k)
  case (Cons e es)
  have shift: "(+) k \<circ> Suc = (+) (Suc k)" by auto
  show ?case using Cons strcmp_string [OF assms(1), of "me_name e" ys]
    by (auto simp: option.map_comp shift)
qed simp

lemma lower_char_nonzero: "c \<noteq> 0 \<Longrightarrow> lower_char c \<noteq> 0"
proof -
  have "c + 0x20 \<noteq> 0" if "is_upper c"
  proof -
    have "unat (c + 0x20) = unat c + 32" using that by (simp add: is_upper_def word_le_nat_alt unat_word_ariths)
    then show ?thesis by (auto simp: word_unat_eq_iff)
  qed
  then show "c \<noteq> 0 \<Longrightarrow> lower_char c \<noteq> 0" by (simp add: lower_char_def)
qed

lemma lower_nonzero: "0 \<notin> set xs \<Longrightarrow> 0 \<notin> set (map lower_char xs)"
  using lower_char_nonzero by (induction xs) auto

section \<open>A query is answered\<close>

definition netbios_query :: "nb_fields \<Rightarrow> u16 \<Rightarrow> u8 list" where
  "netbios_query f flags = raw16 (nb_trans_id f) @ be16 flags @ be16 1 @ be16 0 @ be16 0 @ be16 0 @
     [nb_nametype f] @ nb_enc_name f @ raw16 (nb_type f) @ raw16 (nb_class f)"

lemma rd16_bytes: "rds m p 2 = raw16 v \<Longrightarrow> rd16 m p = v"
  by (simp add: rd16_def raw16_def rds_Suc numeral_2_eq_2)

lemma query_layout:
  assumes "m = wrs 0 (netbios_query f flags) m0" and "length (nb_enc_name f) = ENCODED_NETBIOS_NAME_LEN"
  shows "rd_be16 m 2 = flags" "rd_be16 m 4 = 1"
    "\<lparr>nb_trans_id = rd16 m 0, nb_nametype = m 12, nb_type = rd16 m 46, nb_class = rd16 m 48,
      nb_enc_name = rds m 13 ENCODED_NETBIOS_NAME_LEN\<rparr> = f"
    "rds m 13 ENCODED_NETBIOS_NAME_LEN = nb_enc_name f"
proof -
  have two: "length (be16 v) = 2" "length (raw16 v) = 2" for v by (simp_all add: be16_def raw16_def)
  have "rds m 0 (length (netbios_query f flags)) = netbios_query f flags" unfolding assms(1) by (rule rds_wrs)
  then have "rds m 0 2 = raw16 (nb_trans_id f) \<and> rds m 2 2 = be16 flags \<and> rds m 4 2 = be16 1 \<and> rds m 12 1 = [nb_nametype f] \<and>
      rds m 13 33 = nb_enc_name f \<and> rds m 46 2 = raw16 (nb_type f) \<and> rds m 48 2 = raw16 (nb_class f)"
    unfolding netbios_query_def rds_append_iff two assms(2) by (simp add: eval_nat_numeral)
  note parts = this
  show "rd_be16 m 2 = flags" "rd_be16 m 4 = 1" using parts by (auto intro: rd_be16_bytes)
  show "rds m 13 ENCODED_NETBIOS_NAME_LEN = nb_enc_name f" using parts by simp
  have "rd16 m 0 = nb_trans_id f" "rd16 m 46 = nb_type f" "rd16 m 48 = nb_class f" using parts by (auto intro: rd16_bytes)
  moreover have "m 12 = nb_nametype f" using parts by (simp add: rds_Suc)
  ultimately show "\<lparr>nb_trans_id = rd16 m 0, nb_nametype = m 12, nb_type = rd16 m 46, nb_class = rd16 m 48,
      nb_enc_name = rds m 13 ENCODED_NETBIOS_NAME_LEN\<rparr> = f" using parts by simp
qed

lemma netbios_decoded:
  assumes "0x20 \<notin> set q" "0 \<notin> set q" "length q < NETBIOS_NAME_LEN" "length junk = NETBIOS_NAME_LEN + 1"
    and "rds m p ENCODED_NETBIOS_NAME_LEN = filled_name q"
  shows "\<exists>dec ys. decode_netbios_name m p junk 0 = Some (0, dec) \<and> convert_to_lower_case dec = map lower_char q @ 0 # ys"
proof -
  obtain k where k: "NETBIOS_NAME_LEN - length q = Suc k" using assms(3) by (metis Suc_diff_Suc)
  have "decode_netbios_name m p junk 0 = Some (0, q @ 0 # replicate k 0 @ drop NETBIOS_NAME_LEN junk)"
    using decode_filled [OF assms(1) _ assms(4,5)] assms(3) unfolding k by simp
  then show ?thesis using lower_string [OF assms(2)] by blast
qed

lemma send_netbios_first:
  assumes "k \<le> i" "i < k + n" and "me_pending (mdns_table s ! i) AND PENDING_NETBIOS_RESPONSE \<noteq> 0"
    and "\<And>j. j < i \<Longrightarrow> me_pending (mdns_table s ! j) = 0"
  shows "mdns_send_netbios_responses k n s =
    (True, upd_entry i (\<lambda>e. e\<lparr>me_pending := me_pending e XOR PENDING_NETBIOS_RESPONSE\<rparr>)
      (put_tok (TokData (mdns_send_netbios_response (nb_table s ! i) (mdns_table s ! i))) s))"
  using assms(1,2)
proof (induction n arbitrary: k)
  case (Suc n)
  show ?case
  proof (cases "k = i")
    case True
    then show ?thesis using assms(3) by (simp add: Let_def)
  next
    case False
    with Suc assms(4) [of k] show ?thesis by (simp add: Let_def)
  qed
qed simp

lemma respond_netbios:
  assumes "me_pending (mdns_table s ! j) = 0 \<or> me_pending (mdns_table s ! j) = PENDING_NETBIOS_RESPONSE"
    and "me_state (mdns_table s ! j) \<noteq> ANNOUNCE_WAIT"
  shows "respond_entry t j (b, k, s) = Some (b, k, s)"
proof -
  have "me_pending (mdns_table s ! j) AND PENDING_HOST_RESPONSE = 0" "me_pending (mdns_table s ! j) AND PENDING_PTR_RESPONSE = 0"
    "me_pending (mdns_table s ! j) AND PENDING_SRV_RESPONSE = 0" "me_pending (mdns_table s ! j) AND PENDING_TXT_RESPONSE = 0"
    using assms(1) by (elim disjE; simp)+
  with assms(2) show ?thesis by (simp add: respond_entry_def Let_def announce_entry_def answer_pending_def)
qed

lemma no_responses:
  assumes "\<And>j. j < length (mdns_table s) \<Longrightarrow> me_pending (mdns_table s ! j) \<in> {0, PENDING_NETBIOS_RESPONSE} \<and>
      me_state (mdns_table s ! j) \<noteq> ANNOUNCE_WAIT"
  shows "mdns_send_responses t s = Some (False, s)"
proof -
  have "for_entries (respond_entry t) 0 (length (mdns_table s)) ([], 0, s) = Some ([], 0, s)"
    by (rule for_entries_skip) (rule respond_netbios, use assms in auto)
  then show ?thesis by (simp add: mdns_send_responses_def send_message_def header_bytes)
qed

lemma query_answered:
  fixes s :: "'a netbios_st_scheme"
  assumes "i < length (mdns_table s)" and "me_state (mdns_table s ! i) = ACTIVE" and "me_name (mdns_table s ! i) = map lower_char q"
    and "0x20 \<notin> set q" and "0 \<notin> set q" and "length q < NETBIOS_NAME_LEN"
    and "\<forall>e\<in>set (mdns_table s). silent e \<and> 0 \<notin> set (me_name e)"
    and "\<forall>j<i. me_state (mdns_table s ! j) = ACTIVE \<longrightarrow> me_name (mdns_table s ! j) \<noteq> map lower_char q"
    and "nb_enc_name f = filled_name q" and "flags AND 0x7800 = 0" and "flags AND 0x8000 = 0"
    and "length (nb_table s) = length (mdns_table s)" and "length junk = NETBIOS_NAME_LEN + 1"
    and "uint (xc_local_port conn) = NETBIOS_PORT"
  shows "\<exists>s1 s2. netbios_handle_event (conn\<lparr>xc_event := XTCP_RECV_DATA\<rparr>) (netbios_query f flags) junk t s =
      Some (0, conn\<lparr>xc_event := XTCP_ALREADY_HANDLED\<rparr>, s1) \<and>
    netbios_handle_event (conn\<lparr>xc_event := XTCP_REQUEST_DATA\<rparr>) bs junk' t' s1 = Some (0, conn\<lparr>xc_event := XTCP_ALREADY_HANDLED\<rparr>, s2) \<and>
    ctoks s2 = ctoks s @ [TokReady True, TokCmd CMD_INIT_SEND (xc_id conn), TokData (mdns_send_netbios_response f (mdns_table s ! i))] \<and>
    mdns_table s2 = mdns_table s"
proof -
  let ?e = "mdns_table s ! i" and ?c = "conn\<lparr>xc_event := XTCP_RECV_DATA\<rparr>"
  define msg where "msg = netbios_query f flags"
  define r where "r = snd (xtcp_recv msg 0 s)"
  define s1 where "s1 = xtcp_init_send ?c ((upd_entry i (\<lambda>e. e\<lparr>me_pending := me_pending e OR PENDING_NETBIOS_RESPONSE\<rparr>) r)
      \<lparr>nb_table := (nb_table r)[i := f]\<rparr>)"
  define s2 where "s2 = upd_entry i (\<lambda>e. e\<lparr>me_pending := me_pending e XOR PENDING_NETBIOS_RESPONSE\<rparr>)
      (put_tok (TokData (mdns_send_netbios_response f (mdns_table s1 ! i))) s1)"
  have r: "cmem r = wrs 0 msg (cmem s)" "mdns_table r = mdns_table s" "nb_table r = nb_table s" "ctoks r = ctoks s @ [TokReady True]"
    by (simp_all add: r_def client_simps take_msgs_def put_tok_def)
  have recv: "xtcp_recv msg 0 s = (int (length msg), r)" by (simp add: r_def client_simps)
  have name: "length (nb_enc_name f) = ENCODED_NETBIOS_NAME_LEN" using assms(6,9) by simp
  note lay = query_layout [OF r(1) [unfolded msg_def] name]
  obtain dec ys where dec: "decode_netbios_name (cmem r) 13 junk 0 = Some (0, dec)" "convert_to_lower_case dec = map lower_char q @ 0 # ys"
    using netbios_decoded [OF assms(4-6,13) lay(4) [unfolded assms(9)]] by blast
  have "0 \<notin> set (map lower_char q)" by (rule lower_nonzero [OF assms(5)])
  from lookup_first [OF this, of "mdns_table s" ys 0] assms(1-3,7,8)
  have look: "netbios_lookup (convert_to_lower_case dec) 0 (mdns_table r) = Some (Some i)"
    unfolding dec(2) r(2) by (simp add: first_idx_Some)
  have "netbios_recv ?c msg junk s = Some (0, s1)"
    unfolding netbios_recv_def recv Let_def prod.case lay(1-3) dec(1) using assms(10,11) look by (simp add: s1_def)
  then have one: "netbios_handle_event ?c msg junk t s = Some (0, conn\<lparr>xc_event := XTCP_ALREADY_HANDLED\<rparr>, s1)"
    using assms(14) by (simp add: netbios_handle_event_def)
  have silent: "silent (mdns_table s ! j)" if "j < length (mdns_table s)" for j using that assms(7) by auto
  have tab: "mdns_table s1 = (mdns_table s)[i := ?e\<lparr>me_pending := PENDING_NETBIOS_RESPONSE\<rparr>]"
    using silent [OF assms(1)] by (simp add: s1_def xtcp_init_send_def send_cmd_def put_tok_def upd_entry_def r(2) silent_def)
  have quiet: "me_pending (mdns_table s1 ! j) \<in> {0, PENDING_NETBIOS_RESPONSE} \<and>
      me_state (mdns_table s1 ! j) \<notin> {ANNOUNCE_WAIT, PROBE_WAIT, PROBE_PARTIAL_SENT}" if "j < length (mdns_table s1)" for j
    using that silent [of j] assms(2) by (cases "j = i") (auto simp: tab silent_def)
  have "mdns_send_probes t' s1 = Some (False, s1)" "mdns_send_responses t' s1 = Some (False, s1)"
    by (rule no_probes no_responses, use quiet in simp)+
  moreover have "nb_table s1 ! i = f"
    using assms(1,12) by (simp add: s1_def xtcp_init_send_def send_cmd_def put_tok_def upd_entry_def r(3))
  then have "mdns_send_netbios_responses 0 (length (mdns_table s1)) s1 = (True, s2)"
    using send_netbios_first [of 0 i "length (mdns_table s1)" s1] assms(1) silent by (simp add: s2_def tab silent_def)
  ultimately have "netbios_handle_event (conn\<lparr>xc_event := XTCP_REQUEST_DATA\<rparr>) bs junk' t' s1 =
      Some (0, conn\<lparr>xc_event := XTCP_ALREADY_HANDLED\<rparr>, s2)"
    using assms(14) by (simp add: netbios_handle_event_def netbios_send_def)
  moreover have "mdns_table s2 = mdns_table s"
  proof -
    have "?e\<lparr>me_pending := 0\<rparr> = ?e" using silent [OF assms(1)] by (cases ?e) (simp add: silent_def)
    then show ?thesis using assms(1) by (simp add: s2_def upd_entry_def put_tok_def tab)
  qed
  moreover have "ctoks s2 = ctoks s @ [TokReady True, TokCmd CMD_INIT_SEND (xc_id conn), TokData (mdns_send_netbios_response f ?e)]"
    using assms(1) by (simp add: s2_def s1_def upd_entry_def put_tok_def xtcp_init_send_def send_cmd_def r mdns_send_netbios_response_def)
  ultimately show ?thesis using one unfolding msg_def by blast
qed

text \<open>A query that is not answered: the name is that of no active entry.\<close>

lemma query_unmatched:
  fixes s :: "'a netbios_st_scheme"
  assumes "0x20 \<notin> set q" and "0 \<notin> set q" and "length q < NETBIOS_NAME_LEN" and "\<forall>e\<in>set (mdns_table s). 0 \<notin> set (me_name e)"
    and "\<forall>e\<in>set (mdns_table s). me_state e = ACTIVE \<longrightarrow> me_name e \<noteq> map lower_char q"
    and "nb_enc_name f = filled_name q" and "flags AND 0x7800 = 0" and "flags AND 0x8000 = 0" and "length junk = NETBIOS_NAME_LEN + 1"
    and "uint (xc_local_port conn) = NETBIOS_PORT"
  shows "netbios_handle_event (conn\<lparr>xc_event := XTCP_RECV_DATA\<rparr>) (netbios_query f flags) junk t s =
    Some (0, conn\<lparr>xc_event := XTCP_ALREADY_HANDLED\<rparr>, snd (xtcp_recv (netbios_query f flags) 0 s))"
proof -
  define msg where "msg = netbios_query f flags"
  define r where "r = snd (xtcp_recv msg 0 s)"
  have r: "cmem r = wrs 0 msg (cmem s)" "mdns_table r = mdns_table s" by (simp_all add: r_def client_simps take_msgs_def put_tok_def)
  have recv: "xtcp_recv msg 0 s = (int (length msg), r)" by (simp add: r_def client_simps)
  have name: "length (nb_enc_name f) = ENCODED_NETBIOS_NAME_LEN" using assms(3,6) by simp
  note lay = query_layout [OF r(1) [unfolded msg_def] name]
  obtain dec ys where dec: "decode_netbios_name (cmem r) 13 junk 0 = Some (0, dec)" "convert_to_lower_case dec = map lower_char q @ 0 # ys"
    using netbios_decoded [OF assms(1-3,9) lay(4) [unfolded assms(6)]] by blast
  have "0 \<notin> set (map lower_char q)" by (rule lower_nonzero [OF assms(2)])
  from lookup_first [OF this assms(4), of ys 0] assms(5)
  have look: "netbios_lookup (convert_to_lower_case dec) 0 (mdns_table r) = Some None"
    unfolding dec(2) r(2) by (simp add: first_idx_None [THEN iffD2])
  have "netbios_recv (conn\<lparr>xc_event := XTCP_RECV_DATA\<rparr>) msg junk s = Some (0, r)"
    unfolding netbios_recv_def recv Let_def prod.case lay(1-3) dec(1) using assms(7,8) look by simp
  then show ?thesis using assms(10) by (simp add: netbios_handle_event_def msg_def r_def)
qed

text \<open>C22. Which NetBIOS name queries are answered: one for a name of fewer than 16 characters, none of them a blank, arrives on port
  137; no entry of the table has anything to send. The name is converted to lower case, and the names of the entries are not.
  If it is then, domain included, the name of an active entry, the server asks to send, and at the next
  request for data it sends one response with the identifier, name and kind of that query and the address of the first such
  entry; the table is as before. Otherwise, so for a plain host name or one that was registered with capitals, nothing is sent
  and the table is as it was. \<open>junk\<close> is what the uninitialised array for the name holds.\<close>

theorem netbios_query_answered:
  fixes s :: "'a netbios_st_scheme"
  assumes "0x20 \<notin> set q" and "0 \<notin> set q" and "length q < NETBIOS_NAME_LEN"
    and "\<forall>e\<in>set (mdns_table s). silent e \<and> 0 \<notin> set (me_name e)"
    and "nb_enc_name f = filled_name q" and "flags AND 0x7800 = 0" and "flags AND 0x8000 = 0"
    and "length (nb_table s) = length (mdns_table s)" and "length junk = NETBIOS_NAME_LEN + 1"
    and "uint (xc_local_port conn) = NETBIOS_PORT"
  shows "\<exists>s1. netbios_handle_event (conn\<lparr>xc_event := XTCP_RECV_DATA\<rparr>) (netbios_query f flags) junk t s =
      Some (0, conn\<lparr>xc_event := XTCP_ALREADY_HANDLED\<rparr>, s1) \<and>
    (case first_idx (\<lambda>e. me_state e = ACTIVE \<and> me_name e = map lower_char q) (mdns_table s) of
       None \<Rightarrow> ctoks s1 = ctoks s @ [TokReady True] \<and> mdns_table s1 = mdns_table s
     | Some i \<Rightarrow> \<exists>s2. netbios_handle_event (conn\<lparr>xc_event := XTCP_REQUEST_DATA\<rparr>) bs junk' t' s1 =
           Some (0, conn\<lparr>xc_event := XTCP_ALREADY_HANDLED\<rparr>, s2) \<and>
         ctoks s2 = ctoks s @ [TokReady True, TokCmd CMD_INIT_SEND (xc_id conn),
           TokData (mdns_send_netbios_response f (mdns_table s ! i))] \<and>
         mdns_table s2 = mdns_table s)"
proof (cases "first_idx (\<lambda>e. me_state e = ACTIVE \<and> me_name e = map lower_char q) (mdns_table s)")
  case None
  let ?r = "snd (xtcp_recv (netbios_query f flags) 0 s)"
  have "\<forall>e\<in>set (mdns_table s). me_state e = ACTIVE \<longrightarrow> me_name e \<noteq> map lower_char q" using None by (auto simp: first_idx_None)
  note run = query_unmatched [OF assms(1-3) _ this assms(5-7,9,10), of t]
  have "ctoks ?r = ctoks s @ [TokReady True]" "mdns_table ?r = mdns_table s" by (simp_all add: client_simps take_msgs_def put_tok_def)
  with None run assms(4) show ?thesis by (intro exI [of _ ?r]) simp
next
  case (Some i)
  then have i: "i < length (mdns_table s)" "me_state (mdns_table s ! i) = ACTIVE" "me_name (mdns_table s ! i) = map lower_char q"
    "\<forall>j<i. me_state (mdns_table s ! j) = ACTIVE \<longrightarrow> me_name (mdns_table s ! j) \<noteq> map lower_char q"
    by (auto simp: first_idx_Some)
  from query_answered [OF i(1-3) assms(1-4) i(4) assms(5-10), of t bs junk' t'] show ?thesis unfolding Some option.case by metis
qed

text \<open>
  The names of the table hold the dot before the domain, so a plain NetBIOS name, which has none, matches no entry that
  \<^verbatim>\<open>update_name\<close> has named.
\<close>

lemma update_name_dot: "update_name e = Some e' \<Longrightarrow> DOT \<in> set (me_name e')"
  unfolding update_name_def c_string_def by (auto split: if_splits)

lemma netbios_plain_name_unmatched:
  assumes "DOT \<notin> set q" and "0 \<notin> set q" and "\<forall>e \<in> set es. DOT \<in> set (me_name e) \<and> 0 \<notin> set (me_name e)"
  shows "netbios_lookup (q @ 0 # ys) k es = Some None"
proof -
  have "first_idx (\<lambda>e. me_state e = ACTIVE \<and> me_name e = q) es = None" using assms by (auto simp: first_idx_None)
  then show ?thesis using lookup_first [OF assms(2), of es ys k] assms(3) by simp
qed

section \<open>A sample query\<close>

definition sample_nb :: nb_fields where
  "sample_nb = \<lparr>nb_trans_id = 7, nb_nametype = 0x20, nb_type = 0x2000, nb_class = 0x100, nb_enc_name = filled_name (map of_char ''FOO.local'')\<rparr>"

definition sample_netbios :: netbios_st where
  "sample_netbios = mdns_st.extend (sample_mdns\<lparr>mdns_table := [sample_host]\<rparr>) \<lparr>nb_table = [sample_nb]\<rparr>"

definition sample_nb_conn :: xtcp_connection where
  "sample_nb_conn = (sample_mdns_conn XTCP_POLL)\<lparr>xc_remote_port := 137, xc_local_port := 137\<rparr>"

lemma netbios_query_answered_witness:
  "\<exists>s1 s2. netbios_handle_event (sample_nb_conn\<lparr>xc_event := XTCP_RECV_DATA\<rparr>) (netbios_query sample_nb 0x0110) (replicate 17 1) 0 sample_netbios =
      Some (0, sample_nb_conn\<lparr>xc_event := XTCP_ALREADY_HANDLED\<rparr>, s1) \<and>
    netbios_handle_event (sample_nb_conn\<lparr>xc_event := XTCP_REQUEST_DATA\<rparr>) [] [] 1 s1 =
      Some (0, sample_nb_conn\<lparr>xc_event := XTCP_ALREADY_HANDLED\<rparr>, s2) \<and>
    ctoks s2 = [TokReady True, TokCmd CMD_INIT_SEND 1, TokData (mdns_send_netbios_response sample_nb sample_host)]"
proof -
  have st: "mdns_table sample_netbios = [sample_host]" "nb_table sample_netbios = [sample_nb]" "ctoks sample_netbios = []"
    by (simp_all add: sample_netbios_def mdns_st.defs sample_mdns_def)
  have host: "me_state sample_host = ACTIVE" "silent sample_host" "0 \<notin> set (me_name sample_host)"
    by (simp_all add: sample_host_def silent_def)
  have name: "me_name sample_host = map lower_char (map of_char ''FOO.local'')"
    by (simp add: sample_host_def lower_char_def is_upper_def)
  have q: "0x20 \<notin> set (map of_char ''FOO.local'' :: u8 list)" "0 \<notin> set (map of_char ''FOO.local'' :: u8 list)"
    "length (map of_char ''FOO.local'' :: u8 list) < NETBIOS_NAME_LEN"
    by simp_all
  have conn: "uint (xc_local_port sample_nb_conn) = NETBIOS_PORT" "xc_id sample_nb_conn = 1"
    by (simp_all add: sample_nb_conn_def sample_mdns_conn_def)
  have fl: "(0x0110 :: u16) AND 0x7800 = 0" "(0x0110 :: u16) AND 0x8000 = 0" by simp_all
  have enc: "nb_enc_name sample_nb = filled_name (map of_char ''FOO.local'')" by (simp add: sample_nb_def)
  show ?thesis
    using netbios_query_answered [where s = sample_netbios and q = "map of_char ''FOO.local''" and f = sample_nb and flags = "0x0110"
        and junk = "replicate 17 1" and conn = sample_nb_conn and t = 0 and bs = "[]" and junk' = "[]" and t' = 1]
      host q conn fl enc unfolding st by (auto simp: name)
qed

end
