(* ===== verification/Spec2Isabelle.thy ===== *)
theory Spec2Isabelle
  imports Uip_Clock Uip_Separate Xtcp_Stream Xtcp_Closing Xtcp_Transmit Tftp Mdns Netbios
begin

text \<open>
  A verification of the XMOS TCP/IP stack (\<^verbatim>\<open>module_xtcp\<close>) in its default configuration, IPv4 over the
  single-threaded MAC (and over a separate one), and of the two protocol modules that come with it, TFTP and multicast DNS.

  \<^bold>\<open>The program.\<close> One thread runs the main loop (\<^verbatim>\<open>theServer\<close> in \<^verbatim>\<open>uip_single_server.xc\<close>). A turn serves the
  commands of the clients, polls the connections that asked for it, reports changes of the interface and sends
  delayed UDP acknowledgements; then it takes one event, a packet from the MAC or the timer. A packet goes through
  ARP or through \<^verbatim>\<open>uip_process\<close>, the TCP/IP code derived from uIP, which keeps its state in global variables and
  one packet buffer. For everything a connection has to be told the stack calls back \<^verbatim>\<open>xtcpd_appcall\<close>, which hands the
  packets of port 68 to the DHCP client and turns everything else into events on the channels of the clients.
  Clients answer over the same channels: with commands, or with data when they are asked for it. What the stack
  leaves in the buffer is sent through ARP, in two segments when it is a large TCP segment, so that the receiver
  acknowledges without delay.

  \<^bold>\<open>The theories.\<close>

  \<^item> \<^theory_text>\<open>Prelude\<close>: machine integers, byte memories, the loop shapes shared by the table-handling code.
  \<^item> \<^theory_text>\<open>Uip_Words\<close>: \<^verbatim>\<open>uip_add32\<close>, the word helpers and \<^verbatim>\<open>chksum\<close> of \<^verbatim>\<open>uip.c\<close>, and the equality of the latter with the
    sum RFC 1071 defines.
  \<^item> \<^theory_text>\<open>Uip_State\<close>: the globals of \<^verbatim>\<open>uip.c\<close>, the connections with the state of the xtcp layer in them, \<^verbatim>\<open>timer.c\<close>;
    \<^theory_text>\<open>Uip_Clock\<close>: \<^verbatim>\<open>clock-arch.xc\<close>, and the accuracy of the timers.
  \<^item> \<^theory_text>\<open>Uip_Tables\<close>: opening, listening, the search for ports and slots.
  \<^item> \<^theory_text>\<open>Uip_Process\<close>: \<^verbatim>\<open>uip_process\<close>. Its labels are functions: every \<^verbatim>\<open>goto\<close> of the source is a call. The lemmas are in
    \<^theory_text>\<open>Uip_Packets\<close> (headers, UDP, ICMP), \<^theory_text>\<open>Uip_Tcp\<close> (the state diagram, with the callback as the locale
    \<open>tcp_app\<close>) and \<^theory_text>\<open>Uip_Segments\<close> (each branch of the TCP code, retransmission, options).
  \<^item> \<^theory_text>\<open>Uip_Split\<close>: \<^verbatim>\<open>uip-split.c\<close>; \<^theory_text>\<open>Uip_Arp\<close>: \<^verbatim>\<open>uip_arp.c\<close>, with the table as an instance of the locale
    \<open>address_cache\<close>; \<^theory_text>\<open>Autoip\<close>, \<^theory_text>\<open>Igmp\<close>, \<^theory_text>\<open>Dhcpc\<close>: the files of these names.
  \<^item> \<^theory_text>\<open>Xtcp\<close>: \<^verbatim>\<open>xtcp_server.xc\<close> and \<^verbatim>\<open>uip_xtcp.c\<close>, the channel protocol, the commands and the callback.
    \<^theory_text>\<open>Xtcp_App\<close> shows what they leave alone, in the locales \<open>client_rel\<close> and \<open>callback_rel\<close> that are instantiated
    once for each relation, and that the callback is a \<open>tcp_app\<close>; \<^theory_text>\<open>Xtcp_Ids\<close> treats identifiers and ports.
  \<^item> \<^theory_text>\<open>Uip_Server\<close>: \<^verbatim>\<open>uip_server_support.c\<close> and the main loop; \<^theory_text>\<open>Uip_Moves\<close>: the TCP state diagram for whole turns
    and runs of the main loop; \<^theory_text>\<open>Uip_Separate\<close>: the main loop of \<^verbatim>\<open>uip_server.c\<close> and its device \<^verbatim>\<open>xcoredev.xc\<close>;
    \<^theory_text>\<open>Xtcp_Delivery\<close>: a segment on its way from the wire to the client; \<^theory_text>\<open>Xtcp_Stream\<close>:
    runs of segments, and the byte stream the client gets; \<^theory_text>\<open>Xtcp_Closing\<close>:
    how connections are opened, reset and closed, from the segment to the event the client gets; \<^theory_text>\<open>Xtcp_Asking\<close>:
    when the callback asks a client for data, and what it does with the answer.
  \<^item> \<^theory_text>\<open>Xtcp_Client\<close>: the client side of the channel, \<^verbatim>\<open>xtcp_client.xc\<close>, with the same tokens and messages;
    \<^theory_text>\<open>Buffered_Client\<close>: \<^verbatim>\<open>xtcp_buffered_client.c\<close> on top of it, with one locale for its two ways to cut records;
    \<^theory_text>\<open>Blocking_Client\<close>: \<^verbatim>\<open>xtcp_blocking_client.xc\<close>.
  \<^item> \<^theory_text>\<open>Xtcp_Transmit\<close>: runs of segments, timer ticks and polls, the byte stream that leaves on the wire, and the blocking
    write from the buffer of the client to the acknowledgement of the peer.
  \<^item> \<^theory_text>\<open>Tftp\<close>: \<^verbatim>\<open>tftp.xc\<close> and \<^verbatim>\<open>tftp_support.c\<close>; \<^theory_text>\<open>Mdns_Names\<close> and \<^theory_text>\<open>Mdns\<close>: \<^verbatim>\<open>mdns.c\<close>. Both are clients of the API.
  \<^item> \<^theory_text>\<open>Netbios\<close>: what \<^verbatim>\<open>MDNS_NETBIOS\<close> adds to \<^verbatim>\<open>mdns.c\<close>, NetBIOS name queries and responses.

  \<^bold>\<open>State.\<close> A global variable is a field of a record of the same name, and the records of the layers extend each
  other: \<open>uip_st\<close>, then ARP, link-local addresses, IGMP, DHCP, xtcp, server. Integers have the width of the C type
  as words, or are \<open>int\<close> for the 32-bit counters that stay far from their limits. The packet buffer is a memory from
  addresses to bytes; structures in it are read and written at the offsets of the C declarations, in the byte
  order of the processor, which is little-endian. Pointers to connections are an index and the table.

  \<^bold>\<open>Waiting and looping.\<close> What the clients send is the field \<open>polls\<close>, for each look at a channel the time and the token
  found there, if any; what passes over the channels is recorded in \<open>xlog\<close>. The results of the C library function
  \<^verbatim>\<open>rand\<close> are the field \<open>rands\<close>. A loop of the source that may run forever, waiting for a client or
  for the end of a search, is a \<^theory_text>\<open>partial_function\<close> into an option type: \<open>None\<close> means that it does not
  return. There is no fuel. That such a loop does return is a theorem of its own where the program needs it
  (\<open>connect_opens\<close>, \<open>init_state_fresh\<close>, \<open>answering_client_served\<close>); that it may not is one too (\<open>syn_options_hang\<close>,
  \<open>mdns_pointer_loop_hangs\<close>). In the clients \<open>None\<close> also stands for an access outside an array or
  through a null pointer, so that a result \<open>Some\<close> includes that none happens.

  \<^bold>\<open>What is shown.\<close> From the stack: data is accepted once and in order, so that the client gets the byte stream of
  the peer, and the peer gets the byte stream of the client, retransmissions included, if the client repeats its answers as the API asks;
  acknowledgements count only when they cover
  all outstanding data, new data is cut to the segment size the peer allows, checksums are those of RFC 1071, a
  connection that gets no answer is given up after a known number of ticks, and the server changes connections only by calls of the stack and by serving the
  clients, each of which moves a connection along at most one transition of the TCP state diagram. From the layers above: an accepted segment
  without TCP options reaches the right client with its bytes, once, and does so if only that client answers; the opening, the reset and both ways of closing a
  connection are answered on the wire and told to its client, and no connection lingers for more than 120 ticks
  after its close; identifiers are unique and the
  listening ports are those registered, as long as no port is registered twice and none is 0. From the protocols: ARP never
  answers with a stale address, unless one half of the IP address is zero; DHCP and
  link-local configuration take an address only after the exchange the RFCs ask for, a joined group is reported,
  the buffered API is a pair of byte streams, the blocking calls read and write streams too, and a blocking write that succeeds has been acknowledged by the peer; TFTP passes on blocks in order and completes a first transfer, mDNS
  announces only after probing, counted in messages sent, and answers questions, NetBIOS queries
  only for names that are stored in lower case with their domain. Where the code does otherwise than it means to, a theorem
  states what it does instead.

  \<^bold>\<open>Not modelled.\<close> The IPv6 configuration (\<^verbatim>\<open>xtcp_uip6\<close>, a copy of the Contiki stack), the experimental second
  stack (\<^verbatim>\<open>experimental\<close>), demos and tests; code that the default configuration compiles out (reassembly of
  fragments, urgent data, partial acknowledgements, \<^verbatim>\<open>uip_arp_ipin\<close>); the drivers, whose packets,
  link states and times are inputs here. Concurrency is that of the channels: the server is one thread, and the order in which clients
  get their turn is part of the script \<open>polls\<close>, over which the theorems quantify. The Ethernet and module libraries
  that are not in the repository are parameters where the code relies on their results.
\<close>

end
